(* ===== verification/Prelude.thy ===== *)
theory Prelude
  imports Main "HOL-Library.Word"
begin

section \<open>Prelude: results, failures and machine integers\<close>

text \<open>
  What every component of the development shares: the result type of an operation that
  can fail (\<open>'a res\<close>), the result type of one that may also never return
  (\<open>'a comp\<close>), the sequencing of both, the iteration \<open>for (auto x : xs)\<close> over
  an effectful body, and the C++ integer conversions the program relies on.

  A failure is a way in which the C++ program stops making sense: a null pointer is
  dereferenced, a container is indexed outside its storage, an exception leaves the
  function. \<open>None\<close> in a \<open>'a comp\<close> says that the call never returns.
\<close>

named_theorems flow "equations and inversions of the sequencing operators"
named_theorems c_int "facts about the C++ integer conversions"

datatype failure =
    NullDeref string
  | OutOfBounds nat
  | LengthError int
  | Thrown string

type_synonym 'a res = "failure + 'a"
type_synonym 'a comp = "'a res option"

subsection \<open>Sequencing\<close>

fun rbind :: "'a res \<Rightarrow> ('a \<Rightarrow> 'b res) \<Rightarrow> 'b res" where
  "rbind (Inl e) f = Inl e"
| "rbind (Inr x) f = f x"

lemma rbind_eq_Inr [flow]: "rbind m f = Inr y \<longleftrightarrow> (\<exists>x. m = Inr x \<and> f x = Inr y)"
  by (cases m) auto

lemma rbind_eq_Inl [flow]: "rbind m f = Inl e \<longleftrightarrow> m = Inl e \<or> (\<exists>x. m = Inr x \<and> f x = Inl e)"
  by (cases m) auto

lemma rbind_InrE:
  assumes "rbind m f = Inr y"
  obtains x where "m = Inr x" and "f x = Inr y"
  using assms by (cases m) auto

lemma rbind_InlE:
  assumes "rbind m f = Inl e"
  obtains "m = Inl e" | x where "m = Inr x" and "f x = Inl e"
  using assms by (cases m) auto

lemma rbind_assoc: "rbind (rbind m f) g = rbind m (\<lambda>x. rbind (f x) g)"
  by (cases m) auto

fun cbind :: "'a comp \<Rightarrow> ('a \<Rightarrow> 'b comp) \<Rightarrow> 'b comp" where
  "cbind None f = None"
| "cbind (Some (Inl e)) f = Some (Inl e)"
| "cbind (Some (Inr x)) f = f x"

lemma cbind_eq_ret [flow]:
  "cbind m f = Some (Inr y) \<longleftrightarrow> (\<exists>x. m = Some (Inr x) \<and> f x = Some (Inr y))"
  by (cases "(m, f)" rule: cbind.cases) auto

lemma comp_cases:
  obtains "m = None" | e where "m = Some (Inl e)" | x where "m = Some (Inr x)"
  by (cases m) (auto, metis sum.exhaust)

lemma cbind_assoc: "cbind (cbind m f) g = cbind m (\<lambda>x. cbind (f x) g)"
  by (cases "(m, f)" rule: cbind.cases) auto

text \<open>Running an effectful body over the elements of a container, in order.\<close>

fun for_each :: "('x \<Rightarrow> 's \<Rightarrow> 's comp) \<Rightarrow> 'x list \<Rightarrow> 's \<Rightarrow> 's comp" where
  "for_each f [] s = Some (Inr s)"
| "for_each f (x # xs) s = cbind (f x s) (for_each f xs)"

lemma for_each_append: "for_each f (xs @ ys) s = cbind (for_each f xs s) (for_each f ys)"
proof (induction xs arbitrary: s)
  case (Cons x xs)
  have "for_each f (xs @ ys) = (\<lambda>u. cbind (for_each f xs u) (for_each f ys))"
    by (rule ext) (rule Cons.IH)
  then show ?case by (simp add: cbind_assoc)
qed simp

lemma for_each_ret:
  assumes "\<And>x s. x \<in> set xs \<Longrightarrow> f x s = Some (Inr (g x s))"
  shows "for_each f xs s = Some (Inr (fold g xs s))"
  using assms by (induction xs arbitrary: s) auto

lemma for_each_invariant:
  assumes "for_each f xs s = Some (Inr t)" and "P s"
    and "\<And>x s t. x \<in> set xs \<Longrightarrow> f x s = Some (Inr t) \<Longrightarrow> P s \<Longrightarrow> P t"
  shows "P t"
  using assms
proof (induction xs arbitrary: s)
  case Nil
  then show ?case by simp
next
  case (Cons x xs)
  from Cons.prems(1) obtain u where u: "f x s = Some (Inr u)" "for_each f xs u = Some (Inr t)"
    by (auto simp: flow)
  have "P u" using Cons.prems(3)[OF _ u(1) Cons.prems(2)] by simp
  with u(2) show ?case using Cons.IH Cons.prems(3) by (meson list.set_intros(2))
qed

subsection \<open>Integer conversions\<close>

text \<open>
  \<open>int\<close> is 32 bits wide. Signed overflow is undefined in C++; the builds of this
  repository wrap (two's complement), which \<open>i32\<close> writes out. \<open>size_t\<close> is 64 bits
  and unsigned; an \<open>int\<close> compared with a \<open>size_t\<close> is converted to it first.
\<close>

definition i32 :: "int \<Rightarrow> int" where
  "i32 x = (x + 2 ^ 31) mod 2 ^ 32 - 2 ^ 31"

definition is_i32 :: "int \<Rightarrow> bool" where
  "is_i32 x \<longleftrightarrow> - (2 ^ 31) \<le> x \<and> x < 2 ^ 31"

definition size_t :: "int \<Rightarrow> nat" where
  "size_t x = nat (x mod 2 ^ 64)"

lemma i32_id [c_int]: "is_i32 x \<Longrightarrow> i32 x = x"
  by (simp add: i32_def is_i32_def)

lemma is_i32_i32 [c_int, simp]: "is_i32 (i32 x)"
proof -
  have "0 \<le> (x + 2 ^ 31) mod 2 ^ 32" "(x + 2 ^ 31) mod 2 ^ 32 < 2 ^ 32"
    by simp_all
  then show ?thesis unfolding i32_def is_i32_def by simp
qed

lemma i32_small [c_int]: "- 2147483648 \<le> x \<Longrightarrow> x < 2147483648 \<Longrightarrow> i32 x = x"
  by (simp add: i32_id is_i32_def)

lemma size_t_nonneg [c_int]: "0 \<le> x \<Longrightarrow> x < 2 ^ 64 \<Longrightarrow> size_t x = nat x"
  by (simp add: size_t_def)

lemma size_t_of_int [c_int]: "is_i32 x \<Longrightarrow> 0 \<le> x \<Longrightarrow> size_t x = nat x"
  by (rule size_t_nonneg) (simp_all add: is_i32_def)

lemma size_t_negative [c_int]: "is_i32 x \<Longrightarrow> x < 0 \<Longrightarrow> size_t x = nat (x + 2 ^ 64)"
proof -
  assume "is_i32 x" "x < 0"
  then have "(x + 2 ^ 64) mod 2 ^ 64 = x + 2 ^ 64"
    by (intro mod_pos_pos_trivial) (simp_all add: is_i32_def)
  then show ?thesis by (simp add: size_t_def)
qed

lemma size_t_inj:
  assumes "is_i32 x" "is_i32 y" "size_t x = size_t y"
  shows "x = y"
proof -
  have bx: "0 \<le> x mod 2 ^ 64" and b_y: "0 \<le> y mod 2 ^ 64" by simp_all
  from assms(3) have eq: "x mod 2 ^ 64 = y mod 2 ^ 64"
    using bx b_y unfolding size_t_def by (metis eq_nat_nat_iff)
  have "(x - y) mod 2 ^ 64 = 0" using eq by (simp add: mod_diff_eq mod_eq_dvd_iff)
  then have dvd: "(2 ^ 64 :: int) dvd (x - y)" by (simp add: dvd_eq_mod_eq_0)
  have small: "\<bar>x - y\<bar> < 2 ^ 64" using assms(1,2) unfolding is_i32_def by (simp add: abs_if)
  from dvd small have "x - y = 0" by (metis abs_numeral dvd_imp_le_int linorder_not_less power_abs)
  then show ?thesis by simp
qed

end
