(* ===== verification/Stats.thy ===== *)
theory Stats
  imports Complex_Main Prelude
begin

section \<open>Statistics: Distribution.h and TestValidation.h\<close>

text \<open>
  \<open>src/stress_test/stats/Distribution.h\<close> collects samples (CPU times, message counts)
  and reports mean, extrema, mode, standard deviation and local jitter;
  \<open>TestValidation.h\<close> collects the verdicts of the test cycles. A C++ \<open>double\<close> is
  modelled as a real number: rounding and overflow are left out, the one value that is
  not a number (a division of zero by zero) is the constructor \<open>NaN\<close>.
  \<open>mode\<close> walks over an \<open>unordered_map\<close>, whose order is not specified, so the order
  is an argument.
\<close>

named_theorems stats "equations of the statistics operations"

datatype fnum = Num real | NaN

definition fdiv :: "real \<Rightarrow> real \<Rightarrow> fnum" where
  "fdiv a b = (if b = 0 then NaN else Num (a / b))"

fun fsqrt :: "fnum \<Rightarrow> fnum" where
  "fsqrt NaN = NaN"
| "fsqrt (Num x) = (if x < 0 then NaN else Num (sqrt x))"

subsection \<open>Distribution\<close>

record Distribution =
  name_distribution :: string
  dvalues :: "real list"

definition Distribution_new :: Distribution where
  "Distribution_new = \<lparr>name_distribution = ''DISTRIBUTION'', dvalues = []\<rparr>"

definition set_distribution_name :: "string \<Rightarrow> Distribution \<Rightarrow> Distribution" where
  "set_distribution_name nm d = d\<lparr>name_distribution := nm\<rparr>"

definition addValue :: "real \<Rightarrow> Distribution \<Rightarrow> Distribution" where
  "addValue v d = d\<lparr>dvalues := dvalues d @ [v]\<rparr>"

definition dsize :: "Distribution \<Rightarrow> nat" where
  "dsize d = length (dvalues d)"

text \<open>\<open>std::accumulate\<close>, \<open>std::min_element\<close> and \<open>std::max_element\<close>.\<close>

fun accumulate :: "real \<Rightarrow> real list \<Rightarrow> real" where
  "accumulate acc [] = acc"
| "accumulate acc (x # xs) = accumulate (acc + x) xs"

fun min_element :: "real \<Rightarrow> real list \<Rightarrow> real" where
  "min_element best [] = best"
| "min_element best (x # xs) = min_element (if x < best then x else best) xs"

fun max_element :: "real \<Rightarrow> real list \<Rightarrow> real" where
  "max_element best [] = best"
| "max_element best (x # xs) = max_element (if best < x then x else best) xs"

definition dmean :: "Distribution \<Rightarrow> real" where
  "dmean d = (if dvalues d = [] then 0
     else accumulate 0 (dvalues d) / real (length (dvalues d)))"

definition dmin :: "Distribution \<Rightarrow> real" where
  "dmin d = (case dvalues d of [] \<Rightarrow> 0 | x # xs \<Rightarrow> min_element x xs)"

definition dmax :: "Distribution \<Rightarrow> real" where
  "dmax d = (case dvalues d of [] \<Rightarrow> 0 | x # xs \<Rightarrow> max_element x xs)"

text \<open>\<open>freq[v]++\<close> over the samples, then the walk over the map in the order \<open>it\<close>.\<close>

fun count_freq :: "real list \<Rightarrow> (real \<Rightarrow> nat) \<Rightarrow> (real \<Rightarrow> nat)" where
  "count_freq [] f = f"
| "count_freq (v # vs) f = count_freq vs (f(v := f v + 1))"

fun mode_walk :: "(real \<Rightarrow> nat) \<Rightarrow> real list \<Rightarrow> nat \<Rightarrow> real \<Rightarrow> real" where
  "mode_walk f [] maxCount modeValue = modeValue"
| "mode_walk f (k # ks) maxCount modeValue =
     (if f k > maxCount then mode_walk f ks (f k) k else mode_walk f ks maxCount modeValue)"

definition dmode :: "real list \<Rightarrow> Distribution \<Rightarrow> real" where
  "dmode it d = (case dvalues d of [] \<Rightarrow> 0
     | x # xs \<Rightarrow> mode_walk (count_freq (dvalues d) (\<lambda>_. 0)) it 0 x)"

fun sq_diffs :: "real \<Rightarrow> real \<Rightarrow> real list \<Rightarrow> real" where
  "sq_diffs m acc [] = acc"
| "sq_diffs m acc (x # xs) = sq_diffs m (acc + (x - m) * (x - m)) xs"

definition dstdDev :: "Distribution \<Rightarrow> fnum" where
  "dstdDev d = (if length (dvalues d) < 2 then Num 0
     else fsqrt (fdiv (sq_diffs (dmean d) 0 (dvalues d)) (real (length (dvalues d) - 1))))"

fun deltas :: "real list \<Rightarrow> real list" where
  "deltas (x # y # zs) = \<bar>y - x\<bar> # deltas (y # zs)"
| "deltas xs = []"

definition dlocalJitter :: "Distribution \<Rightarrow> fnum" where
  "dlocalJitter d = (if length (dvalues d) < 2 then Num 0
     else let diffs = deltas (dvalues d);
              meanDiff = accumulate 0 diffs / real (length diffs)
          in fsqrt (fdiv (sq_diffs meanDiff 0 diffs) (real (length diffs - 1))))"

record dist_report =
  rp_name :: string
  rp_count :: nat
  rp_mean :: real
  rp_min :: real
  rp_max :: real
  rp_mode :: real
  rp_stddev :: fnum
  rp_jitter :: fnum

definition printReport :: "real list \<Rightarrow> Distribution \<Rightarrow> dist_report" where
  "printReport it d = \<lparr>rp_name = name_distribution d, rp_count = length (dvalues d),
     rp_mean = dmean d, rp_min = dmin d, rp_max = dmax d, rp_mode = dmode it d,
     rp_stddev = dstdDev d, rp_jitter = dlocalJitter d\<rparr>"

text \<open>The file is written when a name is given and the stream opens.\<close>

definition exportReport :: "bool \<Rightarrow> real list \<Rightarrow> string \<Rightarrow> Distribution \<Rightarrow> dist_report option" where
  "exportReport opens it filename d =
     (if filename \<noteq> '''' \<and> opens then Some (printReport it d) else None)"

subsection \<open>TestValidation\<close>

datatype TestResult = INVALID | VALID

definition add_test_result :: "TestResult \<Rightarrow> TestResult list \<Rightarrow> TestResult list" where
  "add_test_result r tests = tests @ [r]"

definition get_percentage :: "TestResult list \<Rightarrow> real" where
  "get_percentage tests = (if tests = [] then 0
     else real (count_list tests VALID) / real (length tests) * 100)"

subsection \<open>The loops against the library's list functions\<close>

lemma accumulate_sum_list [stats]: "accumulate acc xs = acc + sum_list xs"
  by (induction acc xs rule: accumulate.induct) auto

lemma min_element_le_start: "min_element b xs \<le> b"
  by (induction b xs rule: min_element.induct) (auto intro: order_trans less_imp_le split: if_splits)

lemma min_element_le: "x \<in> set xs \<Longrightarrow> min_element b xs \<le> x"
proof (induction b xs rule: min_element.induct)
  case (2 best y ys)
  show ?case
  proof (cases "x = y")
    case True
    then show ?thesis using min_element_le_start[of "if y < best then y else best" ys]
      by (auto split: if_splits)
  next
    case False
    with 2 show ?thesis by simp
  qed
qed simp

lemma min_element_mem: "min_element b xs \<in> insert b (set xs)"
  by (induction b xs rule: min_element.induct) auto

lemma max_element_ge_start: "b \<le> max_element b xs"
  by (induction b xs rule: max_element.induct) (auto intro: order_trans less_imp_le split: if_splits)

lemma max_element_ge: "x \<in> set xs \<Longrightarrow> x \<le> max_element b xs"
proof (induction b xs rule: max_element.induct)
  case (2 best y ys)
  show ?case
  proof (cases "x = y")
    case True
    then show ?thesis using max_element_ge_start[of "if best < y then y else best" ys]
      by (auto split: if_splits)
  next
    case False
    with 2 show ?thesis by simp
  qed
qed simp

lemma max_element_mem: "max_element b xs \<in> insert b (set xs)"
  by (induction b xs rule: max_element.induct) auto

lemma dmin_le: "x \<in> set (dvalues d) \<Longrightarrow> dmin d \<le> x"
  by (auto simp: dmin_def min_element_le min_element_le_start split: list.splits)

lemma dmax_ge: "x \<in> set (dvalues d) \<Longrightarrow> x \<le> dmax d"
  by (auto simp: dmax_def max_element_ge max_element_ge_start split: list.splits)

lemma dmin_mem: "dvalues d \<noteq> [] \<Longrightarrow> dmin d \<in> set (dvalues d)"
  using min_element_mem by (auto simp: dmin_def split: list.splits)

lemma dmax_mem: "dvalues d \<noteq> [] \<Longrightarrow> dmax d \<in> set (dvalues d)"
  using max_element_mem by (auto simp: dmax_def split: list.splits)

lemma sum_list_bounds:
  fixes a b :: real
  assumes "\<forall>x \<in> set xs. a \<le> x \<and> x \<le> b"
  shows "real (length xs) * a \<le> sum_list xs \<and> sum_list xs \<le> real (length xs) * b"
  using assms by (induction xs) (auto simp: algebra_simps)

lemma count_freq_count_list: "count_freq vs f v = f v + count_list vs v"
  by (induction vs f rule: count_freq.induct) (auto simp del: fun_upd_apply, auto)

lemma mode_walk_max:
  assumes "m = f v \<or> m = 0"
  shows "\<forall>k \<in> set ks. f k \<le> f (mode_walk f ks m v)" and "m \<le> f (mode_walk f ks m v)"
  using assms by (induction f ks m v rule: mode_walk.induct) (auto split: if_splits)

lemma mode_walk_mem: "mode_walk f ks m v \<in> insert v (set ks)"
  by (induction f ks m v rule: mode_walk.induct) auto

lemma sq_diffs_sum [stats]: "sq_diffs m acc xs = acc + (\<Sum>x\<leftarrow>xs. (x - m)\<^sup>2)"
  by (induction m acc xs rule: sq_diffs.induct) (auto simp: power2_eq_square)

lemma sum_sq_nonneg: "0 \<le> (\<Sum>x\<leftarrow>xs. (x - m :: real)\<^sup>2)"
  by (induction xs) auto

lemma sum_sq_zero: "(\<Sum>x\<leftarrow>xs. (x - m :: real)\<^sup>2) = 0 \<longleftrightarrow> (\<forall>x \<in> set xs. x = m)"
proof (induction xs)
  case (Cons x xs)
  have "0 \<le> (x - m)\<^sup>2" by simp
  with Cons sum_sq_nonneg[of m xs] show ?case by (auto simp: add_nonneg_eq_0_iff)
qed simp

lemma length_deltas [stats]: "length (deltas xs) = length xs - 1"
  by (induction xs rule: deltas.induct) auto

lemma count_list_le: "count_list xs x \<le> length xs"
  by (induction xs) auto

lemma sum_list_const: "\<forall>x \<in> set xs. x = c \<Longrightarrow> sum_list xs = real (length xs) * c"
  by (induction xs) (auto simp: algebra_simps)

subsection \<open>What the statistics compute\<close>

lemma dmean_between: "dvalues d \<noteq> [] \<Longrightarrow> dmin d \<le> dmean d \<and> dmean d \<le> dmax d"
proof -
  assume ne: "dvalues d \<noteq> []"
  let ?n = "real (length (dvalues d))"
  from ne have n: "0 < ?n" by simp
  have "?n * dmin d \<le> sum_list (dvalues d) \<and> sum_list (dvalues d) \<le> ?n * dmax d"
    by (rule sum_list_bounds) (auto intro: dmin_le dmax_ge)
  with n ne show ?thesis
    by (simp add: dmean_def stats pos_le_divide_eq pos_divide_le_eq mult.commute)
qed

lemma dstdDev_num: "\<exists>r. dstdDev d = Num r \<and> 0 \<le> r"
  using sum_sq_nonneg[of "dmean d" "dvalues d"]
  by (auto simp: dstdDev_def fdiv_def stats zero_le_divide_iff not_less divide_less_0_iff)

lemma dstdDev_zero_iff:
  assumes "2 \<le> length (dvalues d)"
  shows "dstdDev d = Num 0 \<longleftrightarrow> (\<forall>x \<in> set (dvalues d). \<forall>y \<in> set (dvalues d). x = y)"
proof -
  let ?xs = "dvalues d" and ?m = "dmean d"
  have "dstdDev d = Num 0 \<longleftrightarrow> (\<Sum>x\<leftarrow>?xs. (x - ?m)\<^sup>2) = 0"
    using assms sum_sq_nonneg[of ?m ?xs]
    by (auto simp: dstdDev_def fdiv_def stats not_less divide_less_0_iff)
  also have "\<dots> \<longleftrightarrow> (\<forall>x \<in> set ?xs. x = ?m)" by (rule sum_sq_zero)
  also have "\<dots> \<longleftrightarrow> (\<forall>x \<in> set ?xs. \<forall>y \<in> set ?xs. x = y)"
  proof
    assume all: "\<forall>x \<in> set ?xs. \<forall>y \<in> set ?xs. x = y"
    from assms obtain c where c: "c \<in> set ?xs" by (cases ?xs) auto
    from assms have ne: "?xs \<noteq> []" by auto
    from all c have "sum_list ?xs = real (length ?xs) * c" by (intro sum_list_const) auto
    with ne have "?m = c" by (simp add: dmean_def stats)
    with all c show "\<forall>x \<in> set ?xs. x = ?m" by auto
  qed metis
  finally show ?thesis .
qed

lemma deltas_num:
  assumes "length (dvalues d) \<noteq> 2"
  shows "\<exists>r. dlocalJitter d = Num r \<and> 0 \<le> r"
proof (cases "length (dvalues d) < 2")
  case True
  then show ?thesis by (simp add: dlocalJitter_def)
next
  case False
  let ?xs = "deltas (dvalues d)"
  let ?q = "sq_diffs (accumulate 0 ?xs / real (length ?xs)) 0 ?xs" and ?n = "real (length ?xs - 1)"
  have n: "0 < ?n" using False assms by (simp add: length_deltas)
  have "0 \<le> ?q" using sum_sq_nonneg by (simp add: sq_diffs_sum)
  then have "0 \<le> ?q / ?n" using n by (rule divide_nonneg_pos)
  moreover have "dlocalJitter d = fsqrt (Num (?q / ?n))"
    using False n unfolding dlocalJitter_def fdiv_def Let_def by simp
  ultimately show ?thesis by simp
qed

subsection \<open>Properties\<close>

text \<open>The mean of a distribution lies between its minimum and its maximum, also when it is empty.\<close>

lemma mean_between_extremes: "dmin d \<le> dmean d \<and> dmean d \<le> dmax d"
  using dmean_between[of d] by (cases "dvalues d = []") (simp_all add: dmean_def dmin_def dmax_def)

text \<open>
  C38: In whatever order the hash map is walked, \<open>mode()\<close> is one of the samples and no sample
  is more frequent.
\<close>

theorem mode_most_frequent:
  assumes "set it = set (dvalues d)" and "dvalues d \<noteq> []"
  shows "dmode it d \<in> set (dvalues d)
    \<and> (\<forall>x. count_list (dvalues d) x \<le> count_list (dvalues d) (dmode it d))"
proof -
  let ?f = "count_freq (dvalues d) (\<lambda>_. 0)"
  obtain v vs where d: "dvalues d = v # vs" using assms(2) by (cases "dvalues d") auto
  have f: "?f x = count_list (dvalues d) x" for x by (simp add: count_freq_count_list)
  have m: "dmode it d = mode_walk ?f it 0 v" by (simp add: dmode_def d)
  have "dmode it d \<in> insert v (set it)" unfolding m by (rule mode_walk_mem)
  moreover have "count_list (dvalues d) x \<le> count_list (dvalues d) (dmode it d)" for x
  proof (cases "x \<in> set it")
    case True
    then show ?thesis using mode_walk_max(1)[of 0 ?f v it] m f by auto
  next
    case False
    then show ?thesis using assms(1) by (simp add: count_list_0_iff)
  qed
  ultimately show ?thesis using assms(1) d by auto
qed

theorem mode_most_frequent_witness:
  "let d = Distribution_new\<lparr>dvalues := [2, 1, 1]\<rparr> in
     dmode [1, 2] d \<in> set (dvalues d) \<and> (\<forall>x. count_list (dvalues d) x \<le> count_list (dvalues d) (dmode [1, 2] d))"
  using mode_most_frequent[of "[1, 2]" "Distribution_new\<lparr>dvalues := [2, 1, 1]\<rparr>"]
  by (simp add: insert_commute)

text \<open>
  The standard deviation is a number; with at least two samples it is zero exactly when all
  samples are equal.
\<close>

lemma stddev_zero_iff_constant:
  "(\<exists>r. dstdDev d = Num r \<and> 0 \<le> r)
   \<and> (dstdDev (d\<lparr>dvalues := x # y # zs\<rparr>) = Num 0 \<longleftrightarrow> set (y # zs) = {x})"
proof -
  have "dstdDev (d\<lparr>dvalues := x # y # zs\<rparr>) = Num 0 \<longleftrightarrow>
      (\<forall>a \<in> set (x # y # zs). \<forall>b \<in> set (x # y # zs). a = b)"
    using dstdDev_zero_iff[of "d\<lparr>dvalues := x # y # zs\<rparr>"] by simp
  also have "\<dots> \<longleftrightarrow> set (y # zs) = {x}" by auto
  finally show ?thesis using dstdDev_num[of d] by simp
qed

text \<open>
  \<open>localJitter()\<close> divides by the number of deltas minus one: it is not a number exactly
  when there are two samples, one more than its guard catches.
\<close>

lemma local_jitter_nan_iff: "dlocalJitter d = NaN \<longleftrightarrow> length (dvalues d) = 2"
proof
  assume "length (dvalues d) = 2"
  then show "dlocalJitter d = NaN" by (simp add: dlocalJitter_def length_deltas fdiv_def)
next
  assume "dlocalJitter d = NaN"
  then show "length (dvalues d) = 2" using deltas_num[of d] by (metis fnum.distinct(1))
qed

text \<open>
  The success ratio is a percentage, and it is 100 exactly when there was a test and every
  test was valid.
\<close>

lemma percentage_bounds:
  "0 \<le> get_percentage ts \<and> get_percentage ts \<le> 100 \<and> (get_percentage ts = 100 \<longleftrightarrow> set ts = {VALID})"
proof (cases "ts = []")
  case True
  then show ?thesis by (simp add: get_percentage_def)
next
  case False
  then have n: "0 < real (length ts)" by simp
  have le: "count_list ts VALID \<le> length ts" by (rule count_list_le)
  have "count_list ts VALID = length ts \<longleftrightarrow> (\<forall>r \<in> set ts. r = VALID)"
  proof (induction ts)
    case (Cons a ts)
    then show ?case using count_list_le[of ts VALID] by auto
  qed simp
  also have "\<dots> \<longleftrightarrow> set ts = {VALID}" using False by (cases ts) auto
  finally show ?thesis using n le False by (auto simp: get_percentage_def field_simps)
qed

end
