(* ===== verification/Dds.thy ===== *)
theory Dds
  imports Prelude
begin

section \<open>The DDS middleware as the program sees it\<close>

text \<open>
  The three vendors' libraries are linked as binaries, so they are a parameter: the
  record \<open>dds_api\<close> says what a create call hands back (a pointer, null is \<open>None\<close>), what
  return code any other call gives, and which default QoS values the library exports.
  The type variable \<open>'w\<close> is the middleware's own state, about which nothing is known.
  Every call the program makes is recorded in the trace of the state \<open>'w dds\<close>.

  The second half is a specification, not code: which traces of create and delete calls
  the DDS standard accepts (\<open>lifecycle\<close>: an entity is deleted once, while it is alive,
  and after everything that was created from it), when the QoS of a writer and of a
  reader match (\<open>rxo_compatible\<close>), and when resource limits are consistent.

  \<open>print_return_code\<close> (\<open>implementation/fast_dds/fast_dds_defs.h\<close>) and
  \<open>DDSReturnCodeToString\<close> (\<open>implementation/open_dds/open_dds_defs.h\<close>) are the two
  return-code printers.
\<close>

datatype retcode =
    RETCODE_OK | RETCODE_ERROR | RETCODE_UNSUPPORTED | RETCODE_BAD_PARAMETER
  | RETCODE_PRECONDITION_NOT_MET | RETCODE_OUT_OF_RESOURCES | RETCODE_NOT_ENABLED
  | RETCODE_IMMUTABLE_POLICY | RETCODE_INCONSISTENT_POLICY | RETCODE_ALREADY_DELETED
  | RETCODE_TIMEOUT | RETCODE_NO_DATA | RETCODE_ILLEGAL_OPERATION | RETCODE_OTHER int

text \<open>
  The case of \<open>RETCODE_BAD_PARAMETER\<close> in the Fast DDS printer has a string but no
  \<open>return\<close>: it falls through into the next case.
\<close>

fun print_return_code :: "retcode \<Rightarrow> string" where
  "print_return_code RETCODE_OK = ''RETCODE_OK''"
| "print_return_code RETCODE_ERROR = ''RETCODE_ERROR''"
| "print_return_code RETCODE_UNSUPPORTED = ''RETCODE_UNSUPPORTED''"
| "print_return_code RETCODE_BAD_PARAMETER = ''RETCODE_PRECONDITION_NOT_MET''"
| "print_return_code RETCODE_PRECONDITION_NOT_MET = ''RETCODE_PRECONDITION_NOT_MET''"
| "print_return_code RETCODE_OUT_OF_RESOURCES = ''RETCODE_OUT_OF_RESOURCES''"
| "print_return_code RETCODE_NOT_ENABLED = ''RETCODE_NOT_ENABLED''"
| "print_return_code RETCODE_IMMUTABLE_POLICY = ''RETCODE_IMMUTABLE_POLICY''"
| "print_return_code RETCODE_INCONSISTENT_POLICY = ''RETCODE_INCONSISTENT_POLICY''"
| "print_return_code RETCODE_ALREADY_DELETED = ''RETCODE_ALREADY_DELETED''"
| "print_return_code RETCODE_TIMEOUT = ''RETCODE_TIMEOUT''"
| "print_return_code RETCODE_NO_DATA = ''RETCODE_NO_DATA''"
| "print_return_code RETCODE_ILLEGAL_OPERATION = ''RETCODE_ILLEGAL_OPERATION''"
| "print_return_code (RETCODE_OTHER n) = ''Unknown ReturnCode: ''"

fun DDSReturnCodeToString :: "retcode \<Rightarrow> string" where
  "DDSReturnCodeToString RETCODE_OK = ''RETCODE_OK''"
| "DDSReturnCodeToString RETCODE_ERROR = ''RETCODE_ERROR''"
| "DDSReturnCodeToString RETCODE_UNSUPPORTED = ''RETCODE_UNSUPPORTED''"
| "DDSReturnCodeToString RETCODE_BAD_PARAMETER = ''RETCODE_BAD_PARAMETER''"
| "DDSReturnCodeToString RETCODE_PRECONDITION_NOT_MET = ''RETCODE_PRECONDITION_NOT_MET''"
| "DDSReturnCodeToString RETCODE_OUT_OF_RESOURCES = ''RETCODE_OUT_OF_RESOURCES''"
| "DDSReturnCodeToString RETCODE_NOT_ENABLED = ''RETCODE_NOT_ENABLED''"
| "DDSReturnCodeToString RETCODE_IMMUTABLE_POLICY = ''RETCODE_IMMUTABLE_POLICY''"
| "DDSReturnCodeToString RETCODE_INCONSISTENT_POLICY = ''RETCODE_INCONSISTENT_POLICY''"
| "DDSReturnCodeToString RETCODE_ALREADY_DELETED = ''RETCODE_ALREADY_DELETED''"
| "DDSReturnCodeToString RETCODE_TIMEOUT = ''RETCODE_TIMEOUT''"
| "DDSReturnCodeToString RETCODE_NO_DATA = ''RETCODE_NO_DATA''"
| "DDSReturnCodeToString RETCODE_ILLEGAL_OPERATION = ''RETCODE_ILLEGAL_OPERATION''"
| "DDSReturnCodeToString (RETCODE_OTHER n) = ''UNKNOWN_RETCODE''"

subsection \<open>QoS policies the program sets\<close>

datatype reliability = BEST_EFFORT | RELIABLE
datatype durability = VOLATILE | TRANSIENT_LOCAL | TRANSIENT | PERSISTENT
datatype history = KEEP_LAST | KEEP_ALL

record resource_limits =
  rl_max_samples :: int
  rl_max_instances :: int
  rl_max_samples_per_instance :: int
  rl_allocated_samples :: int

record endpoint_qos =
  q_reliability :: reliability
  q_max_blocking_time :: "int \<times> int"
  q_history :: history
  q_depth :: int
  q_durability :: durability
  q_limits :: resource_limits

record udp_descriptor =
  udp_sendBufferSize :: int
  udp_maxMessageSize :: int
  udp_non_blocking_send :: bool

record participant_qos =
  pq_name :: string
  pq_lease_infinite :: bool
  pq_use_builtin_transports :: bool
  pq_user_transports :: "udp_descriptor list"
  pq_user_data :: "8 word list"
  pq_autoenable_created_entities :: bool
  pq_properties :: "(string \<times> string) list"

subsection \<open>Calls, middleware and trace\<close>

datatype entity_call =
    CreateParticipant int participant_qos
  | RegisterType nat string
  | CreateTopic nat string string
  | CreatePublisher nat
  | CreateSubscriber nat
  | CreateDataWriter nat nat endpoint_qos
  | CreateDataReader nat nat endpoint_qos
  | CreateDataReaderNullTopic nat endpoint_qos
  | SetPublisherQos nat
  | SetParticipantQos nat participant_qos
  | SetDefaultParticipantQos participant_qos
  | CreateTransportConfig string
  | CreateTransportInst string string
  | ConfigureUdp nat int int
  | BindTransportConfig nat nat nat
  | Narrow nat
  | DeleteDataWriter nat nat
  | DeleteDataReader nat nat
  | DeletePublisher nat nat
  | DeleteSubscriber nat nat
  | DeleteTopic nat nat
  | DeleteParticipant "nat option"

datatype entity_event =
    Created entity_call "nat option"
  | Called entity_call retcode

record 'w dds_api =
  api_create :: "entity_call \<Rightarrow> 'w \<Rightarrow> nat option \<times> 'w"
  api_call :: "entity_call \<Rightarrow> 'w \<Rightarrow> retcode \<times> 'w"
  api_participant_qos :: participant_qos
  api_udp_descriptor :: udp_descriptor
  api_writer_qos :: endpoint_qos
  api_reader_qos :: endpoint_qos

record 'w dds =
  dds_world :: 'w
  dds_trace :: "entity_event list"

definition dds_create :: "'w dds_api \<Rightarrow> entity_call \<Rightarrow> 'w dds \<Rightarrow> nat option \<times> 'w dds" where
  "dds_create api c s = (let (h, w) = api_create api c (dds_world s)
     in (h, s\<lparr>dds_world := w, dds_trace := dds_trace s @ [Created c h]\<rparr>))"

definition dds_call :: "'w dds_api \<Rightarrow> entity_call \<Rightarrow> 'w dds \<Rightarrow> retcode \<times> 'w dds" where
  "dds_call api c s = (let (r, w) = api_call api c (dds_world s)
     in (r, s\<lparr>dds_world := w, dds_trace := dds_trace s @ [Called c r]\<rparr>))"

text \<open>
  The pointers an endpoint object keeps: \<open>p_participant\<close>, \<open>p_topic\<close>, its
  \<open>publisher_\<close> or \<open>subscriber_\<close> (\<open>p_group\<close>) and its \<open>writer_\<close> or
  \<open>reader_\<close> (\<open>p_endpoint\<close>). All are null in a new object.
\<close>

record entity_ptrs =
  p_participant :: "nat option"
  p_topic :: "nat option"
  p_group :: "nat option"
  p_endpoint :: "nat option"

definition no_ptrs :: entity_ptrs where
  "no_ptrs = \<lparr>p_participant = None, p_topic = None, p_group = None, p_endpoint = None\<rparr>"

text \<open>\<open>p->\<close> on a pointer, and the destructors' \<open>if (child) parent->delete_child(child)\<close>.\<close>

definition deref :: "string \<Rightarrow> nat option \<Rightarrow> nat res" where
  "deref what p = (case p of None \<Rightarrow> Inl (NullDeref what) | Some h \<Rightarrow> Inr h)"

definition delete_if :: "'w dds_api \<Rightarrow> string \<Rightarrow> (nat \<Rightarrow> nat \<Rightarrow> entity_call) \<Rightarrow>
    nat option \<Rightarrow> nat option \<Rightarrow> 'w dds \<Rightarrow> 'w dds res" where
  "delete_if api what c parent child s =
     (case child of None \<Rightarrow> Inr s
      | Some h \<Rightarrow> rbind (deref what parent) (\<lambda>p. Inr (snd (dds_call api (c p h) s))))"

end
