(* ===== verification/Lifecycle.thy ===== *)
theory Lifecycle
  imports Dds
begin

section \<open>Entity life cycles: what DDS accepts, and the endpoint interface\<close>

text \<open>
  A specification of the create and delete calls (DDS 1.4, 2.2.2: an entity is deleted
  after everything created from it, and only once). \<open>live\<close> lists the entities alive,
  newest first, each with the entities it was created from; \<open>lifecycle\<close> runs a trace
  over it and is \<open>None\<close> when a call is not acceptable.

  The locale \<open>dds_endpoint\<close> is the interface every endpoint class of
  \<open>src/implementation\<close> has towards its owner: \<open>init()\<close> and the destructor. What \<open>init\<close>
  leaves in the object's pointers is exactly what is alive, and the destructor deletes
  exactly that; together nothing is leaked and no delete is refused.
\<close>

datatype entity_kind = ParticipantK | TopicK | PublisherK | SubscriberK | WriterK | ReaderK

type_synonym entity = "entity_kind \<times> nat"
type_synonym live = "(entity \<times> entity list) list"

fun entity_of :: "entity_call \<Rightarrow> nat \<Rightarrow> (entity \<times> entity list) option" where
  "entity_of (CreateParticipant d q) h = Some ((ParticipantK, h), [])"
| "entity_of (CreateTopic p n t) h = Some ((TopicK, h), [(ParticipantK, p)])"
| "entity_of (CreatePublisher p) h = Some ((PublisherK, h), [(ParticipantK, p)])"
| "entity_of (CreateSubscriber p) h = Some ((SubscriberK, h), [(ParticipantK, p)])"
| "entity_of (CreateDataWriter g t q) h = Some ((WriterK, h), [(PublisherK, g), (TopicK, t)])"
| "entity_of (CreateDataReader g t q) h = Some ((ReaderK, h), [(SubscriberK, g), (TopicK, t)])"
| "entity_of c h = None"

fun deleted_by :: "entity_call \<Rightarrow> entity option" where
  "deleted_by (DeleteDataWriter g h) = Some (WriterK, h)"
| "deleted_by (DeleteDataReader g h) = Some (ReaderK, h)"
| "deleted_by (DeletePublisher p h) = Some (PublisherK, h)"
| "deleted_by (DeleteSubscriber p h) = Some (SubscriberK, h)"
| "deleted_by (DeleteTopic p h) = Some (TopicK, h)"
| "deleted_by (DeleteParticipant (Some h)) = Some (ParticipantK, h)"
| "deleted_by c = None"

definition delete_entity :: "entity \<Rightarrow> live \<Rightarrow> live option" where
  "delete_entity e l =
     (if e \<in> fst ` set l \<and> (\<forall>x \<in> set l. e \<notin> set (snd x))
      then Some (filter (\<lambda>x. fst x \<noteq> e) l) else None)"

fun lifecycle_step :: "entity_event \<Rightarrow> live \<Rightarrow> live option" where
  "lifecycle_step (Created c None) l = Some l"
| "lifecycle_step (Created c (Some h)) l =
     (case entity_of c h of None \<Rightarrow> Some l
      | Some x \<Rightarrow> if set (snd x) \<subseteq> fst ` set l then Some (x # l) else None)"
| "lifecycle_step (Called c r) l =
     (case deleted_by c of None \<Rightarrow> Some l | Some e \<Rightarrow> delete_entity e l)"

fun lifecycle :: "entity_event list \<Rightarrow> live \<Rightarrow> live option" where
  "lifecycle [] l = Some l"
| "lifecycle (e # es) l = (case lifecycle_step e l of None \<Rightarrow> None | Some l' \<Rightarrow> lifecycle es l')"

lemma lifecycle_step_other [simp]:
  "lifecycle_step (Created (Narrow n) h) l = Some l"
  "lifecycle_step (Created (CreateTransportConfig nm) h) l = Some l"
  "lifecycle_step (Created (CreateTransportInst nm ty) h) l = Some l"
  by (cases h; simp)+

lemma lifecycle_append:
  "lifecycle (es @ fs) l = (case lifecycle es l of None \<Rightarrow> None | Some l' \<Rightarrow> lifecycle fs l')"
  by (induction es arbitrary: l) (auto split: option.splits)

text \<open>The calls a state has made since another state.\<close>

definition calls_since :: "'w dds \<Rightarrow> 'w dds \<Rightarrow> entity_event list" where
  "calls_since s t = drop (length (dds_trace s)) (dds_trace t)"

lemma dds_create_trace [simp]:
  "dds_trace (snd (dds_create api c s)) = dds_trace s @ [Created c (fst (dds_create api c s))]"
  by (simp add: dds_create_def split: prod.splits)

lemma dds_call_trace [simp]:
  "dds_trace (snd (dds_call api c s)) = dds_trace s @ [Called c (fst (dds_call api c s))]"
  by (simp add: dds_call_def split: prod.splits)

text \<open>The entities alive when an object holds the given pointers, for an endpoint class
  whose publisher or subscriber is of kind \<open>gk\<close> and whose writer or reader is of kind
  \<open>ek\<close>. \<open>chain\<close>: pointers are filled in creation order.\<close>

definition chain :: "entity_ptrs \<Rightarrow> bool" where
  "chain p \<longleftrightarrow> (p_endpoint p \<noteq> None \<longrightarrow> p_group p \<noteq> None) \<and> (p_group p \<noteq> None \<longrightarrow> p_topic p \<noteq> None)
     \<and> (p_topic p \<noteq> None \<longrightarrow> p_participant p \<noteq> None)"

definition live_of :: "entity_kind \<Rightarrow> entity_kind \<Rightarrow> entity_ptrs \<Rightarrow> live" where
  "live_of gk ek p =
     (case (p_endpoint p, p_group p, p_topic p) of
        (Some h, Some g, Some t) \<Rightarrow> [((ek, h), [(gk, g), (TopicK, t)])] | _ \<Rightarrow> [])
   @ (case (p_group p, p_participant p) of (Some g, Some d) \<Rightarrow> [((gk, g), [(ParticipantK, d)])] | _ \<Rightarrow> [])
   @ (case (p_topic p, p_participant p) of (Some t, Some d) \<Rightarrow> [((TopicK, t), [(ParticipantK, d)])] | _ \<Rightarrow> [])
   @ (case p_participant p of Some d \<Rightarrow> [((ParticipantK, d), [])] | None \<Rightarrow> [])"

text \<open>
  \<open>start p\<close>: the pointers \<open>init\<close> may be called with (all null, or only a participant that
  was handed in). \<open>owns\<close>: whether the destructor deletes the participant too.
\<close>

definition left_over :: "bool \<Rightarrow> entity_ptrs \<Rightarrow> entity_ptrs" where
  "left_over owns p = (if owns then no_ptrs else no_ptrs\<lparr>p_participant := p_participant p\<rparr>)"

locale dds_endpoint =
  fixes init :: "'w dds_api \<Rightarrow> entity_ptrs \<Rightarrow> 'w dds \<Rightarrow> (bool \<times> entity_ptrs \<times> 'w dds) res"
    and destroy :: "'w dds_api \<Rightarrow> entity_ptrs \<Rightarrow> 'w dds \<Rightarrow> 'w dds res"
    and gk ek :: entity_kind
    and start :: "entity_ptrs \<Rightarrow> bool"
    and owns :: bool
  assumes init_live: "start p0 \<Longrightarrow> init api p0 s = Inr (b, p, s') \<Longrightarrow>
      \<exists>es. dds_trace s' = dds_trace s @ es
        \<and> lifecycle es (live_of gk ek p0) = Some (live_of gk ek p) \<and> chain p"
    and init_ready: "start p0 \<Longrightarrow> init api p0 s = Inr (True, p, s') \<Longrightarrow> p_endpoint p \<noteq> None"
    and destroy_live: "chain p \<Longrightarrow>
      \<exists>t es. destroy api p s = Inr t \<and> dds_trace t = dds_trace s @ es
        \<and> lifecycle es (live_of gk ek p) = Some (live_of gk ek (left_over owns p))"
begin

lemma init_destroy_balanced:
  assumes "start p0" and "init api p0 s = Inr (b, p, s')"
  shows "\<exists>t. destroy api p s' = Inr t
    \<and> lifecycle (calls_since s t) (live_of gk ek p0) = Some (live_of gk ek (left_over owns p))"
proof -
  from init_live[OF assms] obtain es where es: "dds_trace s' = dds_trace s @ es"
    "lifecycle es (live_of gk ek p0) = Some (live_of gk ek p)" "chain p" by blast
  from destroy_live[OF es(3), of api s'] obtain t fs where
    "destroy api p s' = Inr t" "dds_trace t = dds_trace s' @ fs"
    "lifecycle fs (live_of gk ek p) = Some (live_of gk ek (left_over owns p))" by blast
  with es show ?thesis by (simp add: calls_since_def lifecycle_append)
qed

lemma init_ready_all_live:
  assumes "start p0" and "init api p0 s = Inr (True, p, s')"
  shows "p_participant p \<noteq> None \<and> p_topic p \<noteq> None \<and> p_group p \<noteq> None \<and> p_endpoint p \<noteq> None"
  using init_ready[OF assms] init_live[OF assms] by (auto simp: chain_def)

end

subsection \<open>Consistency of QoS values\<close>

text \<open>
  Specification. A reader is matched with a writer when what it requests is at most what
  is offered (DDS 1.4, table of QoS policies, RxO): reliable needs reliable, and the
  durability kinds are ordered. Limits: a value of at most 0 is unlimited; otherwise the
  samples of all instances must fit, and a kept-last depth must fit into one instance.
\<close>

fun durability_rank :: "durability \<Rightarrow> nat" where
  "durability_rank VOLATILE = 0"
| "durability_rank TRANSIENT_LOCAL = 1"
| "durability_rank TRANSIENT = 2"
| "durability_rank PERSISTENT = 3"

instantiation durability :: linorder
begin

definition less_eq_durability :: "durability \<Rightarrow> durability \<Rightarrow> bool" where
  "less_eq_durability a b \<longleftrightarrow> durability_rank a \<le> durability_rank b"

definition less_durability :: "durability \<Rightarrow> durability \<Rightarrow> bool" where
  "less_durability a b \<longleftrightarrow> durability_rank a < durability_rank b"

instance
proof
  fix a b :: durability assume "a \<le> b" "b \<le> a"
  then show "a = b" by (cases a; cases b) (simp_all add: less_eq_durability_def)
qed (auto simp: less_eq_durability_def less_durability_def)

end

definition rxo_compatible :: "endpoint_qos \<Rightarrow> endpoint_qos \<Rightarrow> bool" where
  "rxo_compatible offered requested \<longleftrightarrow>
     (q_reliability requested = RELIABLE \<longrightarrow> q_reliability offered = RELIABLE)
   \<and> q_durability requested \<le> q_durability offered"

definition limits_consistent :: "endpoint_qos \<Rightarrow> bool" where
  "limits_consistent q \<longleftrightarrow> (let l = q_limits q in
     (rl_max_samples l \<le> 0 \<or>
        (0 < rl_max_instances l \<and> 0 < rl_max_samples_per_instance l
         \<and> rl_max_instances l * rl_max_samples_per_instance l \<le> rl_max_samples l
         \<and> rl_allocated_samples l \<le> rl_max_samples l))
   \<and> (q_history q = KEEP_LAST \<and> 0 < rl_max_samples_per_instance l
        \<longrightarrow> q_depth q \<le> rl_max_samples_per_instance l))"

end
