(* ===== verification/Writer.thy ===== *)
theory Writer
  imports Dds
begin

section \<open>Data writers and data readers\<close>

text \<open>
  What a DDS writer and a DDS reader do at run time is again a parameter:
  \<open>writer_api\<close> (\<open>write\<close>, \<open>loan_sample\<close>, \<open>discard_loan\<close>) and \<open>reader_api\<close>
  (\<open>take_next_sample\<close>, \<open>take\<close>, \<open>return_loan\<close>), over a middleware state \<open>'w\<close>. A call the
  program makes on a writer is recorded in \<open>w_log\<close>, with the return code it got.
\<close>

record ('m, 'w) writer_api =
  wa_write :: "nat \<Rightarrow> 'm \<Rightarrow> 'w \<Rightarrow> retcode \<times> 'w"
  wa_loan_sample :: "nat \<Rightarrow> 'w \<Rightarrow> retcode \<times> 'm option \<times> 'w"
  wa_discard_loan :: "nat \<Rightarrow> 'w \<Rightarrow> retcode \<times> 'w"

datatype 'm writer_event = Wrote 'm retcode | Loaned retcode | Discarded retcode

record ('m, 'w) writer_state =
  w_world :: 'w
  w_log :: "'m writer_event list"

definition w_write :: "('m, 'w) writer_api \<Rightarrow> nat \<Rightarrow> 'm \<Rightarrow> ('m, 'w) writer_state
    \<Rightarrow> retcode \<times> ('m, 'w) writer_state" where
  "w_write api h m s = (let (r, w) = wa_write api h m (w_world s)
     in (r, \<lparr>w_world = w, w_log = w_log s @ [Wrote m r]\<rparr>))"

definition w_loan_sample :: "('m, 'w) writer_api \<Rightarrow> nat \<Rightarrow> ('m, 'w) writer_state
    \<Rightarrow> retcode \<times> 'm option \<times> ('m, 'w) writer_state" where
  "w_loan_sample api h s = (let (r, b, w) = wa_loan_sample api h (w_world s)
     in (r, b, \<lparr>w_world = w, w_log = w_log s @ [Loaned r]\<rparr>))"

definition w_discard_loan :: "('m, 'w) writer_api \<Rightarrow> nat \<Rightarrow> ('m, 'w) writer_state
    \<Rightarrow> retcode \<times> ('m, 'w) writer_state" where
  "w_discard_loan api h s = (let (r, w) = wa_discard_loan api h (w_world s)
     in (r, \<lparr>w_world = w, w_log = w_log s @ [Discarded r]\<rparr>))"

text \<open>The messages that were written with \<open>RETCODE_OK\<close>, and all that were handed over.\<close>

fun accepted :: "'m writer_event list \<Rightarrow> 'm list" where
  "accepted [] = []"
| "accepted (Wrote m r # es) = (if r = RETCODE_OK then m # accepted es else accepted es)"
| "accepted (e # es) = accepted es"

fun offered :: "'m writer_event list \<Rightarrow> 'm list" where
  "offered [] = []"
| "offered (Wrote m r # es) = m # offered es"
| "offered (e # es) = offered es"

lemma accepted_append [simp]: "accepted (es @ fs) = accepted es @ accepted fs"
  by (induction es rule: accepted.induct) auto

lemma offered_append [simp]: "offered (es @ fs) = offered es @ offered fs"
  by (induction es rule: offered.induct) auto

text \<open>
  A loan that was handed out is either written or given back: \<open>open_loans\<close> counts the
  loans that are neither, \<open>failed_discards\<close> the attempts to give one back that were refused.
\<close>

fun open_loans :: "'m writer_event list \<Rightarrow> nat" where
  "open_loans [] = 0"
| "open_loans (Loaned r # Wrote m q # es) =
     (if r = RETCODE_OK \<and> q \<noteq> RETCODE_OK
      then (case es of Discarded d # es' \<Rightarrow> (if d = RETCODE_OK then open_loans es' else Suc (open_loans es'))
            | _ \<Rightarrow> Suc (open_loans es))
      else open_loans es)"
| "open_loans (Loaned r # es) = (if r = RETCODE_OK then Suc (open_loans es) else open_loans es)"
| "open_loans (e # es) = open_loans es"

definition failed_discards :: "'m writer_event list \<Rightarrow> nat" where
  "failed_discards es = length (filter (\<lambda>e. \<exists>d. e = Discarded d \<and> d \<noteq> RETCODE_OK) es)"

subsection \<open>Readers\<close>

text \<open>
  A taken sample comes with its \<open>valid_data\<close> flag. \<open>take\<close> returns at most the given
  number of samples, each with its flag.
\<close>

record ('m, 'w) reader_api =
  ra_take_next_sample :: "nat \<Rightarrow> 'w \<Rightarrow> retcode \<times> ('m \<times> bool) \<times> 'w"
  ra_take :: "nat \<Rightarrow> nat \<Rightarrow> 'w \<Rightarrow> retcode \<times> ('m \<times> bool) list \<times> 'w"
  ra_return_loan :: "nat \<Rightarrow> 'w \<Rightarrow> 'w"

text \<open>
  The documented behaviour of a reader whose unread samples are a queue \<open>q\<close>:
  \<open>take_next_sample\<close> removes and copies the first one, and answers
  \<open>RETCODE_NO_DATA\<close>, copying nothing, when there is none; \<open>take\<close> removes at most
  \<open>max_samples\<close> and answers \<open>RETCODE_NO_DATA\<close> when there is none; giving a loan back
  changes no unread sample.
\<close>

definition queue_reader :: "('m, 'w) reader_api \<Rightarrow> nat \<Rightarrow> ('w \<Rightarrow> ('m \<times> bool) list) \<Rightarrow> bool" where
  "queue_reader api h q \<longleftrightarrow>
     (\<forall>w. case q w of
            [] \<Rightarrow> fst (ra_take_next_sample api h w) = RETCODE_NO_DATA
              \<and> q (snd (snd (ra_take_next_sample api h w))) = []
          | x # xs \<Rightarrow> fst (ra_take_next_sample api h w) = RETCODE_OK
              \<and> fst (snd (ra_take_next_sample api h w)) = x
              \<and> q (snd (snd (ra_take_next_sample api h w))) = xs)
   \<and> (\<forall>w n. 0 < n \<longrightarrow> (if q w = [] then fst (ra_take api h n w) = RETCODE_NO_DATA
              \<and> q (snd (snd (ra_take api h n w))) = []
            else fst (ra_take api h n w) = RETCODE_OK
              \<and> fst (snd (ra_take api h n w)) = take n (q w)
              \<and> q (snd (snd (ra_take api h n w))) = drop n (q w)))
   \<and> (\<forall>w. q (ra_return_loan api h w) = q w)"

lemma queue_reader_empty:
  assumes "queue_reader api h q" and "q w = []"
  obtains x w' where "ra_take_next_sample api h w = (RETCODE_NO_DATA, x, w')" and "q w' = []"
proof -
  from assms(1) have "case q w of
            [] \<Rightarrow> fst (ra_take_next_sample api h w) = RETCODE_NO_DATA
              \<and> q (snd (snd (ra_take_next_sample api h w))) = []
          | x # xs \<Rightarrow> fst (ra_take_next_sample api h w) = RETCODE_OK
              \<and> fst (snd (ra_take_next_sample api h w)) = x
              \<and> q (snd (snd (ra_take_next_sample api h w))) = xs"
    unfolding queue_reader_def by blast
  with assms(2) that show thesis by (cases "ra_take_next_sample api h w") auto
qed

lemma queue_reader_next:
  assumes "queue_reader api h q" and "q w = x # xs"
  obtains w' where "ra_take_next_sample api h w = (RETCODE_OK, x, w')" and "q w' = xs"
proof -
  from assms(1) have "case q w of
            [] \<Rightarrow> fst (ra_take_next_sample api h w) = RETCODE_NO_DATA
              \<and> q (snd (snd (ra_take_next_sample api h w))) = []
          | x # xs \<Rightarrow> fst (ra_take_next_sample api h w) = RETCODE_OK
              \<and> fst (snd (ra_take_next_sample api h w)) = x
              \<and> q (snd (snd (ra_take_next_sample api h w))) = xs"
    unfolding queue_reader_def by blast
  with assms(2) that show thesis by (cases "ra_take_next_sample api h w") auto
qed

lemma queue_reader_take:
  assumes "queue_reader api h q" and "0 < n" and "q w \<noteq> []"
  obtains w' where "ra_take api h n w = (RETCODE_OK, take n (q w), w')" and "q w' = drop n (q w)"
proof -
  from assms(1) have "\<forall>w n. 0 < n \<longrightarrow> (if q w = [] then fst (ra_take api h n w) = RETCODE_NO_DATA
              \<and> q (snd (snd (ra_take api h n w))) = []
            else fst (ra_take api h n w) = RETCODE_OK
              \<and> fst (snd (ra_take api h n w)) = take n (q w)
              \<and> q (snd (snd (ra_take api h n w))) = drop n (q w))"
    unfolding queue_reader_def by (elim conjE)
  from this[rule_format, OF assms(2), of w] assms(3) that show thesis
    by (cases "ra_take api h n w") simp
qed

lemma queue_reader_take_empty:
  assumes "queue_reader api h q" and "0 < n" and "q w = []"
  obtains d w' where "ra_take api h n w = (RETCODE_NO_DATA, d, w')" and "q w' = []"
proof -
  from assms(1) have "\<forall>w n. 0 < n \<longrightarrow> (if q w = [] then fst (ra_take api h n w) = RETCODE_NO_DATA
              \<and> q (snd (snd (ra_take api h n w))) = []
            else fst (ra_take api h n w) = RETCODE_OK
              \<and> fst (snd (ra_take api h n w)) = take n (q w)
              \<and> q (snd (snd (ra_take api h n w))) = drop n (q w))"
    unfolding queue_reader_def by (elim conjE)
  from this[rule_format, OF assms(2), of w] assms(3) that show thesis
    by (cases "ra_take api h n w") simp
qed

lemma queue_reader_return: "queue_reader api h q \<Longrightarrow> q (ra_return_loan api h w) = q w"
  by (simp add: queue_reader_def)

end
