(* ===== verification/Types.thy ===== *)
theory Types
  imports Prelude
begin

section \<open>The data types on the wire\<close>

text \<open>
  \<open>AirEntity\<close> with its two nested structures and \<open>TestControl\<close>, as the generated classes
  of \<open>src/IDLs/generated\<close> declare them (the classes of \<open>IDLs_cyclone\<close> and \<open>IDLs_open\<close> have
  the same members and the same initial values, all zero). A \<open>float\<close> is kept as its 32
  bits, since no code of the repository computes with one; a \<open>char\<close> as its 8 bits.
  \<open>TestConfig\<close> and \<open>test_config\<close> are the plain structs of \<open>abstraction/ISubControl.h\<close> and
  \<open>core/common_defs.h\<close>.
\<close>

type_synonym float_bits = "32 word"
type_synonym c_char = "8 word"

record Attitude =
  pitch :: float_bits
  yaw :: float_bits
  roll :: float_bits

record MovementAirEntity =
  speed :: float_bits
  speed_target :: float_bits
  geographicHeading :: float_bits
  geographicHeading_target :: float_bits
  magneticHeading :: float_bits
  tmllf :: c_char
  onGround :: c_char
  missionName :: "c_char list"
  indicatedSpeed :: float_bits
  indicatedSpeed_target :: float_bits
  loadFactor :: float_bits
  verticalSpeed :: float_bits
  verticalSpeed_target :: float_bits
  groundSpeed :: float_bits
  groundSpeed_target :: float_bits
  throttle :: float_bits
  infiniteFuel :: bool
  initialFuel :: float_bits
  currentFuel :: float_bits
  fuelConsumption :: float_bits

record AirEntity =
  ent_id :: int
  entity_attitude :: Attitude
  movement :: MovementAirEntity
  commsActive :: c_char
  formationID :: int
  posInt_inseoFormation :: int
  isAutomaticTraffic :: c_char

record TestControl =
  tc_test_id :: int
  tc_start :: bool
  tc_expected_entities :: int
  tc_loan :: bool
  tc_reserve1 :: int
  tc_reserve2 :: int

definition Attitude_new :: Attitude where
  "Attitude_new = \<lparr>pitch = 0, yaw = 0, roll = 0\<rparr>"

definition MovementAirEntity_new :: MovementAirEntity where
  "MovementAirEntity_new = \<lparr>speed = 0, speed_target = 0, geographicHeading = 0,
     geographicHeading_target = 0, magneticHeading = 0, tmllf = 0, onGround = 0,
     missionName = replicate 32 0, indicatedSpeed = 0, indicatedSpeed_target = 0,
     loadFactor = 0, verticalSpeed = 0, verticalSpeed_target = 0, groundSpeed = 0,
     groundSpeed_target = 0, throttle = 0, infiniteFuel = False, initialFuel = 0,
     currentFuel = 0, fuelConsumption = 0\<rparr>"

definition AirEntity_new :: AirEntity where
  "AirEntity_new = \<lparr>ent_id = 0, entity_attitude = Attitude_new, movement = MovementAirEntity_new,
     commsActive = 0, formationID = 0, posInt_inseoFormation = 0, isAutomaticTraffic = 0\<rparr>"

definition TestControl_new :: TestControl where
  "TestControl_new = \<lparr>tc_test_id = 0, tc_start = False, tc_expected_entities = 0,
     tc_loan = False, tc_reserve1 = 0, tc_reserve2 = 0\<rparr>"

record TestConfig =
  testId :: int
  expectedEntities :: int
  cf_loan :: bool
  cf_active :: bool

definition TestConfig_new :: TestConfig where
  "TestConfig_new = \<lparr>testId = 0, expectedEntities = 0, cf_loan = False, cf_active = False\<rparr>"

datatype TestMode = DefaultMode | One_to_One_Pub | One_to_One_Sub

text \<open>The enum has an \<open>int\<close> behind it; \<open>(TestMode)mode\<close> keeps any number.\<close>

fun TestMode_int :: "TestMode \<Rightarrow> int" where
  "TestMode_int DefaultMode = 0"
| "TestMode_int One_to_One_Pub = 1"
| "TestMode_int One_to_One_Sub = 2"

definition TestMode_ToString :: "int \<Rightarrow> string" where
  "TestMode_ToString mode =
     (if mode = TestMode_int DefaultMode then ''DefaultMode''
      else if mode = TestMode_int One_to_One_Pub then ''One_to_One_Pub''
      else if mode = TestMode_int One_to_One_Sub then ''One_to_One_Sub''
      else ''Unknown'')"

record test_config =
  tcf_name :: string
  tcf_test_mode :: int
  tcf_message_count :: int
  tcf_test_count :: int
  tcf_logFile :: string
  tcf_manual_mode :: bool
  tcf_loan_mode :: bool
  tcf_listener_number :: int

definition test_config_new :: test_config where
  "test_config_new = \<lparr>tcf_name = ''default name'', tcf_test_mode = 0, tcf_message_count = 100,
     tcf_test_count = 10, tcf_logFile = ''output.log'', tcf_manual_mode = False,
     tcf_loan_mode = False, tcf_listener_number = 0\<rparr>"

end
