(* ===== verification/Loopback.thy ===== *)
theory Loopback
  imports Lifecycle Writer Types
begin

section \<open>A loopback middleware\<close>

text \<open>
  Concrete middleware values at which the properties about the parametric DDS calls can be
  evaluated: entities get increasing numbers, every call succeeds, a writer accepts and
  lends, and a reader is the list of its unread samples.
\<close>

definition loop_limits :: resource_limits where
  "loop_limits = \<lparr>rl_max_samples = 5000, rl_max_instances = 10, rl_max_samples_per_instance = 400,
     rl_allocated_samples = 100\<rparr>"

definition loop_qos :: endpoint_qos where
  "loop_qos = \<lparr>q_reliability = RELIABLE, q_max_blocking_time = (0, 100000000), q_history = KEEP_LAST,
     q_depth = 1, q_durability = VOLATILE, q_limits = loop_limits\<rparr>"

definition loop_participant_qos :: participant_qos where
  "loop_participant_qos = \<lparr>pq_name = '''', pq_lease_infinite = False, pq_use_builtin_transports = True,
     pq_user_transports = [], pq_user_data = [], pq_autoenable_created_entities = True,
     pq_properties = []\<rparr>"

definition loop_dds :: "nat dds_api" where
  "loop_dds = \<lparr>api_create = (\<lambda>c w. (Some w, w + 1)), api_call = (\<lambda>c w. (RETCODE_OK, w)),
     api_participant_qos = loop_participant_qos,
     api_udp_descriptor = \<lparr>udp_sendBufferSize = 0, udp_maxMessageSize = 65500, udp_non_blocking_send = False\<rparr>,
     api_writer_qos = loop_qos, api_reader_qos = loop_qos\<rparr>"

definition loop_start :: "nat dds" where
  "loop_start = \<lparr>dds_world = 0, dds_trace = []\<rparr>"

definition loop_writer :: "'m \<Rightarrow> ('m, 'w) writer_api" where
  "loop_writer d = \<lparr>wa_write = (\<lambda>h m w. (RETCODE_OK, w)), wa_loan_sample = (\<lambda>h w. (RETCODE_OK, Some d, w)),
     wa_discard_loan = (\<lambda>h w. (RETCODE_OK, w))\<rparr>"

definition loop_reader :: "'m \<Rightarrow> ('m, ('m \<times> bool) list) reader_api" where
  "loop_reader d = \<lparr>ra_take_next_sample = (\<lambda>h w. case w of [] \<Rightarrow> (RETCODE_NO_DATA, (d, False), [])
       | x # xs \<Rightarrow> (RETCODE_OK, x, xs)),
     ra_take = (\<lambda>h n w. if w = [] then (RETCODE_NO_DATA, [], []) else (RETCODE_OK, take n w, drop n w)),
     ra_return_loan = (\<lambda>h w. w)\<rparr>"

lemma loop_reader_queue: "queue_reader (loop_reader d) h (\<lambda>w. w)"
  unfolding queue_reader_def by (auto simp: loop_reader_def split: list.split)

end
