(* ===== verification/FastEntities.thy ===== *)
theory FastEntities
  imports Lifecycle Loopback
begin

section \<open>Fast DDS: init() and destructor of the four endpoint classes\<close>

text \<open>
  \<open>src/implementation/fast_dds\<close>: \<open>FastPub.hpp\<close>, \<open>FastPubControl.hpp\<close>, \<open>FastSub.hpp\<close> and
  \<open>FastSubControl.hpp\<close>. Each \<open>init()\<close> creates a participant, registers the type,
  creates topic, publisher or subscriber, and writer or reader, and returns false at the
  first null pointer; the destructors delete what is not null. The messages on the
  console are left out. \<open>FastPub\<close>'s print of the serialized size has no effect either.
\<close>

subsection \<open>FastPub\<close>

definition udp_65500 :: "'w dds_api \<Rightarrow> udp_descriptor" where
  "udp_65500 api = (api_udp_descriptor api)\<lparr>udp_sendBufferSize := 65500, udp_maxMessageSize := 65500\<rparr>"

definition FastPub_participant_qos :: "'w dds_api \<Rightarrow> participant_qos" where
  "FastPub_participant_qos api = (let q = api_participant_qos api in
     q\<lparr>pq_name := ''Participant_publisher'', pq_lease_infinite := True,
       pq_use_builtin_transports := False,
       pq_user_transports := pq_user_transports q @ [(udp_65500 api)\<lparr>udp_non_blocking_send := True\<rparr>]\<rparr>)"

definition FastPub_writer_qos :: "'w dds_api \<Rightarrow> endpoint_qos" where
  "FastPub_writer_qos api = (let q = api_writer_qos api; l = q_limits q in
     q\<lparr>q_reliability := BEST_EFFORT, q_history := KEEP_LAST, q_depth := 1, q_durability := VOLATILE,
       q_limits := l\<lparr>rl_max_instances := 200, rl_max_samples_per_instance := 1,
         rl_max_samples := 200 * 1, rl_allocated_samples := 200 * 1\<rparr>\<rparr>)"

definition FastPub_init :: "'w dds_api \<Rightarrow> entity_ptrs \<Rightarrow> 'w dds \<Rightarrow> (bool \<times> entity_ptrs \<times> 'w dds) res" where
  "FastPub_init api p s =
     (let (d, s) = dds_create api (CreateParticipant 0 (FastPub_participant_qos api)) s;
          p = p\<lparr>p_participant := d\<rparr>
      in case d of None \<Rightarrow> Inr (False, p, s) | Some part \<Rightarrow>
     (let (_, s) = dds_call api (RegisterType part ''AirEntity'') s;
          (t, s) = dds_create api (CreateTopic part ''AirEntityTopic'' ''AirEntity'') s;
          p = p\<lparr>p_topic := t\<rparr>
      in case t of None \<Rightarrow> Inr (False, p, s) | Some tp \<Rightarrow>
     (let (g, s) = dds_create api (CreatePublisher part) s;
          p = p\<lparr>p_group := g\<rparr>
      in case g of None \<Rightarrow> Inr (False, p, s) | Some pub \<Rightarrow>
     (let (w, s) = dds_create api (CreateDataWriter pub tp (FastPub_writer_qos api)) s;
          p = p\<lparr>p_endpoint := w\<rparr>
      in case w of None \<Rightarrow> Inr (False, p, s) | Some _ \<Rightarrow> Inr (True, p, s)))))"

definition FastPub_destroy :: "'w dds_api \<Rightarrow> entity_ptrs \<Rightarrow> 'w dds \<Rightarrow> 'w dds res" where
  "FastPub_destroy api p s =
     rbind (delete_if api ''publisher_'' DeleteDataWriter (p_group p) (p_endpoint p) s) (\<lambda>s.
     rbind (delete_if api ''participant_'' DeletePublisher (p_participant p) (p_group p) s) (\<lambda>s.
     rbind (delete_if api ''participant_'' DeleteTopic (p_participant p) (p_topic p) s) (\<lambda>s.
     Inr (snd (dds_call api (DeleteParticipant (p_participant p)) s)))))"

subsection \<open>FastPubControl\<close>

text \<open>
  \<open>publisher_->get_qos()\<close> and \<open>set_qos\<close> come before the null check of \<open>publisher_\<close>.
\<close>

definition FastPubControl_participant_qos :: "'w dds_api \<Rightarrow> participant_qos" where
  "FastPubControl_participant_qos api =
     (api_participant_qos api)\<lparr>pq_name := ''CtrlPubParticipant'', pq_lease_infinite := True\<rparr>"

definition FastPubControl_writer_qos :: "'w dds_api \<Rightarrow> endpoint_qos" where
  "FastPubControl_writer_qos api = (let q = api_writer_qos api; l = q_limits q in
     q\<lparr>q_reliability := RELIABLE, q_max_blocking_time := (5, 0), q_history := KEEP_LAST,
       q_depth := 1000, q_durability := TRANSIENT_LOCAL,
       q_limits := l\<lparr>rl_max_instances := -1, rl_max_samples_per_instance := -1,
         rl_max_samples := -1, rl_allocated_samples := 1001\<rparr>\<rparr>)"

definition FastPubControl_init :: "'w dds_api \<Rightarrow> entity_ptrs \<Rightarrow> 'w dds \<Rightarrow> (bool \<times> entity_ptrs \<times> 'w dds) res" where
  "FastPubControl_init api p s =
     (let (d, s) = dds_create api (CreateParticipant 0 (FastPubControl_participant_qos api)) s;
          p = p\<lparr>p_participant := d\<rparr>
      in case d of None \<Rightarrow> Inr (False, p, s) | Some part \<Rightarrow>
     (let (_, s) = dds_call api (RegisterType part ''TestControl'') s;
          (t, s) = dds_create api (CreateTopic part ''TestControlTopic'' ''TestControl'') s;
          p = p\<lparr>p_topic := t\<rparr>
      in case t of None \<Rightarrow> Inr (False, p, s) | Some tp \<Rightarrow>
     (let (g, s) = dds_create api (CreatePublisher part) s;
          p = p\<lparr>p_group := g\<rparr>
      in rbind (deref ''publisher_'' g) (\<lambda>pub.
     (let (_, s) = dds_call api (SetPublisherQos pub) s;
          (w, s) = dds_create api (CreateDataWriter pub tp (FastPubControl_writer_qos api)) s;
          p = p\<lparr>p_endpoint := w\<rparr>
      in case w of None \<Rightarrow> Inr (False, p, s) | Some _ \<Rightarrow> Inr (True, p, s))))))"

definition FastPubControl_destroy :: "'w dds_api \<Rightarrow> entity_ptrs \<Rightarrow> 'w dds \<Rightarrow> 'w dds res" where
  "FastPubControl_destroy api p s =
     rbind (delete_if api ''publisher_'' DeleteDataWriter (p_group p) (p_endpoint p) s) (\<lambda>s.
     rbind (delete_if api ''participant_'' DeletePublisher (p_participant p) (p_group p) s) (\<lambda>s.
     rbind (delete_if api ''participant_'' DeleteTopic (p_participant p) (p_topic p) s) (\<lambda>s.
     Inr (if p_participant p \<noteq> None
          then snd (dds_call api (DeleteParticipant (p_participant p)) s) else s))))"

subsection \<open>FastSub\<close>

definition FastSub_participant_qos :: "'w dds_api \<Rightarrow> participant_qos" where
  "FastSub_participant_qos api = (let q = api_participant_qos api in
     q\<lparr>pq_lease_infinite := True, pq_name := ''Participant_subscriber'',
       pq_use_builtin_transports := False,
       pq_user_transports := pq_user_transports q @ [udp_65500 api]\<rparr>)"

definition FastSub_reader_qos :: "'w dds_api \<Rightarrow> endpoint_qos" where
  "FastSub_reader_qos api = (let q = api_reader_qos api; l = q_limits q in
     q\<lparr>q_reliability := BEST_EFFORT, q_history := KEEP_LAST, q_depth := 1,
       q_limits := l\<lparr>rl_max_instances := 200, rl_max_samples_per_instance := 1,
         rl_max_samples := 200 * 1, rl_allocated_samples := 200 * 1\<rparr>\<rparr>)"

text \<open>The overload \<open>init(SubscriberQos&, DataReaderQos&)\<close>; the subscriber's QoS is not modelled.\<close>

definition FastSub_init_qos ::
    "endpoint_qos \<Rightarrow> 'w dds_api \<Rightarrow> entity_ptrs \<Rightarrow> 'w dds \<Rightarrow> (bool \<times> entity_ptrs \<times> 'w dds) res" where
  "FastSub_init_qos rqos api p s =
     (let (d, s) = dds_create api (CreateParticipant 0 (FastSub_participant_qos api)) s;
          p = p\<lparr>p_participant := d\<rparr>
      in case d of None \<Rightarrow> Inr (False, p, s) | Some part \<Rightarrow>
     (let (_, s) = dds_call api (RegisterType part ''AirEntity'') s;
          (t, s) = dds_create api (CreateTopic part ''AirEntityTopic'' ''AirEntity'') s;
          p = p\<lparr>p_topic := t\<rparr>
      in case t of None \<Rightarrow> Inr (False, p, s) | Some tp \<Rightarrow>
     (let (g, s) = dds_create api (CreateSubscriber part) s;
          p = p\<lparr>p_group := g\<rparr>
      in case g of None \<Rightarrow> Inr (False, p, s) | Some sub \<Rightarrow>
     (let (r, s) = dds_create api (CreateDataReader sub tp rqos) s;
          p = p\<lparr>p_endpoint := r\<rparr>
      in case r of None \<Rightarrow> Inr (False, p, s) | Some _ \<Rightarrow> Inr (True, p, s)))))"

definition FastSub_init :: "'w dds_api \<Rightarrow> entity_ptrs \<Rightarrow> 'w dds \<Rightarrow> (bool \<times> entity_ptrs \<times> 'w dds) res" where
  "FastSub_init api p s = FastSub_init_qos (FastSub_reader_qos api) api p s"

definition FastSub_destroy :: "'w dds_api \<Rightarrow> entity_ptrs \<Rightarrow> 'w dds \<Rightarrow> 'w dds res" where
  "FastSub_destroy api p s =
     rbind (delete_if api ''subscriber_'' DeleteDataReader (p_group p) (p_endpoint p) s) (\<lambda>s.
     rbind (delete_if api ''participant_'' DeleteTopic (p_participant p) (p_topic p) s) (\<lambda>s.
     rbind (delete_if api ''participant_'' DeleteSubscriber (p_participant p) (p_group p) s) (\<lambda>s.
     Inr (snd (dds_call api (DeleteParticipant (p_participant p)) s)))))"

subsection \<open>FastSubControl\<close>

definition FastSubControl_participant_qos :: "'w dds_api \<Rightarrow> participant_qos" where
  "FastSubControl_participant_qos api =
     (api_participant_qos api)\<lparr>pq_name := ''CtrlSubParticipant'', pq_lease_infinite := True\<rparr>"

definition FastSubControl_reader_qos :: "'w dds_api \<Rightarrow> endpoint_qos" where
  "FastSubControl_reader_qos api = (let q = api_reader_qos api; l = q_limits q in
     q\<lparr>q_reliability := RELIABLE, q_durability := TRANSIENT_LOCAL, q_history := KEEP_LAST,
       q_depth := 1001,
       q_limits := l\<lparr>rl_max_instances := -1, rl_max_samples_per_instance := -1,
         rl_max_samples := -1, rl_allocated_samples := 1001\<rparr>\<rparr>)"

definition FastSubControl_init :: "'w dds_api \<Rightarrow> entity_ptrs \<Rightarrow> 'w dds \<Rightarrow> (bool \<times> entity_ptrs \<times> 'w dds) res" where
  "FastSubControl_init api p s =
     (let (d, s) = dds_create api (CreateParticipant 0 (FastSubControl_participant_qos api)) s;
          p = p\<lparr>p_participant := d\<rparr>
      in case d of None \<Rightarrow> Inr (False, p, s) | Some part \<Rightarrow>
     (let (_, s) = dds_call api (RegisterType part ''TestControl'') s;
          (t, s) = dds_create api (CreateTopic part ''TestControlTopic'' ''TestControl'') s;
          p = p\<lparr>p_topic := t\<rparr>
      in case t of None \<Rightarrow> Inr (False, p, s) | Some tp \<Rightarrow>
     (let (g, s) = dds_create api (CreateSubscriber part) s;
          p = p\<lparr>p_group := g\<rparr>
      in case g of None \<Rightarrow> Inr (False, p, s) | Some sub \<Rightarrow>
     (let (r, s) = dds_create api (CreateDataReader sub tp (FastSubControl_reader_qos api)) s;
          p = p\<lparr>p_endpoint := r\<rparr>
      in case r of None \<Rightarrow> Inr (False, p, s) | Some _ \<Rightarrow> Inr (True, p, s)))))"

definition FastSubControl_destroy :: "'w dds_api \<Rightarrow> entity_ptrs \<Rightarrow> 'w dds \<Rightarrow> 'w dds res" where
  "FastSubControl_destroy api p s =
     rbind (delete_if api ''subscriber_'' DeleteDataReader (p_group p) (p_endpoint p) s) (\<lambda>s.
     rbind (delete_if api ''participant_'' DeleteSubscriber (p_participant p) (p_group p) s) (\<lambda>s.
     rbind (delete_if api ''participant_'' DeleteTopic (p_participant p) (p_topic p) s) (\<lambda>s.
     Inr (if p_participant p \<noteq> None
          then snd (dds_call api (DeleteParticipant (p_participant p)) s) else s))))"

subsection \<open>The four classes implement the endpoint interface\<close>

lemmas entity_defs = dds_create_def dds_call_def left_over_def delete_if_def deref_def
  live_of_def chain_def no_ptrs_def delete_entity_def

interpretation fast_pub: dds_endpoint FastPub_init FastPub_destroy PublisherK WriterK "\<lambda>p. p = no_ptrs" True
  by unfold_locales
    (auto simp: FastPub_init_def FastPub_destroy_def entity_defs Let_def
      split: prod.splits option.splits)

interpretation fast_pub_control: dds_endpoint FastPubControl_init FastPubControl_destroy PublisherK WriterK "\<lambda>p. p = no_ptrs" True
  by unfold_locales
    (auto simp: FastPubControl_init_def FastPubControl_destroy_def entity_defs Let_def
      split: prod.splits option.splits)

interpretation fast_sub: dds_endpoint FastSub_init FastSub_destroy SubscriberK ReaderK "\<lambda>p. p = no_ptrs" True
  by unfold_locales
    (auto simp: FastSub_init_def FastSub_init_qos_def FastSub_destroy_def entity_defs Let_def
      split: prod.splits option.splits)

interpretation fast_sub_control: dds_endpoint FastSubControl_init FastSubControl_destroy SubscriberK ReaderK "\<lambda>p. p = no_ptrs" True
  by unfold_locales
    (auto simp: FastSubControl_init_def FastSubControl_destroy_def entity_defs Let_def
      split: prod.splits option.splits)

lemma fast_pub_balanced:
  "\<exists>b p s' t. FastPub_init api no_ptrs s = Inr (b, p, s') \<and> (b \<longleftrightarrow> p_endpoint p \<noteq> None)
     \<and> FastPub_destroy api p s' = Inr t \<and> lifecycle (calls_since s t) [] = Some []"
proof -
  have "\<exists>r. FastPub_init api no_ptrs s = Inr r \<and> (fst r \<longleftrightarrow> p_endpoint (fst (snd r)) \<noteq> None)"
    by (simp add: FastPub_init_def Let_def no_ptrs_def split: prod.splits option.splits)
  then obtain b p s' where i: "FastPub_init api no_ptrs s = Inr (b, p, s')" "b \<longleftrightarrow> p_endpoint p \<noteq> None"
    by auto
  from fast_pub.init_destroy_balanced[OF refl i(1)] i show ?thesis by (auto simp: live_of_def no_ptrs_def left_over_def)
qed

lemma fast_sub_balanced:
  "\<exists>b p s' t. FastSub_init api no_ptrs s = Inr (b, p, s') \<and> (b \<longleftrightarrow> p_endpoint p \<noteq> None)
     \<and> FastSub_destroy api p s' = Inr t \<and> lifecycle (calls_since s t) [] = Some []"
proof -
  have "\<exists>r. FastSub_init api no_ptrs s = Inr r \<and> (fst r \<longleftrightarrow> p_endpoint (fst (snd r)) \<noteq> None)"
    by (simp add: FastSub_init_def FastSub_init_qos_def Let_def no_ptrs_def split: prod.splits option.splits)
  then obtain b p s' where i: "FastSub_init api no_ptrs s = Inr (b, p, s')" "b \<longleftrightarrow> p_endpoint p \<noteq> None"
    by auto
  from fast_sub.init_destroy_balanced[OF refl i(1)] i show ?thesis by (auto simp: live_of_def no_ptrs_def left_over_def)
qed

lemma fast_sub_control_balanced:
  "\<exists>b p s' t. FastSubControl_init api no_ptrs s = Inr (b, p, s') \<and> (b \<longleftrightarrow> p_endpoint p \<noteq> None)
     \<and> FastSubControl_destroy api p s' = Inr t \<and> lifecycle (calls_since s t) [] = Some []"
proof -
  have "\<exists>r. FastSubControl_init api no_ptrs s = Inr r \<and> (fst r \<longleftrightarrow> p_endpoint (fst (snd r)) \<noteq> None)"
    by (simp add: FastSubControl_init_def Let_def no_ptrs_def split: prod.splits option.splits)
  then obtain b p s' where i: "FastSubControl_init api no_ptrs s = Inr (b, p, s')" "b \<longleftrightarrow> p_endpoint p \<noteq> None"
    by auto
  from fast_sub_control.init_destroy_balanced[OF refl i(1)] i show ?thesis by (auto simp: live_of_def no_ptrs_def left_over_def)
qed

subsection \<open>Properties\<close>

text \<open>
  C35: \<open>FastPub\<close>, \<open>FastSub\<close> and \<open>FastSubControl\<close>: \<open>init\<close> on a new object answers true exactly when
  all its entities exist, and wherever it stops, the destructor deletes what was created, each
  entity once and after what was created from it; nothing is left.
\<close>

theorem fast_lifecycle:
  "(\<exists>b p s' t. FastPub_init api no_ptrs s = Inr (b, p, s') \<and> (b \<longleftrightarrow> p_endpoint p \<noteq> None)
      \<and> FastPub_destroy api p s' = Inr t \<and> lifecycle (calls_since s t) [] = Some [])
   \<and> (\<exists>b p s' t. FastSub_init api no_ptrs s = Inr (b, p, s') \<and> (b \<longleftrightarrow> p_endpoint p \<noteq> None)
      \<and> FastSub_destroy api p s' = Inr t \<and> lifecycle (calls_since s t) [] = Some [])
   \<and> (\<exists>b p s' t. FastSubControl_init api no_ptrs s = Inr (b, p, s') \<and> (b \<longleftrightarrow> p_endpoint p \<noteq> None)
      \<and> FastSubControl_destroy api p s' = Inr t \<and> lifecycle (calls_since s t) [] = Some [])"
  by (intro conjI fast_pub_balanced fast_sub_balanced fast_sub_control_balanced)

text \<open>
  \<open>FastPubControl\<close>: either the publisher could not be created, and \<open>init\<close> goes through
  the null pointer before it checks it, or \<open>init\<close> and the destructor are balanced.
\<close>

lemma fast_pub_control_lifecycle:
  "FastPubControl_init api no_ptrs s = Inl (NullDeref ''publisher_'')
   \<or> (\<exists>b p s' t. FastPubControl_init api no_ptrs s = Inr (b, p, s') \<and> (b \<longleftrightarrow> p_endpoint p \<noteq> None)
     \<and> FastPubControl_destroy api p s' = Inr t \<and> lifecycle (calls_since s t) [] = Some [])"
proof (cases "FastPubControl_init api no_ptrs s")
  case (Inl f)
  then show ?thesis
    by (auto simp: FastPubControl_init_def Let_def no_ptrs_def deref_def split: prod.splits option.splits)
next
  case (Inr r)
  then obtain b p s' where i: "FastPubControl_init api no_ptrs s = Inr (b, p, s')" by (cases r) auto
  then have "b \<longleftrightarrow> p_endpoint p \<noteq> None"
    by (auto simp: FastPubControl_init_def Let_def no_ptrs_def deref_def split: prod.splits option.splits)
  with fast_pub_control.init_destroy_balanced[OF refl i] i show ?thesis
    by (auto simp: live_of_def no_ptrs_def left_over_def)
qed

text \<open>
  The QoS of the two sides match. What the control subscriber requests, reliable and
  transient local, is what the control publisher offers; the data reader requests the best
  effort that the data writer offers, and matches as long as the default durability of a
  reader is volatile. The resource limits of all four are consistent.
\<close>

lemma fast_qos_matches:
  assumes "q_durability (api_reader_qos api) = VOLATILE"
  shows "rxo_compatible (FastPubControl_writer_qos api) (FastSubControl_reader_qos api)
    \<and> rxo_compatible (FastPub_writer_qos api) (FastSub_reader_qos api)
    \<and> limits_consistent (FastPub_writer_qos api) \<and> limits_consistent (FastSub_reader_qos api)
    \<and> limits_consistent (FastPubControl_writer_qos api) \<and> limits_consistent (FastSubControl_reader_qos api)"
  using assms
  by (simp add: rxo_compatible_def limits_consistent_def FastPubControl_writer_qos_def
    FastSubControl_reader_qos_def FastPub_writer_qos_def FastSub_reader_qos_def Let_def
    less_eq_durability_def)

end
