(* ===== verification/Interfaces.thy ===== *)
theory Interfaces
  imports Types
begin

section \<open>The abstraction layer: IPub, IPubControl, ISub, ISubControl\<close>

text \<open>
  \<open>src/stress_test/abstraction\<close> declares what the tests use of a DDS implementation. An
  interface class is a record of its virtual functions over the object's state, the way
  the vtable is; the data members of the base class (\<open>messages_per_cycle\<close>,
  \<open>expected_messages_cycle\<close>) are read and written by the tests directly, past any virtual
  call, so they come as a getter and a setter.

  A locale states what a test relies on. \<open>ipub\<close>: \<open>publish\<close> sends the entity exactly when
  it returns true. \<open>ipub_loan\<close>: in addition \<open>publish_loan(n)\<close> sends \<open>n\<close> entities when it
  returns true and fewer when it returns false. \<open>ipub_control\<close>: a start or stop command
  is handed to the middleware once, whatever is returned. \<open>isub\<close> and \<open>isub_counting\<close>: see
  below. The implementations interpret them in their own theories.
\<close>

subsection \<open>IPub.h\<close>

record ('t, 'p) IPub =
  ip_init :: "'p \<Rightarrow> (bool \<times> 'p) res"
  ip_publish :: "'t \<Rightarrow> 'p \<Rightarrow> (bool \<times> 'p) res"
  ip_publish_loan :: "nat \<Rightarrow> 'p \<Rightarrow> (bool \<times> 'p) res"
  ip_set_expected_subs :: "int \<Rightarrow> 'p \<Rightarrow> 'p"
  ip_is_matched :: "'p \<Rightarrow> bool \<times> 'p"
  ip_messages_per_cycle :: "'p \<Rightarrow> int"
  ip_set_messages_per_cycle :: "int \<Rightarrow> 'p \<Rightarrow> 'p"

locale ipub =
  fixes P :: "('t, 'p) IPub"
    and sent :: "'p \<Rightarrow> 't list"
  assumes publish_true: "ip_publish P x p = Inr (True, q) \<Longrightarrow> sent q = sent p @ [x]"
    and publish_false: "ip_publish P x p = Inr (False, q) \<Longrightarrow> sent q = sent p"
    and publish_per_cycle: "ip_publish P x p = Inr (b, q) \<Longrightarrow>
      ip_messages_per_cycle P q = ip_messages_per_cycle P p"
    and matched_sent: "sent (snd (ip_is_matched P p)) = sent p"
    and matched_per_cycle:
      "ip_messages_per_cycle P (snd (ip_is_matched P p)) = ip_messages_per_cycle P p"
    and matched_again: "fst (ip_is_matched P (snd (ip_is_matched P p))) = fst (ip_is_matched P p)"
    and per_cycle_set: "ip_messages_per_cycle P (ip_set_messages_per_cycle P n p) = n"
    and per_cycle_sent: "sent (ip_set_messages_per_cycle P n p) = sent p"
    and expected_per_cycle:
      "ip_messages_per_cycle P (ip_set_expected_subs P n p) = ip_messages_per_cycle P p"
    and expected_sent: "sent (ip_set_expected_subs P n p) = sent p"
    and init_sent: "ip_init P p = Inr (b, q) \<Longrightarrow> sent q = sent p"
    and init_per_cycle: "ip_init P p = Inr (b, q) \<Longrightarrow>
      ip_messages_per_cycle P q = ip_messages_per_cycle P p"
    and loan_per_cycle: "ip_publish_loan P count p = Inr (b, q) \<Longrightarrow>
      ip_messages_per_cycle P q = ip_messages_per_cycle P p"

locale ipub_loan = ipub +
  assumes loan_true: "ip_publish_loan P n p = Inr (True, q) \<Longrightarrow>
      \<exists>xs. length xs = n \<and> sent q = sent p @ xs"
    and loan_false: "ip_publish_loan P n p = Inr (False, q) \<Longrightarrow>
      \<exists>xs. length xs < n \<and> sent q = sent p @ xs"

subsection \<open>IPubControl.h\<close>

record 'c IPubControl =
  ic_init :: "'c \<Rightarrow> (bool \<times> 'c) res"
  ic_publish_start :: "int \<Rightarrow> int \<Rightarrow> bool \<Rightarrow> 'c \<Rightarrow> (bool \<times> 'c) res"
  ic_publish_stop :: "int \<Rightarrow> 'c \<Rightarrow> (bool \<times> 'c) res"
  ic_is_matched :: "'c \<Rightarrow> bool \<times> 'c"

definition start_msg :: "int \<Rightarrow> int \<Rightarrow> bool \<Rightarrow> TestControl" where
  "start_msg tid expected loan = TestControl_new\<lparr>tc_test_id := tid, tc_start := True,
     tc_expected_entities := expected, tc_loan := loan\<rparr>"

definition stop_msg :: "int \<Rightarrow> TestControl" where
  "stop_msg tid = TestControl_new\<lparr>tc_test_id := tid, tc_start := False\<rparr>"

locale ipub_control =
  fixes C :: "'c IPubControl"
    and commands :: "'c \<Rightarrow> TestControl list"
  assumes start_commands: "ic_publish_start C t e l c = Inr (b, d) \<Longrightarrow>
      commands d = commands c @ [start_msg t e l]"
    and stop_commands: "ic_publish_stop C t c = Inr (b, d) \<Longrightarrow> commands d = commands c @ [stop_msg t]"
    and ctl_matched_commands: "commands (snd (ic_is_matched C c)) = commands c"
    and ctl_init_commands: "ic_init C c = Inr (b, d) \<Longrightarrow> commands d = commands c"

subsection \<open>ISub.h and ISubControl.h\<close>

text \<open>
  \<open>run_without_loan(int& lost_samples)\<close> gets the caller's counter and hands it back.
  Draining the reader may go on for ever, hence \<open>comp\<close>.
\<close>

record 's ISub =
  is_init :: "'s \<Rightarrow> (bool \<times> 's) res"
  is_run_without_loan :: "int \<Rightarrow> 's \<Rightarrow> (bool \<times> int \<times> 's) comp"
  is_run_with_loan :: "int \<Rightarrow> 's \<Rightarrow> (bool \<times> int \<times> 's) comp"
  is_reset_samples :: "'s \<Rightarrow> 's"
  is_is_match :: "'s \<Rightarrow> bool"
  is_expected_messages_cycle :: "'s \<Rightarrow> int"
  is_set_expected_messages_cycle :: "int \<Rightarrow> 's \<Rightarrow> 's"

record 'c ISubControl =
  sc_init :: "'c \<Rightarrow> (bool \<times> 'c) res"
  sc_poll_control :: "TestConfig \<Rightarrow> 'c \<Rightarrow> (bool \<times> TestConfig \<times> 'c) comp"
  sc_has_match :: "'c \<Rightarrow> bool"

text \<open>
  \<open>isub\<close>: what every implementation keeps. \<open>isub_counting\<close>: a run returns true exactly when
  as many different entities arrived as were announced through the interface, and
  otherwise reports how many are missing; \<open>ids\<close> are the entities the object counts.
\<close>

locale isub =
  fixes S :: "'s ISub"
  assumes expected_set: "is_expected_messages_cycle S (is_set_expected_messages_cycle S n s) = n"
    and reset_expected: "is_expected_messages_cycle S (is_reset_samples S s) = is_expected_messages_cycle S s"
    and run_expected: "is_run_without_loan S k s = Some (Inr (b, l, t)) \<Longrightarrow>
      is_expected_messages_cycle S t = is_expected_messages_cycle S s"
    and run_loan_expected: "is_run_with_loan S k s = Some (Inr (b, l, t)) \<Longrightarrow>
      is_expected_messages_cycle S t = is_expected_messages_cycle S s"

locale isub_counting = isub +
  fixes ids :: "'s \<Rightarrow> int set"
  assumes reset_ids: "ids (is_reset_samples S s) = {}"
    and run_counts: "is_i32 (is_expected_messages_cycle S s) \<Longrightarrow>
      is_run_without_loan S k s = Some (Inr (b, l, t)) \<Longrightarrow> card (ids t) < 2 ^ 31 \<Longrightarrow>
      (b \<longleftrightarrow> int (card (ids t)) = is_expected_messages_cycle S s)
      \<and> l = (if b then k else i32 (is_expected_messages_cycle S s - int (card (ids t))))"
    and run_loan_counts: "is_i32 (is_expected_messages_cycle S s) \<Longrightarrow>
      is_run_with_loan S k s = Some (Inr (b, l, t)) \<Longrightarrow> card (ids t) < 2 ^ 31 \<Longrightarrow>
      (b \<longleftrightarrow> int (card (ids t)) = is_expected_messages_cycle S s)
      \<and> l = (if b then k else i32 (is_expected_messages_cycle S s - int (card (ids t))))"
begin

lemma run_missing:
  assumes "is_i32 (is_expected_messages_cycle S s)" "0 \<le> is_expected_messages_cycle S s"
    and "is_run_without_loan S k s = Some (Inr (False, l, t))" and "card (ids t) < 2 ^ 31"
  shows "l = is_expected_messages_cycle S s - int (card (ids t)) \<and> l \<noteq> 0"
proof -
  let ?e = "is_expected_messages_cycle S s"
  have "is_i32 (?e - int (card (ids t)))" using assms(1,2,4) by (simp add: is_i32_def)
  with run_counts[OF assms(1,3,4)] show ?thesis by (simp add: i32_id)
qed

end

end
