(* ===== verification/FastPub.thy ===== *)
theory FastPub
  imports FastEntities Interfaces Loopback
begin

section \<open>FastPub: the Fast DDS publisher of entities\<close>

text \<open>
  \<open>src/implementation/fast_dds/FastPub.hpp\<close>. The object keeps its entity pointers, the
  number of matched readers (written by the listener), its own \<open>messages_per_cycle\<close>, which
  hides the one inherited from \<open>IPub\<close>, and the counter of loaned entities. Its \<open>init\<close> and
  destructor are in \<open>FastEntities\<close>.
\<close>

record ('w, 'e) FastPub =
  fp_base_messages_per_cycle :: int
  fp_messages_per_cycle :: int
  fp_ptrs :: entity_ptrs
  fp_matched :: int
  fp_current_id :: int
  fp_min_subs :: int
  fp_prev_matched :: int
  fp_dds :: "'e dds"
  fp_writer :: "(AirEntity, 'w) writer_state"

definition FastPub_new :: "'e \<Rightarrow> 'w \<Rightarrow> ('w, 'e) FastPub" where
  "FastPub_new e w = \<lparr>fp_base_messages_per_cycle = 0, fp_messages_per_cycle = 1, fp_ptrs = no_ptrs,
     fp_matched = 0, fp_current_id = 0, fp_min_subs = 0, fp_prev_matched = -1,
     fp_dds = \<lparr>dds_world = e, dds_trace = []\<rparr>, fp_writer = \<lparr>w_world = w, w_log = []\<rparr>\<rparr>"

text \<open>The listener gets the change and the total of the match status.\<close>

definition FastPub_on_publication_matched :: "int \<Rightarrow> int \<Rightarrow> ('w, 'e) FastPub \<Rightarrow> ('w, 'e) FastPub" where
  "FastPub_on_publication_matched current_count_change total_count p =
     (if current_count_change = 1 then p\<lparr>fp_matched := total_count\<rparr>
      else if current_count_change = -1 then p\<lparr>fp_matched := total_count\<rparr>
      else p)"

definition FastPub_run_init :: "'e dds_api \<Rightarrow> ('w, 'e) FastPub \<Rightarrow> (bool \<times> ('w, 'e) FastPub) res" where
  "FastPub_run_init api p = rbind (FastPub_init api (fp_ptrs p) (fp_dds p))
     (\<lambda>(b, ptrs, d). Inr (b, p\<lparr>fp_ptrs := ptrs, fp_dds := d\<rparr>))"

definition FastPub_set_expected_subs :: "int \<Rightarrow> ('w, 'e) FastPub \<Rightarrow> ('w, 'e) FastPub" where
  "FastPub_set_expected_subs listeners p = p\<lparr>fp_min_subs := listeners\<rparr>"

definition FastPub_is_matched :: "('w, 'e) FastPub \<Rightarrow> bool \<times> ('w, 'e) FastPub" where
  "FastPub_is_matched p =
     (let p = (if fp_prev_matched p \<noteq> fp_matched p \<and> fp_matched p < fp_min_subs p
               then p\<lparr>fp_prev_matched := fp_matched p\<rparr> else p)
      in (fp_matched p > 0 \<and> fp_matched p \<ge> fp_min_subs p, p))"

definition FastPub_publish :: "(AirEntity, 'w) writer_api \<Rightarrow> AirEntity \<Rightarrow> ('w, 'e) FastPub
    \<Rightarrow> (bool \<times> ('w, 'e) FastPub) res" where
  "FastPub_publish api entity p =
     rbind (deref ''writer_'' (p_endpoint (fp_ptrs p))) (\<lambda>h.
       let (ret, s) = w_write api h entity (fp_writer p)
       in Inr (ret = RETCODE_OK, p\<lparr>fp_writer := s\<rparr>))"

text \<open>
  One pass of the loop per loaned sample: borrow, set the id, write; a failed write gives
  the loan back. The loop's \<open>i\<close> counts up to \<open>count\<close>; the argument is what is left.
\<close>

fun FastPub_publish_loan :: "(AirEntity, 'w) writer_api \<Rightarrow> nat \<Rightarrow> ('w, 'e) FastPub
    \<Rightarrow> (bool \<times> ('w, 'e) FastPub) res" where
  "FastPub_publish_loan api 0 p = Inr (True, p)"
| "FastPub_publish_loan api (Suc n) p =
     rbind (deref ''writer_'' (p_endpoint (fp_ptrs p))) (\<lambda>h.
       let (ret, buffer_ptr, s) = w_loan_sample api h (fp_writer p);
           p = p\<lparr>fp_writer := s\<rparr>
       in if ret \<noteq> RETCODE_OK then Inr (False, p)
          else case buffer_ptr of None \<Rightarrow> Inl (NullDeref ''entity_sample'')
          | Some sample \<Rightarrow>
            let entity_sample = sample\<lparr>ent_id := fp_current_id p\<rparr>;
                p = p\<lparr>fp_current_id := i32 (fp_current_id p + 1)\<rparr>;
                (ret, s) = w_write api h entity_sample (fp_writer p);
                p = p\<lparr>fp_writer := s\<rparr>
            in if ret \<noteq> RETCODE_OK
               then let (_, s) = w_discard_loan api h (fp_writer p)
                    in Inr (False, p\<lparr>fp_writer := s\<rparr>)
               else FastPub_publish_loan api n p)"

definition FastPub_IPub :: "'e dds_api \<Rightarrow> (AirEntity, 'w) writer_api
    \<Rightarrow> (AirEntity, ('w, 'e) FastPub) IPub" where
  "FastPub_IPub eapi api = \<lparr>ip_init = FastPub_run_init eapi,
     ip_publish = FastPub_publish api, ip_publish_loan = FastPub_publish_loan api,
     ip_set_expected_subs = FastPub_set_expected_subs, ip_is_matched = FastPub_is_matched,
     ip_messages_per_cycle = fp_base_messages_per_cycle,
     ip_set_messages_per_cycle = (\<lambda>n p. p\<lparr>fp_base_messages_per_cycle := n\<rparr>)\<rparr>"

subsection \<open>The publisher implements the interface\<close>

definition FastPub_sent :: "('w, 'e) FastPub \<Rightarrow> AirEntity list" where
  "FastPub_sent p = accepted (w_log (fp_writer p))"

lemma FastPub_publish_cases:
  assumes "FastPub_publish api x p = Inr (b, q)"
  shows "FastPub_sent q = FastPub_sent p @ (if b then [x] else [])
    \<and> fp_base_messages_per_cycle q = fp_base_messages_per_cycle p"
  using assms by (auto simp: FastPub_publish_def FastPub_sent_def w_write_def flow split: prod.splits)

lemma FastPub_publish_loan_cases:
  assumes "FastPub_publish_loan api n p = Inr (b, q)"
  shows "(\<exists>xs. FastPub_sent q = FastPub_sent p @ xs \<and> (if b then length xs = n else length xs < n)
      \<and> (\<forall>i < length xs. (ent_id (xs ! i)) = ((\<lambda>x. i32 (x + 1)) ^^ i) (fp_current_id p)))
    \<and> fp_base_messages_per_cycle q = fp_base_messages_per_cycle p"
  using assms
proof (induction n arbitrary: p)
  case 0
  then show ?case by auto
next
  case (Suc n)
  from Suc.prems obtain h where h: "p_endpoint (fp_ptrs p) = Some h"
    by (auto simp: flow deref_def split: option.splits)
  obtain r1 buf s1 where l: "w_loan_sample api h (fp_writer p) = (r1, buf, s1)"
    by (metis prod_cases3)
  have a1: "accepted (w_log s1) = accepted (w_log (fp_writer p))"
    using l by (auto simp: w_loan_sample_def split: prod.splits)
  show ?case
  proof (cases "r1 = RETCODE_OK")
    case False
    with Suc.prems h l a1 show ?thesis by (auto simp: deref_def FastPub_sent_def)
  next
    case r1: True
    with Suc.prems h l obtain smp where smp: "buf = Some smp"
      by (cases buf) (auto simp: deref_def)
    let ?e = "smp\<lparr>ent_id := fp_current_id p\<rparr>"
    obtain r2 s2 where w: "w_write api h ?e s1 = (r2, s2)" by fastforce
    have a2: "accepted (w_log s2) = accepted (w_log s1) @ (if r2 = RETCODE_OK then [?e] else [])"
      using w by (auto simp: w_write_def split: prod.splits)
    show ?thesis
    proof (cases "r2 = RETCODE_OK")
      case False
      with Suc.prems h l r1 smp w a1 a2 show ?thesis
        by (auto simp: deref_def FastPub_sent_def w_discard_loan_def Let_def split: prod.splits)
    next
      case r2: True
      let ?p = "p\<lparr>fp_current_id := i32 (fp_current_id p + 1), fp_writer := s2\<rparr>"
      from Suc.prems h l r1 smp w r2 have "FastPub_publish_loan api n ?p = Inr (b, q)"
        by (simp add: deref_def Let_def)
      from Suc.IH[OF this] obtain xs where xs: "FastPub_sent q = FastPub_sent ?p @ xs"
        "if b then length xs = n else length xs < n"
        "\<forall>i < length xs. ent_id (xs ! i) = ((\<lambda>x. i32 (x + 1)) ^^ i) (i32 (fp_current_id p + 1))"
        "fp_base_messages_per_cycle q = fp_base_messages_per_cycle p" by auto
      have "FastPub_sent q = FastPub_sent p @ (?e # xs)"
        using xs(1) a1 a2 r2 by (simp add: FastPub_sent_def)
      moreover have "\<forall>i < length (?e # xs). ent_id ((?e # xs) ! i)
          = ((\<lambda>x. i32 (x + 1)) ^^ i) (fp_current_id p)"
        using xs(3) by (auto simp: less_Suc_eq_0_disj funpow_Suc_right simp del: funpow.simps)
      ultimately show ?thesis using xs(2,4) by (metis (no_types, lifting) Suc_less_eq length_Cons)
    qed
  qed
qed

interpretation fast_ipub: ipub_loan "FastPub_IPub eapi api" FastPub_sent
proof unfold_locales
  fix n p q assume "ip_publish_loan (FastPub_IPub eapi api) n p = Inr (True, q)"
  then show "\<exists>xs. length xs = n \<and> FastPub_sent q = FastPub_sent p @ xs"
    using FastPub_publish_loan_cases[of api n p True q] by (auto simp: FastPub_IPub_def)
next
  fix n p q assume "ip_publish_loan (FastPub_IPub eapi api) n p = Inr (False, q)"
  then show "\<exists>xs. length xs < n \<and> FastPub_sent q = FastPub_sent p @ xs"
    using FastPub_publish_loan_cases[of api n p False q] by (auto simp: FastPub_IPub_def)
qed (auto simp: FastPub_IPub_def FastPub_is_matched_def FastPub_set_expected_subs_def
    FastPub_run_init_def FastPub_sent_def flow Let_def
    dest: FastPub_publish_cases FastPub_publish_loan_cases)

subsection \<open>Properties\<close>

lemma FastPub_publish_loan_log:
  assumes "FastPub_publish_loan api n p = Inr (b, q)"
  shows "\<exists>es. w_log (fp_writer q) = w_log (fp_writer p) @ es \<and> open_loans es = failed_discards es
    \<and> failed_discards es \<le> (if b then 0 else 1)"
  using assms
proof (induction n arbitrary: p)
  case 0
  then show ?case by (auto simp: failed_discards_def)
next
  case (Suc n)
  from Suc.prems obtain h where h: "p_endpoint (fp_ptrs p) = Some h"
    by (auto simp: flow deref_def split: option.splits)
  obtain r1 buf s1 where l: "w_loan_sample api h (fp_writer p) = (r1, buf, s1)"
    by (metis prod_cases3)
  have a1: "w_log s1 = w_log (fp_writer p) @ [Loaned r1]"
    using l by (auto simp: w_loan_sample_def split: prod.splits)
  show ?case
  proof (cases "r1 = RETCODE_OK")
    case False
    with Suc.prems h l a1 show ?thesis by (auto simp: deref_def failed_discards_def)
  next
    case r1: True
    with Suc.prems h l obtain smp where smp: "buf = Some smp"
      by (cases buf) (auto simp: deref_def)
    let ?e = "smp\<lparr>ent_id := fp_current_id p\<rparr>"
    obtain r2 s2 where w: "w_write api h ?e s1 = (r2, s2)" by fastforce
    have a2: "w_log s2 = w_log s1 @ [Wrote ?e r2]" using w by (auto simp: w_write_def split: prod.splits)
    show ?thesis
    proof (cases "r2 = RETCODE_OK")
      case False
      obtain r3 s3 where d: "w_discard_loan api h s2 = (r3, s3)" by fastforce
      have a3: "w_log s3 = w_log s2 @ [Discarded r3]" using d by (auto simp: w_discard_loan_def split: prod.splits)
      from Suc.prems h l r1 smp w False d
      have q: "fp_writer q = s3" "\<not> b" by (auto simp: deref_def Let_def)
      have "w_log (fp_writer q) = w_log (fp_writer p) @ [Loaned r1, Wrote ?e r2, Discarded r3]"
        using a1 a2 a3 q(1) by simp
      moreover have "open_loans [Loaned r1, Wrote ?e r2, Discarded r3] = failed_discards [Loaned r1, Wrote ?e r2, Discarded r3]"
        "failed_discards [Loaned r1, Wrote ?e r2, Discarded r3] \<le> 1" using r1 False by (simp_all add: failed_discards_def)
      ultimately show ?thesis using q(2) by (metis (full_types))
    next
      case r2: True
      let ?p = "p\<lparr>fp_current_id := i32 (fp_current_id p + 1), fp_writer := s2\<rparr>"
      from Suc.prems h l r1 smp w r2 have "FastPub_publish_loan api n ?p = Inr (b, q)"
        by (simp add: deref_def Let_def)
      from Suc.IH[OF this] obtain es where es: "w_log (fp_writer q) = w_log s2 @ es"
        "open_loans es = failed_discards es" "failed_discards es \<le> (if b then 0 else 1)" by auto
      have "w_log (fp_writer q) = w_log (fp_writer p) @ (Loaned r1 # Wrote ?e r2 # es)"
        using es(1) a1 a2 by simp
      moreover have "open_loans (Loaned r1 # Wrote ?e r2 # es) = failed_discards (Loaned r1 # Wrote ?e r2 # es)"
        "failed_discards (Loaned r1 # Wrote ?e r2 # es) \<le> (if b then 0 else 1)"
        using es(2,3) r2 by (simp_all add: failed_discards_def)
      ultimately show ?thesis by blast
    qed
  qed
qed

definition ready_pub :: "(unit, nat) FastPub" where
  "ready_pub = (FastPub_new 0 ())\<lparr>fp_ptrs := \<lparr>p_participant = Some 0, p_topic = Some 1,
     p_group = Some 2, p_endpoint = Some 3\<rparr>, fp_min_subs := 1, fp_matched := 1\<rparr>"

text \<open>
  C30: \<open>publish_loan(n)\<close> sends \<open>n\<close> entities when it returns true and fewer when it returns false;
  the ids it gives out are consecutive, starting at the publisher's counter and wrapping
  at 32 bits.
\<close>

theorem fast_publish_loan_sends:
  assumes "FastPub_publish_loan api n p = Inr (b, q)"
  shows "\<exists>xs. FastPub_sent q = FastPub_sent p @ xs \<and> (if b then length xs = n else length xs < n)
    \<and> map ent_id xs = map (\<lambda>i. ((\<lambda>x. i32 (x + 1)) ^^ i) (fp_current_id p)) [0..<length xs]"
proof -
  from FastPub_publish_loan_cases[OF assms] obtain xs where
    xs: "FastPub_sent q = FastPub_sent p @ xs" "if b then length xs = n else length xs < n"
    and ids: "\<forall>i < length xs. ent_id (xs ! i) = ((\<lambda>x. i32 (x + 1)) ^^ i) (fp_current_id p)" by blast
  have "map ent_id xs = map (\<lambda>i. ((\<lambda>x. i32 (x + 1)) ^^ i) (fp_current_id p)) [0..<length xs]"
    using ids by (intro nth_equalityI) auto
  with xs show ?thesis by blast
qed

theorem fast_publish_loan_sends_witness:
  "\<exists>b q xs. FastPub_publish_loan (loop_writer AirEntity_new) 2 ready_pub = Inr (b, q)
     \<and> FastPub_sent q = FastPub_sent ready_pub @ xs \<and> length xs = 2"
proof -
  obtain q where q: "FastPub_publish_loan (loop_writer AirEntity_new) 2 ready_pub = Inr (True, q)"
    by (simp add: numeral_2_eq_2 ready_pub_def deref_def w_loan_sample_def w_write_def loop_writer_def Let_def)
  from fast_publish_loan_sends[OF q] q show ?thesis by auto
qed

text \<open>
  C31: What becomes of the loans: every sample that \<open>publish_loan\<close> borrows is written, or given back
  after a failed write, unless the middleware refuses to take it back, which the code only prints:
  then that one loan stays open, and \<open>publish_loan\<close> answers false. After true no loan is open.
\<close>

theorem fast_publish_loan_no_leak:
  assumes "FastPub_publish_loan api n p = Inr (b, q)"
  defines "es \<equiv> drop (length (w_log (fp_writer p))) (w_log (fp_writer q))"
  shows "open_loans es = failed_discards es \<and> failed_discards es \<le> (if b then 0 else 1)"
  using FastPub_publish_loan_log[OF assms(1)] by (auto simp: es_def)

theorem fast_publish_loan_no_leak_witness:
  "\<exists>b q. FastPub_publish_loan (loop_writer AirEntity_new) 2 ready_pub = Inr (b, q) \<and> open_loans (w_log (fp_writer q)) = 0"
proof -
  obtain q where q: "FastPub_publish_loan (loop_writer AirEntity_new) 2 ready_pub = Inr (True, q)"
    by (simp add: numeral_2_eq_2 ready_pub_def deref_def w_loan_sample_def w_write_def loop_writer_def Let_def)
  from fast_publish_loan_no_leak[OF q] q show ?thesis by (auto simp: ready_pub_def FastPub_new_def)
qed

text \<open>
  The match callbacks of a writer over its life: \<open>total_count\<close> is the number of readers
  matched so far, it never goes down.
\<close>

fun match_history :: "int \<Rightarrow> bool list \<Rightarrow> ('w, 'e) FastPub \<Rightarrow> ('w, 'e) FastPub" where
  "match_history tot [] p = p"
| "match_history tot (found # bs) p = (let tot = (if found then tot + 1 else tot) in
     match_history tot bs (FastPub_on_publication_matched (if found then 1 else -1) tot p))"

lemma match_history_total:
  "fp_matched (match_history tot bs p) = (if bs = [] then fp_matched p else tot + int (count_list bs True))
   \<and> fp_min_subs (match_history tot bs p) = fp_min_subs p"
proof (induction bs arbitrary: tot p)
  case (Cons found bs)
  then show ?case by (cases "bs = []") (auto simp: FastPub_on_publication_matched_def Let_def)
qed simp

text \<open>
  The listener stores the total, not the current count: however many readers leave again,
  a publisher that has once seen as many readers as it waits for stays matched.
\<close>

lemma fast_pub_stays_matched:
  "fst (FastPub_is_matched (match_history 0 (replicate (Suc n) True @ replicate k False)
     (FastPub_set_expected_subs (int (Suc n)) p)))"
proof -
  have "count_list (replicate (Suc n) True @ replicate k False) True = Suc n"
    by (simp add: count_list_0_iff) (induction n; simp)
  then show ?thesis
    using match_history_total[of 0 "replicate (Suc n) True @ replicate k False" "FastPub_set_expected_subs (int (Suc n)) p"]
    by (simp add: FastPub_is_matched_def FastPub_set_expected_subs_def Let_def)
qed

end
