(* ===== verification/FastSub.thy ===== *)
theory FastSub
  imports FastEntities Interfaces Loopback
begin

section \<open>FastSub: the Fast DDS subscriber of entities\<close>

text \<open>
  \<open>src/implementation/fast_dds/FastSub.hpp\<close>. \<open>run_without_loan\<close> copies samples one by one
  into preallocated vectors, at most as many as are expected; \<open>run_with_loan\<close> takes
  loaned samples by the hundred until the reader is empty. Both count the different ids.
  The vectors are only reserved, never resized. By the letter of the standard \<open>operator[]\<close> is
  therefore undefined from index 0 on, as their size stays 0; what is modelled is the storage behind
  them, \<open>fs_capacity\<close> slots (none before \<open>init\<close>, 1000 after it). \<open>OutOfBounds\<close> is a sample that is
  copied to a slot outside this storage; a \<open>take_next_sample\<close> that finds no sample copies nothing.
  A slot is written and read back in the same pass, so its contents need not be kept.
\<close>

record ('w, 'e) FastSub =
  fs_expected_messages_cycle :: int
  fs_received_ids :: "int set"
  fs_capacity :: nat
  fs_ptrs :: entity_ptrs
  fs_matched :: bool
  fs_samples :: int
  fs_dds :: "'e dds"
  fs_reader :: 'w

definition FastSub_new :: "'e \<Rightarrow> 'w \<Rightarrow> ('w, 'e) FastSub" where
  "FastSub_new e w = \<lparr>fs_expected_messages_cycle = -1, fs_received_ids = {}, fs_capacity = 0,
     fs_ptrs = no_ptrs, fs_matched = False, fs_samples = 0,
     fs_dds = \<lparr>dds_world = e, dds_trace = []\<rparr>, fs_reader = w\<rparr>"

definition FastSub_on_subscription_matched :: "int \<Rightarrow> ('w, 'e) FastSub \<Rightarrow> ('w, 'e) FastSub" where
  "FastSub_on_subscription_matched current_count_change s =
     (if current_count_change = 1 then s\<lparr>fs_matched := True\<rparr>
      else if current_count_change = -1 then s
      else s)"

definition FastSub_run_init :: "'e dds_api \<Rightarrow> ('w, 'e) FastSub \<Rightarrow> (bool \<times> ('w, 'e) FastSub) res" where
  "FastSub_run_init api s = rbind (FastSub_init api (fs_ptrs s) (fs_dds s))
     (\<lambda>(b, ptrs, d). Inr (b, s\<lparr>fs_ptrs := ptrs, fs_dds := d,
        fs_capacity := (if b then 1000 else fs_capacity s)\<rparr>))"

definition FastSub_is_match :: "('w, 'e) FastSub \<Rightarrow> bool" where
  "FastSub_is_match s = fs_matched s"

definition FastSub_get_samples :: "('w, 'e) FastSub \<Rightarrow> int" where
  "FastSub_get_samples s = fs_samples s"

definition FastSub_reset_samples :: "('w, 'e) FastSub \<Rightarrow> ('w, 'e) FastSub" where
  "FastSub_reset_samples s = s\<lparr>fs_samples := 0, fs_received_ids := {}\<rparr>"

definition handle_result :: "retcode \<Rightarrow> bool" where
  "handle_result result = (result = RETCODE_OK)"

text \<open>
  The \<open>for\<close> loop of \<open>run_without_loan\<close>: \<open>n\<close> passes are left, the next one is pass \<open>i\<close>.
  The state is the set of ids, the number of samples and the reader.
\<close>

fun FastSub_take_loop :: "(AirEntity, 'w) reader_api \<Rightarrow> nat option \<Rightarrow> nat \<Rightarrow> nat \<Rightarrow> nat
    \<Rightarrow> int set \<Rightarrow> nat \<Rightarrow> 'w \<Rightarrow> (int set \<times> nat \<times> 'w) res" where
  "FastSub_take_loop api reader cap 0 i ids tot w = Inr (ids, tot, w)"
| "FastSub_take_loop api reader cap (Suc n) i ids tot w =
     rbind (deref ''reader_'' reader) (\<lambda>h.
       let (ret, (sample, valid_data), w) = ra_take_next_sample api h w
       in if \<not> handle_result ret then Inr (ids, tot, w)
          else if cap \<le> i then Inl (OutOfBounds i)
          else FastSub_take_loop api reader cap n (i + 1)
                 (if valid_data then insert (ent_id sample) ids else ids) (tot + 1) w)"

text \<open>
  \<open>received_ids.size() == expected_messages_cycle\<close> compares in \<open>size_t\<close>, and
  \<open>expected_messages_cycle - received_ids.size()\<close> is computed in \<open>size_t\<close> and narrowed.
\<close>

definition FastSub_verdict :: "int \<Rightarrow> int set \<Rightarrow> int \<Rightarrow> bool \<times> int" where
  "FastSub_verdict expected ids lost_samples =
     (let all_received = (card ids = size_t expected)
      in (all_received, if all_received then lost_samples
            else i32 (int (size_t expected) - int (card ids))))"

definition FastSub_run_without_loan :: "(AirEntity, 'w) reader_api \<Rightarrow> int \<Rightarrow> ('w, 'e) FastSub
    \<Rightarrow> (bool \<times> int \<times> ('w, 'e) FastSub) res" where
  "FastSub_run_without_loan api lost_samples s =
     rbind (FastSub_take_loop api (p_endpoint (fs_ptrs s)) (fs_capacity s)
              (size_t (fs_expected_messages_cycle s)) 0 {} 0 (fs_reader s))
       (\<lambda>(ids, total_samples, w).
          let (all_received, lost) = FastSub_verdict (fs_expected_messages_cycle s) ids lost_samples
          in Inr (all_received, lost, s\<lparr>fs_received_ids := ids, fs_reader := w\<rparr>))"

text \<open>The \<open>while (true)\<close> of \<open>run_with_loan\<close>; it may go on as long as samples arrive.\<close>

definition add_valid :: "(AirEntity \<times> bool) list \<Rightarrow> int set \<Rightarrow> int set" where
  "add_valid xs ids = fold (\<lambda>(m, valid) acc. if valid then insert (ent_id m) acc else acc) xs ids"

partial_function (option) FastSub_drain :: "(AirEntity, 'w) reader_api \<Rightarrow> nat
    \<Rightarrow> int set \<Rightarrow> nat \<Rightarrow> 'w \<Rightarrow> (int set \<times> nat \<times> 'w) option" where
  "FastSub_drain api h ids tot w =
     (let (ret, data, w) = ra_take api h 100 w
      in if ret \<noteq> RETCODE_OK \<or> length data = 0 then Some (ids, tot, w)
         else FastSub_drain api h (add_valid data ids) (tot + length data) (ra_return_loan api h w))"

definition FastSub_run_with_loan :: "(AirEntity, 'w) reader_api \<Rightarrow> int \<Rightarrow> ('w, 'e) FastSub
    \<Rightarrow> (bool \<times> int \<times> ('w, 'e) FastSub) comp" where
  "FastSub_run_with_loan api lost_samples s =
     (case p_endpoint (fs_ptrs s) of None \<Rightarrow> Some (Inl (NullDeref ''reader_''))
      | Some h \<Rightarrow> (case FastSub_drain api h {} 0 (fs_reader s) of None \<Rightarrow> None
         | Some (ids, total_samples, w) \<Rightarrow>
            let (all_received, lost) = FastSub_verdict (fs_expected_messages_cycle s) ids lost_samples
            in Some (Inr (all_received, lost, s\<lparr>fs_received_ids := ids, fs_reader := w\<rparr>))))"

definition FastSub_ISub :: "'e dds_api \<Rightarrow> (AirEntity, 'w) reader_api \<Rightarrow> ('w, 'e) FastSub ISub" where
  "FastSub_ISub eapi api = \<lparr>is_init = FastSub_run_init eapi,
     is_run_without_loan = (\<lambda>k s. Some (FastSub_run_without_loan api k s)),
     is_run_with_loan = FastSub_run_with_loan api,
     is_reset_samples = FastSub_reset_samples, is_is_match = FastSub_is_match,
     is_expected_messages_cycle = fs_expected_messages_cycle,
     is_set_expected_messages_cycle = (\<lambda>n s. s\<lparr>fs_expected_messages_cycle := n\<rparr>)\<rparr>"

subsection \<open>The verdict and the interface\<close>

lemma i32_size_t: "i32 (int (size_t x) - y) = i32 (x - y)"
proof -
  have "(2 ^ 32 :: int) dvd 2 ^ 64" by (simp add: le_imp_power_dvd)
  then have m: "(x mod 2 ^ 64) mod 2 ^ 32 = x mod 2 ^ 32" by (rule mod_mod_cancel)
  have "int (size_t x) = x mod 2 ^ 64" by (simp add: size_t_def)
  then have "(int (size_t x) - y + 2 ^ 31) mod 2 ^ 32 = ((x mod 2 ^ 64) mod 2 ^ 32 - y + 2 ^ 31) mod 2 ^ 32"
    by (metis mod_add_left_eq mod_diff_left_eq)
  also have "\<dots> = (x - y + 2 ^ 31) mod 2 ^ 32" by (metis m mod_add_left_eq mod_diff_left_eq)
  finally show ?thesis by (simp add: i32_def)
qed

lemma FastSub_verdict_counts:
  assumes "is_i32 e" and "card ids < 2 ^ 31" and "FastSub_verdict e ids k = (b, l)"
  shows "(b \<longleftrightarrow> int (card ids) = e) \<and> l = (if b then k else i32 (e - int (card ids)))"
proof -
  have c: "is_i32 (int (card ids))" using assms(2) by (simp add: is_i32_def)
  have s: "size_t (int (card ids)) = card ids" using c by (simp add: size_t_of_int)
  have "card ids = size_t e \<longleftrightarrow> int (card ids) = e"
    using size_t_inj[OF c assms(1)] s by auto
  with assms(3) show ?thesis by (auto simp: FastSub_verdict_def Let_def i32_size_t)
qed

lemma FastSub_run_without_loan_cases:
  assumes "FastSub_run_without_loan api k s = Inr (b, l, t)"
  shows "FastSub_verdict (fs_expected_messages_cycle s) (fs_received_ids t) k = (b, l)
    \<and> fs_expected_messages_cycle t = fs_expected_messages_cycle s"
  using assms by (auto simp: FastSub_run_without_loan_def FastSub_verdict_def Let_def flow)

lemma FastSub_run_with_loan_cases:
  assumes "FastSub_run_with_loan api k s = Some (Inr (b, l, t))"
  shows "FastSub_verdict (fs_expected_messages_cycle s) (fs_received_ids t) k = (b, l)
    \<and> fs_expected_messages_cycle t = fs_expected_messages_cycle s"
  using assms by (auto simp: FastSub_run_with_loan_def FastSub_verdict_def Let_def split: option.splits)

interpretation fast_isub: isub_counting "FastSub_ISub eapi api" fs_received_ids
proof unfold_locales
  fix s k b l t
  assume r: "is_run_without_loan (FastSub_ISub eapi api) k s = Some (Inr (b, l, t))"
    and e: "is_i32 (is_expected_messages_cycle (FastSub_ISub eapi api) s)"
    and c: "card (fs_received_ids t) < 2 ^ 31"
  from r e c FastSub_run_without_loan_cases[of api k s b l t]
  show "(b \<longleftrightarrow> int (card (fs_received_ids t)) = is_expected_messages_cycle (FastSub_ISub eapi api) s)
      \<and> l = (if b then k else i32 (is_expected_messages_cycle (FastSub_ISub eapi api) s
               - int (card (fs_received_ids t))))"
    using FastSub_verdict_counts[of "fs_expected_messages_cycle s" "fs_received_ids t" k b l]
    by (simp add: FastSub_ISub_def)
next
  fix s k b l t
  assume r: "is_run_with_loan (FastSub_ISub eapi api) k s = Some (Inr (b, l, t))"
    and e: "is_i32 (is_expected_messages_cycle (FastSub_ISub eapi api) s)"
    and c: "card (fs_received_ids t) < 2 ^ 31"
  from r e c FastSub_run_with_loan_cases[of api k s b l t]
  show "(b \<longleftrightarrow> int (card (fs_received_ids t)) = is_expected_messages_cycle (FastSub_ISub eapi api) s)
      \<and> l = (if b then k else i32 (is_expected_messages_cycle (FastSub_ISub eapi api) s
               - int (card (fs_received_ids t))))"
    using FastSub_verdict_counts[of "fs_expected_messages_cycle s" "fs_received_ids t" k b l]
    by (simp add: FastSub_ISub_def)
qed (auto simp: FastSub_ISub_def FastSub_reset_samples_def
    dest: FastSub_run_without_loan_cases FastSub_run_with_loan_cases)

subsection \<open>What a run takes from the reader\<close>

lemma add_valid_set: "add_valid xs ids = ids \<union> {ent_id m | m. (m, True) \<in> set xs}"
  unfolding add_valid_def by (induction xs arbitrary: ids) (auto split: if_splits)

lemma add_valid_append: "add_valid (xs @ ys) ids = add_valid ys (add_valid xs ids)"
  by (simp add: add_valid_def)

lemma finite_add_valid: "finite ids \<Longrightarrow> finite (add_valid xs ids)"
  unfolding add_valid_def by (induction xs arbitrary: ids) (auto split: prod.splits)

lemma take_loop_queue:
  assumes q: "queue_reader api h q" and "i + min n (length (q w)) \<le> cap"
  shows "\<exists>w'. FastSub_take_loop api (Some h) cap n i ids tot w
      = Inr (add_valid (take n (q w)) ids, tot + min n (length (q w)), w')
    \<and> q w' = drop n (q w)"
  using assms(2)
proof (induction n arbitrary: i ids tot w)
  case 0
  then show ?case by (simp add: add_valid_def)
next
  case (Suc n)
  show ?case
  proof (cases "q w")
    case Nil
    from queue_reader_empty[OF q Nil] obtain x w1 where
      "ra_take_next_sample api h w = (RETCODE_NO_DATA, x, w1)" "q w1 = []" .
    with Nil Suc.prems show ?thesis
      by (cases x) (simp add: deref_def handle_result_def add_valid_def)
  next
    case (Cons x xs)
    obtain m v where x: "x = (m, v)" by (cases x)
    from queue_reader_next[OF q Cons] obtain w1 where
      f: "ra_take_next_sample api h w = (RETCODE_OK, x, w1)" "q w1 = xs" .
    from Suc.prems have "Suc i + min n (length (q w1)) \<le> cap" using f(2) Cons by simp
    from Suc.IH[OF this, of "if v then insert (ent_id m) ids else ids" "tot + 1"]
    show ?thesis using f Cons x Suc.prems
      by (auto simp: deref_def handle_result_def add_valid_def)
  qed
qed

lemma drain_queue:
  assumes q: "queue_reader api h q"
  shows "\<exists>w'. FastSub_drain api h ids tot w
      = Some (add_valid (q w) ids, tot + length (q w), w') \<and> q w' = []"
proof (induction "length (q w)" arbitrary: ids tot w rule: less_induct)
  case less
  show ?case
  proof (cases "q w = []")
    case True
    from queue_reader_take_empty[OF q _ True, of 100] obtain d w1 where
      "ra_take api h 100 w = (RETCODE_NO_DATA, d, w1)" "q w1 = []" by auto
    with True show ?thesis by (subst FastSub_drain.simps) (simp add: add_valid_def)
  next
    case False
    from queue_reader_take[OF q _ False, of 100] obtain w1 where
      f: "ra_take api h 100 w = (RETCODE_OK, take 100 (q w), w1)" "q w1 = drop 100 (q w)" by auto
    let ?d = "take 100 (q w)" and ?w2 = "ra_return_loan api h w1"
    have w2: "q ?w2 = drop 100 (q w)" using f(2) queue_reader_return[OF q] by simp
    have "length (q ?w2) < length (q w)" using False w2 by simp
    from less[OF this, of "add_valid ?d ids" "tot + length ?d"] obtain w' where w':
      "FastSub_drain api h (add_valid ?d ids) (tot + length ?d) ?w2
        = Some (add_valid (q ?w2) (add_valid ?d ids), tot + length ?d + length (q ?w2), w')"
      "q w' = []" by auto
    have "add_valid (q ?w2) (add_valid ?d ids) = add_valid (q w) ids"
      using w2 add_valid_append[of ?d "drop 100 (q w)" ids] by simp
    moreover have "tot + length ?d + length (q ?w2) = tot + length (q w)" using w2 by simp
    ultimately show ?thesis using w' f(1) False
      by (subst FastSub_drain.simps) simp
  qed
qed

lemma take_loop_overflow:
  assumes q: "queue_reader api h q" and "cap - i < length (q w)" "i \<le> cap" "cap < i + n"
  shows "FastSub_take_loop api (Some h) cap n i ids tot w = Inl (OutOfBounds cap)"
  using assms(2-)
proof (induction n arbitrary: i ids tot w)
  case 0
  then show ?case by simp
next
  case (Suc n)
  show ?case
  proof (cases "i = cap")
    case True
    with Suc.prems obtain x xs where qw: "q w = x # xs" by (cases "q w") auto
    from queue_reader_next[OF q qw] obtain w1 where "ra_take_next_sample api h w = (RETCODE_OK, x, w1)" .
    with True show ?thesis by (cases x) (simp add: deref_def handle_result_def)
  next
    case False
    with Suc.prems obtain x xs where qw: "q w = x # xs" by (cases "q w") auto
    obtain m v where x: "x = (m, v)" by (cases x)
    from queue_reader_next[OF q qw] obtain w1 where
      f: "ra_take_next_sample api h w = (RETCODE_OK, x, w1)" "q w1 = xs" .
    have "FastSub_take_loop api (Some h) cap n (i + 1) (if v then insert (ent_id m) ids else ids) (tot + 1) w1
        = Inl (OutOfBounds cap)"
      using Suc.prems False f(2) qw by (intro Suc.IH) auto
    then show ?thesis using f x False Suc.prems by (simp add: deref_def handle_result_def)
  qed
qed

definition ready_sub :: "int \<Rightarrow> (AirEntity \<times> bool) list \<Rightarrow> ((AirEntity \<times> bool) list, nat) FastSub" where
  "ready_sub n w = (FastSub_new 0 w)\<lparr>fs_capacity := 1000, fs_expected_messages_cycle := n,
     fs_ptrs := \<lparr>p_participant = Some 0, p_topic = Some 1, p_group = Some 2, p_endpoint = Some 3\<rparr>\<rparr>"

definition entity_with_id :: "int \<Rightarrow> AirEntity" where
  "entity_with_id i = AirEntity_new\<lparr>ent_id := i\<rparr>"

lemma run_without_loan_queue:
  assumes "queue_reader api h q" "p_endpoint (fs_ptrs s) = Some h"
    and "fs_expected_messages_cycle s = int n" "min n (length (q (fs_reader s))) \<le> fs_capacity s" "n < 2 ^ 31"
  shows "\<exists>t. FastSub_run_without_loan api k s =
      Inr (card (fs_received_ids t) = n,
           if card (fs_received_ids t) = n then k else int n - int (card (fs_received_ids t)), t)
    \<and> fs_received_ids t = {ent_id m | m. (m, True) \<in> set (take n (q (fs_reader s)))}
    \<and> q (fs_reader t) = drop n (q (fs_reader s))"
proof -
  let ?w = "fs_reader s"
  obtain w' where l: "FastSub_take_loop api (Some h) (fs_capacity s) n 0 {} 0 ?w =
      Inr (add_valid (take n (q ?w)) {}, 0 + min n (length (q ?w)), w')" "q w' = drop n (q ?w)"
    using take_loop_queue[OF assms(1), of 0 n ?w "fs_capacity s" "{}" 0] assms(4) by auto
  let ?ids = "add_valid (take n (q ?w)) {}"
  have "finite (set (take n (q ?w)))" by simp
  have "?ids = ent_id ` {m. (m, True) \<in> set (take n (q ?w))}" by (auto simp: add_valid_set)
  also have "\<dots> \<subseteq> (ent_id \<circ> fst) ` set (take n (q ?w))" by force
  finally have "card ?ids \<le> card ((ent_id \<circ> fst) ` set (take n (q ?w)))" by (intro card_mono) auto
  also have "\<dots> \<le> length (take n (q ?w))" by (meson card_image_le card_length finite_set order_trans)
  finally have c: "card ?ids \<le> n" by simp
  have st: "size_t (int n) = n" using assms(5) by (simp add: size_t_nonneg)
  have "i32 (int n - int (card ?ids)) = int n - int (card ?ids)" using c assms(5) by (intro i32_small) auto
  then show ?thesis using l assms(2,3) st
    by (auto simp: FastSub_run_without_loan_def FastSub_verdict_def Let_def add_valid_set)
qed

subsection \<open>Properties\<close>

text \<open>
  C29: Where the vectors have room for the samples that are waiting, or for as many as are expected,
  \<open>run_without_loan\<close> returns: it takes the first samples, as many as expected,
  and counts the different ids of the valid ones; true means that the count is the
  expected one, otherwise the difference is reported as lost.
\<close>

theorem fast_run_without_loan_exact:
  assumes "queue_reader api h q" "p_endpoint (fs_ptrs s) = Some h"
    and "fs_expected_messages_cycle s = int n" "min n (length (q (fs_reader s))) \<le> fs_capacity s" "n < 2 ^ 31"
  shows "\<exists>t. FastSub_run_without_loan api k s =
      Inr (card (fs_received_ids t) = n,
           if card (fs_received_ids t) = n then k else int n - int (card (fs_received_ids t)), t)
    \<and> fs_received_ids t = {ent_id m | m. (m, True) \<in> set (take n (q (fs_reader s)))}
    \<and> q (fs_reader t) = drop n (q (fs_reader s))"
  by (rule run_without_loan_queue[OF assms])

theorem fast_run_without_loan_exact_witness:
  "\<exists>t. FastSub_run_without_loan (loop_reader AirEntity_new) 0
      (ready_sub (int 2) [(entity_with_id 5, True), (entity_with_id 6, True)]) = Inr (True, 0, t)"
proof -
  let ?s = "ready_sub (int 2) [(entity_with_id 5, True), (entity_with_id 6, True)]"
  have "{ent_id m | m. (m, True) \<in> set (take 2 (fs_reader ?s))} = {5, 6}"
    by (auto simp: ready_sub_def FastSub_new_def entity_with_id_def) (metis AirEntity.select_convs(1) AirEntity.surjective AirEntity.update_convs(1))+
  then show ?thesis
    using fast_run_without_loan_exact[OF loop_reader_queue, of ?s 3 2 AirEntity_new 0]
    by (fastforce simp: ready_sub_def FastSub_new_def)
qed

text \<open>
  C34: The vectors are reserved and not resized: with more expected entities than the 1000 that
  \<open>init\<close> reserves, and more than 1000 samples waiting, \<open>run_without_loan\<close> has a sample copied to
  slot 1000, which is outside its storage.
\<close>

theorem fast_run_without_loan_overflow:
  assumes "queue_reader api h q" "p_endpoint (fs_ptrs s) = Some h" "fs_capacity s = 1000"
    and "is_i32 (fs_expected_messages_cycle s)" "1000 < fs_expected_messages_cycle s"
    and "1000 < length (q (fs_reader s))"
  shows "FastSub_run_without_loan api k s = Inl (OutOfBounds 1000)"
proof -
  have "size_t (fs_expected_messages_cycle s) = nat (fs_expected_messages_cycle s)"
    using assms(4,5) by (intro size_t_of_int) auto
  then have "1000 < 0 + size_t (fs_expected_messages_cycle s)" using assms(5) by simp
  then have "FastSub_take_loop api (Some h) 1000 (size_t (fs_expected_messages_cycle s)) 0 {} 0 (fs_reader s)
      = Inl (OutOfBounds 1000)"
    using assms(6) by (intro take_loop_overflow[OF assms(1)]) simp_all
  then show ?thesis using assms(2,3) by (simp add: FastSub_run_without_loan_def)
qed

theorem fast_run_without_loan_overflow_witness:
  "FastSub_run_without_loan (loop_reader AirEntity_new) 0
     (ready_sub 1001 (replicate 1001 (AirEntity_new, True))) = Inl (OutOfBounds 1000)"
  using fast_run_without_loan_overflow[OF loop_reader_queue, of "ready_sub 1001 (replicate 1001 (AirEntity_new, True))" 3]
  by (simp add: ready_sub_def FastSub_new_def is_i32_def)

text \<open>
  C32: \<open>run_with_loan\<close> returns for every finite backlog: it empties the reader in batches of a
  hundred and counts the different ids of all valid samples.
\<close>

theorem fast_run_with_loan_drains:
  assumes "queue_reader api h q" "p_endpoint (fs_ptrs s) = Some h"
  shows "\<exists>b l t. FastSub_run_with_loan api k s = Some (Inr (b, l, t)) \<and> q (fs_reader t) = []
    \<and> fs_received_ids t = {ent_id m | m. (m, True) \<in> set (q (fs_reader s))}
    \<and> (b \<longleftrightarrow> card (fs_received_ids t) = size_t (fs_expected_messages_cycle s))"
proof -
  from drain_queue[OF assms(1), of "{}" 0 "fs_reader s"] obtain w' where
    "FastSub_drain api h {} 0 (fs_reader s) =
      Some (add_valid (q (fs_reader s)) {}, 0 + length (q (fs_reader s)), w')" "q w' = []" by blast
  then show ?thesis using assms(2)
    by (auto simp: FastSub_run_with_loan_def FastSub_verdict_def Let_def add_valid_set)
qed

theorem fast_run_with_loan_drains_witness:
  "\<exists>b l t. FastSub_run_with_loan (loop_reader AirEntity_new) 0
      (ready_sub 3 (replicate 250 (AirEntity_new, True))) = Some (Inr (b, l, t)) \<and> fs_reader t = []"
  using fast_run_with_loan_drains[OF loop_reader_queue, of "ready_sub 3 (replicate 250 (AirEntity_new, True))" 3
      AirEntity_new 0]
  by (auto simp: ready_sub_def)

end
