(* ===== verification/FastControl.thy ===== *)
theory FastControl
  imports FastEntities Interfaces Loopback
begin

section \<open>FastPubControl and FastSubControl: the control topic\<close>

text \<open>
  \<open>src/implementation/fast_dds/FastPubControl.hpp\<close> writes start and stop messages;
  \<open>FastSubControl.hpp\<close> drains the control reader and keeps the last valid message as the
  configuration. Their \<open>init\<close> and destructors are in \<open>FastEntities\<close>.
\<close>

record ('w, 'e) FastPubControl =
  fc_matched :: int
  fc_ptrs :: entity_ptrs
  fc_dds :: "'e dds"
  fc_writer :: "(TestControl, 'w) writer_state"

definition FastPubControl_new :: "'e \<Rightarrow> 'w \<Rightarrow> ('w, 'e) FastPubControl" where
  "FastPubControl_new e w = \<lparr>fc_matched = 0, fc_ptrs = no_ptrs,
     fc_dds = \<lparr>dds_world = e, dds_trace = []\<rparr>, fc_writer = \<lparr>w_world = w, w_log = []\<rparr>\<rparr>"

definition FastPubControl_on_publication_matched :: "int \<Rightarrow> ('w, 'e) FastPubControl \<Rightarrow> ('w, 'e) FastPubControl" where
  "FastPubControl_on_publication_matched current_count_change c =
     (if current_count_change = 1 then c\<lparr>fc_matched := i32 (fc_matched c + 1)\<rparr>
      else if current_count_change = -1 then c\<lparr>fc_matched := i32 (fc_matched c - 1)\<rparr>
      else c)"

definition FastPubControl_run_init ::
    "'e dds_api \<Rightarrow> ('w, 'e) FastPubControl \<Rightarrow> (bool \<times> ('w, 'e) FastPubControl) res" where
  "FastPubControl_run_init api c = rbind (FastPubControl_init api (fc_ptrs c) (fc_dds c))
     (\<lambda>(b, ptrs, d). Inr (b, c\<lparr>fc_ptrs := ptrs, fc_dds := d\<rparr>))"

definition FastPubControl_is_matched :: "('w, 'e) FastPubControl \<Rightarrow> bool" where
  "FastPubControl_is_matched c = (fc_matched c > 0)"

definition FastPubControl_publish_start :: "(TestControl, 'w) writer_api \<Rightarrow> int \<Rightarrow> int \<Rightarrow> bool
    \<Rightarrow> ('w, 'e) FastPubControl \<Rightarrow> (bool \<times> ('w, 'e) FastPubControl) res" where
  "FastPubControl_publish_start api tid expected loan c =
     (let msg = TestControl_new\<lparr>tc_test_id := tid, tc_start := True,
                  tc_expected_entities := expected, tc_loan := loan\<rparr>
      in rbind (deref ''writer_'' (p_endpoint (fc_ptrs c))) (\<lambda>h.
           let (ret, s) = w_write api h msg (fc_writer c)
           in Inr (ret = RETCODE_OK, c\<lparr>fc_writer := s\<rparr>)))"

definition FastPubControl_publish_stop :: "(TestControl, 'w) writer_api \<Rightarrow> int
    \<Rightarrow> ('w, 'e) FastPubControl \<Rightarrow> (bool \<times> ('w, 'e) FastPubControl) res" where
  "FastPubControl_publish_stop api tid c =
     (let msg = TestControl_new\<lparr>tc_test_id := tid, tc_start := False\<rparr>
      in rbind (deref ''writer_'' (p_endpoint (fc_ptrs c))) (\<lambda>h.
           let (ret, s) = w_write api h msg (fc_writer c)
           in Inr (ret = RETCODE_OK, c\<lparr>fc_writer := s\<rparr>)))"

definition FastPubControl_IPubControl :: "'e dds_api \<Rightarrow> (TestControl, 'w) writer_api
    \<Rightarrow> ('w, 'e) FastPubControl IPubControl" where
  "FastPubControl_IPubControl eapi api = \<lparr>ic_init = FastPubControl_run_init eapi,
     ic_publish_start = FastPubControl_publish_start api,
     ic_publish_stop = FastPubControl_publish_stop api,
     ic_is_matched = (\<lambda>c. (FastPubControl_is_matched c, c))\<rparr>"

definition FastPubControl_commands :: "('w, 'e) FastPubControl \<Rightarrow> TestControl list" where
  "FastPubControl_commands c = offered (w_log (fc_writer c))"

interpretation fast_ipub_control: ipub_control "FastPubControl_IPubControl eapi api" FastPubControl_commands
  by unfold_locales
    (auto simp: FastPubControl_IPubControl_def FastPubControl_publish_start_def start_msg_def
      FastPubControl_publish_stop_def stop_msg_def FastPubControl_commands_def
      FastPubControl_run_init_def w_write_def Let_def flow split: prod.splits)

subsection \<open>FastSubControl\<close>

record ('w, 'e) FastSubControl =
  fsc_matched :: int
  fsc_ptrs :: entity_ptrs
  fsc_last :: TestConfig
  fsc_dds :: "'e dds"
  fsc_reader :: 'w

definition FastSubControl_new :: "'e \<Rightarrow> 'w \<Rightarrow> ('w, 'e) FastSubControl" where
  "FastSubControl_new e w = \<lparr>fsc_matched = 0, fsc_ptrs = no_ptrs, fsc_last = TestConfig_new,
     fsc_dds = \<lparr>dds_world = e, dds_trace = []\<rparr>, fsc_reader = w\<rparr>"

definition FastSubControl_on_subscription_matched :: "int \<Rightarrow> ('w, 'e) FastSubControl \<Rightarrow> ('w, 'e) FastSubControl" where
  "FastSubControl_on_subscription_matched current_count_change c =
     (if current_count_change = 1 then c\<lparr>fsc_matched := i32 (fsc_matched c + 1)\<rparr>
      else if current_count_change = -1 then c\<lparr>fsc_matched := i32 (fsc_matched c - 1)\<rparr>
      else c)"

definition FastSubControl_run_init ::
    "'e dds_api \<Rightarrow> ('w, 'e) FastSubControl \<Rightarrow> (bool \<times> ('w, 'e) FastSubControl) res" where
  "FastSubControl_run_init api c = rbind (FastSubControl_init api (fsc_ptrs c) (fsc_dds c))
     (\<lambda>(b, ptrs, d). Inr (b, c\<lparr>fsc_ptrs := ptrs, fsc_dds := d\<rparr>))"

definition FastSubControl_has_match :: "('w, 'e) FastSubControl \<Rightarrow> bool" where
  "FastSubControl_has_match c = (fsc_matched c > 0)"

definition FastSubControl_current :: "('w, 'e) FastSubControl \<Rightarrow> TestConfig" where
  "FastSubControl_current c = fsc_last c"

definition config_of :: "TestControl \<Rightarrow> TestConfig" where
  "config_of ctrl = \<lparr>testId = tc_test_id ctrl, expectedEntities = tc_expected_entities ctrl,
     cf_loan = tc_loan ctrl, cf_active = tc_start ctrl\<rparr>"

partial_function (option) poll_loop :: "(TestControl, 'w) reader_api \<Rightarrow> nat
    \<Rightarrow> TestConfig \<Rightarrow> TestConfig \<Rightarrow> bool \<Rightarrow> 'w \<Rightarrow> (TestConfig \<times> TestConfig \<times> bool \<times> 'w) option" where
  "poll_loop api h lst out applied w =
     (let (ret, (ctrl, valid_data), w) = ra_take_next_sample api h w
      in if ret \<noteq> RETCODE_OK then Some (lst, out, applied, w)
         else if \<not> valid_data then poll_loop api h lst out applied w
         else poll_loop api h (config_of ctrl) (config_of ctrl) True w)"

definition FastSubControl_poll_control :: "(TestControl, 'w) reader_api \<Rightarrow> TestConfig
    \<Rightarrow> ('w, 'e) FastSubControl \<Rightarrow> (bool \<times> TestConfig \<times> ('w, 'e) FastSubControl) comp" where
  "FastSubControl_poll_control api out c =
     (case p_endpoint (fsc_ptrs c) of None \<Rightarrow> Some (Inl (NullDeref ''reader_''))
      | Some h \<Rightarrow> (case poll_loop api h (fsc_last c) out False (fsc_reader c) of None \<Rightarrow> None
         | Some (lst, out, applied, w) \<Rightarrow>
             Some (Inr (applied, out, c\<lparr>fsc_last := lst, fsc_reader := w\<rparr>))))"

definition FastSubControl_ISubControl :: "'e dds_api \<Rightarrow> (TestControl, 'w) reader_api
    \<Rightarrow> ('w, 'e) FastSubControl ISubControl" where
  "FastSubControl_ISubControl eapi api = \<lparr>sc_init = FastSubControl_run_init eapi,
     sc_poll_control = FastSubControl_poll_control api, sc_has_match = FastSubControl_has_match\<rparr>"

subsection \<open>The last valid message wins\<close>

definition valid_samples :: "('m \<times> bool) list \<Rightarrow> 'm list" where
  "valid_samples xs = map fst (filter snd xs)"

lemma poll_loop_queue:
  assumes q: "queue_reader api h q"
  shows "\<exists>w'. poll_loop api h lst out applied w =
      Some (case valid_samples (q w) of [] \<Rightarrow> (lst, out, applied, w')
            | m # ms \<Rightarrow> (config_of (last (m # ms)), config_of (last (m # ms)), True, w'))
    \<and> q w' = []"
proof (induction "q w" arbitrary: lst out applied w)
  case Nil
  from queue_reader_empty[OF q Nil[symmetric]] obtain x w1 where
    "ra_take_next_sample api h w = (RETCODE_NO_DATA, x, w1)" "q w1 = []" .
  with Nil show ?case by (subst poll_loop.simps) (cases x, simp add: valid_samples_def)
next
  case (Cons x xs)
  obtain m v where x: "x = (m, v)" by (cases x)
  from queue_reader_next[OF q Cons(2)[symmetric]] obtain w1 where
    f: "ra_take_next_sample api h w = (RETCODE_OK, x, w1)" "q w1 = xs" .
  show ?case
  proof (cases v)
    case False
    with f x Cons(2) Cons(1)[OF f(2)[symmetric], of lst out applied] show ?thesis
      by (subst poll_loop.simps) (simp add: valid_samples_def flip: Cons(2))
  next
    case True
    from Cons(1)[OF f(2)[symmetric], of "config_of m" "config_of m" True] obtain w' where w':
      "poll_loop api h (config_of m) (config_of m) True w1 =
        Some (case valid_samples (q w1) of [] \<Rightarrow> (config_of m, config_of m, True, w')
            | m # ms \<Rightarrow> (config_of (last (m # ms)), config_of (last (m # ms)), True, w'))"
      "q w' = []" by blast
    have "valid_samples (q w) = m # valid_samples (q w1)"
      using x True f(2) by (simp add: valid_samples_def flip: Cons(2))
    with w' f x True show ?thesis
      by (subst poll_loop.simps) (auto split: list.splits)
  qed
qed

definition ready_sub_control :: "(TestControl \<times> bool) list \<Rightarrow> ((TestControl \<times> bool) list, nat) FastSubControl" where
  "ready_sub_control w = (FastSubControl_new 0 w)\<lparr>fsc_ptrs :=
     \<lparr>p_participant = Some 0, p_topic = Some 1, p_group = Some 2, p_endpoint = Some 3\<rparr>\<rparr>"

lemma poll_control_queue:
  assumes "queue_reader api h q" "p_endpoint (fsc_ptrs c) = Some h"
  shows "\<exists>d. FastSubControl_poll_control api out c =
      Some (Inr (valid_samples (q (fsc_reader c)) \<noteq> [],
        if valid_samples (q (fsc_reader c)) = [] then out else config_of (last (valid_samples (q (fsc_reader c)))), d))
    \<and> q (fsc_reader d) = [] \<and> fsc_ptrs d = fsc_ptrs c
    \<and> fsc_last d = (if valid_samples (q (fsc_reader c)) = [] then fsc_last c
        else config_of (last (valid_samples (q (fsc_reader c)))))"
proof -
  from poll_loop_queue[OF assms(1), of "fsc_last c" out False "fsc_reader c"] obtain w' where
    w': "poll_loop api h (fsc_last c) out False (fsc_reader c) =
      Some (case valid_samples (q (fsc_reader c)) of [] \<Rightarrow> (fsc_last c, out, False, w')
            | m # ms \<Rightarrow> (config_of (last (m # ms)), config_of (last (m # ms)), True, w'))" "q w' = []" by blast
  show ?thesis using w' assms(2)
    by (cases "valid_samples (q (fsc_reader c))") (simp_all add: FastSubControl_poll_control_def)
qed

subsection \<open>Properties\<close>

text \<open>
  C33: A poll returns for every finite backlog of control messages and empties the reader; it
  reports a configuration exactly when there was a valid message, and then the one of the
  last valid message: the messages before it are dropped.
\<close>

theorem fast_poll_last_wins:
  assumes "queue_reader api h q" "p_endpoint (fsc_ptrs c) = Some h"
  shows "\<exists>d. FastSubControl_poll_control api out c =
      Some (Inr (valid_samples (q (fsc_reader c)) \<noteq> [],
        if valid_samples (q (fsc_reader c)) = [] then out else config_of (last (valid_samples (q (fsc_reader c)))), d))
    \<and> q (fsc_reader d) = []
    \<and> FastSubControl_current d = (if valid_samples (q (fsc_reader c)) = [] then FastSubControl_current c
        else config_of (last (valid_samples (q (fsc_reader c)))))"
  using poll_control_queue[OF assms, of out] unfolding FastSubControl_current_def by blast

theorem fast_poll_last_wins_witness:
  "\<exists>d. FastSubControl_poll_control (loop_reader TestControl_new) TestConfig_new
      (ready_sub_control [(start_msg 1 5 False, True), (stop_msg 1, True)]) =
        Some (Inr (True, config_of (stop_msg 1), d)) \<and> fsc_reader d = []"
  using fast_poll_last_wins[OF loop_reader_queue, of "ready_sub_control [(start_msg 1 5 False, True), (stop_msg 1, True)]" 3
      TestControl_new TestConfig_new]
  by (auto simp: ready_sub_control_def FastSubControl_new_def valid_samples_def)

end
