(* ===== verification/OpenEntities.thy ===== *)
theory OpenEntities
  imports FastEntities
begin

section \<open>OpenDDS: init() and destructor of the four endpoint classes\<close>

text \<open>
  \<open>src/implementation/open_dds\<close>: \<open>OpenPub.hpp\<close>, \<open>OpenPubControl.hpp\<close>, \<open>OpenSub.hpp\<close> and
  \<open>OpenSubControl.hpp\<close>. The participant is not created here: \<open>set_participant_manager\<close>
  stores the one of the participant manager. A typed writer or reader is narrowed from
  the plain one; \<open>Narrow\<close> is the call, a nil result is \<open>None\<close>. The \<open>dynamic_cast\<close> of the
  transport instance to \<open>UdpInst\<close> succeeds exactly on a non-nil instance, since it was
  asked for with the type \<open>udp\<close>.
\<close>

definition set_participant_manager :: "nat option \<Rightarrow> entity_ptrs \<Rightarrow> entity_ptrs" where
  "set_participant_manager participant p = p\<lparr>p_participant := participant\<rparr>"

text \<open>The transport configuration in the middle of \<open>OpenPub::init\<close> and \<open>OpenSub::init\<close>.\<close>

definition open_transport :: "'w dds_api \<Rightarrow> nat \<Rightarrow> 'w dds \<Rightarrow> 'w dds res" where
  "open_transport api g s =
     (let (config, s) = dds_create api (CreateTransportConfig ''udp_config'') s;
          (inst, s) = dds_create api (CreateTransportInst ''udp1'' ''udp'') s;
          s = (case inst of None \<Rightarrow> s | Some i \<Rightarrow> snd (dds_call api (ConfigureUdp i 65500 65500) s))
      in rbind (deref ''config'' config) (\<lambda>c.
         Inr (snd (dds_call api (BindTransportConfig c (case inst of None \<Rightarrow> 0 | Some i \<Rightarrow> i) g) s))))"

definition OpenPub_writer_qos :: "'w dds_api \<Rightarrow> endpoint_qos" where
  "OpenPub_writer_qos api = (let q = api_writer_qos api; l = q_limits q in
     q\<lparr>q_history := KEEP_LAST, q_depth := 1, q_reliability := BEST_EFFORT, q_durability := VOLATILE,
       q_limits := l\<lparr>rl_max_instances := 200, rl_max_samples_per_instance := 1,
         rl_max_samples := 200 * 1\<rparr>\<rparr>)"

definition OpenPub_init :: "'w dds_api \<Rightarrow> entity_ptrs \<Rightarrow> 'w dds \<Rightarrow> (bool \<times> entity_ptrs \<times> 'w dds) res" where
  "OpenPub_init api p s = (case p_participant p of None \<Rightarrow> Inr (False, p, s) | Some part \<Rightarrow>
     (let (ret, s) = dds_call api (RegisterType part ''AirEntity'') s
      in if ret \<noteq> RETCODE_OK then Inr (False, p, s) else
     (let (t, s) = dds_create api (CreateTopic part ''AirEntityTopic'' ''AirEntity'') s;
          p = p\<lparr>p_topic := t\<rparr>
      in case t of None \<Rightarrow> Inr (False, p, s) | Some tp \<Rightarrow>
     (let (g, s) = dds_create api (CreatePublisher part) s;
          p = p\<lparr>p_group := g\<rparr>
      in case g of None \<Rightarrow> Inr (False, p, s) | Some pub \<Rightarrow>
     rbind (open_transport api pub s) (\<lambda>s.
      let (w, s) = dds_create api (CreateDataWriter pub tp (OpenPub_writer_qos api)) s;
          p = p\<lparr>p_endpoint := w\<rparr>
      in case w of None \<Rightarrow> Inr (False, p, s) | Some wr \<Rightarrow>
     (let (n, s) = dds_create api (Narrow wr) s
      in Inr (n \<noteq> None, p, s)))))))"

definition OpenPub_destroy :: "'w dds_api \<Rightarrow> entity_ptrs \<Rightarrow> 'w dds \<Rightarrow> 'w dds res" where
  "OpenPub_destroy api p s =
     rbind (delete_if api ''publisher_'' DeleteDataWriter (p_group p) (p_endpoint p) s) (\<lambda>s.
     rbind (delete_if api ''participant_'' DeletePublisher (p_participant p) (p_group p) s) (\<lambda>s.
     delete_if api ''participant_'' DeleteTopic (p_participant p) (p_topic p) s))"

definition OpenPubControl_writer_qos :: "'w dds_api \<Rightarrow> endpoint_qos" where
  "OpenPubControl_writer_qos api = (let q = api_writer_qos api; l = q_limits q in
     q\<lparr>q_reliability := RELIABLE, q_max_blocking_time := (5, 0), q_history := KEEP_LAST,
       q_depth := 1000, q_durability := TRANSIENT_LOCAL,
       q_limits := l\<lparr>rl_max_instances := -1, rl_max_samples_per_instance := -1,
         rl_max_samples := -1\<rparr>\<rparr>)"

definition OpenPubControl_init :: "'w dds_api \<Rightarrow> entity_ptrs \<Rightarrow> 'w dds \<Rightarrow> (bool \<times> entity_ptrs \<times> 'w dds) res" where
  "OpenPubControl_init api p s = (case p_participant p of None \<Rightarrow> Inr (False, p, s) | Some part \<Rightarrow>
     (let (ret, s) = dds_call api (RegisterType part ''TestControl'') s
      in if ret \<noteq> RETCODE_OK then Inr (False, p, s) else
     (let (t, s) = dds_create api (CreateTopic part ''TestControlTopic'' ''TestControl'') s;
          p = p\<lparr>p_topic := t\<rparr>
      in case t of None \<Rightarrow> Inr (False, p, s) | Some tp \<Rightarrow>
     (let (g, s) = dds_create api (CreatePublisher part) s;
          p = p\<lparr>p_group := g\<rparr>
      in case g of None \<Rightarrow> Inr (False, p, s) | Some pub \<Rightarrow>
     (let (w, s) = dds_create api (CreateDataWriter pub tp (OpenPubControl_writer_qos api)) s;
          p = p\<lparr>p_endpoint := w\<rparr>
      in case w of None \<Rightarrow> Inr (False, p, s) | Some wr \<Rightarrow>
     (let (n, s) = dds_create api (Narrow wr) s
      in Inr (n \<noteq> None, p, s)))))))"

definition OpenPubControl_destroy :: "'w dds_api \<Rightarrow> entity_ptrs \<Rightarrow> 'w dds \<Rightarrow> 'w dds res" where
  "OpenPubControl_destroy api p s =
     rbind (delete_if api ''publisher_'' DeleteDataWriter (p_group p) (p_endpoint p) s) (\<lambda>s.
     rbind (delete_if api ''participant_'' DeletePublisher (p_participant p) (p_group p) s) (\<lambda>s.
     delete_if api ''participant_'' DeleteTopic (p_participant p) (p_topic p) s))"

definition OpenSub_reader_qos :: "'w dds_api \<Rightarrow> endpoint_qos" where
  "OpenSub_reader_qos api = (let q = api_reader_qos api; l = q_limits q in
     q\<lparr>q_reliability := BEST_EFFORT, q_history := KEEP_LAST, q_depth := 1,
       q_limits := l\<lparr>rl_max_instances := 200, rl_max_samples_per_instance := 1,
         rl_max_samples := 200 * 1\<rparr>\<rparr>)"

definition OpenSub_init :: "'w dds_api \<Rightarrow> entity_ptrs \<Rightarrow> 'w dds \<Rightarrow> (bool \<times> entity_ptrs \<times> 'w dds) res" where
  "OpenSub_init api p s = (case p_participant p of None \<Rightarrow> Inr (False, p, s) | Some part \<Rightarrow>
     (let (ret, s) = dds_call api (RegisterType part ''AirEntity'') s
      in if ret \<noteq> RETCODE_OK then Inr (False, p, s) else
     (let (t, s) = dds_create api (CreateTopic part ''AirEntityTopic'' ''AirEntity'') s;
          p = p\<lparr>p_topic := t\<rparr>
      in case t of None \<Rightarrow> Inr (False, p, s) | Some tp \<Rightarrow>
     (let (g, s) = dds_create api (CreateSubscriber part) s;
          p = p\<lparr>p_group := g\<rparr>
      in case g of None \<Rightarrow> Inr (False, p, s) | Some sub \<Rightarrow>
     rbind (open_transport api sub s) (\<lambda>s.
      let (r, s) = dds_create api (CreateDataReader sub tp (OpenSub_reader_qos api)) s;
          p = p\<lparr>p_endpoint := r\<rparr>
      in case r of None \<Rightarrow> Inr (False, p, s) | Some rd \<Rightarrow>
     (let (n, s) = dds_create api (Narrow rd) s
      in Inr (n \<noteq> None, p, s)))))))"

text \<open>\<open>OpenSub\<close> and \<open>OpenSubControl\<close> also delete the participant they were handed.\<close>

definition OpenSub_destroy :: "'w dds_api \<Rightarrow> entity_ptrs \<Rightarrow> 'w dds \<Rightarrow> 'w dds res" where
  "OpenSub_destroy api p s =
     rbind (delete_if api ''subscriber_'' DeleteDataReader (p_group p) (p_endpoint p) s) (\<lambda>s.
     rbind (delete_if api ''participant_'' DeleteSubscriber (p_participant p) (p_group p) s) (\<lambda>s.
     rbind (delete_if api ''participant_'' DeleteTopic (p_participant p) (p_topic p) s) (\<lambda>s.
     Inr (if p_participant p \<noteq> None
          then snd (dds_call api (DeleteParticipant (p_participant p)) s) else s))))"

definition OpenSubControl_reader_qos :: "'w dds_api \<Rightarrow> endpoint_qos" where
  "OpenSubControl_reader_qos api = (let q = api_reader_qos api; l = q_limits q in
     q\<lparr>q_reliability := RELIABLE, q_durability := TRANSIENT_LOCAL, q_history := KEEP_LAST,
       q_depth := 1001,
       q_limits := l\<lparr>rl_max_samples := -1, rl_max_instances := -1,
         rl_max_samples_per_instance := -1\<rparr>\<rparr>)"

definition OpenSubControl_init :: "'w dds_api \<Rightarrow> entity_ptrs \<Rightarrow> 'w dds \<Rightarrow> (bool \<times> entity_ptrs \<times> 'w dds) res" where
  "OpenSubControl_init api p s = (case p_participant p of None \<Rightarrow> Inr (False, p, s) | Some part \<Rightarrow>
     (let (ret, s) = dds_call api (RegisterType part ''TestControl'') s
      in if ret \<noteq> RETCODE_OK then Inr (False, p, s) else
     (let (t, s) = dds_create api (CreateTopic part ''TestControlTopic'' ''TestControl'') s;
          p = p\<lparr>p_topic := t\<rparr>
      in case t of None \<Rightarrow> Inr (False, p, s) | Some tp \<Rightarrow>
     (let (g, s) = dds_create api (CreateSubscriber part) s;
          p = p\<lparr>p_group := g\<rparr>
      in case g of None \<Rightarrow> Inr (False, p, s) | Some sub \<Rightarrow>
     (let (r, s) = dds_create api (CreateDataReader sub tp (OpenSubControl_reader_qos api)) s;
          p = p\<lparr>p_endpoint := r\<rparr>
      in case r of None \<Rightarrow> Inr (False, p, s) | Some rd \<Rightarrow>
     (let (n, s) = dds_create api (Narrow rd) s
      in Inr (n \<noteq> None, p, s)))))))"

definition OpenSubControl_destroy :: "'w dds_api \<Rightarrow> entity_ptrs \<Rightarrow> 'w dds \<Rightarrow> 'w dds res" where
  "OpenSubControl_destroy api p s =
     rbind (delete_if api ''subscriber_'' DeleteDataReader (p_group p) (p_endpoint p) s) (\<lambda>s.
     rbind (delete_if api ''participant_'' DeleteSubscriber (p_participant p) (p_group p) s) (\<lambda>s.
     rbind (delete_if api ''participant_'' DeleteTopic (p_participant p) (p_topic p) s) (\<lambda>s.
     Inr (if p_participant p \<noteq> None
          then snd (dds_call api (DeleteParticipant (p_participant p)) s) else s))))"

subsection \<open>They implement the endpoint interface too\<close>

definition handed_in :: "entity_ptrs \<Rightarrow> bool" where
  "handed_in p \<longleftrightarrow> p_topic p = None \<and> p_group p = None \<and> p_endpoint p = None"

lemma open_transport_trace:
  "open_transport api g s = Inr t \<Longrightarrow>
     \<exists>es. dds_trace t = dds_trace s @ es \<and> (\<forall>l. lifecycle es l = Some l)"
  by (auto simp: open_transport_def entity_defs Let_def split: prod.splits option.splits)

lemma open_transport_Inl: "open_transport api g s = Inl f \<Longrightarrow> f = NullDeref ''config''"
  unfolding open_transport_def Let_def split_beta by (elim rbind_InlE) (auto simp: deref_def split: option.splits)

interpretation open_pub: dds_endpoint OpenPub_init OpenPub_destroy PublisherK WriterK handed_in False
  by unfold_locales
    (auto simp: OpenPub_init_def OpenPub_destroy_def entity_defs Let_def handed_in_def lifecycle_append
      elim!: rbind_InrE dest!: open_transport_trace split: prod.splits option.splits if_splits)

interpretation open_pub_control:
  dds_endpoint OpenPubControl_init OpenPubControl_destroy PublisherK WriterK handed_in False
  by unfold_locales
    (auto simp: OpenPubControl_init_def OpenPubControl_destroy_def entity_defs Let_def handed_in_def
      split: prod.splits option.splits if_splits)

interpretation open_sub: dds_endpoint OpenSub_init OpenSub_destroy SubscriberK ReaderK handed_in True
  by unfold_locales
    (auto simp: OpenSub_init_def OpenSub_destroy_def entity_defs Let_def handed_in_def lifecycle_append
      elim!: rbind_InrE dest!: open_transport_trace split: prod.splits option.splits if_splits)

interpretation open_sub_control:
  dds_endpoint OpenSubControl_init OpenSubControl_destroy SubscriberK ReaderK handed_in True
  by unfold_locales
    (auto simp: OpenSubControl_init_def OpenSubControl_destroy_def entity_defs Let_def handed_in_def
      split: prod.splits option.splits if_splits)

subsection \<open>Properties\<close>

text \<open>
  \<open>OpenPub\<close> with the participant \<open>d\<close> it was handed: unless the transport registry returns
  no configuration, \<open>init\<close> and the destructor are balanced and the participant, which the
  object does not own, is what is left.
\<close>

lemma open_pub_lifecycle:
  "OpenPub_init api (set_participant_manager (Some d) no_ptrs) s = Inl (NullDeref ''config'')
   \<or> (\<exists>b p s' t. OpenPub_init api (set_participant_manager (Some d) no_ptrs) s = Inr (b, p, s')
     \<and> OpenPub_destroy api p s' = Inr t
     \<and> lifecycle (calls_since s t) [((ParticipantK, d), [])] = Some [((ParticipantK, d), [])])"
proof (cases "OpenPub_init api (set_participant_manager (Some d) no_ptrs) s")
  case (Inl f)
  then show ?thesis
    by (auto simp: OpenPub_init_def set_participant_manager_def Let_def no_ptrs_def
      dest!: open_transport_Inl elim!: rbind_InlE split: prod.splits option.splits if_splits)
next
  case (Inr r)
  then obtain b p s' where i: "OpenPub_init api (set_participant_manager (Some d) no_ptrs) s = Inr (b, p, s')"
    by (cases r) auto
  have "p_participant p = Some d" using i
    by (auto simp: OpenPub_init_def set_participant_manager_def Let_def no_ptrs_def
      elim!: rbind_InrE split: prod.splits option.splits if_splits)
  with open_pub.init_destroy_balanced[OF _ i] i show ?thesis
    by (auto simp: handed_in_def set_participant_manager_def live_of_def no_ptrs_def left_over_def)
qed

lemma delete_entity_gone: "delete_entity e l = Some l' \<Longrightarrow> e \<notin> fst ` set l' \<and> fst ` set l' \<subseteq> fst ` set l"
  by (auto simp: delete_entity_def split: if_splits)

definition is_call :: "entity_event \<Rightarrow> bool" where
  "is_call ev = (case ev of Created c h \<Rightarrow> False | Called c r \<Rightarrow> True)"

lemma lifecycle_calls_shrink:
  "\<forall>ev \<in> set es. is_call ev \<Longrightarrow> lifecycle es l = Some l' \<Longrightarrow> fst ` set l' \<subseteq> fst ` set l"
proof (induction es arbitrary: l)
  case (Cons ev es)
  from Cons.prems obtain c r m where c: "ev = Called c r" "lifecycle_step ev l = Some m" "lifecycle es m = Some l'"
    by (auto simp: is_call_def split: entity_event.splits option.splits)
  have "fst ` set m \<subseteq> fst ` set l"
  proof (cases "deleted_by c")
    case None
    with c(1,2) show ?thesis by simp
  next
    case (Some e)
    with c(1,2) show ?thesis using delete_entity_gone[of e l m] by simp
  qed
  with Cons.IH[OF _ c(3)] Cons.prems(1) show ?case by auto
qed simp

lemma participant_deleted_twice:
  assumes "\<forall>ev \<in> set es. is_call ev"
  shows "lifecycle (fs @ Called (DeleteParticipant (Some d)) r # es @ [Called (DeleteParticipant (Some d)) q]) l = None"
proof (rule ccontr)
  assume "\<not> ?thesis"
  then obtain l' where run:
    "lifecycle (fs @ Called (DeleteParticipant (Some d)) r # es @ [Called (DeleteParticipant (Some d)) q]) l = Some l'"
    by blast
  let ?e = "(ParticipantK, d)"
  from run obtain m1 m2 m3 where "lifecycle fs l = Some m1" "delete_entity ?e m1 = Some m2"
    and es: "lifecycle es m2 = Some m3" and d2: "delete_entity ?e m3 = Some l'"
    by (auto simp: lifecycle_append split: option.splits)
  then have "?e \<notin> fst ` set m3" using delete_entity_gone lifecycle_calls_shrink[OF assms es] by blast
  with d2 show False by (simp add: delete_entity_def)
qed

lemma delete_if_calls:
  "delete_if api what c parent child s = Inr t \<Longrightarrow>
     \<exists>es. dds_trace t = dds_trace s @ es \<and> (\<forall>ev \<in> set es. is_call ev)"
  by (auto simp: delete_if_def deref_def is_call_def dds_call_def Let_def split: option.splits prod.splits)

lemma delete_three:
  assumes "rbind (delete_if api w1 c1 g1 h1 s) (\<lambda>s. rbind (delete_if api w2 c2 g2 h2 s) (\<lambda>s.
      rbind (delete_if api w3 c3 g3 h3 s) (\<lambda>s. Inr (snd (dds_call api (DeleteParticipant (Some d)) s))))) = Inr t"
  shows "\<exists>es r. dds_trace t = dds_trace s @ es @ [Called (DeleteParticipant (Some d)) r] \<and> (\<forall>ev \<in> set es. is_call ev)"
proof -
  from assms obtain a b c where abc: "delete_if api w1 c1 g1 h1 s = Inr a" "delete_if api w2 c2 g2 h2 a = Inr b"
    "delete_if api w3 c3 g3 h3 b = Inr c" "t = snd (dds_call api (DeleteParticipant (Some d)) c)"
    by (auto elim!: rbind_InrE)
  from delete_if_calls[OF abc(1)] obtain e1 where e1: "dds_trace a = dds_trace s @ e1"
    "\<forall>ev \<in> set e1. is_call ev" by blast
  from delete_if_calls[OF abc(2)] obtain e2 where e2: "dds_trace b = dds_trace a @ e2"
    "\<forall>ev \<in> set e2. is_call ev" by blast
  from delete_if_calls[OF abc(3)] obtain e3 where e3: "dds_trace c = dds_trace b @ e3"
    "\<forall>ev \<in> set e3. is_call ev" by blast
  from e1 e2 e3 have "dds_trace t = dds_trace s @ (e1 @ e2 @ e3) @ [Called (DeleteParticipant (Some d)) (fst (dds_call api (DeleteParticipant (Some d)) c))]"
    by (simp add: abc(4))
  moreover have "\<forall>ev \<in> set (e1 @ e2 @ e3). is_call ev" using e1 e2 e3 by auto
  ultimately show ?thesis by blast
qed

text \<open>
  \<open>OpenSub\<close> and \<open>OpenSubControl\<close> are handed the same participant and both delete it: no
  state of the middleware accepts the calls of the two destructors.
\<close>

lemma open_participant_deleted_twice:
  assumes "p_participant p = Some d" "p_participant q = Some d"
    and "OpenSubControl_destroy api q s = Inr t" and "OpenSub_destroy api p t = Inr u"
  shows "lifecycle (calls_since s u) l = None"
proof -
  from delete_three[OF assms(3)[unfolded OpenSubControl_destroy_def assms(2), simplified]]
  obtain e1 r1 where e1: "dds_trace t = dds_trace s @ e1 @ [Called (DeleteParticipant (Some d)) r1]" by blast
  from delete_three[OF assms(4)[unfolded OpenSub_destroy_def assms(1), simplified]]
  obtain e2 r2 where e2: "dds_trace u = dds_trace t @ e2 @ [Called (DeleteParticipant (Some d)) r2]"
    "\<forall>ev \<in> set e2. is_call ev" by blast
  have "calls_since s u = e1 @ Called (DeleteParticipant (Some d)) r1 # e2 @ [Called (DeleteParticipant (Some d)) r2]"
    using e1 e2(1) by (simp add: calls_since_def)
  then show ?thesis using participant_deleted_twice[OF e2(2)] by simp
qed

text \<open>
  The QoS of the OpenDDS pairs match too, with the volatile default durability of a data
  reader, and the limits of the data pair are consistent.
\<close>

lemma open_qos_matches:
  assumes "q_durability (api_reader_qos api) = VOLATILE"
  shows "rxo_compatible (OpenPubControl_writer_qos api) (OpenSubControl_reader_qos api)
    \<and> rxo_compatible (OpenPub_writer_qos api) (OpenSub_reader_qos api)"
  using assms
  by (simp add: rxo_compatible_def OpenPubControl_writer_qos_def less_eq_durability_def
    OpenSubControl_reader_qos_def OpenPub_writer_qos_def OpenSub_reader_qos_def Let_def)

end
