(* ===== verification/OpenRuntime.thy ===== *)
theory OpenRuntime
  imports OpenEntities FastControl
begin

section \<open>OpenDDS: the four endpoint classes at run time\<close>

text \<open>
  \<open>src/implementation/open_dds\<close>: \<open>OpenPub\<close>, \<open>OpenPubControl\<close>, \<open>OpenSub\<close>,
  \<open>OpenSubControl\<close> after \<open>init\<close>. Each class keeps, beside the plain writer or reader of
  \<open>OpenEntities\<close>, the narrowed one (\<open>air_writer_\<close>, \<open>dr\<close>), which is nil until \<open>init\<close> has
  succeeded. Going through a nil \<open>_var\<close> is \<open>NullDeref\<close>.
\<close>

subsection \<open>OpenPub\<close>

record ('w, 'e) OpenPub =
  op_messages_per_cycle :: int
  op_ptrs :: entity_ptrs
  op_air_writer :: "nat option"
  op_current_id :: int
  op_min_subs :: int
  op_matched_subs :: int
  op_dds :: "'e dds"
  op_writer :: "(AirEntity, 'w) writer_state"

definition OpenPub_new :: "'e \<Rightarrow> 'w \<Rightarrow> ('w, 'e) OpenPub" where
  "OpenPub_new e w = \<lparr>op_messages_per_cycle = 0, op_ptrs = no_ptrs, op_air_writer = None,
     op_current_id = 0, op_min_subs = 0, op_matched_subs = 0,
     op_dds = \<lparr>dds_world = e, dds_trace = []\<rparr>, op_writer = \<lparr>w_world = w, w_log = []\<rparr>\<rparr>"

definition OpenPub_on_publication_matched :: "int \<Rightarrow> ('w, 'e) OpenPub \<Rightarrow> ('w, 'e) OpenPub" where
  "OpenPub_on_publication_matched total_count p = p\<lparr>op_matched_subs := total_count\<rparr>"

definition OpenPub_run_init :: "'e dds_api \<Rightarrow> ('w, 'e) OpenPub \<Rightarrow> (bool \<times> ('w, 'e) OpenPub) res" where
  "OpenPub_run_init api p = rbind (OpenPub_init api (op_ptrs p) (op_dds p))
     (\<lambda>(b, ptrs, d). Inr (b, p\<lparr>op_ptrs := ptrs, op_dds := d,
        op_air_writer := (if b then p_endpoint ptrs else None)\<rparr>))"

definition OpenPub_publish :: "(AirEntity, 'w) writer_api \<Rightarrow> AirEntity \<Rightarrow> ('w, 'e) OpenPub
    \<Rightarrow> (bool \<times> ('w, 'e) OpenPub) res" where
  "OpenPub_publish api inst p =
     rbind (deref ''air_writer_'' (op_air_writer p)) (\<lambda>h.
       let (ret, s) = w_write api h inst (op_writer p)
       in Inr (ret = RETCODE_OK, p\<lparr>op_writer := s\<rparr>))"

definition OpenPub_publish_loan :: "nat \<Rightarrow> ('w, 'e) OpenPub \<Rightarrow> (bool \<times> ('w, 'e) OpenPub) res" where
  "OpenPub_publish_loan count p = Inr (True, p)"

definition OpenPub_set_expected_subs :: "int \<Rightarrow> ('w, 'e) OpenPub \<Rightarrow> ('w, 'e) OpenPub" where
  "OpenPub_set_expected_subs expected p = p\<lparr>op_min_subs := expected\<rparr>"

definition OpenPub_is_matched :: "('w, 'e) OpenPub \<Rightarrow> bool" where
  "OpenPub_is_matched p = (op_matched_subs p \<ge> op_min_subs p)"

definition OpenPub_IPub :: "'e dds_api \<Rightarrow> (AirEntity, 'w) writer_api
    \<Rightarrow> (AirEntity, ('w, 'e) OpenPub) IPub" where
  "OpenPub_IPub eapi api = \<lparr>ip_init = OpenPub_run_init eapi,
     ip_publish = OpenPub_publish api, ip_publish_loan = OpenPub_publish_loan,
     ip_set_expected_subs = OpenPub_set_expected_subs,
     ip_is_matched = (\<lambda>p. (OpenPub_is_matched p, p)),
     ip_messages_per_cycle = op_messages_per_cycle,
     ip_set_messages_per_cycle = (\<lambda>n p. p\<lparr>op_messages_per_cycle := n\<rparr>)\<rparr>"

definition OpenPub_sent :: "('w, 'e) OpenPub \<Rightarrow> AirEntity list" where
  "OpenPub_sent p = accepted (w_log (op_writer p))"

text \<open>It keeps the contract of \<open>publish\<close>, and not the one of \<open>publish_loan\<close>.\<close>

interpretation open_ipub: ipub "OpenPub_IPub eapi api" OpenPub_sent
  by unfold_locales
    (auto simp: OpenPub_IPub_def OpenPub_publish_def OpenPub_publish_loan_def OpenPub_set_expected_subs_def
      OpenPub_run_init_def OpenPub_sent_def w_write_def flow split: prod.splits)

subsection \<open>OpenPubControl\<close>

record ('w, 'e) OpenPubControl =
  oc_ptrs :: entity_ptrs
  oc_dr :: "nat option"
  oc_matched_subs :: int
  oc_min_subs :: int
  oc_dds :: "'e dds"
  oc_writer :: "(TestControl, 'w) writer_state"

definition OpenPubControl_new :: "'e \<Rightarrow> 'w \<Rightarrow> ('w, 'e) OpenPubControl" where
  "OpenPubControl_new e w = \<lparr>oc_ptrs = no_ptrs, oc_dr = None, oc_matched_subs = 0, oc_min_subs = 0,
     oc_dds = \<lparr>dds_world = e, dds_trace = []\<rparr>, oc_writer = \<lparr>w_world = w, w_log = []\<rparr>\<rparr>"

definition OpenPubControl_on_publication_matched :: "int \<Rightarrow> ('w, 'e) OpenPubControl \<Rightarrow> ('w, 'e) OpenPubControl" where
  "OpenPubControl_on_publication_matched total_count c = c\<lparr>oc_matched_subs := total_count\<rparr>"

definition OpenPubControl_run_init ::
    "'e dds_api \<Rightarrow> ('w, 'e) OpenPubControl \<Rightarrow> (bool \<times> ('w, 'e) OpenPubControl) res" where
  "OpenPubControl_run_init api c = rbind (OpenPubControl_init api (oc_ptrs c) (oc_dds c))
     (\<lambda>(b, ptrs, d). Inr (b, c\<lparr>oc_ptrs := ptrs, oc_dds := d,
        oc_dr := (if b then p_endpoint ptrs else None)\<rparr>))"

definition OpenPubControl_publish_start :: "(TestControl, 'w) writer_api \<Rightarrow> int \<Rightarrow> int \<Rightarrow> bool
    \<Rightarrow> ('w, 'e) OpenPubControl \<Rightarrow> (bool \<times> ('w, 'e) OpenPubControl) res" where
  "OpenPubControl_publish_start api tid expected loan c =
     (let msg = TestControl_new\<lparr>tc_test_id := tid, tc_start := True,
                  tc_expected_entities := expected, tc_loan := loan\<rparr>
      in rbind (deref ''dr'' (oc_dr c)) (\<lambda>h.
           let (ret, s) = w_write api h msg (oc_writer c)
           in Inr (ret = RETCODE_OK, c\<lparr>oc_writer := s\<rparr>)))"

text \<open>\<open>publish_stop\<close> does not use \<open>dr\<close>: it narrows \<open>writer_\<close> again.\<close>

definition OpenPubControl_publish_stop :: "'e dds_api \<Rightarrow> (TestControl, 'w) writer_api \<Rightarrow> int
    \<Rightarrow> ('w, 'e) OpenPubControl \<Rightarrow> (bool \<times> ('w, 'e) OpenPubControl) res" where
  "OpenPubControl_publish_stop eapi api tid c =
     (let msg = TestControl_new\<lparr>tc_test_id := tid, tc_start := False\<rparr>;
          (n, d) = (case p_endpoint (oc_ptrs c) of None \<Rightarrow> (None, oc_dds c)
                    | Some h \<Rightarrow> dds_create eapi (Narrow h) (oc_dds c))
      in rbind (deref ''_narrow(writer_)'' n) (\<lambda>h.
           let (ret, s) = w_write api h msg (oc_writer c)
           in Inr (ret = RETCODE_OK, c\<lparr>oc_dds := d, oc_writer := s\<rparr>)))"

definition OpenPubControl_is_matched :: "('w, 'e) OpenPubControl \<Rightarrow> bool" where
  "OpenPubControl_is_matched c = (oc_matched_subs c \<ge> oc_min_subs c)"

definition OpenPubControl_IPubControl :: "'e dds_api \<Rightarrow> (TestControl, 'w) writer_api
    \<Rightarrow> ('w, 'e) OpenPubControl IPubControl" where
  "OpenPubControl_IPubControl eapi api = \<lparr>ic_init = OpenPubControl_run_init eapi,
     ic_publish_start = OpenPubControl_publish_start api,
     ic_publish_stop = OpenPubControl_publish_stop eapi api,
     ic_is_matched = (\<lambda>c. (OpenPubControl_is_matched c, c))\<rparr>"

definition OpenPubControl_commands :: "('w, 'e) OpenPubControl \<Rightarrow> TestControl list" where
  "OpenPubControl_commands c = offered (w_log (oc_writer c))"

interpretation open_ipub_control: ipub_control "OpenPubControl_IPubControl eapi api" OpenPubControl_commands
  by unfold_locales
    (auto simp: OpenPubControl_IPubControl_def OpenPubControl_publish_start_def start_msg_def
      OpenPubControl_publish_stop_def stop_msg_def OpenPubControl_commands_def
      OpenPubControl_run_init_def w_write_def Let_def flow split: prod.splits)

subsection \<open>OpenSub\<close>

text \<open>
  The class declares its own \<open>received_ids\<close> and \<open>expected_messages_cycle\<close>, which hide the
  members of \<open>ISub\<close>. A test, which holds an \<open>ISub\<close>, reads and writes the inherited ones
  (\<open>os_base_expected\<close>); the operations of the class use the hiding ones
  (\<open>os_expected_messages_cycle\<close>), and only the non-virtual \<open>set_expected_messages\<close>
  writes those.
\<close>

record ('w, 'e) OpenSub =
  os_base_expected :: int
  os_received_ids :: "int set"
  os_expected_messages_cycle :: int
  os_ptrs :: entity_ptrs
  os_dr :: "nat option"
  os_matched_pub :: int
  os_dds :: "'e dds"
  os_reader :: 'w

definition OpenSub_new :: "'e \<Rightarrow> 'w \<Rightarrow> ('w, 'e) OpenSub" where
  "OpenSub_new e w = \<lparr>os_base_expected = -1, os_received_ids = {}, os_expected_messages_cycle = 0,
     os_ptrs = no_ptrs, os_dr = None, os_matched_pub = 0,
     os_dds = \<lparr>dds_world = e, dds_trace = []\<rparr>, os_reader = w\<rparr>"

definition OpenSub_on_subscription_matched :: "int \<Rightarrow> ('w, 'e) OpenSub \<Rightarrow> ('w, 'e) OpenSub" where
  "OpenSub_on_subscription_matched current_count s = s\<lparr>os_matched_pub := current_count\<rparr>"

definition OpenSub_run_init :: "'e dds_api \<Rightarrow> ('w, 'e) OpenSub \<Rightarrow> (bool \<times> ('w, 'e) OpenSub) res" where
  "OpenSub_run_init api s = rbind (OpenSub_init api (os_ptrs s) (os_dds s))
     (\<lambda>(b, ptrs, d). Inr (b, s\<lparr>os_ptrs := ptrs, os_dds := d,
        os_dr := (if b then p_endpoint ptrs else None)\<rparr>))"

fun OpenSub_take_loop :: "(AirEntity, 'w) reader_api \<Rightarrow> nat \<Rightarrow> nat \<Rightarrow> int set \<Rightarrow> nat \<Rightarrow> 'w
    \<Rightarrow> int set \<times> nat \<times> 'w" where
  "OpenSub_take_loop api h 0 ids tot w = (ids, tot, w)"
| "OpenSub_take_loop api h (Suc n) ids tot w =
     (let (ret, (sample, valid_data), w) = ra_take_next_sample api h w
      in if ret = RETCODE_NO_DATA then (ids, tot, w)
         else if ret \<noteq> RETCODE_OK then (ids, tot, w)
         else OpenSub_take_loop api h n
                (if valid_data then insert (ent_id sample) ids else ids) (tot + 1) w)"

text \<open>
  The vectors are resized to the expected number first; a negative one is
  \<open>std::length_error\<close>.
\<close>

definition OpenSub_run_without_loan :: "(AirEntity, 'w) reader_api \<Rightarrow> int \<Rightarrow> ('w, 'e) OpenSub
    \<Rightarrow> (bool \<times> int \<times> ('w, 'e) OpenSub) res" where
  "OpenSub_run_without_loan api lost_samples s =
     (let s = s\<lparr>os_received_ids := {}\<rparr>; expected = os_expected_messages_cycle s
      in case os_dr s of None \<Rightarrow> Inr (False, expected, s)
      | Some h \<Rightarrow>
        if expected < 0 then Inl (LengthError expected)
        else let (ids, total_samples, w) = OpenSub_take_loop api h (size_t expected) {} 0 (os_reader s);
                 all_received = (card ids = size_t expected);
                 s = s\<lparr>os_received_ids := ids, os_reader := w\<rparr>
             in Inr (all_received, if all_received then 0 else expected - int (card ids), s))"

definition OpenSub_run_with_loan :: "int \<Rightarrow> ('w, 'e) OpenSub \<Rightarrow> (bool \<times> int \<times> ('w, 'e) OpenSub) res" where
  "OpenSub_run_with_loan lost_samples s = Inl (Thrown ''run with loan not implemented (OpenSub)'')"

definition OpenSub_reset_samples :: "('w, 'e) OpenSub \<Rightarrow> ('w, 'e) OpenSub" where
  "OpenSub_reset_samples s = s\<lparr>os_received_ids := {}\<rparr>"

definition OpenSub_is_match :: "('w, 'e) OpenSub \<Rightarrow> bool" where
  "OpenSub_is_match s = (os_matched_pub s > 0)"

definition OpenSub_set_expected_messages :: "int \<Rightarrow> ('w, 'e) OpenSub \<Rightarrow> ('w, 'e) OpenSub" where
  "OpenSub_set_expected_messages expected s = s\<lparr>os_expected_messages_cycle := expected\<rparr>"

definition OpenSub_ISub :: "'e dds_api \<Rightarrow> (AirEntity, 'w) reader_api \<Rightarrow> ('w, 'e) OpenSub ISub" where
  "OpenSub_ISub eapi api = \<lparr>is_init = OpenSub_run_init eapi,
     is_run_without_loan = (\<lambda>k s. Some (OpenSub_run_without_loan api k s)),
     is_run_with_loan = (\<lambda>k s. Some (OpenSub_run_with_loan k s)),
     is_reset_samples = OpenSub_reset_samples, is_is_match = OpenSub_is_match,
     is_expected_messages_cycle = os_base_expected,
     is_set_expected_messages_cycle = (\<lambda>n s. s\<lparr>os_base_expected := n\<rparr>)\<rparr>"

lemma OpenSub_run_without_loan_base:
  assumes "OpenSub_run_without_loan api k s = Inr (b, l, t)"
  shows "os_base_expected t = os_base_expected s
    \<and> os_expected_messages_cycle t = os_expected_messages_cycle s"
  using assms
  by (auto simp: OpenSub_run_without_loan_def Let_def split: option.splits prod.splits if_splits)

interpretation open_isub: isub "OpenSub_ISub eapi api"
proof unfold_locales
  fix k s b l t assume "is_run_without_loan (OpenSub_ISub eapi api) k s = Some (Inr (b, l, t))"
  then show "is_expected_messages_cycle (OpenSub_ISub eapi api) t
      = is_expected_messages_cycle (OpenSub_ISub eapi api) s"
    using OpenSub_run_without_loan_base[of api k s b l t] by (simp add: OpenSub_ISub_def)
qed (auto simp: OpenSub_ISub_def OpenSub_run_with_loan_def OpenSub_reset_samples_def)

subsection \<open>OpenSubControl\<close>

record ('w, 'e) OpenSubControl =
  osc_ptrs :: entity_ptrs
  osc_dr :: "nat option"
  osc_last :: TestConfig
  osc_matched :: int
  osc_dds :: "'e dds"
  osc_reader :: 'w

definition OpenSubControl_new :: "'e \<Rightarrow> 'w \<Rightarrow> ('w, 'e) OpenSubControl" where
  "OpenSubControl_new e w = \<lparr>osc_ptrs = no_ptrs, osc_dr = None, osc_last = TestConfig_new,
     osc_matched = 0, osc_dds = \<lparr>dds_world = e, dds_trace = []\<rparr>, osc_reader = w\<rparr>"

definition OpenSubControl_on_subscription_matched :: "int \<Rightarrow> ('w, 'e) OpenSubControl \<Rightarrow> ('w, 'e) OpenSubControl" where
  "OpenSubControl_on_subscription_matched current_count_change c =
     (if current_count_change = 1 then c\<lparr>osc_matched := i32 (osc_matched c + 1)\<rparr>
      else if current_count_change = -1 then c\<lparr>osc_matched := i32 (osc_matched c - 1)\<rparr>
      else c)"

definition OpenSubControl_run_init ::
    "'e dds_api \<Rightarrow> ('w, 'e) OpenSubControl \<Rightarrow> (bool \<times> ('w, 'e) OpenSubControl) res" where
  "OpenSubControl_run_init api c = rbind (OpenSubControl_init api (osc_ptrs c) (osc_dds c))
     (\<lambda>(b, ptrs, d). Inr (b, c\<lparr>osc_ptrs := ptrs, osc_dds := d,
        osc_dr := (if b then p_endpoint ptrs else None)\<rparr>))"

definition OpenSubControl_has_match :: "('w, 'e) OpenSubControl \<Rightarrow> bool" where
  "OpenSubControl_has_match c = (osc_matched c > 0)"

text \<open>
  A nil \<open>dr\<close> is narrowed again first. The loop
  \<open>while (dr->take_next_sample(sample, info) == RETCODE_OK)\<close> is the one of
  \<open>FastSubControl::poll_control\<close>: \<open>poll_loop\<close>.
\<close>

definition OpenSubControl_renarrow :: "'e dds_api \<Rightarrow> ('w, 'e) OpenSubControl \<Rightarrow> ('w, 'e) OpenSubControl" where
  "OpenSubControl_renarrow eapi c =
     (if osc_dr c \<noteq> None then c
      else case p_endpoint (osc_ptrs c) of None \<Rightarrow> c
      | Some rd \<Rightarrow> (let (n, d) = dds_create eapi (Narrow rd) (osc_dds c)
                   in c\<lparr>osc_dr := n, osc_dds := d\<rparr>))"

definition OpenSubControl_poll_control :: "'e dds_api \<Rightarrow> (TestControl, 'w) reader_api \<Rightarrow> TestConfig
    \<Rightarrow> ('w, 'e) OpenSubControl \<Rightarrow> (bool \<times> TestConfig \<times> ('w, 'e) OpenSubControl) comp" where
  "OpenSubControl_poll_control eapi api out c =
     (let c = OpenSubControl_renarrow eapi c
      in case osc_dr c of None \<Rightarrow> Some (Inr (False, out, c))
      | Some h \<Rightarrow> (case poll_loop api h (osc_last c) out False (osc_reader c) of None \<Rightarrow> None
         | Some (lst, out, applied, w) \<Rightarrow>
             Some (Inr (applied, out, c\<lparr>osc_last := lst, osc_reader := w\<rparr>))))"

definition OpenSubControl_ISubControl :: "'e dds_api \<Rightarrow> (TestControl, 'w) reader_api
    \<Rightarrow> ('w, 'e) OpenSubControl ISubControl" where
  "OpenSubControl_ISubControl eapi api = \<lparr>sc_init = OpenSubControl_run_init eapi,
     sc_poll_control = OpenSubControl_poll_control eapi api, sc_has_match = OpenSubControl_has_match\<rparr>"

definition ready_open_sub :: "int \<Rightarrow> (AirEntity \<times> bool) list \<Rightarrow> ((AirEntity \<times> bool) list, nat) OpenSub" where
  "ready_open_sub n w = (OpenSub_new 0 w)\<lparr>os_base_expected := n, os_dr := Some 3\<rparr>"

text \<open>The states of an \<open>OpenSub\<close> that is driven through its \<open>ISub\<close> interface and its listener.\<close>

inductive open_sub_reach :: "'e dds_api \<Rightarrow> (AirEntity, 'w) reader_api \<Rightarrow> ('w, 'e) OpenSub \<Rightarrow> ('w, 'e) OpenSub \<Rightarrow> bool"
  for eapi api s where
  os_start: "open_sub_reach eapi api s s"
| os_participant: "open_sub_reach eapi api s t \<Longrightarrow>
    open_sub_reach eapi api s (t\<lparr>os_ptrs := set_participant_manager d (os_ptrs t)\<rparr>)"
| os_init: "open_sub_reach eapi api s t \<Longrightarrow> is_init (OpenSub_ISub eapi api) t = Inr (b, u) \<Longrightarrow>
    open_sub_reach eapi api s u"
| os_run: "open_sub_reach eapi api s t \<Longrightarrow>
    is_run_without_loan (OpenSub_ISub eapi api) k t = Some (Inr (b, l, u)) \<Longrightarrow> open_sub_reach eapi api s u"
| os_reset: "open_sub_reach eapi api s t \<Longrightarrow> open_sub_reach eapi api s (is_reset_samples (OpenSub_ISub eapi api) t)"
| os_expect: "open_sub_reach eapi api s t \<Longrightarrow>
    open_sub_reach eapi api s (is_set_expected_messages_cycle (OpenSub_ISub eapi api) n t)"
| os_match: "open_sub_reach eapi api s t \<Longrightarrow> open_sub_reach eapi api s (OpenSub_on_subscription_matched n t)"
| os_arrive: "open_sub_reach eapi api s t \<Longrightarrow> open_sub_reach eapi api s (t\<lparr>os_reader := w\<rparr>)"

inductive_cases open_sub_reachE: "open_sub_reach eapi api s t"

lemma open_sub_hidden:
  "open_sub_reach eapi api s t \<Longrightarrow> os_expected_messages_cycle t = os_expected_messages_cycle s"
proof (induction rule: open_sub_reach.induct)
  case (os_init t b u)
  then show ?case by (auto simp: OpenSub_ISub_def OpenSub_run_init_def elim!: rbind_InrE)
next
  case (os_run t k b l u)
  then show ?case using OpenSub_run_without_loan_base[of api k t b l u] by (simp add: OpenSub_ISub_def)
qed (simp_all add: OpenSub_ISub_def OpenSub_reset_samples_def OpenSub_on_subscription_matched_def)

subsection \<open>Properties\<close>

text \<open>
  \<open>OpenSub\<close> never counts anything: a test sets the expected number in the base class, the
  run reads the hiding member, which stays 0. Whatever the test expects and whatever
  arrived, in every reachable state a run takes no sample and, once the reader exists,
  reports that all entities were received.
\<close>

lemma open_sub_never_counts:
  assumes "open_sub_reach eapi api (OpenSub_new e w) s" "os_dr s = Some h"
  shows "is_run_without_loan (OpenSub_ISub eapi api) k (is_set_expected_messages_cycle (OpenSub_ISub eapi api) n s)
    = Some (Inr (True, 0, s\<lparr>os_base_expected := n, os_received_ids := {}\<rparr>))"
proof -
  have "os_expected_messages_cycle s = 0" using open_sub_hidden[OF assms(1)] by (simp add: OpenSub_new_def)
  moreover have "size_t 0 = 0" by (simp add: size_t_def)
  ultimately show ?thesis using assms(2)
    by (cases s) (simp add: OpenSub_ISub_def OpenSub_run_without_loan_def Let_def)
qed

definition ready_open_pub :: "(unit, nat) OpenPub" where
  "ready_open_pub = (OpenPub_new 0 ())\<lparr>op_air_writer := Some 3\<rparr>"

text \<open>
  \<open>OpenPub::publish_loan\<close> reports success and sends nothing, so \<open>OpenPub\<close> does not keep
  the loan contract, which \<open>FastPub\<close> keeps, with any writer.
\<close>

lemma open_publish_loan_sends_nothing:
  "ip_publish_loan (OpenPub_IPub eapi api) n p = Inr (True, p)
   \<and> \<not> ipub_loan (OpenPub_IPub eapi api) OpenPub_sent"
proof -
  have r: "ip_publish_loan (OpenPub_IPub eapi api) n p = Inr (True, p)" for n p
    by (simp add: OpenPub_IPub_def OpenPub_publish_loan_def)
  show ?thesis
  proof (intro conjI notI)
    show "ip_publish_loan (OpenPub_IPub eapi api) n p = Inr (True, p)" by (rule r)
    assume "ipub_loan (OpenPub_IPub eapi api) OpenPub_sent"
    from ipub_loan.loan_true[OF this r, of 1] show False by simp
  qed
qed

end
