(* ===== verification/Cyclone.thy ===== *)
theory Cyclone
  imports Interfaces
begin

section \<open>Cyclone DDS and RTI: CyclonePub and the stubs\<close>

text \<open>
  \<open>src/implementation/cyclone_dds/CyclonePub.hpp\<close>, \<open>CycloneSub.hpp\<close> and
  \<open>CycloneSubControl.hpp\<close>, and the three classes of \<open>src/implementation/rti_dds\<close> that
  have a body to speak of (\<open>RtiPubControl\<close>, \<open>RtiSub\<close>, \<open>RtiSubControl\<close>).

  The Cyclone C++ library is a parameter: constructing an entity gives a handle or throws
  (\<open>None\<close>), \<open>close\<close> and \<open>write\<close> succeed or throw (\<open>False\<close>). \<open>cp_calls\<close> lists the calls made,
  \<open>cp_written\<close> the entities that were written without an exception.
\<close>

datatype cyclone_call =
    CyParticipant int
  | CyPublisher nat
  | CyTopic nat string
  | CyWriter nat nat
  | CyClose nat

record 'w cyclone_api =
  cy_make :: "cyclone_call \<Rightarrow> 'w \<Rightarrow> nat option \<times> 'w"
  cy_close :: "nat \<Rightarrow> 'w \<Rightarrow> bool \<times> 'w"
  cy_write :: "nat \<Rightarrow> AirEntity \<Rightarrow> 'w \<Rightarrow> bool \<times> 'w"

record 'w CyclonePub =
  cp_base_messages_per_cycle :: int
  cp_messages_per_cycle :: int
  cp_participant :: "nat option"
  cp_publisher :: "nat option"
  cp_topic :: "nat option"
  cp_writer :: "nat option"
  cp_current_id :: int
  cp_min_subs :: int
  cp_prev_matched :: int
  cp_matched_subs :: int
  cp_listener_matched :: int
  cp_calls :: "cyclone_call list"
  cp_written :: "AirEntity list"
  cp_world :: 'w

definition CyclonePub_new :: "'w \<Rightarrow> 'w CyclonePub" where
  "CyclonePub_new w = \<lparr>cp_base_messages_per_cycle = 0, cp_messages_per_cycle = 1,
     cp_participant = None, cp_publisher = None, cp_topic = None, cp_writer = None,
     cp_current_id = 0, cp_min_subs = 0, cp_prev_matched = -1, cp_matched_subs = 0,
     cp_listener_matched = 0, cp_calls = [], cp_written = [], cp_world = w\<rparr>"

text \<open>The listener has a counter of its own, and no writer is created with the listener.\<close>

definition CyclonePub_on_publication_matched :: "int \<Rightarrow> 'w CyclonePub \<Rightarrow> 'w CyclonePub" where
  "CyclonePub_on_publication_matched current_count p = p\<lparr>cp_listener_matched := current_count\<rparr>"

definition cy_construct :: "'w cyclone_api \<Rightarrow> cyclone_call \<Rightarrow> 'w CyclonePub \<Rightarrow> (nat \<times> 'w CyclonePub) res" where
  "cy_construct api c p = (let (h, w) = cy_make api c (cp_world p);
       p = p\<lparr>cp_world := w, cp_calls := cp_calls p @ [c]\<rparr>
     in case h of None \<Rightarrow> Inl (Thrown ''dds::core::Exception'') | Some h \<Rightarrow> Inr (h, p))"

definition CyclonePub_init :: "'w cyclone_api \<Rightarrow> 'w CyclonePub \<Rightarrow> (bool \<times> 'w CyclonePub) res" where
  "CyclonePub_init api p =
     rbind (cy_construct api (CyParticipant 0) p) (\<lambda>(part, p).
       let p = p\<lparr>cp_participant := Some part\<rparr> in
     rbind (cy_construct api (CyPublisher part) p) (\<lambda>(pub, p).
       let p = p\<lparr>cp_publisher := Some pub\<rparr> in
     rbind (cy_construct api (CyTopic part ''AirEntityTopic'') p) (\<lambda>(tp, p).
       let p = p\<lparr>cp_topic := Some tp\<rparr> in
     rbind (cy_construct api (CyWriter pub tp) p) (\<lambda>(wr, p).
       Inr (True, p\<lparr>cp_writer := Some wr\<rparr>)))))"

text \<open>The destructor: the first \<open>close\<close> that throws ends the \<open>try\<close> block.\<close>

fun cy_close_all :: "'w cyclone_api \<Rightarrow> nat option list \<Rightarrow> 'w CyclonePub \<Rightarrow> 'w CyclonePub" where
  "cy_close_all api [] p = p"
| "cy_close_all api (None # hs) p = cy_close_all api hs p"
| "cy_close_all api (Some h # hs) p =
     (let (ok, w) = cy_close api h (cp_world p);
          p = p\<lparr>cp_world := w, cp_calls := cp_calls p @ [CyClose h]\<rparr>
      in if ok then cy_close_all api hs p else p)"

definition CyclonePub_destroy :: "'w cyclone_api \<Rightarrow> 'w CyclonePub \<Rightarrow> 'w CyclonePub" where
  "CyclonePub_destroy api p =
     cy_close_all api [cp_writer p, cp_publisher p, cp_topic p, cp_participant p] p"

definition cy_put :: "'w cyclone_api \<Rightarrow> AirEntity \<Rightarrow> 'w CyclonePub \<Rightarrow> 'w CyclonePub res" where
  "cy_put api x p = (case cp_writer p of None \<Rightarrow> Inl (Thrown ''dds::core::NullReferenceError'')
     | Some h \<Rightarrow> (let (ok, w) = cy_write api h x (cp_world p); p = p\<lparr>cp_world := w\<rparr>
         in if ok then Inr (p\<lparr>cp_written := cp_written p @ [x]\<rparr>)
            else Inl (Thrown ''dds::core::Exception'')))"

definition CyclonePub_publish :: "'w cyclone_api \<Rightarrow> AirEntity \<Rightarrow> 'w CyclonePub \<Rightarrow> (bool \<times> 'w CyclonePub) res" where
  "CyclonePub_publish api x p = rbind (cy_put api x p) (\<lambda>p. Inr (True, p))"

fun CyclonePub_publish_loan :: "'w cyclone_api \<Rightarrow> nat \<Rightarrow> 'w CyclonePub \<Rightarrow> (bool \<times> 'w CyclonePub) res" where
  "CyclonePub_publish_loan api 0 p = Inr (True, p)"
| "CyclonePub_publish_loan api (Suc n) p =
     (let x = AirEntity_new\<lparr>ent_id := cp_current_id p\<rparr>;
          p = p\<lparr>cp_current_id := i32 (cp_current_id p + 1)\<rparr>
      in rbind (cy_put api x p) (CyclonePub_publish_loan api n))"

definition CyclonePub_set_expected_subs :: "int \<Rightarrow> 'w CyclonePub \<Rightarrow> 'w CyclonePub" where
  "CyclonePub_set_expected_subs expected p = p\<lparr>cp_min_subs := expected\<rparr>"

definition CyclonePub_is_matched :: "'w CyclonePub \<Rightarrow> bool" where
  "CyclonePub_is_matched p = (cp_matched_subs p \<ge> cp_min_subs p)"

definition CyclonePub_IPub :: "'w cyclone_api \<Rightarrow> (AirEntity, 'w CyclonePub) IPub" where
  "CyclonePub_IPub api = \<lparr>ip_init = CyclonePub_init api, ip_publish = CyclonePub_publish api,
     ip_publish_loan = CyclonePub_publish_loan api,
     ip_set_expected_subs = CyclonePub_set_expected_subs,
     ip_is_matched = (\<lambda>p. (CyclonePub_is_matched p, p)),
     ip_messages_per_cycle = cp_base_messages_per_cycle,
     ip_set_messages_per_cycle = (\<lambda>n p. p\<lparr>cp_base_messages_per_cycle := n\<rparr>)\<rparr>"

subsection \<open>It implements the interface\<close>

lemma cy_put_kept:
  assumes "cy_put api x p = Inr q"
  shows "cp_written q = cp_written p @ [x] \<and> cp_current_id q = cp_current_id p
    \<and> cp_base_messages_per_cycle q = cp_base_messages_per_cycle p
    \<and> cp_matched_subs q = cp_matched_subs p \<and> cp_min_subs q = cp_min_subs p"
  using assms by (auto simp: cy_put_def Let_def split: option.splits prod.splits if_splits)

lemma cy_construct_kept:
  assumes "cy_construct api c p = Inr (h, q)"
  shows "cp_written q = cp_written p \<and> cp_base_messages_per_cycle q = cp_base_messages_per_cycle p
    \<and> cp_matched_subs q = cp_matched_subs p \<and> cp_min_subs q = cp_min_subs p"
  using assms by (auto simp: cy_construct_def Let_def split: option.splits prod.splits)

lemma CyclonePub_init_kept:
  assumes "CyclonePub_init api p = Inr (b, q)"
  shows "cp_written q = cp_written p \<and> cp_base_messages_per_cycle q = cp_base_messages_per_cycle p
    \<and> cp_matched_subs q = cp_matched_subs p \<and> cp_min_subs q = cp_min_subs p"
  using assms unfolding CyclonePub_init_def
  by (auto simp: Let_def dest!: cy_construct_kept elim!: rbind_InrE)

lemma CyclonePub_publish_loan_sends:
  assumes "CyclonePub_publish_loan api n p = Inr (b, q)"
  shows "b \<and> (\<exists>xs. length xs = n \<and> cp_written q = cp_written p @ xs)
    \<and> cp_base_messages_per_cycle q = cp_base_messages_per_cycle p
    \<and> cp_matched_subs q = cp_matched_subs p \<and> cp_min_subs q = cp_min_subs p"
  using assms
proof (induction n arbitrary: p)
  case 0
  then show ?case by simp
next
  case (Suc n)
  let ?x = "AirEntity_new\<lparr>ent_id := cp_current_id p\<rparr>"
  from Suc.prems obtain r where r: "cy_put api ?x (p\<lparr>cp_current_id := i32 (cp_current_id p + 1)\<rparr>) = Inr r"
    and q: "CyclonePub_publish_loan api n r = Inr (b, q)" by (auto simp: Let_def elim!: rbind_InrE)
  from Suc.IH[OF q] obtain xs where xs: "b" "length xs = n" "cp_written q = cp_written r @ xs"
    "cp_base_messages_per_cycle q = cp_base_messages_per_cycle r"
    "cp_matched_subs q = cp_matched_subs r" "cp_min_subs q = cp_min_subs r" by auto
  have "cp_written q = cp_written p @ (?x # xs)" using xs(3) cy_put_kept[OF r] by simp
  moreover have "length (?x # xs) = Suc n" using xs(2) by simp
  ultimately have "\<exists>ys. length ys = Suc n \<and> cp_written q = cp_written p @ ys" by blast
  then show ?case using xs(1,4-6) cy_put_kept[OF r] by simp
qed

interpretation cyclone_ipub: ipub_loan "CyclonePub_IPub api" cp_written
proof unfold_locales
  fix n p q assume "ip_publish_loan (CyclonePub_IPub api) n p = Inr (True, q)"
  then show "\<exists>xs. length xs = n \<and> cp_written q = cp_written p @ xs"
    using CyclonePub_publish_loan_sends[of api n p True q] by (simp add: CyclonePub_IPub_def)
next
  fix n p q assume "ip_publish_loan (CyclonePub_IPub api) n p = Inr (False, q)"
  then show "\<exists>xs. length xs < n \<and> cp_written q = cp_written p @ xs"
    using CyclonePub_publish_loan_sends[of api n p False q] by (simp add: CyclonePub_IPub_def)
qed (auto simp: CyclonePub_IPub_def CyclonePub_publish_def CyclonePub_set_expected_subs_def
    dest: cy_put_kept CyclonePub_init_kept CyclonePub_publish_loan_sends elim!: rbind_InrE)

subsection \<open>The stubs\<close>

text \<open>
  The subscribers of both vendors and RTI's control publisher have no body yet: they
  answer \<open>true\<close> to \<open>init\<close> and to a run, and \<open>false\<close> to everything about a match or a message.
  \<open>stub_sub\<close> keeps the two inherited members.
\<close>

record stub_sub =
  ss_expected_messages_cycle :: int
  ss_received_ids :: "int set"

definition stub_sub_new :: stub_sub where
  "stub_sub_new = \<lparr>ss_expected_messages_cycle = -1, ss_received_ids = {}\<rparr>"

definition CycloneSub_ISub :: "stub_sub ISub" where
  "CycloneSub_ISub = \<lparr>is_init = (\<lambda>s. Inr (True, s)),
     is_run_without_loan = (\<lambda>lost s. Some (Inr (True, lost, s))),
     is_run_with_loan = (\<lambda>lost s. Some (Inr (True, lost, s))),
     is_reset_samples = (\<lambda>s. s\<lparr>ss_received_ids := {}\<rparr>), is_is_match = (\<lambda>s. False),
     is_expected_messages_cycle = ss_expected_messages_cycle,
     is_set_expected_messages_cycle = (\<lambda>n s. s\<lparr>ss_expected_messages_cycle := n\<rparr>)\<rparr>"

definition CycloneSubControl_ISubControl :: "unit ISubControl" where
  "CycloneSubControl_ISubControl = \<lparr>sc_init = (\<lambda>c. Inr (True, c)),
     sc_poll_control = (\<lambda>out c. Some (Inr (False, out, c))), sc_has_match = (\<lambda>c. False)\<rparr>"

definition RtiPubControl_IPubControl :: "unit IPubControl" where
  "RtiPubControl_IPubControl = \<lparr>ic_init = (\<lambda>c. Inr (True, c)),
     ic_publish_start = (\<lambda>tid expected loan c. Inr (True, c)),
     ic_publish_stop = (\<lambda>tid c. Inr (True, c)), ic_is_matched = (\<lambda>c. (False, c))\<rparr>"

definition RtiSub_ISub :: "stub_sub ISub" where
  "RtiSub_ISub = \<lparr>is_init = (\<lambda>s. Inr (True, s)),
     is_run_without_loan = (\<lambda>lost s. Some (Inr (True, lost, s))),
     is_run_with_loan = (\<lambda>lost s. Some (Inr (True, lost, s))),
     is_reset_samples = (\<lambda>s. s\<lparr>ss_received_ids := {}\<rparr>), is_is_match = (\<lambda>s. False),
     is_expected_messages_cycle = ss_expected_messages_cycle,
     is_set_expected_messages_cycle = (\<lambda>n s. s\<lparr>ss_expected_messages_cycle := n\<rparr>)\<rparr>"

definition RtiSubControl_ISubControl :: "unit ISubControl" where
  "RtiSubControl_ISubControl = \<lparr>sc_init = (\<lambda>c. Inr (True, c)),
     sc_poll_control = (\<lambda>out c. Some (Inr (False, out, c))), sc_has_match = (\<lambda>c. False)\<rparr>"

interpretation cyclone_isub: isub CycloneSub_ISub
  by unfold_locales (auto simp: CycloneSub_ISub_def)

interpretation rti_isub: isub RtiSub_ISub
  by unfold_locales (auto simp: RtiSub_ISub_def)

lemma CyclonePub_destroy_kept: "cp_written (cy_close_all api hs p) = cp_written p"
  by (induction api hs p rule: cy_close_all.induct) (auto simp: Let_def split: prod.splits)

text \<open>The states of a \<open>CyclonePub\<close> that is driven through its \<open>IPub\<close> interface and its listener.\<close>

inductive cyclone_reach :: "'w cyclone_api \<Rightarrow> 'w CyclonePub \<Rightarrow> 'w CyclonePub \<Rightarrow> bool"
  for api p where
  cy_start: "cyclone_reach api p p"
| cy_init: "cyclone_reach api p q \<Longrightarrow> ip_init (CyclonePub_IPub api) q = Inr (b, r) \<Longrightarrow> cyclone_reach api p r"
| cy_publish: "cyclone_reach api p q \<Longrightarrow> ip_publish (CyclonePub_IPub api) x q = Inr (b, r) \<Longrightarrow> cyclone_reach api p r"
| cy_loan: "cyclone_reach api p q \<Longrightarrow> ip_publish_loan (CyclonePub_IPub api) n q = Inr (b, r) \<Longrightarrow> cyclone_reach api p r"
| cy_expect: "cyclone_reach api p q \<Longrightarrow> cyclone_reach api p (ip_set_expected_subs (CyclonePub_IPub api) k q)"
| cy_match: "cyclone_reach api p q \<Longrightarrow> cyclone_reach api p (CyclonePub_on_publication_matched k q)"

lemma cyclone_unmatched: "cyclone_reach api p q \<Longrightarrow> cp_matched_subs q = cp_matched_subs p"
proof (induction rule: cyclone_reach.induct)
  case (cy_init q b r)
  then show ?case using CyclonePub_init_kept[of api q b r] by (simp add: CyclonePub_IPub_def)
next
  case (cy_publish q x b r)
  then show ?case by (auto simp: CyclonePub_IPub_def CyclonePub_publish_def dest!: cy_put_kept elim!: rbind_InrE)
next
  case (cy_loan q n b r)
  then show ?case using CyclonePub_publish_loan_sends[of api n q b r] by (simp add: CyclonePub_IPub_def)
qed (simp_all add: CyclonePub_IPub_def CyclonePub_set_expected_subs_def CyclonePub_on_publication_matched_def)

subsection \<open>Properties\<close>

text \<open>
  C36: \<open>CyclonePub::is_matched\<close> compares a counter that nothing writes: in every reachable state,
  whatever the listener was told, the publisher is matched exactly when it waits for no
  subscriber at all.
\<close>

theorem cyclone_matched_iff_none_expected:
  assumes "cyclone_reach api (CyclonePub_new w) p"
  shows "fst (ip_is_matched (CyclonePub_IPub api) p) \<longleftrightarrow> cp_min_subs p \<le> 0"
  using cyclone_unmatched[OF assms]
  by (simp add: CyclonePub_IPub_def CyclonePub_is_matched_def CyclonePub_new_def)

definition demo_cyclone :: "nat cyclone_api" where
  "demo_cyclone = \<lparr>cy_make = (\<lambda>_ w. (Some w, Suc w)), cy_close = (\<lambda>_ w. (True, w)), cy_write = (\<lambda>_ _ w. (True, w))\<rparr>"

theorem cyclone_matched_iff_none_expected_witness:
  "\<not> fst (ip_is_matched (CyclonePub_IPub demo_cyclone)
      (CyclonePub_on_publication_matched 3 (ip_set_expected_subs (CyclonePub_IPub demo_cyclone) 1 (CyclonePub_new 0))))"
  using cyclone_matched_iff_none_expected[OF cy_match[OF cy_expect[OF cy_start]], of demo_cyclone 3 1 0]
  by (simp add: CyclonePub_on_publication_matched_def CyclonePub_IPub_def CyclonePub_set_expected_subs_def)

end
