(* ===== verification/Executive.thy ===== *)
theory Executive
  imports Complex_Main Prelude
begin

section \<open>The executive: modules, states and the cycle\<close>

text \<open>
  \<open>src/stress_test/core/executive.{h,cpp}\<close>, \<open>module.{h,cpp}\<close> and the loop of \<open>main.cpp\<close>.
  The executive runs \<open>read\<close>, \<open>write\<close> and \<open>update\<close> of every registered module once per
  cycle, pads the cycle to 10 ms and stops when a module requests the end.

  A module is the record of its virtual functions over the state \<open>'u\<close> of the modules and
  over the executive itself, which a module reaches through its \<open>exec\<close> pointer. The
  private vector \<open>submodules\<close> only changes in \<open>add_module\<close>; it is an argument of the
  operations that walk over it. The clock is a parameter: \<open>clk n\<close> is what the \<open>n\<close>-th
  \<open>steady_clock::now()\<close> of the run returns, in nanoseconds.
\<close>

datatype ExecutiveState = INIT | EXECUTION | END

record Executive =
  ex_currentState :: ExecutiveState
  ex_current_cycle :: "64 word"
  ex_total_time :: int
  ex_now_calls :: nat
  ex_slept :: "int list"
  ex_warnings :: "int list"

definition Executive_new :: Executive where
  "Executive_new = \<lparr>ex_currentState = INIT, ex_current_cycle = 0, ex_total_time = 0,
     ex_now_calls = 0, ex_slept = [], ex_warnings = []\<rparr>"

definition cycle_min_duration :: int where
  "cycle_min_duration = 10 * 1000000"

definition steady_now :: "(nat \<Rightarrow> int) \<Rightarrow> Executive \<Rightarrow> int \<times> Executive" where
  "steady_now clk e = (clk (ex_now_calls e), e\<lparr>ex_now_calls := ex_now_calls e + 1\<rparr>)"

definition in_execution :: "Executive \<Rightarrow> bool" where
  "in_execution e = (ex_currentState e = EXECUTION)"

definition change_state :: "ExecutiveState \<Rightarrow> Executive \<Rightarrow> Executive" where
  "change_state newState e = e\<lparr>ex_currentState := newState\<rparr>"

definition end_simulation :: "Executive \<Rightarrow> Executive" where
  "end_simulation e = change_state END e"

definition request_simulation_end :: "Executive \<Rightarrow> Executive" where
  "request_simulation_end e = e\<lparr>ex_currentState := END\<rparr>"

text \<open>\<open>duration_cast\<close> to \<open>double\<close> milliseconds.\<close>

definition get_total_time :: "Executive \<Rightarrow> real" where
  "get_total_time e = of_int (ex_total_time e) / 1000000"

subsection \<open>Modules\<close>

record 'u cl_module =
  m_get_module_id :: int
  m_init :: "'u \<times> Executive \<Rightarrow> ('u \<times> Executive) comp"
  m_read :: "'u \<times> Executive \<Rightarrow> ('u \<times> Executive) comp"
  m_write :: "'u \<times> Executive \<Rightarrow> ('u \<times> Executive) comp"
  m_update :: "'u \<times> Executive \<Rightarrow> ('u \<times> Executive) comp"

text \<open>The scan of \<open>add_module\<close>: an id that is already there is refused.\<close>

fun has_module_id :: "int \<Rightarrow> 'u cl_module list \<Rightarrow> bool" where
  "has_module_id i [] = False"
| "has_module_id i (m # ms) = (m_get_module_id m = i \<or> has_module_id i ms)"

definition add_module :: "'u cl_module \<Rightarrow> 'u cl_module list \<Rightarrow> 'u cl_module list" where
  "add_module m submodules =
     (if has_module_id (m_get_module_id m) submodules then submodules else submodules @ [m])"

definition remove_module :: "int \<Rightarrow> 'u cl_module list \<Rightarrow> 'u cl_module list" where
  "remove_module i submodules = submodules"

text \<open>
  \<open>cl_module::run\<close> and \<open>first_execution\<close>; \<open>prev_cycle\<close> is unsigned and starts as \<open>-1\<close>.
\<close>

record module_base =
  mb_moduleId :: int
  mb_prev_cycle :: "64 word"

definition module_base_new :: "int \<Rightarrow> module_base" where
  "module_base_new i = \<lparr>mb_moduleId = i, mb_prev_cycle = -1\<rparr>"

definition first_execution :: "Executive \<Rightarrow> module_base \<Rightarrow> bool" where
  "first_execution e b = (ex_current_cycle e \<noteq> mb_prev_cycle b)"

definition module_run :: "'u cl_module \<Rightarrow> module_base \<Rightarrow> 'u \<times> Executive
    \<Rightarrow> (module_base \<times> 'u \<times> Executive) comp" where
  "module_run m b s = cbind (if first_execution (snd s) b then m_read m s else m_write m s)
     (\<lambda>s. Some (Inr (b\<lparr>mb_prev_cycle := ex_current_cycle (snd s)\<rparr>, s)))"

subsection \<open>Initialisation and the cycle\<close>

definition Executive_init :: "'u cl_module list \<Rightarrow> 'u \<times> Executive \<Rightarrow> ('u \<times> Executive) comp" where
  "Executive_init submodules s = cbind (for_each m_init submodules s)
     (\<lambda>(u, e). Some (Inr (u, change_state EXECUTION e)))"

definition run_modules :: "'u cl_module list \<Rightarrow> 'u \<times> Executive \<Rightarrow> ('u \<times> Executive) comp" where
  "run_modules submodules s =
     cbind (for_each m_read submodules s) (\<lambda>s.
     cbind (for_each m_write submodules s) (\<lambda>s.
     for_each m_update submodules s))"

definition finish_cycle :: "(nat \<Rightarrow> int) \<Rightarrow> int \<Rightarrow> Executive \<Rightarrow> Executive" where
  "finish_cycle clk start e =
     (let (stop, e) = steady_now clk e;
          processing_time = stop - start;
          min_duration = cycle_min_duration;
          e = (if processing_time > min_duration
               then e\<lparr>ex_warnings := ex_warnings e @ [processing_time]\<rparr> else e);
          e = (if processing_time < min_duration
               then e\<lparr>ex_slept := ex_slept e @ [min_duration - processing_time]\<rparr> else e);
          (cycle_end, e) = steady_now clk e;
          total_cycle_time = cycle_end - start
      in e\<lparr>ex_current_cycle := ex_current_cycle e + 1,
           ex_total_time := ex_total_time e + max total_cycle_time min_duration\<rparr>)"

definition execute_cycle :: "(nat \<Rightarrow> int) \<Rightarrow> 'u cl_module list \<Rightarrow> 'u \<times> Executive
    \<Rightarrow> ('u \<times> Executive) comp" where
  "execute_cycle clk submodules s =
     (let (start, e) = steady_now clk (snd s)
      in cbind (run_modules submodules (fst s, e)) (\<lambda>(u, e). Some (Inr (u, finish_cycle clk start e))))"

text \<open>The loop of \<open>main\<close>: it need not end.\<close>

partial_function (option) main_loop :: "(nat \<Rightarrow> int) \<Rightarrow> 'u cl_module list \<Rightarrow> 'u \<times> Executive
    \<Rightarrow> ('u \<times> Executive) comp" where
  "main_loop clk submodules s =
     (if in_execution (snd s)
      then (case execute_cycle clk submodules s of None \<Rightarrow> None
            | Some r \<Rightarrow> (case r of Inl f \<Rightarrow> Some (Inl f) | Inr t \<Rightarrow> main_loop clk submodules t))
      else Some (Inr s))"

text \<open>\<open>n\<close> cycles in a row.\<close>

fun run_cycles :: "(nat \<Rightarrow> int) \<Rightarrow> 'u cl_module list \<Rightarrow> nat \<Rightarrow> 'u \<times> Executive
    \<Rightarrow> ('u \<times> Executive) comp" where
  "run_cycles clk submodules 0 s = Some (Inr s)"
| "run_cycles clk submodules (Suc n) s =
     cbind (execute_cycle clk submodules s) (run_cycles clk submodules n)"

subsection \<open>Facts about the loop\<close>

lemma has_module_id_iff: "has_module_id i ms \<longleftrightarrow> i \<in> m_get_module_id ` set ms"
  by (induction ms) auto

lemma run_cycles_add:
  "run_cycles clk ms (k + n) s = cbind (run_cycles clk ms k s) (run_cycles clk ms n)"
proof (induction k arbitrary: s)
  case (Suc k)
  have "run_cycles clk ms (k + n) = (\<lambda>t. cbind (run_cycles clk ms k t) (run_cycles clk ms n))"
    by (rule ext) (rule Suc.IH)
  then show ?case by (simp add: cbind_assoc)
qed simp

lemma main_loop_step:
  assumes "in_execution (snd s)" and "execute_cycle clk ms s = Some (Inr t)"
  shows "main_loop clk ms s = main_loop clk ms t"
  using assms by (subst main_loop.simps) simp

lemma main_loop_stopped: "\<not> in_execution (snd s) \<Longrightarrow> main_loop clk ms s = Some (Inr s)"
  by (subst main_loop.simps) simp

text \<open>The loop makes exactly the cycles that start in the execution state.\<close>

lemma main_loop_cycles:
  assumes "run_cycles clk ms n s = Some (Inr t)"
    and "\<And>k u. k < n \<Longrightarrow> run_cycles clk ms k s = Some (Inr u) \<Longrightarrow> in_execution (snd u)"
  shows "main_loop clk ms s = main_loop clk ms t"
  using assms
proof (induction n arbitrary: s)
  case 0
  then show ?case by simp
next
  case (Suc n)
  from Suc.prems(1) obtain u where u: "execute_cycle clk ms s = Some (Inr u)"
    "run_cycles clk ms n u = Some (Inr t)" by (auto simp: flow)
  have "in_execution (snd s)" using Suc.prems(2)[of 0 s] by simp
  then have "main_loop clk ms s = main_loop clk ms u" by (rule main_loop_step[OF _ u(1)])
  also have "\<dots> = main_loop clk ms t"
  proof (rule Suc.IH[OF u(2)])
    fix k v assume "k < n" "run_cycles clk ms k u = Some (Inr v)"
    then show "in_execution (snd v)" using Suc.prems(2)[of "Suc k" v] u(1) by simp
  qed
  finally show ?case .
qed

lemma finish_cycle_facts:
  "ex_currentState (finish_cycle clk start e) = ex_currentState e"
  "ex_current_cycle (finish_cycle clk start e) = ex_current_cycle e + 1"
  "ex_total_time e + cycle_min_duration \<le> ex_total_time (finish_cycle clk start e)"
  "ex_now_calls (finish_cycle clk start e) = ex_now_calls e + 2"
  by (simp_all add: finish_cycle_def steady_now_def Let_def)

subsection \<open>What the executive relies on in a module\<close>

text \<open>
  A module may read the clock and request the end; the cycle counter and the accumulated
  time belong to the executive. \<open>exec_frame\<close> is that contract of one operation, the locale
  asks it of the three operations of a cycle.
\<close>

definition exec_frame :: "('u \<times> Executive \<Rightarrow> ('u \<times> Executive) comp) \<Rightarrow> bool" where
  "exec_frame f \<longleftrightarrow> (\<forall>s t. f s = Some (Inr t) \<longrightarrow>
     ex_current_cycle (snd t) = ex_current_cycle (snd s) \<and> ex_total_time (snd t) = ex_total_time (snd s))"

lemma exec_frameD:
  assumes "exec_frame f" and "f s = Some (Inr t)"
  shows "ex_current_cycle (snd t) = ex_current_cycle (snd s) \<and> ex_total_time (snd t) = ex_total_time (snd s)"
  using assms unfolding exec_frame_def by blast

lemma for_each_frame:
  assumes "\<And>m. m \<in> set ms \<Longrightarrow> exec_frame (f m)"
  shows "exec_frame (for_each f ms)"
  unfolding exec_frame_def
proof (intro allI impI)
  fix s t assume r: "for_each f ms s = Some (Inr t)"
  show "ex_current_cycle (snd t) = ex_current_cycle (snd s) \<and> ex_total_time (snd t) = ex_total_time (snd s)"
    by (rule for_each_invariant[OF r, where P = "\<lambda>u. ex_current_cycle (snd u) = ex_current_cycle (snd s)
      \<and> ex_total_time (snd u) = ex_total_time (snd s)"])
      (use exec_frameD[OF assms] in auto)
qed

locale exec_client =
  fixes M :: "'u cl_module"
  assumes read_frame: "exec_frame (m_read M)"
    and write_frame: "exec_frame (m_write M)"
    and update_frame: "exec_frame (m_update M)"
begin

lemma cycle_accounting:
  assumes "execute_cycle clk [M] s = Some (Inr t)"
  shows "ex_current_cycle (snd t) = ex_current_cycle (snd s) + 1
    \<and> ex_total_time (snd s) + cycle_min_duration \<le> ex_total_time (snd t)"
proof -
  obtain u e where s: "s = (u, e)" by (cases s)
  from assms obtain s1 where
    m: "run_modules [M] (u, snd (steady_now clk e)) = Some (Inr s1)"
    and t: "t = (fst s1, finish_cycle clk (fst (steady_now clk e)) (snd s1))"
    by (auto simp: execute_cycle_def s flow Let_def split: prod.splits)
  from m obtain a b where abc: "m_read M (u, snd (steady_now clk e)) = Some (Inr a)"
    "m_write M a = Some (Inr b)" "m_update M b = Some (Inr s1)"
    by (auto simp: run_modules_def flow)
  have "ex_current_cycle (snd s1) = ex_current_cycle e \<and> ex_total_time (snd s1) = ex_total_time e"
    using exec_frameD[OF read_frame abc(1)] exec_frameD[OF write_frame abc(2)]
      exec_frameD[OF update_frame abc(3)] by (simp add: steady_now_def)
  then show ?thesis using finish_cycle_facts[where clk = clk and start = "fst (steady_now clk e)" and e = "snd s1"]
    by (simp add: t s)
qed

lemma run_accounting:
  assumes "run_cycles clk [M] n s = Some (Inr t)"
  shows "ex_current_cycle (snd t) = ex_current_cycle (snd s) + of_nat n
    \<and> ex_total_time (snd s) + int n * cycle_min_duration \<le> ex_total_time (snd t)"
  using assms
proof (induction n arbitrary: s)
  case 0
  then show ?case by simp
next
  case (Suc n)
  from Suc.prems obtain u where u: "execute_cycle clk [M] s = Some (Inr u)"
    "run_cycles clk [M] n u = Some (Inr t)" by (auto simp: flow)
  from cycle_accounting[OF u(1)] Suc.IH[OF u(2)] show ?case by (simp add: algebra_simps)
qed

end

end
