(* ===== verification/PatternBase.thy ===== *)
theory PatternBase
  imports Executive Types Stats
begin

section \<open>pattern_base: counting the tests of a run\<close>

text \<open>
  \<open>src/stress_test/core/patterns/pattern_base.h\<close>. The two counters of the base class are
  a record that the patterns extend; the virtual functions \<open>finish_test\<close> calls are its
  arguments. A pattern reaches the executive through its \<open>exec\<close> pointer, so an operation
  works on the pattern and the executive together.
\<close>

record pattern_base =
  pb_max_test :: int
  pb_current_test :: int

definition pattern_base_new :: pattern_base where
  "pattern_base_new = \<lparr>pb_max_test = 100, pb_current_test = 0\<rparr>"

definition finish_test ::
    "(bool \<Rightarrow> ('a pattern_base_scheme \<times> Executive) \<Rightarrow> ('a pattern_base_scheme \<times> Executive))
   \<Rightarrow> (('a pattern_base_scheme \<times> Executive) \<Rightarrow> ('a pattern_base_scheme \<times> Executive))
   \<Rightarrow> (('a pattern_base_scheme \<times> Executive) \<Rightarrow> ('a pattern_base_scheme \<times> Executive))
   \<Rightarrow> bool \<Rightarrow> ('a pattern_base_scheme \<times> Executive) \<Rightarrow> ('a pattern_base_scheme \<times> Executive)" where
  "finish_test on_test_finished make_final_report on_end_test value s =
     (let (b, e) = on_test_finished value s;
          b = b\<lparr>pb_current_test := i32 (pb_current_test b + 1)\<rparr>
      in if pb_current_test b \<ge> pb_max_test b
         then on_end_test (make_final_report (b, e))
         else (b, e))"

text \<open>The defaults of the base class do nothing.\<close>

definition default_on_end_test :: "('a pattern_base_scheme \<times> Executive) \<Rightarrow> ('a pattern_base_scheme \<times> Executive)" where
  "default_on_end_test s = s"

end
