(* ===== verification/PubTest.thy ===== *)
theory PubTest
  imports PatternBase Interfaces
begin

section \<open>pub_test_1_to_1: the publishing side of the test\<close>

text \<open>
  \<open>src/stress_test/core/tests/1_1/pub_test_1_to_1.h\<close>. Per test: announce it with a start
  command, stream one batch of entities in the next cycle, wait, send the stop command,
  wait, announce the next one; the first announcement waits for 50 matched cycles.

  The publisher and the control publisher are reached through their interfaces \<open>V\<close> and
  \<open>C\<close> (see \<open>Interfaces\<close>). The member \<open>reset\<close> has no initialiser, so \<open>pub_test_new\<close>
  takes its first value as an argument. \<open>pt_reports\<close> is the output of the final report.
  The interactive menu \<open>test_command\<close> is not called by any code of the repository.
\<close>

datatype CommandType = Manual | Auto
datatype ProcessType = Normal | Loan
datatype PubState = WaitingMatch | Announce | Streaming
datatype report_event = Printed Distribution | Exported string Distribution

record ('p, 'c) pub_test = pattern_base +
  pt_pub :: 'p
  pt_pub_control :: 'c
  pt_cpu_times :: Distribution
  pt_config :: test_config
  pt_message_to_send :: int
  pt_pre_allocated_entities :: "AirEntity list"
  pt_command_type :: CommandType
  pt_process_type :: ProcessType
  pt_reset :: bool
  pt_current_cyles_reset :: int
  pt_offset_cyles_reset :: int
  pt_send :: bool
  pt_state :: PubState
  pt_current_entity_id :: int
  pt_offset_cycle_start :: int
  pt_current_cycle :: int
  pt_export_result :: bool
  pt_reports :: "report_event list"

text \<open>\<open>(ProcessType)config.loan_mode\<close>: the enumerators are 0 and 1.\<close>

definition ProcessType_of_bool :: "bool \<Rightarrow> ProcessType" where
  "ProcessType_of_bool b = (if b then Loan else Normal)"

definition set_num_messages :: "(AirEntity, 'p) IPub \<Rightarrow> int \<Rightarrow> ('p, 'c) pub_test \<Rightarrow> ('p, 'c) pub_test" where
  "set_num_messages V num_messages t = t\<lparr>pt_message_to_send := num_messages,
     pt_pub := ip_set_messages_per_cycle V num_messages (pt_pub t)\<rparr>"

definition pub_test_new :: "(AirEntity, 'p) IPub \<Rightarrow> bool \<Rightarrow> test_config \<Rightarrow> 'p \<Rightarrow> 'c \<Rightarrow> ('p, 'c) pub_test" where
  "pub_test_new V garbage config p c =
     (let t = \<lparr>pb_max_test = 100, pb_current_test = 0, pt_pub = p, pt_pub_control = c,
            pt_cpu_times = Distribution_new, pt_config = config, pt_message_to_send = 100,
            pt_pre_allocated_entities = [], pt_command_type = Manual, pt_process_type = Loan,
            pt_reset = garbage, pt_current_cyles_reset = 0, pt_offset_cyles_reset = 5,
            pt_send = False, pt_state = WaitingMatch, pt_current_entity_id = 0,
            pt_offset_cycle_start = 50, pt_current_cycle = 0, pt_export_result = True,
            pt_reports = []\<rparr>;
          t = t\<lparr>pt_command_type := (if tcf_manual_mode config then Manual else Auto)\<rparr>;
          t = t\<lparr>pb_max_test := tcf_test_count config\<rparr>;
          t = set_num_messages V (tcf_message_count config) t;
          t = t\<lparr>pt_pub := ip_set_expected_subs V (tcf_listener_number config) (pt_pub t)\<rparr>
      in t\<lparr>pt_process_type := ProcessType_of_bool (tcf_loan_mode config)\<rparr>)"

definition SetCommandType :: "CommandType \<Rightarrow> ('p, 'c) pub_test \<Rightarrow> ('p, 'c) pub_test" where
  "SetCommandType type t = t\<lparr>pt_command_type := type\<rparr>"

definition SetProcessType :: "ProcessType \<Rightarrow> ('p, 'c) pub_test \<Rightarrow> ('p, 'c) pub_test" where
  "SetProcessType type t = t\<lparr>pt_process_type := type\<rparr>"

definition start_send :: "('p, 'c) pub_test \<Rightarrow> ('p, 'c) pub_test" where
  "start_send t = t\<lparr>pt_send := True, pt_state := Announce\<rparr>"

text \<open>
  \<open>init\<close> goes on whatever the two \<open>init\<close> calls answer. \<open>resize\<close> with a negative number
  leaves with \<open>std::length_error\<close>.
\<close>

definition pub_test_init :: "(AirEntity, 'p) IPub \<Rightarrow> 'c IPubControl \<Rightarrow> ('p, 'c) pub_test \<Rightarrow> ('p, 'c) pub_test res" where
  "pub_test_init V C t =
     rbind (ip_init V (pt_pub t)) (\<lambda>(started, p).
     rbind (ic_init C (pt_pub_control t)) (\<lambda>(control_started, c).
       let t = t\<lparr>pt_pub := p, pt_pub_control := c\<rparr>
       in if pt_message_to_send t < 0 then Inl (LengthError (pt_message_to_send t))
          else Inr (start_send (t\<lparr>
            pt_pre_allocated_entities :=
              take (nat (pt_message_to_send t)) (pt_pre_allocated_entities t)
              @ replicate (nat (pt_message_to_send t) - length (pt_pre_allocated_entities t)) AirEntity_new,
            pb_current_test := 0,
            pt_cpu_times := set_distribution_name ''CPU TIME'' (pt_cpu_times t)\<rparr>))))"

subsection \<open>The menu\<close>

text \<open>
  \<open>std::cin\<close> is what is left to read, each entry a number or (\<open>None\<close>) a line that is none,
  and whether it has failed. A failed stream reads nothing; a line that is no number fails it
  and stores 0; the end of the input fails it and stores nothing.
\<close>

record cin =
  cin_input :: "int option list"
  cin_fail :: bool

definition cin_read :: "int \<Rightarrow> cin \<Rightarrow> int \<times> cin" where
  "cin_read number c = (if cin_fail c then (number, c)
     else case cin_input c of [] \<Rightarrow> (number, c\<lparr>cin_fail := True\<rparr>)
       | None # _ \<Rightarrow> (0, c\<lparr>cin_fail := True\<rparr>)
       | Some n # xs \<Rightarrow> (n, c\<lparr>cin_input := xs\<rparr>))"

text \<open>The second question, which comes after the first one however that ended.\<close>

definition command_messages :: "(AirEntity, 'p) IPub \<Rightarrow> int \<Rightarrow> ('p, 'c) pub_test \<times> cin \<Rightarrow> ('p, 'c) pub_test \<times> cin" where
  "command_messages V number = (\<lambda>(t, c).
     let (number, c) = cin_read number c;
         (number, c) = (if cin_fail c then (0, c\<lparr>cin_fail := False, cin_input := tl (cin_input c)\<rparr>) else (number, c))
     in (set_num_messages V number t, c))"

function test_command :: "(AirEntity, 'p) IPub \<Rightarrow> ('p, 'c) pub_test \<times> cin \<Rightarrow> ('p, 'c) pub_test \<times> cin" where
  "test_command V (t, c) =
     (let (number, c') = cin_read 0 c
      in if number = 0 then command_messages V number (SetProcessType Normal t, c')
         else if number = 1 then command_messages V number (SetProcessType Loan t, c')
         else command_messages V number (test_command V (t, c')))"
  by pat_completeness auto
termination
  by (relation "measure (\<lambda>(V, t, c). length (cin_input c))")
    (auto simp: cin_read_def split: if_splits list.splits option.splits)

declare test_command.simps [simp del]

text \<open>
  The question says "(1) Normal, (2) Loan Mode", the \<open>switch\<close> compares with the enumerators 0 and
  1: the answer 1 selects the loan mode, and 2 asks again.
\<close>

lemma test_command_one: "pt_process_type (fst (test_command V (t, \<lparr>cin_input = Some 1 # xs, cin_fail = False\<rparr>))) = Loan"
  by (simp add: test_command.simps cin_read_def command_messages_def set_num_messages_def SetProcessType_def
    split_beta Let_def)

lemma test_command_two:
  "test_command V (t, \<lparr>cin_input = Some 2 # xs, cin_fail = False\<rparr>)
    = command_messages V 2 (test_command V (t, \<lparr>cin_input = xs, cin_fail = False\<rparr>))"
  by (simp add: test_command.simps[of V t "\<lparr>cin_input = Some 2 # xs, cin_fail = False\<rparr>"] cin_read_def)

subsection \<open>The end of a test\<close>

definition pub_make_final_report :: "('p, 'c) pub_test \<times> Executive \<Rightarrow> ('p, 'c) pub_test \<times> Executive" where
  "pub_make_final_report = (\<lambda>(t, e).
     (if pt_export_result t
      then t\<lparr>pt_export_result := \<not> pt_export_result t,
             pt_reports := pt_reports t @
               [Printed (pt_cpu_times t), Exported (tcf_logFile (pt_config t)) (pt_cpu_times t)]\<rparr>
      else t, request_simulation_end e))"

definition pub_on_test_finished :: "bool \<Rightarrow> ('p, 'c) pub_test \<times> Executive \<Rightarrow> ('p, 'c) pub_test \<times> Executive" where
  "pub_on_test_finished value s = s"

definition pub_reset_test :: "'c IPubControl \<Rightarrow> ('p, 'c) pub_test \<times> Executive
    \<Rightarrow> (('p, 'c) pub_test \<times> Executive) res" where
  "pub_reset_test C = (\<lambda>(t, e).
     rbind (if pb_current_test t \<le> pb_max_test t
            then rbind (ic_publish_stop C (i32 (pb_current_test t + 1)) (pt_pub_control t)) (\<lambda>(ok, c).
              Inr (t\<lparr>pt_pub_control := c, pt_current_entity_id := 0, pt_state := Announce, pt_reset := True\<rparr>))
            else Inr t)
       (\<lambda>t. Inr (finish_test pub_on_test_finished pub_make_final_report default_on_end_test True (t, e))))"

subsection \<open>One cycle\<close>

definition pub_read :: "'c IPubControl \<Rightarrow> ('p, 'c) pub_test \<times> Executive
    \<Rightarrow> (('p, 'c) pub_test \<times> Executive) res" where
  "pub_read C = (\<lambda>(t, e).
     if pt_reset t
     then let t = t\<lparr>pt_current_cyles_reset := i32 (pt_current_cyles_reset t + 1)\<rparr>
          in if pt_current_cyles_reset t > pt_offset_cyles_reset t
             then let t = t\<lparr>pt_current_cyles_reset := 0, pt_reset := False\<rparr>;
                      t = (if pt_state t = Announce then t\<lparr>pt_send := True\<rparr> else t)
                  in if pt_state t = Streaming then pub_reset_test C (t, e) else Inr (t, e)
             else Inr (t, e)
     else Inr (t, e))"

text \<open>
  The loop of the normal mode. Its bound is read again in every pass, and
  \<open>pre_allocated_entities[i]\<close> is undefined past the end of the vector, so a run of the
  loop makes at most as many passes as the vector has entries.
\<close>

function (sequential) stream_entities :: "(AirEntity, 'p) IPub \<Rightarrow> nat \<Rightarrow> ('p, 'c) pub_test \<Rightarrow> ('p, 'c) pub_test res" where
  "stream_entities V i t =
     (if i < size_t (ip_messages_per_cycle V (pt_pub t))
      then if length (pt_pre_allocated_entities t) \<le> i then Inl (OutOfBounds i)
           else let entity = (pt_pre_allocated_entities t ! i)\<lparr>ent_id := pt_current_entity_id t\<rparr>;
                    t = t\<lparr>pt_pre_allocated_entities := (pt_pre_allocated_entities t)[i := entity],
                          pt_current_entity_id := i32 (pt_current_entity_id t + 1)\<rparr>
                in case ip_publish V entity (pt_pub t) of Inl f \<Rightarrow> Inl f
                   | Inr (ok, p) \<Rightarrow>
                       if ok then stream_entities V (i + 1) (t\<lparr>pt_pub := p\<rparr>)
                       else Inl (Thrown ''[PUB TEST] Failed to publish entity'')
      else Inr t)"
  by pat_completeness auto
termination
  by (relation "measure (\<lambda>(V, i, t). length (pt_pre_allocated_entities t) - i)") auto

declare stream_entities.simps [simp del]

definition pub_stream :: "(AirEntity, 'p) IPub \<Rightarrow> (nat \<Rightarrow> int) \<Rightarrow> ('p, 'c) pub_test \<times> Executive
    \<Rightarrow> (('p, 'c) pub_test \<times> Executive) res" where
  "pub_stream V clk = (\<lambda>(t, e).
     let (t0, e) = steady_now clk e
     in rbind (case pt_process_type t of
                 Normal \<Rightarrow> stream_entities V 0 t
               | Loan \<Rightarrow> rbind (ip_publish_loan V (size_t (ip_messages_per_cycle V (pt_pub t))) (pt_pub t))
                          (\<lambda>(ok, p). Inr (t\<lparr>pt_pub := p\<rparr>)))
          (\<lambda>t. let (t1, e) = steady_now clk e
                in Inr (t\<lparr>pt_cpu_times := addValue (of_int (t1 - t0) / 1000000) (pt_cpu_times t),
                          pt_reset := True, pt_send := False\<rparr>, e)))"

definition pub_write :: "(AirEntity, 'p) IPub \<Rightarrow> 'c IPubControl \<Rightarrow> (nat \<Rightarrow> int)
    \<Rightarrow> ('p, 'c) pub_test \<times> Executive \<Rightarrow> (('p, 'c) pub_test \<times> Executive) res" where
  "pub_write V C clk = (\<lambda>(t, e).
     if \<not> pt_send t then Inr (t, e)
     else let (pub_matched, p) = ip_is_matched V (pt_pub t); t = t\<lparr>pt_pub := p\<rparr>
     in if \<not> pub_matched then Inr (t, e)
     else let (control_matched, c) = ic_is_matched C (pt_pub_control t); t = t\<lparr>pt_pub_control := c\<rparr>
     in if \<not> control_matched then Inr (t, e)
     else if pt_state t = Announce
     then let current = pt_current_cycle t; t = t\<lparr>pt_current_cycle := i32 (current + 1)\<rparr>
          in if current < pt_offset_cycle_start t then Inr (t, e)
             else rbind (ic_publish_start C (i32 (pb_current_test t + 1))
                           (ip_messages_per_cycle V (pt_pub t)) (pt_process_type t = Loan)
                           (pt_pub_control t))
                    (\<lambda>(ok, c). Inr (t\<lparr>pt_pub_control := c, pt_state := Streaming\<rparr>, e))
     else if pt_state t = Streaming then pub_stream V clk (t, e)
     else Inr (t, e))"

definition pub_update :: "('p, 'c) pub_test \<times> Executive \<Rightarrow> ('p, 'c) pub_test \<times> Executive" where
  "pub_update s = s"

text \<open>What the executive makes of it in one cycle.\<close>

definition pub_cycle :: "(AirEntity, 'p) IPub \<Rightarrow> 'c IPubControl \<Rightarrow> (nat \<Rightarrow> int)
    \<Rightarrow> ('p, 'c) pub_test \<times> Executive \<Rightarrow> (('p, 'c) pub_test \<times> Executive) res" where
  "pub_cycle V C clk s = rbind (pub_read C s) (\<lambda>s. rbind (pub_write V C clk s) (\<lambda>s. Inr (pub_update s)))"

end
