(* ===== verification/SubTest.thy ===== *)
theory SubTest
  imports PatternBase Interfaces PubTest
begin

section \<open>sub_test_1_to_1: the receiving side of the test\<close>

text \<open>
  \<open>src/stress_test/core/tests/1_1/sub_test_1_to_1.h\<close>. Each \<open>read\<close> polls the control topic.
  A start activates the test and gives the publisher one cycle; the next \<open>read\<close> measures
  once, records the verdict and deactivates. The subscriber and the control subscriber are
  reached through their interfaces \<open>S\<close> and \<open>D\<close>. \<open>opens\<close> says whether the log file can be
  opened. \<open>sb_reports\<close> is what the final report puts out. The lemmas below say what a
  \<open>read\<close> can do, and keep the books of a run (\<open>sub_books\<close>).
\<close>

record sub_report =
  sr_expected :: int
  sr_tests_run :: int
  sr_success_ratio :: real
  sr_cpu_mean :: real
  sr_cpu_max :: real
  sr_total_lost :: int

datatype sub_report_event = SubPrinted sub_report | SubAppended string sub_report

record ('s, 'd) sub_test = pattern_base +
  sb_sub :: 's
  sb_sub_control :: 'd
  sb_test_active :: bool
  sb_current_test_id :: int
  sb_total_lost_samples :: int
  sb_test_validation :: "TestResult list"
  sb_latencies :: Distribution
  sb_cpu_times :: Distribution
  sb_config :: test_config
  sb_process_type :: ProcessType
  sb_reports :: "sub_report_event list"

definition sub_test_new :: "'s ISub \<Rightarrow> test_config \<Rightarrow> 's \<Rightarrow> 'd \<Rightarrow> ('s, 'd) sub_test" where
  "sub_test_new S config s d =
     \<lparr>pb_max_test = tcf_test_count config, pb_current_test = 0,
      sb_sub = is_set_expected_messages_cycle S (tcf_message_count config) s, sb_sub_control = d,
      sb_test_active = False, sb_current_test_id = 0, sb_total_lost_samples = 0,
      sb_test_validation = [], sb_latencies = Distribution_new, sb_cpu_times = Distribution_new,
      sb_config = config, sb_process_type = ProcessType_of_bool (tcf_loan_mode config),
      sb_reports = []\<rparr>"

definition get_local_jitter :: "('s, 'd) sub_test \<Rightarrow> fnum" where
  "get_local_jitter t = dlocalJitter (sb_latencies t)"

definition sub_test_init :: "'s ISub \<Rightarrow> 'd ISubControl \<Rightarrow> ('s, 'd) sub_test \<Rightarrow> ('s, 'd) sub_test res" where
  "sub_test_init S D t =
     rbind (is_init S (sb_sub t)) (\<lambda>(started, s).
     rbind (sc_init D (sb_sub_control t)) (\<lambda>(control_started, d).
       Inr (t\<lparr>sb_sub := s, sb_sub_control := d\<rparr>)))"

definition sub_on_test_finished :: "bool \<Rightarrow> ('s, 'd) sub_test \<times> Executive \<Rightarrow> ('s, 'd) sub_test \<times> Executive" where
  "sub_on_test_finished value = (\<lambda>(t, e).
     (t\<lparr>sb_test_validation := add_test_result (if value then VALID else INVALID) (sb_test_validation t)\<rparr>, e))"

definition sub_final_report :: "'s ISub \<Rightarrow> ('s, 'd) sub_test \<Rightarrow> sub_report" where
  "sub_final_report S t = \<lparr>sr_expected = is_expected_messages_cycle S (sb_sub t),
     sr_tests_run = pb_current_test t, sr_success_ratio = get_percentage (sb_test_validation t),
     sr_cpu_mean = dmean (sb_cpu_times t), sr_cpu_max = dmax (sb_cpu_times t),
     sr_total_lost = sb_total_lost_samples t\<rparr>"

definition sub_make_final_report :: "'s ISub \<Rightarrow> (string \<Rightarrow> bool) \<Rightarrow> ('s, 'd) sub_test \<times> Executive
    \<Rightarrow> ('s, 'd) sub_test \<times> Executive" where
  "sub_make_final_report S opens = (\<lambda>(t, e).
     let ss = sub_final_report S t; file = tcf_logFile (sb_config t);
         t = t\<lparr>sb_reports := sb_reports t @ [SubPrinted ss]\<rparr>;
         t = (if file \<noteq> '''' \<and> opens file
              then t\<lparr>sb_reports := sb_reports t @ [SubAppended file ss]\<rparr> else t)
     in (t, request_simulation_end e))"

definition sub_reset_test :: "'s ISub \<Rightarrow> ('s, 'd) sub_test \<Rightarrow> ('s, 'd) sub_test" where
  "sub_reset_test S t = t\<lparr>sb_sub := is_reset_samples S (sb_sub t), sb_test_active := False\<rparr>"

text \<open>What \<open>read\<close> does with a message, and the measurement.\<close>

definition sub_apply_config :: "'s ISub \<Rightarrow> TestConfig \<Rightarrow> ('s, 'd) sub_test \<Rightarrow> ('s, 'd) sub_test" where
  "sub_apply_config S tc t = t\<lparr>sb_current_test_id := testId tc,
     sb_sub := is_set_expected_messages_cycle S (expectedEntities tc) (sb_sub t),
     sb_test_active := cf_active tc, sb_process_type := (if cf_loan tc then Loan else Normal)\<rparr>"

definition sub_run :: "'s ISub \<Rightarrow> ProcessType \<Rightarrow> int \<Rightarrow> 's \<Rightarrow> (bool \<times> int \<times> 's) comp" where
  "sub_run S type lost s = (case type of Normal \<Rightarrow> is_run_without_loan S lost s
     | Loan \<Rightarrow> is_run_with_loan S lost s)"

definition sub_measure :: "'s ISub \<Rightarrow> (string \<Rightarrow> bool) \<Rightarrow> (nat \<Rightarrow> int) \<Rightarrow> ('s, 'd) sub_test \<times> Executive
    \<Rightarrow> (('s, 'd) sub_test \<times> Executive) comp" where
  "sub_measure S opens clk = (\<lambda>(t, e).
     let s = is_reset_samples S (sb_sub t); (t0, e) = steady_now clk e
     in cbind (sub_run S (sb_process_type t) 0 s) (\<lambda>(result, lost, s).
        let (t1, e) = steady_now clk e;
            t = t\<lparr>sb_sub := s, sb_cpu_times := addValue (of_int (t1 - t0) / 1000000) (sb_cpu_times t),
                  sb_total_lost_samples := i32 (sb_total_lost_samples t + lost)\<rparr>;
            (t, e) = finish_test sub_on_test_finished (sub_make_final_report S opens)
                       default_on_end_test result (t, e)
        in Some (Inr (sub_reset_test S t, e))))"

definition sub_read :: "'s ISub \<Rightarrow> 'd ISubControl \<Rightarrow> (string \<Rightarrow> bool) \<Rightarrow> (nat \<Rightarrow> int)
    \<Rightarrow> ('s, 'd) sub_test \<times> Executive \<Rightarrow> (('s, 'd) sub_test \<times> Executive) comp" where
  "sub_read S D opens clk = (\<lambda>(t, e).
     cbind (sc_poll_control D TestConfig_new (sb_sub_control t)) (\<lambda>(polled, tc, d).
       let t = t\<lparr>sb_sub_control := d\<rparr>;
           t = (if polled then sub_apply_config S tc t else t)
       in if polled \<and> sb_test_active t then Some (Inr (t, e))
          else if \<not> sb_test_active t then Some (Inr (t, e))
          else sub_measure S opens clk (t, e)))"

definition sub_write :: "('s, 'd) sub_test \<times> Executive \<Rightarrow> ('s, 'd) sub_test \<times> Executive" where
  "sub_write s = s"

definition sub_update :: "('s, 'd) sub_test \<times> Executive \<Rightarrow> ('s, 'd) sub_test \<times> Executive" where
  "sub_update s = s"

subsection \<open>What a read can do\<close>

lemma sub_read_polled:
  assumes "sc_poll_control D TestConfig_new (sb_sub_control t) = Some (Inr (True, tc, d))"
  shows "sub_read S D opens clk (t, e) = Some (Inr (sub_apply_config S tc (t\<lparr>sb_sub_control := d\<rparr>), e))"
  using assms by (simp add: sub_read_def sub_apply_config_def Let_def)

lemma sub_read_quiet:
  assumes "sc_poll_control D TestConfig_new (sb_sub_control t) = Some (Inr (False, tc, d))"
  shows "sub_read S D opens clk (t, e) =
    (if sb_test_active t then sub_measure S opens clk (t\<lparr>sb_sub_control := d\<rparr>, e)
     else Some (Inr (t\<lparr>sb_sub_control := d\<rparr>, e)))"
  using assms by (simp add: sub_read_def Let_def)

lemma sub_read_cases:
  assumes "sub_read S D opens clk (t, e) = Some (Inr (t', e'))"
  obtains polled tc d where
    "sc_poll_control D TestConfig_new (sb_sub_control t) = Some (Inr (polled, tc, d))"
    "polled" "t' = sub_apply_config S tc (t\<lparr>sb_sub_control := d\<rparr>)" "e' = e"
  | d tc where "sc_poll_control D TestConfig_new (sb_sub_control t) = Some (Inr (False, tc, d))"
    "\<not> sb_test_active t" "t' = t\<lparr>sb_sub_control := d\<rparr>" "e' = e"
  | d tc where "sc_poll_control D TestConfig_new (sb_sub_control t) = Some (Inr (False, tc, d))"
    "sb_test_active t" "sub_measure S opens clk (t\<lparr>sb_sub_control := d\<rparr>, e) = Some (Inr (t', e'))"
proof -
  from assms obtain polled tc d where
    p: "sc_poll_control D TestConfig_new (sb_sub_control t) = Some (Inr (polled, tc, d))"
    unfolding sub_read_def by (auto simp: flow)
  show thesis
  proof (cases polled)
    case True
    then show thesis using that(1)[OF p] sub_read_polled[of D t tc d S opens clk e] p assms by simp
  next
    case False
    then show thesis using that(2)[of tc d] that(3)[of tc d] sub_read_quiet[of D t tc d S opens clk e] p assms
      by (auto split: if_splits)
  qed
qed

lemma sub_measure_result:
  assumes "sub_measure S opens clk (t, e) = Some (Inr (t', e'))"
  obtains result lost s where
    "sub_run S (sb_process_type t) 0 (is_reset_samples S (sb_sub t)) = Some (Inr (result, lost, s))"
    "sb_test_validation t' = sb_test_validation t @ [if result then VALID else INVALID]"
    "sb_total_lost_samples t' = i32 (sb_total_lost_samples t + lost)"
    "pb_current_test t' = i32 (pb_current_test t + 1)" "pb_max_test t' = pb_max_test t"
    "length (dvalues (sb_cpu_times t')) = length (dvalues (sb_cpu_times t)) + 1"
    "\<not> sb_test_active t'" "sb_sub t' = is_reset_samples S s"
    "ex_currentState e' = (if pb_max_test t \<le> pb_current_test t' then END else ex_currentState e)"
    "ex_current_cycle e' = ex_current_cycle e" "ex_total_time e' = ex_total_time e"
    "sb_sub_control t' = sb_sub_control t"
proof -
  let ?e = "e\<lparr>ex_now_calls := ex_now_calls e + 1 + 1\<rparr>"
  let ?u = "\<lambda>lost s. t\<lparr>sb_sub := s, sb_cpu_times := addValue
      (of_int (clk (ex_now_calls e + 1) - clk (ex_now_calls e)) / 1000000) (sb_cpu_times t),
      sb_total_lost_samples := i32 (sb_total_lost_samples t + lost)\<rparr>"
  from assms obtain result lost s where
    r: "sub_run S (sb_process_type t) 0 (is_reset_samples S (sb_sub t)) = Some (Inr (result, lost, s))"
    unfolding sub_measure_def by (auto simp: flow Let_def steady_now_def)
  obtain v f where f: "finish_test sub_on_test_finished (sub_make_final_report S opens)
      default_on_end_test result (?u lost s, ?e) = (v, f)" by fastforce
  from assms r f have t': "t' = sub_reset_test S v" "e' = f"
    by (simp_all add: sub_measure_def Let_def steady_now_def)
  have "sb_test_validation v = sb_test_validation t @ [if result then VALID else INVALID]
      \<and> sb_total_lost_samples v = i32 (sb_total_lost_samples t + lost)
      \<and> pb_current_test v = i32 (pb_current_test t + 1) \<and> pb_max_test v = pb_max_test t
      \<and> sb_cpu_times v = sb_cpu_times (?u lost s) \<and> sb_sub v = s \<and> sb_sub_control v = sb_sub_control t"
    using f by (auto simp: finish_test_def sub_on_test_finished_def add_test_result_def
      sub_make_final_report_def default_on_end_test_def Let_def split: if_splits)
  moreover have "ex_currentState f = (if pb_max_test t \<le> pb_current_test v then END else ex_currentState e)
      \<and> ex_current_cycle f = ex_current_cycle e \<and> ex_total_time f = ex_total_time e"
    using f by (auto simp: finish_test_def sub_on_test_finished_def request_simulation_end_def
      sub_make_final_report_def default_on_end_test_def Let_def split: if_splits)
  ultimately show thesis by (intro that[OF r]) (simp_all add: t' sub_reset_test_def addValue_def)
qed

text \<open>The books: one verdict and one CPU time per counted test, and the end in time.\<close>

definition sub_books :: "('s, 'd) sub_test \<times> Executive \<Rightarrow> bool" where
  "sub_books = (\<lambda>(t, e). int (length (sb_test_validation t)) = pb_current_test t
     \<and> length (dvalues (sb_cpu_times t)) = length (sb_test_validation t)
     \<and> is_i32 (pb_max_test t) \<and> 0 \<le> pb_current_test t
     \<and> (in_execution e \<longleftrightarrow> pb_current_test t < max 1 (pb_max_test t)))"

lemma sub_read_books:
  assumes r: "sub_read S D opens clk (t, e) = Some (Inr (t', e'))" and "in_execution e"
    and b: "sub_books (t, e)"
  shows "sub_books (t', e')"
  using r
proof (cases rule: sub_read_cases)
  case (1 polled tc d)
  then show ?thesis using b by (simp add: sub_books_def sub_apply_config_def)
next
  case (2 d tc)
  then show ?thesis using b by (simp add: sub_books_def)
next
  case (3 d tc)
  have "i32 (pb_current_test t + 1) = pb_current_test t + 1"
    using b assms(2) by (intro i32_small) (auto simp: sub_books_def is_i32_def max_def split: if_splits)
  then show ?thesis using b assms(2)
    by (rule_tac sub_measure_result[OF 3(3)]) (auto simp: sub_books_def in_execution_def)
qed

lemma sub_measure_returns:
  assumes "sub_run S (sb_process_type t) 0 (is_reset_samples S (sb_sub t)) = Some (Inr r)"
  shows "\<exists>t' e'. sub_measure S opens clk (t, e) = Some (Inr (t', e'))"
  using assms by (simp add: sub_measure_def steady_now_def split_beta Let_def)

text \<open>
  A run: reads while the executive is in execution, and in between callbacks of the data
  subscriber (\<open>F\<close>) and of the control subscriber (\<open>G\<close>), such as a match or an arrival.
\<close>

inductive sub_reach :: "'s ISub \<Rightarrow> 'd ISubControl \<Rightarrow> (string \<Rightarrow> bool) \<Rightarrow> (nat \<Rightarrow> int) \<Rightarrow> ('s \<Rightarrow> 's) set
    \<Rightarrow> ('d \<Rightarrow> 'd) set \<Rightarrow> ('s, 'd) sub_test \<times> Executive \<Rightarrow> ('s, 'd) sub_test \<times> Executive \<Rightarrow> bool"
  for S D opens clk F G s where
  sub_start: "sub_reach S D opens clk F G s s"
| sub_step: "sub_reach S D opens clk F G s (t, e) \<Longrightarrow> in_execution e \<Longrightarrow>
    sub_read S D opens clk (t, e) = Some (Inr u) \<Longrightarrow> sub_reach S D opens clk F G s u"
| sub_data: "sub_reach S D opens clk F G s (t, e) \<Longrightarrow> f \<in> F \<Longrightarrow>
    sub_reach S D opens clk F G s (t\<lparr>sb_sub := f (sb_sub t)\<rparr>, e)"
| sub_control: "sub_reach S D opens clk F G s (t, e) \<Longrightarrow> g \<in> G \<Longrightarrow>
    sub_reach S D opens clk F G s (t\<lparr>sb_sub_control := g (sb_sub_control t)\<rparr>, e)"

inductive_simps sub_reach_simps: "sub_reach S D opens clk F G s t"

lemma sub_reach_books:
  "sub_reach S D opens clk F G s u \<Longrightarrow> sub_books s \<Longrightarrow> sub_books u \<and> pb_max_test (fst u) = pb_max_test (fst s)"
proof (induction rule: sub_reach.induct)
  case (sub_step t e u)
  obtain t' e' where u: "u = (t', e')" by (cases u)
  have b: "sub_books (t, e)" using sub_step by simp
  have "pb_max_test t' = pb_max_test t"
    using sub_step(3)[unfolded u]
  proof (cases rule: sub_read_cases)
    case (3 d tc)
    then show ?thesis by (rule_tac sub_measure_result[OF 3(3)]) simp
  qed (simp_all add: sub_apply_config_def)
  then show ?case using sub_read_books[OF sub_step(3)[unfolded u] sub_step(2) b] sub_step u by simp
qed (auto simp: sub_books_def)

end
