(* ===== verification/DdsModule.thy ===== *)
theory DdsModule
  imports PubTest SubTest
begin

section \<open>cl_dds: the module that picks the vendor and the test\<close>

text \<open>
  \<open>src/stress_test/core/dds_module.{h,cpp}\<close> and \<open>src/stress_test/DDSFactory.h\<close>. The build
  selects one DDS implementation with a macro; here it is a \<open>vendor\<close>: the interfaces of its
  four classes, new objects of them, and the participant manager of
  \<open>ParticipantManagerFactory::create\<close>. \<open>test_patterns\<close> is recursive on whatever number it
  was given or read, so it is a \<open>partial_function\<close>: no result means that it never returns.
  The standard input is the list of characters still to be read.
\<close>

datatype DDS_Library = FastDDS | CycloneDDS | OpenDDS | RtiDDS

record ('p, 'c, 's, 'd) vendor =
  v_library :: DDS_Library
  v_IPub :: "(AirEntity, 'p) IPub"
  v_IPubControl :: "'c IPubControl"
  v_ISub :: "'s ISub"
  v_ISubControl :: "'d ISubControl"
  v_create_participant :: "nat option res"
  v_new_pub :: 'p
  v_new_pub_control :: 'c
  v_new_sub :: 's
  v_new_sub_control :: 'd
  v_pub_participant :: "nat option \<Rightarrow> 'p \<Rightarrow> 'p"
  v_pub_control_participant :: "nat option \<Rightarrow> 'c \<Rightarrow> 'c"
  v_sub_participant :: "nat option \<Rightarrow> 's \<Rightarrow> 's"
  v_sub_control_participant :: "nat option \<Rightarrow> 'd \<Rightarrow> 'd"

datatype ('p, 'c, 's, 'd) pattern = PubPattern "('p, 'c) pub_test" | SubPattern "('s, 'd) sub_test"

record ('p, 'c, 's, 'd) cl_dds =
  dd_base :: module_base
  dd_p_pattern :: "('p, 'c, 's, 'd) pattern option"
  dd_lost_samples :: Distribution
  dd_current_library :: DDS_Library
  dd_participant_factory :: bool
  dd_config :: test_config
  dd_stdin :: string

text \<open>The two constructors; the second one adjusts the number of listeners.\<close>

definition cl_dds_new :: "int \<Rightarrow> string \<Rightarrow> ('p, 'c, 's, 'd) cl_dds" where
  "cl_dds_new moduleId stdin = \<lparr>dd_base = module_base_new moduleId, dd_p_pattern = None,
     dd_lost_samples = Distribution_new, dd_current_library = FastDDS,
     dd_participant_factory = False, dd_config = test_config_new, dd_stdin = stdin\<rparr>"

definition cl_dds_of_config :: "test_config \<Rightarrow> string \<Rightarrow> ('p, 'c, 's, 'd) cl_dds" where
  "cl_dds_of_config config stdin = (cl_dds_new 0 stdin)\<lparr>dd_config :=
     (if tcf_manual_mode config then config\<lparr>tcf_listener_number := 1\<rparr> else config)\<rparr>"

text \<open>
  \<open>std::cin >> input\<close> skips white space; at the end of the input it leaves the
  uninitialised \<open>char\<close> as it is (\<open>rubbish\<close>).
\<close>

definition is_space :: "char \<Rightarrow> bool" where
  "is_space ch = (of_char ch = (32 :: nat) \<or> (9 \<le> (of_char ch :: nat) \<and> (of_char ch :: nat) \<le> 13))"

definition is_digit :: "char \<Rightarrow> bool" where
  "is_digit ch = (48 \<le> (of_char ch :: nat) \<and> (of_char ch :: nat) \<le> 57)"

definition read_char :: "char \<Rightarrow> string \<Rightarrow> char \<times> string" where
  "read_char rubbish inp = (case dropWhile is_space inp of [] \<Rightarrow> (rubbish, []) | ch # rest \<Rightarrow> (ch, rest))"

definition menu_number :: "char \<Rightarrow> int \<Rightarrow> string \<Rightarrow> int \<times> string" where
  "menu_number rubbish mode inp =
     (if mode \<le> 0
      then let (ch, rest) = read_char rubbish inp
           in (if is_digit ch then int (of_char ch) - 48 else 0, rest)
      else (mode, inp))"

text \<open>
  The two cases of the \<open>switch\<close>. The inner one has no case for the RTI library, which
  leaves \<open>p_pattern\<close> as it is; only OpenDDS hands the participant to the data side too.
\<close>

definition create_pub_pattern :: "('p, 'c, 's, 'd) vendor \<Rightarrow> bool \<Rightarrow> nat option
    \<Rightarrow> ('p, 'c, 's, 'd) cl_dds \<Rightarrow> ('p, 'c, 's, 'd) cl_dds" where
  "create_pub_pattern V garbage part m =
     (let control = v_pub_control_participant V part (v_new_pub_control V)
      in case dd_current_library m of
           FastDDS \<Rightarrow> m\<lparr>dd_p_pattern := Some (PubPattern (pub_test_new (v_IPub V) garbage (dd_config m)
                        (v_new_pub V) control))\<rparr>
         | CycloneDDS \<Rightarrow> m\<lparr>dd_p_pattern := Some (PubPattern (pub_test_new (v_IPub V) garbage (dd_config m)
                        (v_new_pub V) control))\<rparr>
         | OpenDDS \<Rightarrow> m\<lparr>dd_p_pattern := Some (PubPattern (pub_test_new (v_IPub V) garbage (dd_config m)
                        (v_pub_participant V part (v_new_pub V)) control))\<rparr>
         | RtiDDS \<Rightarrow> m)"

definition create_sub_pattern :: "('p, 'c, 's, 'd) vendor \<Rightarrow> nat option
    \<Rightarrow> ('p, 'c, 's, 'd) cl_dds \<Rightarrow> ('p, 'c, 's, 'd) cl_dds" where
  "create_sub_pattern V part m =
     (let control = v_sub_control_participant V part (v_new_sub_control V)
      in case dd_current_library m of
           FastDDS \<Rightarrow> m\<lparr>dd_p_pattern := Some (SubPattern (sub_test_new (v_ISub V) (dd_config m)
                        (v_new_sub V) control))\<rparr>
         | CycloneDDS \<Rightarrow> m\<lparr>dd_p_pattern := Some (SubPattern (sub_test_new (v_ISub V) (dd_config m)
                        (v_new_sub V) control))\<rparr>
         | OpenDDS \<Rightarrow> m\<lparr>dd_p_pattern := Some (SubPattern (sub_test_new (v_ISub V) (dd_config m)
                        (v_sub_participant V part (v_new_sub V)) control))\<rparr>
         | RtiDDS \<Rightarrow> m)"

partial_function (option) test_patterns :: "('p, 'c, 's, 'd) vendor \<Rightarrow> bool \<Rightarrow> char \<Rightarrow> int
    \<Rightarrow> ('p, 'c, 's, 'd) cl_dds \<Rightarrow> ('p, 'c, 's, 'd) cl_dds comp" where
  "test_patterns V garbage rubbish mode m =
     (let (number, rest) = menu_number rubbish mode (dd_stdin m); m = m\<lparr>dd_stdin := rest\<rparr>
      in case v_create_participant V of Inl f \<Rightarrow> Some (Inl f)
         | Inr part \<Rightarrow>
             if number = TestMode_int One_to_One_Pub then Some (Inr (create_pub_pattern V garbage part m))
             else if number = TestMode_int One_to_One_Sub then Some (Inr (create_sub_pattern V part m))
             else test_patterns V garbage rubbish number m)"

subsection \<open>The virtual functions of the module\<close>

definition cl_dds_init :: "('p, 'c, 's, 'd) vendor \<Rightarrow> bool \<Rightarrow> char \<Rightarrow> ('p, 'c, 's, 'd) cl_dds \<times> Executive
    \<Rightarrow> (('p, 'c, 's, 'd) cl_dds \<times> Executive) comp" where
  "cl_dds_init V garbage rubbish = (\<lambda>(m, e).
     cbind (test_patterns V garbage rubbish (tcf_test_mode (dd_config m))
              (m\<lparr>dd_participant_factory := True, dd_current_library := v_library V\<rparr>)) (\<lambda>m.
       case dd_p_pattern m of None \<Rightarrow> Some (Inr (m, e))
       | Some (PubPattern t) \<Rightarrow> Some (rbind (pub_test_init (v_IPub V) (v_IPubControl V) t)
           (\<lambda>t. Inr (m\<lparr>dd_p_pattern := Some (PubPattern t)\<rparr>, e)))
       | Some (SubPattern t) \<Rightarrow> Some (rbind (sub_test_init (v_ISub V) (v_ISubControl V) t)
           (\<lambda>t. Inr (m\<lparr>dd_p_pattern := Some (SubPattern t)\<rparr>, e)))))"

definition cl_dds_read :: "('p, 'c, 's, 'd) vendor \<Rightarrow> (string \<Rightarrow> bool) \<Rightarrow> (nat \<Rightarrow> int)
    \<Rightarrow> ('p, 'c, 's, 'd) cl_dds \<times> Executive \<Rightarrow> (('p, 'c, 's, 'd) cl_dds \<times> Executive) comp" where
  "cl_dds_read V opens clk = (\<lambda>(m, e). case dd_p_pattern m of None \<Rightarrow> Some (Inl (NullDeref ''p_pattern''))
     | Some (PubPattern t) \<Rightarrow> Some (rbind (pub_read (v_IPubControl V) (t, e))
         (\<lambda>(t, e). Inr (m\<lparr>dd_p_pattern := Some (PubPattern t)\<rparr>, e)))
     | Some (SubPattern t) \<Rightarrow> cbind (sub_read (v_ISub V) (v_ISubControl V) opens clk (t, e))
         (\<lambda>(t, e). Some (Inr (m\<lparr>dd_p_pattern := Some (SubPattern t)\<rparr>, e))))"

definition cl_dds_write :: "('p, 'c, 's, 'd) vendor \<Rightarrow> (nat \<Rightarrow> int)
    \<Rightarrow> ('p, 'c, 's, 'd) cl_dds \<times> Executive \<Rightarrow> (('p, 'c, 's, 'd) cl_dds \<times> Executive) comp" where
  "cl_dds_write V clk = (\<lambda>(m, e). case dd_p_pattern m of None \<Rightarrow> Some (Inl (NullDeref ''p_pattern''))
     | Some (PubPattern t) \<Rightarrow> Some (rbind (pub_write (v_IPub V) (v_IPubControl V) clk (t, e))
         (\<lambda>(t, e). Inr (m\<lparr>dd_p_pattern := Some (PubPattern t)\<rparr>, e)))
     | Some (SubPattern t) \<Rightarrow> (let (t, e) = sub_write (t, e)
         in Some (Inr (m\<lparr>dd_p_pattern := Some (SubPattern t)\<rparr>, e))))"

definition cl_dds_update :: "('p, 'c, 's, 'd) cl_dds \<times> Executive \<Rightarrow> (('p, 'c, 's, 'd) cl_dds \<times> Executive) comp" where
  "cl_dds_update = (\<lambda>(m, e). case dd_p_pattern m of None \<Rightarrow> Some (Inl (NullDeref ''p_pattern''))
     | Some (PubPattern t) \<Rightarrow> (let (t, e) = pub_update (t, e)
         in Some (Inr (m\<lparr>dd_p_pattern := Some (PubPattern t)\<rparr>, e)))
     | Some (SubPattern t) \<Rightarrow> (let (t, e) = sub_update (t, e)
         in Some (Inr (m\<lparr>dd_p_pattern := Some (SubPattern t)\<rparr>, e))))"

definition cl_dds_module :: "('p, 'c, 's, 'd) vendor \<Rightarrow> bool \<Rightarrow> char \<Rightarrow> (string \<Rightarrow> bool) \<Rightarrow> (nat \<Rightarrow> int)
    \<Rightarrow> ('p, 'c, 's, 'd) cl_dds cl_module" where
  "cl_dds_module V garbage rubbish opens clk = \<lparr>m_get_module_id = 0,
     m_init = cl_dds_init V garbage rubbish, m_read = cl_dds_read V opens clk,
     m_write = cl_dds_write V clk, m_update = cl_dds_update\<rparr>"

subsection \<open>The choice of the test\<close>

lemma test_patterns_returns:
  assumes "test_patterns V garbage rubbish mode m = Some r" and "v_create_participant V = Inr part"
  shows "mode \<le> 2 \<and> (\<forall>ch rest. mode \<le> 0 \<longrightarrow> read_char rubbish (dd_stdin m) = (ch, rest)
    \<longrightarrow> is_digit ch \<longrightarrow> int (of_char ch) - 48 \<le> 2)"
  using assms
proof (induction rule: test_patterns.raw_induct[of
    "\<lambda>V garbage rubbish mode m r. v_create_participant V = Inr part \<longrightarrow> (mode \<le> 2
      \<and> (\<forall>ch rest. mode \<le> 0 \<longrightarrow> read_char rubbish (dd_stdin m) = (ch, rest)
          \<longrightarrow> is_digit ch \<longrightarrow> int (of_char ch) - 48 \<le> 2))", rule_format, rotated 1, consumes 2])
  case (1 f V garbage rubbish mode m r)
  then show ?case
    by (auto simp: menu_number_def Let_def dest!: 1(1) split: prod.splits sum.splits if_splits)
qed

lemma test_patterns_mode:
  assumes "v_create_participant V = Inr part"
  shows "test_patterns V garbage rubbish 1 m = Some (Inr (create_pub_pattern V garbage part m))"
    and "test_patterns V garbage rubbish 2 m = Some (Inr (create_sub_pattern V part m))"
  using assms by (subst test_patterns.simps; simp add: menu_number_def Let_def)+

subsection \<open>The module keeps the contract of the executive\<close>

definition exec_kept :: "Executive \<Rightarrow> Executive \<Rightarrow> bool" where
  "exec_kept e f \<longleftrightarrow> ex_current_cycle f = ex_current_cycle e \<and> ex_total_time f = ex_total_time e"

lemma pub_read_exec: "pub_read C (t, e) = Inr (t', e') \<Longrightarrow> exec_kept e e'"
proof -
  have r: "exec_kept e e'" if "pub_reset_test C (u, e) = Inr (t', e')" for u
    using that by (auto simp: pub_reset_test_def finish_test_def pub_on_test_finished_def exec_kept_def
      pub_make_final_report_def default_on_end_test_def request_simulation_end_def Let_def
      elim!: rbind_InrE split: if_splits)
  assume "pub_read C (t, e) = Inr (t', e')"
  then show ?thesis using r by (auto simp: pub_read_def exec_kept_def Let_def split: if_splits)
qed

lemma pub_write_exec: "pub_write V C clk (t, e) = Inr (t', e') \<Longrightarrow> exec_kept e e'"
proof -
  have s: "exec_kept e e'" if "pub_stream V clk (u, e) = Inr (t', e')" for u
    using that by (auto simp: pub_stream_def steady_now_def exec_kept_def elim!: rbind_InrE)
  assume "pub_write V C clk (t, e) = Inr (t', e')"
  then show ?thesis using s
    by (auto simp: pub_write_def exec_kept_def Let_def split_beta elim!: rbind_InrE split: if_splits)
qed

lemma sub_read_exec: "sub_read S D opens clk (t, e) = Some (Inr (t', e')) \<Longrightarrow> exec_kept e e'"
  by (erule sub_read_cases) (auto simp: exec_kept_def elim!: sub_measure_result)

interpretation dds_client: exec_client "cl_dds_module V garbage rubbish opens clk"
proof unfold_locales
  show "exec_frame (m_read (cl_dds_module V garbage rubbish opens clk))"
    unfolding exec_frame_def
  proof (intro allI impI)
    fix s t assume "m_read (cl_dds_module V garbage rubbish opens clk) s = Some (Inr t)"
    then have "exec_kept (snd s) (snd t)"
      by (cases s) (auto simp: cl_dds_module_def cl_dds_read_def flow
        dest: pub_read_exec sub_read_exec split: option.splits pattern.splits)
    then show "ex_current_cycle (snd t) = ex_current_cycle (snd s) \<and> ex_total_time (snd t) = ex_total_time (snd s)"
      by (simp add: exec_kept_def)
  qed
  show "exec_frame (m_write (cl_dds_module V garbage rubbish opens clk))"
    unfolding exec_frame_def
  proof (intro allI impI)
    fix s t assume "m_write (cl_dds_module V garbage rubbish opens clk) s = Some (Inr t)"
    then have "exec_kept (snd s) (snd t)"
      by (cases s) (auto simp: cl_dds_module_def cl_dds_write_def flow sub_write_def exec_kept_def
        dest!: pub_write_exec split: option.splits pattern.splits)
    then show "ex_current_cycle (snd t) = ex_current_cycle (snd s) \<and> ex_total_time (snd t) = ex_total_time (snd s)"
      by (simp add: exec_kept_def)
  qed
  show "exec_frame (m_update (cl_dds_module V garbage rubbish opens clk))"
    by (auto simp: exec_frame_def cl_dds_module_def cl_dds_update_def pub_update_def sub_update_def
      split: option.splits pattern.splits)
qed

text \<open>A cycle of the executive over a publishing test is a \<open>pub_cycle\<close>.\<close>

lemma execute_cycle_pub:
  assumes "dd_p_pattern m = Some (PubPattern t)"
  shows "execute_cycle clk [cl_dds_module V garbage rubbish opens clk] (m, e) =
    Some (rbind (pub_cycle (v_IPub V) (v_IPubControl V) clk (t, snd (steady_now clk e)))
      (\<lambda>(t', e'). Inr (m\<lparr>dd_p_pattern := Some (PubPattern t')\<rparr>,
         finish_cycle clk (fst (steady_now clk e)) e')))"
proof (cases "pub_read (v_IPubControl V) (t, snd (steady_now clk e))")
  case (Inl f)
  then show ?thesis using assms
    by (simp add: execute_cycle_def run_modules_def cl_dds_module_def cl_dds_read_def pub_cycle_def split_beta)
next
  case (Inr a)
  obtain u f where a: "a = (u, f)" by (cases a)
  show ?thesis
  proof (cases "pub_write (v_IPub V) (v_IPubControl V) clk (u, f)")
    case (Inl g)
    then show ?thesis using assms Inr a
      by (simp add: execute_cycle_def run_modules_def cl_dds_module_def cl_dds_read_def
        cl_dds_write_def pub_cycle_def split_beta)
  next
    case (Inr b)
    then show ?thesis using assms \<open>pub_read _ _ = Inr a\<close> a
      by (cases b) (simp add: execute_cycle_def run_modules_def cl_dds_module_def cl_dds_read_def
        cl_dds_write_def cl_dds_update_def pub_update_def pub_cycle_def split_beta)
  qed
qed

lemma execute_cycle_sub:
  assumes "dd_p_pattern m = Some (SubPattern t)"
  shows "execute_cycle clk [cl_dds_module V garbage rubbish opens clk] (m, e) =
    cbind (sub_read (v_ISub V) (v_ISubControl V) opens clk (t, snd (steady_now clk e)))
      (\<lambda>(t', e'). Some (Inr (m\<lparr>dd_p_pattern := Some (SubPattern t')\<rparr>,
         finish_cycle clk (fst (steady_now clk e)) e')))"
  using assms
  by (cases "sub_read (v_ISub V) (v_ISubControl V) opens clk (t, snd (steady_now clk e))" rule: comp_cases)
    (auto simp: execute_cycle_def run_modules_def cl_dds_module_def cl_dds_read_def
      cl_dds_write_def cl_dds_update_def sub_write_def sub_update_def split_beta)

end
