(* ===== verification/PubRun.thy ===== *)
theory PubRun
  imports PubTest
begin

section \<open>The publishing test as a protocol\<close>

text \<open>
  What a run of \<open>pub_test_1_to_1\<close> puts on the two topics. The specification: \<open>batch\<close> is
  one cycle's entities, \<open>test_commands\<close> the start and stop commands of the finished tests.
  \<open>pub_inv\<close> ties every state of a run to it, for any publisher that keeps \<open>ipub\<close> and any
  control publisher that keeps \<open>ipub_control\<close>: matched or not, and whatever the commands
  return (locale \<open>pub_node\<close>). \<open>pub_node_up\<close> adds that both sides are matched and working,
  and gives the number of cycles to the end.
\<close>

definition blank_entity :: "AirEntity \<Rightarrow> bool" where
  "blank_entity x \<longleftrightarrow> x\<lparr>ent_id := 0\<rparr> = AirEntity_new"

definition numbered_entity :: "nat \<Rightarrow> AirEntity" where
  "numbered_entity i = AirEntity_new\<lparr>ent_id := int i\<rparr>"

definition batch :: "int \<Rightarrow> AirEntity list" where
  "batch m = map numbered_entity [0..<nat m]"

definition test_commands :: "int \<Rightarrow> bool \<Rightarrow> nat \<Rightarrow> TestControl list" where
  "test_commands m loan k =
     concat (map (\<lambda>i. [start_msg (int i + 1) m loan, stop_msg (int i + 1)]) [0..<k])"

lemma test_commands_Suc [simp]:
  "test_commands m loan (Suc k) =
     test_commands m loan k @ [start_msg (int k + 1) m loan, stop_msg (int k + 1)]"
  by (simp add: test_commands_def)

lemma test_commands_0 [simp]: "test_commands m loan 0 = []"
  by (simp add: test_commands_def)

lemma blank_numbered: "blank_entity x \<Longrightarrow> x\<lparr>ent_id := int i\<rparr> = numbered_entity i"
  unfolding blank_entity_def numbered_entity_def
  by (metis AirEntity.surjective AirEntity.update_convs(1))

lemma blank_set_id [simp]: "blank_entity (x\<lparr>ent_id := i\<rparr>) = blank_entity x"
  by (simp add: blank_entity_def)

lemma blank_new [simp]: "blank_entity AirEntity_new"
  by (simp add: blank_entity_def AirEntity_new_def)

definition pre_ok :: "int \<Rightarrow> ('p, 'c) pub_test \<Rightarrow> bool" where
  "pre_ok m t \<longleftrightarrow> length (pt_pre_allocated_entities t) = nat m
     \<and> (\<forall>x \<in> set (pt_pre_allocated_entities t). blank_entity x)"

text \<open>Everything the streaming loop leaves alone.\<close>

definition same_control :: "('p, 'c) pub_test \<Rightarrow> ('p, 'c) pub_test \<Rightarrow> bool" where
  "same_control t u \<longleftrightarrow> u = t\<lparr>pt_pub := pt_pub u, pt_current_entity_id := pt_current_entity_id u,
     pt_pre_allocated_entities := pt_pre_allocated_entities u\<rparr>"

lemma same_control_trans: "same_control t u \<Longrightarrow> same_control u v \<Longrightarrow> same_control t v"
  by (cases t; cases u; cases v) (simp add: same_control_def)

text \<open>
  The invariant, in two parts: the scalars that drive the state machine (the slack \<open>d\<close> is
  1 between \<open>read\<close> and \<open>write\<close> of a cycle), and what has gone out.
\<close>

definition ctl_inv :: "int \<Rightarrow> int \<Rightarrow> ('p, 'c) pub_test \<times> Executive \<Rightarrow> bool" where
  "ctl_inv T d = (\<lambda>(t, e).
     pb_max_test t = T \<and> 0 \<le> pb_current_test t \<and> pb_current_test t \<le> T
   \<and> (pt_state t = Announce \<or> pt_state t = Streaming)
   \<and> (in_execution e \<longrightarrow> pb_current_test t < T)
   \<and> (\<not> in_execution e \<longrightarrow> \<not> pt_send t \<and> pb_current_test t = T \<and> pt_state t = Announce)
   \<and> pt_offset_cyles_reset t = 5 \<and> 0 \<le> pt_current_cyles_reset t \<and> pt_current_cyles_reset t \<le> 5
   \<and> pt_offset_cycle_start t = 50 \<and> is_i32 (pt_current_cycle t)
   \<and> (pt_reset t \<and> pt_send t \<longrightarrow>
        pt_state t = Announce \<and> pt_current_cycle t + d \<le> pt_current_cyles_reset t)
   \<and> (\<not> (pt_state t = Streaming \<and> pt_reset t) \<longrightarrow> pt_current_entity_id t = 0))"

definition out_inv :: "(AirEntity, 'p) IPub \<Rightarrow> ('p \<Rightarrow> AirEntity list) \<Rightarrow> ('c \<Rightarrow> TestControl list)
    \<Rightarrow> int \<Rightarrow> bool \<Rightarrow> ('p, 'c) pub_test \<Rightarrow> bool" where
  "out_inv V sent commands m loan t \<longleftrightarrow>
     ip_messages_per_cycle V (pt_pub t) = m \<and> pre_ok m t
   \<and> pt_process_type t = ProcessType_of_bool loan
   \<and> commands (pt_pub_control t) = test_commands m loan (nat (pb_current_test t))
       @ (if pt_state t = Streaming then [start_msg (pb_current_test t + 1) m loan] else [])
   \<and> (loan \<or> sent (pt_pub t) = concat (replicate
       (nat (pb_current_test t) + (if pt_state t = Streaming \<and> pt_reset t then 1 else 0)) (batch m)))"

text \<open>
  A run, with the listener threads: \<open>read\<close> and \<open>write\<close> alternate while the executive is in
  execution, and at any point in between a callback of the data publisher (\<open>F\<close>) or of the
  control publisher (\<open>G\<close>) may change the object it belongs to.
\<close>

datatype pc = AtRead | AtWrite

inductive pub_reach :: "(AirEntity, 'p) IPub \<Rightarrow> 'c IPubControl \<Rightarrow> (nat \<Rightarrow> int) \<Rightarrow> ('p \<Rightarrow> 'p) set
    \<Rightarrow> ('c \<Rightarrow> 'c) set \<Rightarrow> ('p, 'c) pub_test \<times> Executive \<Rightarrow> pc \<Rightarrow> ('p, 'c) pub_test \<times> Executive \<Rightarrow> bool"
  for V C clk F G s where
  reach_start: "pub_reach V C clk F G s AtRead s"
| reach_read: "pub_reach V C clk F G s AtRead (t, e) \<Longrightarrow> in_execution e \<Longrightarrow>
    pub_read C (t, e) = Inr u \<Longrightarrow> pub_reach V C clk F G s AtWrite u"
| reach_write: "pub_reach V C clk F G s AtWrite (t, e) \<Longrightarrow>
    pub_write V C clk (t, e) = Inr u \<Longrightarrow> pub_reach V C clk F G s AtRead u"
| reach_data: "pub_reach V C clk F G s pc (t, e) \<Longrightarrow> f \<in> F \<Longrightarrow>
    pub_reach V C clk F G s pc (t\<lparr>pt_pub := f (pt_pub t)\<rparr>, e)"
| reach_control: "pub_reach V C clk F G s pc (t, e) \<Longrightarrow> g \<in> G \<Longrightarrow>
    pub_reach V C clk F G s pc (t\<lparr>pt_pub_control := g (pt_pub_control t)\<rparr>, e)"

locale pub_node = data: ipub V sent + ctl: ipub_control C commands
  for V :: "(AirEntity, 'p) IPub" and sent :: "'p \<Rightarrow> AirEntity list"
    and C :: "'c IPubControl" and commands :: "'c \<Rightarrow> TestControl list"
begin

lemma stream_entities_sends:
  assumes "stream_entities V i t = Inr u" and "pre_ok m t" and "is_i32 m" and "0 \<le> m"
    and "ip_messages_per_cycle V (pt_pub t) = m" and "pt_current_entity_id t = int i" and "i \<le> nat m"
  shows "sent (pt_pub u) = sent (pt_pub t) @ map numbered_entity [i..<nat m]
    \<and> pre_ok m u \<and> ip_messages_per_cycle V (pt_pub u) = m \<and> same_control t u"
  using assms(1,2,5-)
proof (induction "nat m - i" arbitrary: i t)
  case 0
  then show ?case using assms(3,4)
    by (subst (asm) stream_entities.simps) (auto simp: c_int same_control_def)
next
  case (Suc n)
  let ?t = "t\<lparr>pt_pre_allocated_entities :=
      (pt_pre_allocated_entities t)[i := (pt_pre_allocated_entities t ! i)\<lparr>ent_id := int i\<rparr>],
      pt_current_entity_id := int i + 1\<rparr>"
  have i: "i < nat m" using Suc(2) by simp
  then have "int i < m" by simp
  then have i1: "i32 (int i + 1) = int i + 1"
    using assms(3) by (intro i32_small) (auto simp: is_i32_def)
  have b: "blank_entity (pt_pre_allocated_entities t ! i)" and len: "length (pt_pre_allocated_entities t) = nat m"
    using Suc.prems(2) i by (auto simp: pre_ok_def)
  have "size_t m = nat m" using assms(3,4) by (rule size_t_of_int)
  with Suc.prems(1,3,4) i len i1 obtain p where
    p: "ip_publish V (numbered_entity i) (pt_pub t) = Inr (True, p)"
    and rest: "stream_entities V (i + 1) (?t\<lparr>pt_pub := p\<rparr>) = Inr u"
    by (subst (asm) stream_entities.simps) (auto simp: blank_numbered[OF b] Let_def split: sum.splits if_splits)
  have "pre_ok m (?t\<lparr>pt_pub := p\<rparr>)"
    using Suc.prems(2) b i len unfolding pre_ok_def
    by (auto dest!: set_update_subset_insert[THEN subsetD])
  moreover have "ip_messages_per_cycle V p = m" using data.publish_per_cycle[OF p] Suc.prems(3) by simp
  ultimately have "sent (pt_pub u) = sent p @ map numbered_entity [i + 1..<nat m]
    \<and> pre_ok m u \<and> ip_messages_per_cycle V (pt_pub u) = m \<and> same_control (?t\<lparr>pt_pub := p\<rparr>) u"
    using Suc(1)[of "i + 1" "?t\<lparr>pt_pub := p\<rparr>", OF _ rest] Suc(2) i by simp
  moreover have "sent p = sent (pt_pub t) @ [numbered_entity i]" by (rule data.publish_true[OF p])
  moreover have "same_control t (?t\<lparr>pt_pub := p\<rparr>)" by (simp add: same_control_def)
  ultimately show ?case using i by (auto simp: upt_conv_Cons intro: same_control_trans)
qed

lemma read_inv:
  assumes "pub_read C (t, e) = Inr (t', e')" and "is_i32 T" and "in_execution e"
    and "ctl_inv T 0 (t, e)" and "out_inv V sent commands m loan t"
  shows "ctl_inv T 1 (t', e') \<and> out_inv V sent commands m loan t'"
proof (cases "pt_reset t \<and> pt_current_cyles_reset t = 5 \<and> pt_state t = Streaming")
  case False
  have "pt_current_cyles_reset t \<le> 5" using assms(4) by (simp add: ctl_inv_def)
  then consider "\<not> pt_reset t" | "pt_reset t" "pt_current_cyles_reset t < 5"
    | "pt_reset t" "pt_current_cyles_reset t = 5" by linarith
  then show ?thesis
  proof cases
    case 1
    then have "t' = t" "e' = e" using assms(1) by (simp_all add: pub_read_def)
    then show ?thesis using 1 assms(4,5) by (simp add: ctl_inv_def)
  next
    case 2
    then have "t' = t\<lparr>pt_current_cyles_reset := pt_current_cyles_reset t + 1\<rparr>" "e' = e"
      using assms(1,4) by (simp_all add: pub_read_def ctl_inv_def i32_small Let_def)
    then show ?thesis using 2 assms(4,5) by (simp add: ctl_inv_def out_inv_def pre_ok_def)
  next
    case 3
    then have st: "pt_state t = Announce" using False assms(4) by (simp add: ctl_inv_def)
    then have "t' = t\<lparr>pt_current_cyles_reset := 0, pt_reset := False, pt_send := True\<rparr>" "e' = e"
      using 3 assms(1,4) by (simp_all add: pub_read_def ctl_inv_def i32_small Let_def)
    then show ?thesis using 3 st assms(3-5) by (simp add: ctl_inv_def out_inv_def pre_ok_def)
  qed
next
  case True
  let ?k = "pb_current_test t"
  let ?u = "t\<lparr>pt_current_cyles_reset := 0, pt_reset := False\<rparr>"
  have k: "0 \<le> ?k" "?k < T" and T: "pb_max_test t = T" and o: "pt_offset_cyles_reset t = 5"
    and snd: "\<not> pt_send t" and off: "pt_offset_cycle_start t = 50 \<and> is_i32 (pt_current_cycle t)"
    using assms(3,4) True by (simp_all add: ctl_inv_def)
  have k1: "i32 (?k + 1) = ?k + 1" using k assms(2) by (intro i32_small) (simp_all add: is_i32_def)
  have "pub_reset_test C (?u, e) = Inr (t', e')"
    using assms(1) True o by (simp add: pub_read_def Let_def i32_small)
  then obtain ok c where c: "ic_publish_stop C (?k + 1) (pt_pub_control t) = Inr (ok, c)"
    and r: "finish_test pub_on_test_finished pub_make_final_report default_on_end_test True
      (?u\<lparr>pt_pub_control := c, pt_current_entity_id := 0, pt_state := Announce, pt_reset := True\<rparr>, e) = (t', e')"
    using k T k1 by (auto simp: pub_reset_test_def elim!: rbind_InrE)
  have cc: "commands c = test_commands m loan (nat (?k + 1))"
    using ctl.stop_commands[OF c] assms(5) True k(1)
    by (simp add: out_inv_def nat_add_distrib)
  show ?thesis
  proof (cases "?k + 1 \<ge> T")
    case True': True
    let ?t' = "?u\<lparr>pt_pub_control := c, pt_current_entity_id := 0, pt_state := Announce, pt_reset := True,
      pb_current_test := ?k + 1\<rparr>"
    have "(t', e') = pub_make_final_report (?t', e)"
      using r[symmetric] k1 T True'
      by (simp add: finish_test_def pub_on_test_finished_def default_on_end_test_def Let_def)
    then have e': "\<not> in_execution e'"
      and f: "pb_max_test t' = T" "pb_current_test t' = ?k + 1" "pt_state t' = Announce"
        "pt_offset_cyles_reset t' = 5" "pt_current_cyles_reset t' = 0" "pt_send t' = False"
        "pt_offset_cycle_start t' = 50" "is_i32 (pt_current_cycle t')" "pt_current_entity_id t' = 0" "pt_pub t' = pt_pub t"
        "pt_pub_control t' = c" "pt_pre_allocated_entities t' = pt_pre_allocated_entities t"
        "pt_process_type t' = pt_process_type t"
      using T o snd off
      by (simp_all add: pub_make_final_report_def request_simulation_end_def in_execution_def split: if_splits)
    have Tk: "?k + 1 = T" using True' k by simp
    then have "nat T = Suc (nat ?k)" using k(1) by simp
    with Tk show ?thesis using e' f cc k True assms(5)
      by (simp add: ctl_inv_def out_inv_def pre_ok_def nat_add_distrib)
  next
    case False
    then have "t' = ?u\<lparr>pt_pub_control := c, pt_current_entity_id := 0, pt_state := Announce, pt_reset := True,
      pb_current_test := ?k + 1\<rparr>" "e' = e"
      using r k1 T by (simp_all add: finish_test_def pub_on_test_finished_def Let_def)
    then show ?thesis using False cc k T o snd off True assms(3,5)
      by (simp add: ctl_inv_def out_inv_def pre_ok_def nat_add_distrib)
  qed
qed

lemma matched_inv:
  assumes "ctl_inv T d (t, e)" and "out_inv V sent commands m loan t"
  shows "ctl_inv T d (t\<lparr>pt_pub := snd (ip_is_matched V (pt_pub t))\<rparr>, e)
      \<and> out_inv V sent commands m loan (t\<lparr>pt_pub := snd (ip_is_matched V (pt_pub t))\<rparr>)"
    and "ctl_inv T d (t\<lparr>pt_pub_control := snd (ic_is_matched C (pt_pub_control t))\<rparr>, e)
      \<and> out_inv V sent commands m loan (t\<lparr>pt_pub_control := snd (ic_is_matched C (pt_pub_control t))\<rparr>)"
  using assms
  by (simp_all add: ctl_inv_def out_inv_def pre_ok_def data.matched_sent data.matched_per_cycle
      ctl.ctl_matched_commands)

lemma ctl_inv_slack: "ctl_inv T 1 s \<Longrightarrow> ctl_inv T 0 s"
  by (auto simp: ctl_inv_def)

lemma stream_inv:
  assumes "pub_stream V clk (t, e) = Inr (t', e')" and "is_i32 m" "0 \<le> m"
    and "pt_state t = Streaming" "pt_send t"
    and "ctl_inv T 1 (t, e)" and "out_inv V sent commands m loan t"
  shows "ctl_inv T 0 (t', e') \<and> out_inv V sent commands m loan t'"
proof -
  have nr: "\<not> pt_reset t" and ex: "in_execution e" using assms(4-6) by (auto simp: ctl_inv_def)
  have id0: "pt_current_entity_id t = 0" using assms(6) nr by (simp add: ctl_inv_def)
  let ?w = "\<lambda>u t0 t1. u\<lparr>pt_cpu_times := addValue (of_int (t1 - t0) / 1000000) (pt_cpu_times u),
                          pt_reset := True, pt_send := False\<rparr>"
  have ex': "in_execution e'" using assms(1) ex
    by (auto simp: pub_stream_def steady_now_def in_execution_def elim!: rbind_InrE)
  show ?thesis
  proof (cases loan)
    case True
    with assms(1,7) obtain ok p t0 t1 where
      p: "ip_publish_loan V (size_t m) (pt_pub t) = Inr (ok, p)" and t': "t' = ?w (t\<lparr>pt_pub := p\<rparr>) t0 t1"
      by (auto simp: pub_stream_def steady_now_def out_inv_def ProcessType_of_bool_def elim!: rbind_InrE)
    show ?thesis using assms(4-7) t' ex' ex True data.loan_per_cycle[OF p]
      by (simp add: ctl_inv_def out_inv_def pre_ok_def)
  next
    case False
    with assms(1,7) obtain u t0 t1 where u: "stream_entities V 0 t = Inr u" and t': "t' = ?w u t0 t1"
      by (auto simp: pub_stream_def steady_now_def out_inv_def ProcessType_of_bool_def elim!: rbind_InrE)
    have s: "sent (pt_pub u) = sent (pt_pub t) @ batch m" "pre_ok m u"
      "ip_messages_per_cycle V (pt_pub u) = m" "same_control t u"
      using stream_entities_sends[OF u, of m] assms(2,3,7) id0 by (simp_all add: out_inv_def batch_def)
    obtain p i l where u': "u = t\<lparr>pt_pub := p, pt_current_entity_id := i, pt_pre_allocated_entities := l\<rparr>"
      using s(4) unfolding same_control_def by blast
    show ?thesis using assms(4-7) t' ex' ex False nr s(1-3)
      by (simp add: u' ctl_inv_def out_inv_def pre_ok_def flip: replicate_append_same)
  qed
qed

lemma write_inv:
  assumes "pub_write V C clk (t, e) = Inr (t', e')" and "is_i32 m" "0 \<le> m" "is_i32 T"
    and "ctl_inv T 1 (t, e)" and "out_inv V sent commands m loan t"
  shows "ctl_inv T 0 (t', e') \<and> out_inv V sent commands m loan t'"
proof -
  let ?p = "ip_is_matched V (pt_pub t)" and ?c = "ic_is_matched C (pt_pub_control t)"
  let ?t1 = "t\<lparr>pt_pub := snd ?p\<rparr>"
  let ?t2 = "?t1\<lparr>pt_pub_control := snd ?c\<rparr>"
  have i1: "ctl_inv T 1 (?t1, e)" "out_inv V sent commands m loan ?t1"
    using matched_inv(1)[OF assms(5,6)] by simp_all
  have i2: "ctl_inv T 1 (?t2, e)" "out_inv V sent commands m loan ?t2"
    using matched_inv(2)[OF i1] by simp_all
  consider "\<not> pt_send t" | "pt_send t" "\<not> fst ?p" | "pt_send t" "fst ?p" "\<not> fst ?c"
    | "pt_send t" "fst ?p" "fst ?c" "pt_state t = Streaming"
    | "pt_send t" "fst ?p" "fst ?c" "pt_state t = Announce" "pt_current_cycle t < 50"
    | "pt_send t" "fst ?p" "fst ?c" "pt_state t = Announce" "\<not> pt_current_cycle t < 50"
    using assms(5) by (auto simp: ctl_inv_def)
  then show ?thesis
  proof cases
    case 1
    then have "t' = t" "e' = e" using assms(1) by (simp_all add: pub_write_def)
    then show ?thesis using ctl_inv_slack[OF assms(5)] assms(6) by simp
  next
    case 2
    then have "t' = ?t1" "e' = e" using assms(1) by (auto simp: pub_write_def split_beta)
    then show ?thesis using ctl_inv_slack[OF i1(1)] i1(2) by simp
  next
    case 3
    then have "t' = ?t2" "e' = e" using assms(1) by (auto simp: pub_write_def split_beta Let_def)
    then show ?thesis using ctl_inv_slack[OF i2(1)] i2(2) by simp
  next
    case 4
    then have "pub_stream V clk (?t2, e) = Inr (t', e')"
      using assms(1) by (simp add: pub_write_def split_beta Let_def)
    then show ?thesis using stream_inv[OF _ assms(2,3) _ _ i2] 4 by simp
  next
    case 5
    have off: "pt_offset_cycle_start t = 50" and cyc: "is_i32 (pt_current_cycle t)"
      using assms(5) by (simp_all add: ctl_inv_def)
    have t': "t' = ?t2\<lparr>pt_current_cycle := i32 (pt_current_cycle t + 1)\<rparr>" "e' = e"
      using assms(1) 5 off by (simp_all add: pub_write_def split_beta Let_def)
    have "i32 (pt_current_cycle t + 1) = pt_current_cycle t + 1"
      using 5 cyc by (intro i32_small) (simp_all add: is_i32_def)
    moreover have "is_i32 (i32 (pt_current_cycle t + 1))" by simp
    ultimately show ?thesis using i2 5 t' by (simp add: ctl_inv_def out_inv_def pre_ok_def)
  next
    case 6
    have off: "pt_offset_cycle_start t = 50" and ex: "in_execution e" and nr: "\<not> pt_reset t"
      using assms(5) 6 by (auto simp: ctl_inv_def)
    have k: "0 \<le> pb_current_test t" "pb_current_test t < T" using assms(5) ex by (simp_all add: ctl_inv_def)
    then have k1: "i32 (pb_current_test t + 1) = pb_current_test t + 1"
      using assms(4) by (intro i32_small) (simp_all add: is_i32_def)
    have l: "(pt_process_type t = Loan) = loan"
      using assms(6) by (simp add: out_inv_def ProcessType_of_bool_def)
    have m: "ip_messages_per_cycle V (snd ?p) = m" using i1(2) by (simp add: out_inv_def)
    obtain ok c where c: "ic_publish_start C (pb_current_test t + 1) m loan (snd ?c) = Inr (ok, c)"
      and t': "t' = ?t2\<lparr>pt_current_cycle := i32 (pt_current_cycle t + 1), pt_pub_control := c,
        pt_state := Streaming\<rparr>" "e' = e"
      using assms(1) 6 off k1 l m by (auto simp: pub_write_def split_beta Let_def elim!: rbind_InrE)
    have "commands c = commands (snd ?c) @ [start_msg (pb_current_test t + 1) m loan]"
      by (rule ctl.start_commands[OF c])
    then show ?thesis using i2 6 t' ex nr k by (simp add: ctl_inv_def out_inv_def pre_ok_def)
  qed
qed

lemma cycle_inv:
  assumes "pub_cycle V C clk (t, e) = Inr (t', e')" and "is_i32 m" "0 \<le> m" "is_i32 T"
    and "in_execution e" "ctl_inv T 0 (t, e)" and "out_inv V sent commands m loan t"
  shows "ctl_inv T 0 (t', e') \<and> out_inv V sent commands m loan t'"
proof -
  from assms(1) obtain u f where r: "pub_read C (t, e) = Inr (u, f)"
    and w: "pub_write V C clk (u, f) = Inr (t', e')"
    by (auto simp: pub_cycle_def pub_update_def elim!: rbind_InrE)
  from read_inv[OF r assms(4-7)] have "ctl_inv T 1 (u, f)" "out_inv V sent commands m loan u" by simp_all
  then show ?thesis by (rule write_inv[OF w assms(2-4)])
qed

lemma reach_inv:
  assumes "pub_reach V C clk F G s pc u"
    and "is_i32 m" "0 \<le> m" "is_i32 T"
    and "\<And>f p. f \<in> F \<Longrightarrow> sent (f p) = sent p \<and> ip_messages_per_cycle V (f p) = ip_messages_per_cycle V p"
    and "\<And>g c. g \<in> G \<Longrightarrow> commands (g c) = commands c"
    and "ctl_inv T 0 s" "out_inv V sent commands m loan (fst s)"
  shows "ctl_inv T (if pc = AtWrite then 1 else 0) u \<and> out_inv V sent commands m loan (fst u)"
  using assms(1)
proof (induction rule: pub_reach.induct)
  case reach_start
  then show ?case using assms(7,8) by simp
next
  case (reach_read t e u)
  then show ?case using read_inv[of t e "fst u" "snd u" T m loan] assms(4) by simp
next
  case (reach_write t e u)
  then show ?case using write_inv[of clk t e "fst u" "snd u" m T loan] assms(2-4) by simp
next
  case (reach_data pc t e f)
  then show ?case using assms(5)[OF reach_data(2)] by (simp add: ctl_inv_def out_inv_def pre_ok_def)
next
  case (reach_control pc t e g)
  then show ?case using assms(6)[OF reach_control(2)] by (simp add: ctl_inv_def out_inv_def pre_ok_def)
qed

text \<open>The constructor and \<open>init\<close> establish it, whatever \<open>reset\<close> starts with.\<close>

lemma init_inv:
  assumes i: "pub_test_init V C (pub_test_new V garbage config p c) = Inr t"
    and "sent p = []" "commands c = []" "1 \<le> tcf_test_count config" "is_i32 (tcf_message_count config)"
  shows "ctl_inv (tcf_test_count config) 0 (t, e) = in_execution e"
    and "out_inv V sent commands (tcf_message_count config) (tcf_loan_mode config) t"
    and "0 \<le> tcf_message_count config"
    and "pb_current_test t = 0 \<and> pt_state t = Announce \<and> pt_send t \<and> pt_current_cycle t = 0
      \<and> pt_current_cyles_reset t = 0"
proof -
  let ?p = "ip_set_expected_subs V (tcf_listener_number config)
      (ip_set_messages_per_cycle V (tcf_message_count config) p)"
  from i obtain a q b d where q: "ip_init V ?p = Inr (a, q)" and d: "ic_init C c = Inr (b, d)"
    and t: "(let t = (pub_test_new V garbage config p c)\<lparr>pt_pub := q, pt_pub_control := d\<rparr>
       in if pt_message_to_send t < 0 then Inl (LengthError (pt_message_to_send t))
          else Inr (start_send (t\<lparr>
            pt_pre_allocated_entities :=
              take (nat (pt_message_to_send t)) (pt_pre_allocated_entities t)
              @ replicate (nat (pt_message_to_send t) - length (pt_pre_allocated_entities t)) AirEntity_new,
            pb_current_test := 0,
            pt_cpu_times := set_distribution_name ''CPU TIME'' (pt_cpu_times t)\<rparr>))) = Inr t"
    unfolding pub_test_init_def
    by (auto simp: pub_test_new_def set_num_messages_def Let_def elim!: rbind_InrE)
  have pq: "sent q = []" "ip_messages_per_cycle V q = tcf_message_count config"
    using data.init_sent[OF q] data.init_per_cycle[OF q] assms(2)
    by (simp_all add: data.expected_sent data.per_cycle_sent data.expected_per_cycle data.per_cycle_set)
  have dc: "commands d = []" using ctl.ctl_init_commands[OF d] assms(3) by simp
  note defs = Let_def pub_test_new_def set_num_messages_def start_send_def
  show "0 \<le> tcf_message_count config" using t by (simp add: defs split: if_splits)
  show "ctl_inv (tcf_test_count config) 0 (t, e) = in_execution e"
    using t assms(4) by (auto simp: defs ctl_inv_def is_i32_def split: if_splits)
  show "out_inv V sent commands (tcf_message_count config) (tcf_loan_mode config) t"
    using t pq dc by (auto simp: defs out_inv_def pre_ok_def split: if_splits)
  show "pb_current_test t = 0 \<and> pt_state t = Announce \<and> pt_send t \<and> pt_current_cycle t = 0
      \<and> pt_current_cyles_reset t = 0"
    using t by (auto simp: defs split: if_splits)
qed

end

end
