(* ===== verification/PubLive.thy ===== *)
theory PubLive
  imports PubRun
begin

section \<open>The publishing test ends, and when\<close>

text \<open>
  With both topics matched and every call succeeding (locale \<open>pub_node_up\<close>), a cycle of
  \<open>pub_test_1_to_1\<close> refines one step of a small machine: \<open>Waiting\<close> for the first
  announcement, \<open>Ready\<close> to stream, \<open>Sent\<close> (waiting to stop) and \<open>Stopped\<close> (waiting to
  announce the next test), with the number of finished tests. The machine says how many
  cycles a run takes.
\<close>

datatype phase = Waiting nat | Ready | Sent nat | Stopped nat

fun next_phase :: "phase \<times> nat \<Rightarrow> phase \<times> nat" where
  "next_phase (Waiting c, k) = (if c < 50 then (Waiting (c + 1), k) else (Ready, k))"
| "next_phase (Ready, k) = (Sent 0, k)"
| "next_phase (Sent r, k) = (if r < 5 then (Sent (r + 1), k) else (Stopped 0, k + 1))"
| "next_phase (Stopped r, k) = (if r < 5 then (Stopped (r + 1), k) else (Ready, k))"

fun_cases next_phaseE: "next_phase s = (Ready, k)"

definition phase_after :: "nat \<Rightarrow> phase \<times> nat" where
  "phase_after n = (next_phase ^^ n) (Waiting 0, 0)"

lemma phase_after_Suc: "phase_after (Suc n) = next_phase (phase_after n)"
  by (simp add: phase_after_def)

lemma next_phase_mono: "snd s \<le> snd (next_phase s)"
  by (induction s rule: next_phase.induct) auto

lemma phase_after_mono: "i \<le> j \<Longrightarrow> snd (phase_after i) \<le> snd (phase_after j)"
  by (rule lift_Suc_mono_le[of "\<lambda>n. snd (phase_after n)"])
    (simp_all add: phase_after_Suc next_phase_mono)

lemma waiting_phases: "c \<le> 50 \<Longrightarrow> phase_after c = (Waiting c, 0)"
  by (induction c) (simp_all add: phase_after_Suc, simp add: phase_after_def)

lemma test_phases: "(next_phase ^^ 13) (Stopped 0, k) = (Stopped 0, k + 1)"
  by (simp add: eval_nat_numeral)

lemma phase_after_test: "phase_after (58 + 13 * j) = (Stopped 0, Suc j)"
proof (induction j)
  case 0
  have "phase_after (8 + 50) = (next_phase ^^ 8) (phase_after 50)"
    unfolding phase_after_def by (simp only: funpow_add o_apply)
  also have "\<dots> = (Stopped 0, Suc 0)" by (subst waiting_phases) (simp_all add: eval_nat_numeral)
  finally show ?case by simp
next
  case (Suc j)
  have "phase_after (13 + (58 + 13 * j)) = (next_phase ^^ 13) (phase_after (58 + 13 * j))"
    unfolding phase_after_def by (simp only: funpow_add o_apply)
  then show ?case using Suc.IH test_phases[of "Suc j"] by (simp add: add.commute)
qed

lemma phase_before_test: "snd (phase_after (57 + 13 * j)) = j"
proof (cases j)
  case 0
  have "phase_after (7 + 50) = (next_phase ^^ 7) (phase_after 50)"
    unfolding phase_after_def by (simp only: funpow_add o_apply)
  also have "\<dots> = (Sent 5, 0)" by (subst waiting_phases) (simp_all add: eval_nat_numeral)
  finally show ?thesis using 0 by simp
next
  case (Suc i)
  have "phase_after (12 + (58 + 13 * i)) = (next_phase ^^ 12) (phase_after (58 + 13 * i))"
    unfolding phase_after_def by (simp only: funpow_add o_apply)
  also have "\<dots> = (Sent 5, Suc i)" by (subst phase_after_test) (simp add: eval_nat_numeral)
  finally show ?thesis using Suc by (simp add: add.commute)
qed

subsection \<open>The program is in a phase\<close>

definition at_phase :: "phase \<Rightarrow> nat \<Rightarrow> ('p, 'c) pub_test \<Rightarrow> bool" where
  "at_phase ph k t \<longleftrightarrow> pb_current_test t = int k \<and>
     (case ph of
        Waiting c \<Rightarrow> pt_state t = Announce \<and> pt_send t \<and> pt_current_cycle t = int c \<and> c \<le> 50 \<and> k = 0
          \<and> pt_current_cyles_reset t = (if pt_reset t then int c else 0)
      | Ready \<Rightarrow> pt_state t = Streaming \<and> pt_send t \<and> \<not> pt_reset t \<and> pt_current_cyles_reset t = 0
          \<and> 50 \<le> pt_current_cycle t \<and> pt_current_cycle t \<le> 51 + int k
      | Sent r \<Rightarrow> pt_state t = Streaming \<and> \<not> pt_send t \<and> pt_reset t \<and> r \<le> 5
          \<and> pt_current_cyles_reset t = int r
          \<and> 50 \<le> pt_current_cycle t \<and> pt_current_cycle t \<le> 51 + int k
      | Stopped r \<Rightarrow> pt_state t = Announce \<and> \<not> pt_send t \<and> pt_reset t \<and> r \<le> 5
          \<and> pt_current_cyles_reset t = int r
          \<and> 50 \<le> pt_current_cycle t \<and> pt_current_cycle t \<le> 50 + int k)"

locale pub_node_up = pub_node +
  fixes up :: "'a \<Rightarrow> bool" and cup :: "'b \<Rightarrow> bool"
  assumes up_matched: "up p \<Longrightarrow> fst (ip_is_matched V p) \<and> up (snd (ip_is_matched V p))"
    and up_publish: "up p \<Longrightarrow> \<exists>q. ip_publish V x p = Inr (True, q) \<and> up q"
    and up_loan: "up p \<Longrightarrow> \<exists>b q. ip_publish_loan V n p = Inr (b, q) \<and> up q"
    and cup_matched: "cup c \<Longrightarrow> fst (ic_is_matched C c) \<and> cup (snd (ic_is_matched C c))"
    and cup_start: "cup c \<Longrightarrow> \<exists>b d. ic_publish_start C i m l c = Inr (b, d) \<and> cup d"
    and cup_stop: "cup c \<Longrightarrow> \<exists>b d. ic_publish_stop C i c = Inr (b, d) \<and> cup d"
begin

definition live_at :: "int \<Rightarrow> int \<Rightarrow> bool \<Rightarrow> phase \<times> nat \<Rightarrow> ('a, 'b) pub_test \<times> Executive \<Rightarrow> bool" where
  "live_at T m loan pk s \<longleftrightarrow> at_phase (fst pk) (snd pk) (fst s)
     \<and> ctl_inv T 0 s \<and> out_inv V sent commands m loan (fst s)
     \<and> up (pt_pub (fst s)) \<and> cup (pt_pub_control (fst s))"

lemma stream_entities_up:
  assumes "up (pt_pub t)" "ip_messages_per_cycle V (pt_pub t) = m" "is_i32 m" "0 \<le> m"
    and "length (pt_pre_allocated_entities t) = nat m" "i \<le> nat m"
  shows "\<exists>u. stream_entities V i t = Inr u \<and> up (pt_pub u) \<and> same_control t u"
  using assms(1,2,5,6)
proof (induction "nat m - i" arbitrary: i t)
  case 0
  have "size_t m = nat m" using assms(3,4) by (rule size_t_of_int)
  with 0 show ?case by (subst stream_entities.simps) (simp add: same_control_def)
next
  case (Suc n)
  let ?x = "(pt_pre_allocated_entities t ! i)\<lparr>ent_id := pt_current_entity_id t\<rparr>"
  let ?t = "t\<lparr>pt_pre_allocated_entities := (pt_pre_allocated_entities t)[i := ?x],
      pt_current_entity_id := i32 (pt_current_entity_id t + 1)\<rparr>"
  from up_publish[OF Suc.prems(1)] obtain q where q: "ip_publish V ?x (pt_pub t) = Inr (True, q)" "up q"
    by blast
  have i: "i < nat m" and s: "size_t m = nat m" using Suc(2) size_t_of_int[OF assms(3,4)] by simp_all
  then have "stream_entities V i t = stream_entities V (i + 1) (?t\<lparr>pt_pub := q\<rparr>)"
    using Suc.prems q(1) by (subst stream_entities.simps) (simp add: Let_def)
  moreover have "\<exists>u. stream_entities V (i + 1) (?t\<lparr>pt_pub := q\<rparr>) = Inr u \<and> up (pt_pub u)
      \<and> same_control (?t\<lparr>pt_pub := q\<rparr>) u"
    using Suc(1)[of "i + 1" "?t\<lparr>pt_pub := q\<rparr>"] Suc(2) Suc.prems i q(2) data.publish_per_cycle[OF q(1)]
    by simp
  moreover have "same_control t (?t\<lparr>pt_pub := q\<rparr>)" by (simp add: same_control_def)
  ultimately show ?case using same_control_trans by metis
qed

text \<open>The reads of the seven kinds of cycle.\<close>

lemma read_idle: "\<not> pt_reset t \<Longrightarrow> pub_read C (t, e) = Inr (t, e)"
  by (simp add: pub_read_def)

lemma read_count:
  assumes "ctl_inv T 0 (t, e)" "pt_reset t" "pt_current_cyles_reset t < 5"
  shows "pub_read C (t, e) = Inr (t\<lparr>pt_current_cyles_reset := pt_current_cyles_reset t + 1\<rparr>, e)"
  using assms by (simp add: pub_read_def ctl_inv_def i32_small Let_def)

lemma read_resume:
  assumes "ctl_inv T 0 (t, e)" "pt_reset t" "pt_current_cyles_reset t = 5" "pt_state t = Announce"
  shows "pub_read C (t, e) =
    Inr (t\<lparr>pt_current_cyles_reset := 0, pt_reset := False, pt_send := True\<rparr>, e)"
  using assms by (simp add: pub_read_def ctl_inv_def i32_small Let_def)

lemma read_stop:
  assumes "ctl_inv T 0 (t, e)" "pt_reset t" "pt_current_cyles_reset t = 5" "pt_state t = Streaming"
    and "cup (pt_pub_control t)"
  shows "\<exists>t' e'. pub_read C (t, e) = Inr (t', e') \<and> pt_pub t' = pt_pub t \<and> cup (pt_pub_control t')
    \<and> pb_current_test t' = i32 (pb_current_test t + 1) \<and> pt_state t' = Announce
    \<and> pt_send t' = pt_send t \<and> pt_reset t' \<and> pt_current_cyles_reset t' = 0
    \<and> pt_current_cycle t' = pt_current_cycle t"
proof -
  from cup_stop[OF assms(5)] obtain b d where
    "ic_publish_stop C (i32 (pb_current_test t + 1)) (pt_pub_control t) = Inr (b, d)" "cup d" by blast
  moreover have "pb_current_test t \<le> pb_max_test t" "pt_offset_cyles_reset t = 5"
    using assms(1) by (simp_all add: ctl_inv_def)
  ultimately show ?thesis using assms(2-4)
    by (simp add: pub_read_def pub_reset_test_def finish_test_def pub_on_test_finished_def
      pub_make_final_report_def default_on_end_test_def i32_small Let_def)
qed

text \<open>The writes.\<close>

lemma write_idle: "\<not> pt_send t \<Longrightarrow> pub_write V C clk (t, e) = Inr (t, e)"
  by (simp add: pub_write_def)

lemma write_up:
  assumes "pt_send t" "up (pt_pub t)" "cup (pt_pub_control t)"
  obtains p c where "up p" "cup c" "ip_messages_per_cycle V p = ip_messages_per_cycle V (pt_pub t)"
    and "pub_write V C clk (t, e) =
      (let t = t\<lparr>pt_pub := p, pt_pub_control := c\<rparr> in
       if pt_state t = Announce
       then let current = pt_current_cycle t; t = t\<lparr>pt_current_cycle := i32 (current + 1)\<rparr>
            in if current < pt_offset_cycle_start t then Inr (t, e)
               else rbind (ic_publish_start C (i32 (pb_current_test t + 1))
                             (ip_messages_per_cycle V (pt_pub t)) (pt_process_type t = Loan) c)
                      (\<lambda>(ok, c). Inr (t\<lparr>pt_pub_control := c, pt_state := Streaming\<rparr>, e))
       else if pt_state t = Streaming then pub_stream V clk (t, e) else Inr (t, e))"
  using that[of "snd (ip_is_matched V (pt_pub t))" "snd (ic_is_matched C (pt_pub_control t))"]
    up_matched[OF assms(2)] cup_matched[OF assms(3)] assms(1)
  by (simp add: pub_write_def split_beta Let_def data.matched_per_cycle)

lemma write_wait:
  assumes "pt_send t" "up (pt_pub t)" "cup (pt_pub_control t)" "pt_state t = Announce"
    and "pt_current_cycle t < pt_offset_cycle_start t"
  shows "\<exists>p c. up p \<and> cup c \<and> pub_write V C clk (t, e) =
      Inr (t\<lparr>pt_pub := p, pt_pub_control := c, pt_current_cycle := i32 (pt_current_cycle t + 1)\<rparr>, e)"
  using assms(4,5) by (rule_tac write_up[OF assms(1-3), of clk e]) (auto simp: Let_def)

lemma write_start:
  assumes "pt_send t" "up (pt_pub t)" "cup (pt_pub_control t)" "pt_state t = Announce"
    and "\<not> pt_current_cycle t < pt_offset_cycle_start t"
  shows "\<exists>p c. up p \<and> cup c \<and> pub_write V C clk (t, e) =
      Inr (t\<lparr>pt_pub := p, pt_current_cycle := i32 (pt_current_cycle t + 1), pt_pub_control := c,
             pt_state := Streaming\<rparr>, e)"
proof -
  let ?start = "\<lambda>c. ic_publish_start C (i32 (pb_current_test t + 1))
      (ip_messages_per_cycle V (pt_pub t)) (pt_process_type t = Loan) c"
  obtain p c where pc: "up p" "cup c" and w: "pub_write V C clk (t, e) =
      rbind (?start c)
        (\<lambda>(ok, c). Inr (t\<lparr>pt_pub := p, pt_current_cycle := i32 (pt_current_cycle t + 1),
           pt_pub_control := c, pt_state := Streaming\<rparr>, e))"
    by (rule write_up[OF assms(1-3), of clk e]) (use assms(4,5) in \<open>simp add: Let_def\<close>)
  from cup_start[OF pc(2)] obtain b d where "?start c = Inr (b, d)" "cup d" by blast
  with pc(1) w show ?thesis by auto
qed

lemma write_stream:
  assumes "pt_send t" "up (pt_pub t)" "cup (pt_pub_control t)" "pt_state t = Streaming"
    and "out_inv V sent commands m loan t" "is_i32 m" "0 \<le> m"
  shows "\<exists>u e'. pub_write V C clk (t, e) = Inr (u, e') \<and> up (pt_pub u) \<and> cup (pt_pub_control u)
     \<and> pb_current_test u = pb_current_test t \<and> pt_state u = Streaming \<and> \<not> pt_send u \<and> pt_reset u
     \<and> pt_current_cyles_reset u = pt_current_cyles_reset t \<and> pt_current_cycle u = pt_current_cycle t"
proof -
  obtain p c where pc: "up p" "cup c" "ip_messages_per_cycle V p = m"
    and w: "pub_write V C clk (t, e) = pub_stream V clk (t\<lparr>pt_pub := p, pt_pub_control := c\<rparr>, e)"
    by (rule write_up[OF assms(1-3), of clk e]) (use assms(4,5) in \<open>simp add: Let_def out_inv_def\<close>)
  let ?t = "t\<lparr>pt_pub := p, pt_pub_control := c\<rparr>"
  show ?thesis
  proof (cases "pt_process_type t")
    case Loan
    from up_loan[OF pc(1)] obtain b q where "ip_publish_loan V (size_t m) p = Inr (b, q)" "up q" by blast
    with Loan pc w assms(4) show ?thesis by (simp add: pub_stream_def steady_now_def)
  next
    case Normal
    have "length (pt_pre_allocated_entities t) = nat m" using assms(5) by (simp add: out_inv_def pre_ok_def)
    with pc(1,3) assms(6,7) obtain u where u: "stream_entities V 0 ?t = Inr u" "up (pt_pub u)"
      "same_control ?t u" using stream_entities_up[of ?t m 0] by auto
    obtain q i l where u': "u = ?t\<lparr>pt_pub := q, pt_current_entity_id := i, pt_pre_allocated_entities := l\<rparr>"
      using u(3) unfolding same_control_def by blast
    show ?thesis using Normal u(1,2) u' w assms(4) pc(2) by (simp add: pub_stream_def steady_now_def)
  qed
qed

lemma cycle_phase:
  assumes l: "live_at T m loan (ph, k) (t, e)" and "in_execution e"
    and T: "T \<le> 2147483596" and m: "is_i32 m" "0 \<le> m"
  shows "\<exists>t' e'. pub_cycle V C clk (t, e) = Inr (t', e')
    \<and> at_phase (fst (next_phase (ph, k))) (snd (next_phase (ph, k))) t'
    \<and> up (pt_pub t') \<and> cup (pt_pub_control t')"
proof -
  have ci: "ctl_inv T 0 (t, e)" and oi: "out_inv V sent commands m loan t"
    and up: "up (pt_pub t)" and cup: "cup (pt_pub_control t)" and ap: "at_phase ph k t"
    using l by (simp_all add: live_at_def)
  have off: "pt_offset_cycle_start t = 50" and k: "pb_current_test t = int k" "int k < T"
    using ci ap assms(2) by (auto simp: ctl_inv_def at_phase_def)
  have inc: "i32 (x + 1) = x + 1" if "0 \<le> x" "x \<le> 51 + int k" for x
    using that k(2) T by (intro i32_small) simp_all
  show ?thesis
  proof (cases ph)
    case (Waiting c)
    then have st: "pt_state t = Announce" "pt_send t" "pt_current_cycle t = int c" "c \<le> 50" "k = 0"
      and rc: "pt_current_cyles_reset t = (if pt_reset t then int c else 0)"
      using ap by (simp_all add: at_phase_def)
    have "pt_current_cyles_reset t \<le> 5" using ci by (simp add: ctl_inv_def)
    then consider "\<not> pt_reset t" | "pt_reset t" "c < 5" | "pt_reset t" "c = 5"
      using rc by (cases "pt_reset t") force+
    then obtain t1 where r: "pub_read C (t, e) = Inr (t1, e)" and st1: "pt_state t1 = Announce" "pt_send t1"
      "pt_current_cycle t1 = int c" "pt_offset_cycle_start t1 = 50" "pb_current_test t1 = int k"
      "up (pt_pub t1)" "cup (pt_pub_control t1)"
      and rc1: "pt_current_cyles_reset t1 = (if pt_reset t1 then int (c + 1) else 0)" "pt_reset t1 \<Longrightarrow> c < 5"
    proof cases
      case 1 show thesis by (rule that[OF read_idle]) (use 1 st rc up cup off k in simp_all)
    next
      case 2 show thesis by (rule that[OF read_count[OF ci]]) (use 2 st rc up cup off k in simp_all)
    next
      case 3 show thesis by (rule that[OF read_resume[OF ci]]) (use 3 st rc up cup off k in simp_all)
    qed
    show ?thesis
    proof (cases "c < 50")
      case True
      from write_wait[OF st1(2,6,7,1), of clk e] True st1 obtain p d where "up p" "cup d"
        "pub_write V C clk (t1, e) =
          Inr (t1\<lparr>pt_pub := p, pt_pub_control := d, pt_current_cycle := int c + 1\<rparr>, e)"
        using inc[of "int c"] by auto
      then show ?thesis using r st1 rc1 True Waiting st(5)
        by (simp add: pub_cycle_def pub_update_def at_phase_def)
    next
      case False
      then have c: "c = 50" using st(4) by simp
      from write_start[OF st1(2,6,7,1), of clk e] False st1 obtain p d where "up p" "cup d"
        "pub_write V C clk (t1, e) =
          Inr (t1\<lparr>pt_pub := p, pt_current_cycle := 51, pt_pub_control := d, pt_state := Streaming\<rparr>, e)"
        using inc[of 50] c by auto
      then show ?thesis using r st1 rc1 c Waiting
        by (auto simp: pub_cycle_def pub_update_def at_phase_def)
    qed
  next
    case Ready
    then have st: "pt_state t = Streaming" "pt_send t" "\<not> pt_reset t" using ap by (simp_all add: at_phase_def)
    from write_stream[OF st(2) up cup st(1) oi m, of clk e] show ?thesis
      using st Ready ap by (auto simp: pub_cycle_def pub_update_def read_idle at_phase_def)
  next
    case (Sent r)
    then have st: "pt_state t = Streaming" "\<not> pt_send t" "pt_reset t" "pt_current_cyles_reset t = int r" "r \<le> 5"
      using ap by (simp_all add: at_phase_def)
    show ?thesis
    proof (cases "r < 5")
      case True
      then show ?thesis using read_count[OF ci st(3)] st up cup ap Sent
        by (simp add: pub_cycle_def pub_update_def write_idle at_phase_def)
    next
      case False
      then show ?thesis using read_stop[OF ci st(3) _ st(1) cup] st up ap Sent inc[of "int k"] k(1)
        by (auto simp: pub_cycle_def pub_update_def write_idle at_phase_def)
    qed
  next
    case (Stopped r)
    then have st: "pt_state t = Announce" "\<not> pt_send t" "pt_reset t" "pt_current_cyles_reset t = int r" "r \<le> 5"
      and cyc: "50 \<le> pt_current_cycle t" "pt_current_cycle t \<le> 50 + int k"
      using ap by (simp_all add: at_phase_def)
    show ?thesis
    proof (cases "r < 5")
      case True
      then show ?thesis using read_count[OF ci st(3)] st up cup ap Stopped
        by (simp add: pub_cycle_def pub_update_def write_idle at_phase_def)
    next
      case False
      let ?t = "t\<lparr>pt_current_cyles_reset := 0, pt_reset := False, pt_send := True\<rparr>"
      have r: "pub_read C (t, e) = Inr (?t, e)" using read_resume[OF ci st(3) _ st(1)] st False by simp
      from write_start[of ?t clk e] st up cup cyc off obtain p d where "up p" "cup d"
        "pub_write V C clk (?t, e) = Inr (?t\<lparr>pt_pub := p, pt_current_cycle := pt_current_cycle t + 1,
             pt_pub_control := d, pt_state := Streaming\<rparr>, e)"
        using inc[of "pt_current_cycle t"] by auto
      then show ?thesis using r st cyc k False Stopped
        by (simp add: pub_cycle_def pub_update_def at_phase_def)
    qed
  qed
qed

lemma cycle_live:
  assumes l: "live_at T m loan pk (t, e)" and "in_execution e"
    and T: "T \<le> 2147483596" "is_i32 T" and m: "is_i32 m" "0 \<le> m"
  shows "\<exists>s'. pub_cycle V C clk (t, e) = Inr s' \<and> live_at T m loan (next_phase pk) s'"
proof -
  obtain ph k where pk: "pk = (ph, k)" by (cases pk)
  from cycle_phase[OF l[unfolded pk] assms(2) T(1) m] obtain t' e' where
    c: "pub_cycle V C clk (t, e) = Inr (t', e')"
    and a: "at_phase (fst (next_phase pk)) (snd (next_phase pk)) t'" "up (pt_pub t')" "cup (pt_pub_control t')"
    unfolding pk by blast
  have "ctl_inv T 0 (t', e') \<and> out_inv V sent commands m loan t'"
    by (rule cycle_inv[OF c m T(2) assms(2)]) (use l in \<open>simp_all add: live_at_def\<close>)
  with a c show ?thesis by (auto simp: live_at_def)
qed

end

end
