(* ===== verification/MainApp.thy ===== *)
theory MainApp
  imports DdsModule PubLive
begin

section \<open>main: arguments, configuration and the run\<close>

text \<open>
  \<open>src/stress_test/main.cpp\<close>. The JSON library is a parameter: \<open>json_api\<close> is an object as
  \<open>config.value(key, default)\<close> shows it (a value of the wrong type throws), \<open>parse_json\<close>
  the parser and \<open>read_file\<close> the file system. \<open>argv\<close> is without the program name.
\<close>

subsection \<open>Command line\<close>

definition is_flag :: "string \<Rightarrow> bool" where
  "is_flag key = (take 2 key = ''--'')"

fun parse_args_loop :: "string list \<Rightarrow> (string \<rightharpoonup> string) \<Rightarrow> (string \<rightharpoonup> string)" where
  "parse_args_loop (key # v # rest) args =
     (if is_flag key then parse_args_loop rest (args(drop 2 key \<mapsto> v))
      else parse_args_loop (v # rest) args)"
| "parse_args_loop _ args = args"

definition parse_args :: "string list \<Rightarrow> (string \<rightharpoonup> string)" where
  "parse_args argv = parse_args_loop argv Map.empty"

definition stringToBool :: "string \<Rightarrow> bool" where
  "stringToBool str = (str = ''true'' \<or> str = ''1'')"

lemma parse_args_loop_pairs:
  "parse_args_loop (concat (map (\<lambda>(k, v). [''--'' @ k, v]) ps)) args = args ++ map_of (rev ps)"
proof (induction ps arbitrary: args)
  case Nil
  then show ?case by simp
next
  case (Cons x xs)
  obtain k v where x: "x = (k, v)" by (cases x)
  have step: "parse_args_loop ((''--'' @ k) # v # rest) args = parse_args_loop rest (args(k \<mapsto> v))" for rest
    by (simp add: is_flag_def)
  have "parse_args_loop (concat (map (\<lambda>(k, v). [''--'' @ k, v]) (x # xs))) args
      = parse_args_loop (concat (map (\<lambda>(k, v). [''--'' @ k, v]) xs)) (args(k \<mapsto> v))"
    by (simp only: x list.map concat.simps prod.case append_Cons[of _ "[v]"] append_Cons[of v] append_Nil[of "concat _"] step)
  also have "\<dots> = args(k \<mapsto> v) ++ map_of (rev xs)" by (rule Cons.IH)
  also have "\<dots> = args ++ map_of (rev (x # xs))" by (simp add: x map_add_assoc)
  finally show ?case .
qed

subsection \<open>Configuration\<close>

record json_api =
  j_string :: "string \<Rightarrow> string \<Rightarrow> string res"
  j_int :: "string \<Rightarrow> int \<Rightarrow> int res"
  j_bool :: "string \<Rightarrow> bool \<Rightarrow> bool res"

definition json_object :: json_api where
  "json_object = \<lparr>j_string = (\<lambda>key dflt. Inr dflt), j_int = (\<lambda>key dflt. Inr dflt),
     j_bool = (\<lambda>key dflt. Inr dflt)\<rparr>"

definition load_config :: "(string \<Rightarrow> string option) \<Rightarrow> (string \<Rightarrow> json_api option) \<Rightarrow> string \<Rightarrow> json_api" where
  "load_config read_file parse_json config_path =
     (case read_file config_path of None \<Rightarrow> json_object
      | Some text \<Rightarrow> (case parse_json text of None \<Rightarrow> json_object | Some j \<Rightarrow> j))"

definition config_path_of :: "(string \<rightharpoonup> string) \<Rightarrow> string" where
  "config_path_of args = (case args ''config'' of Some p \<Rightarrow> p
     | None \<Rightarrow> ''/workspaces/testdds/config/default.json'')"

definition logFile_path_of :: "(string \<rightharpoonup> string) \<Rightarrow> string \<times> string list" where
  "logFile_path_of args = (case args ''logFile'' of Some p \<Rightarrow> (p, [p])
     | None \<Rightarrow> (''/workspaces/testdds/logs/default.log'', []))"

text \<open>The fields of the configuration, read in this order, and the \<open>test_config\<close>.\<close>

definition read_test_config :: "json_api \<Rightarrow> string \<Rightarrow> test_config res" where
  "read_test_config j logFile_path =
     rbind (j_string j ''name'' ''Default test'') (\<lambda>name.
     rbind (j_int j ''mode'' 0) (\<lambda>mode.
     rbind (j_int j ''messageCount'' 100) (\<lambda>messageCount.
     rbind (j_int j ''test'' 25) (\<lambda>test.
     rbind (j_bool j ''manual_process'' True) (\<lambda>manual_process.
     rbind (j_bool j ''loan'' False) (\<lambda>loan.
     rbind (j_int j ''listeners'' 0) (\<lambda>num_listeners.
       Inr (test_config_new\<lparr>tcf_name := name, tcf_test_mode := mode, tcf_message_count := messageCount,
         tcf_test_count := test, tcf_logFile := logFile_path, tcf_manual_mode := manual_process,
         tcf_loan_mode := loan, tcf_listener_number := num_listeners\<rparr>))))))))"

subsection \<open>The run\<close>

definition run_simulation :: "('p, 'c, 's, 'd) vendor \<Rightarrow> bool \<Rightarrow> char \<Rightarrow> (string \<Rightarrow> bool) \<Rightarrow> (nat \<Rightarrow> int)
    \<Rightarrow> test_config \<Rightarrow> string \<Rightarrow> (('p, 'c, 's, 'd) cl_dds \<times> Executive) comp" where
  "run_simulation V garbage rubbish opens clk config stdin =
     (let submodules = add_module (cl_dds_module V garbage rubbish opens clk) []
      in cbind (Executive_init submodules (cl_dds_of_config config stdin, Executive_new)) (\<lambda>s.
         cbind (main_loop clk submodules s) (\<lambda>(m, e). Some (Inr (m, end_simulation e)))))"

text \<open>\<open>main\<close> with the files it removed first.\<close>

definition main_app :: "('p, 'c, 's, 'd) vendor \<Rightarrow> bool \<Rightarrow> char \<Rightarrow> (string \<Rightarrow> bool) \<Rightarrow> (nat \<Rightarrow> int)
    \<Rightarrow> (string \<Rightarrow> string option) \<Rightarrow> (string \<Rightarrow> json_api option) \<Rightarrow> string list \<Rightarrow> string
    \<Rightarrow> (string list \<times> ('p, 'c, 's, 'd) cl_dds \<times> Executive) comp" where
  "main_app V garbage rubbish opens clk read_file parse_json argv stdin =
     (let args = parse_args argv;
          (logFile_path, removed) = logFile_path_of args
      in cbind (Some (read_test_config (load_config read_file parse_json (config_path_of args)) logFile_path))
           (\<lambda>config. cbind (run_simulation V garbage rubbish opens clk config stdin)
              (\<lambda>(m, e). Some (Inr (removed, m, e)))))"

lemma add_first_module: "add_module M [] = [M]"
  by (simp add: add_module_def)

lemma cl_dds_of_config_mode [simp]:
  "tcf_test_mode (dd_config (cl_dds_of_config config stdin)) = tcf_test_mode config"
  by (simp add: cl_dds_of_config_def)

text \<open>A simulation whose test number is not 1 or 2 never gets past \<open>init\<close>.\<close>

text \<open>
  No case handles the modes above 2, from the configuration or from the menu (a character of
  \<open>'3'\<close> or above): \<open>test_patterns\<close> calls itself with the same mode for ever.
\<close>

lemma run_simulation_unknown_mode:
  assumes "v_create_participant V = Inr part"
    and "2 < tcf_test_mode config \<or> (tcf_test_mode config \<le> 0 \<and> read_char rubbish stdin = (ch, rest)
      \<and> is_digit ch \<and> 50 < int (of_char ch))"
  shows "run_simulation V garbage rubbish opens clk config stdin = None"
proof -
  let ?m = "(cl_dds_of_config config stdin)\<lparr>dd_participant_factory := True, dd_current_library := v_library V\<rparr>"
  have i: "dd_stdin ?m = stdin" by (simp add: cl_dds_of_config_def cl_dds_new_def)
  have "test_patterns V garbage rubbish (tcf_test_mode config) ?m = None"
  proof (rule ccontr)
    assume "test_patterns V garbage rubbish (tcf_test_mode config) ?m \<noteq> None"
    then obtain r where "test_patterns V garbage rubbish (tcf_test_mode config) ?m = Some r" by blast
    from test_patterns_returns[OF this assms(1)] assms(2) show False by (auto simp: i)
  qed
  then have "cl_dds_init V garbage rubbish (cl_dds_of_config config stdin, Executive_new) = None"
    by (simp add: cl_dds_init_def)
  then show ?thesis
    by (simp add: run_simulation_def add_first_module Executive_init_def cl_dds_module_def)
qed

subsection \<open>A publishing run, from a matched start to the end\<close>

context pub_node_up
begin

lemma live_at_exec: "in_execution e = in_execution f \<Longrightarrow> live_at T m loan pk (t, e) = live_at T m loan pk (t, f)"
  by (simp add: live_at_def ctl_inv_def)

lemma live_cycle:
  assumes "live_at T m loan pk (t, e)" "in_execution e"
    and T: "T \<le> 2147483596" "is_i32 T" and m: "is_i32 m" "0 \<le> m"
    and V: "v_IPub N = V" "v_IPubControl N = C" and d: "dd_p_pattern d = Some (PubPattern t)"
  shows "\<exists>t' e'. execute_cycle clk [cl_dds_module N garbage rubbish opens clk] (d, e) =
      Some (Inr (d\<lparr>dd_p_pattern := Some (PubPattern t')\<rparr>, e')) \<and> live_at T m loan (next_phase pk) (t', e')"
proof -
  let ?e = "snd (steady_now clk e)"
  have ex: "in_execution ?e" using assms(2) by (simp add: steady_now_def in_execution_def)
  then have "live_at T m loan pk (t, ?e)" using assms(1,2) live_at_exec by blast
  from cycle_live[OF this ex T m] obtain s' where
    s': "pub_cycle V C clk (t, ?e) = Inr s'" "live_at T m loan (next_phase pk) s'" by blast
  obtain t' e' where e': "s' = (t', e')" by (cases s')
  have "in_execution (finish_cycle clk (fst (steady_now clk e)) e') = in_execution e'"
    by (simp add: in_execution_def finish_cycle_facts)
  then have "live_at T m loan (next_phase pk) (t', finish_cycle clk (fst (steady_now clk e)) e')"
    using s'(2) live_at_exec unfolding e' by blast
  moreover have "execute_cycle clk [cl_dds_module N garbage rubbish opens clk] (d, e) =
      Some (Inr (d\<lparr>dd_p_pattern := Some (PubPattern t')\<rparr>, finish_cycle clk (fst (steady_now clk e)) e'))"
    using s'(1) by (simp add: execute_cycle_pub[OF d] V e')
  ultimately show ?thesis by blast
qed

lemma live_running:
  assumes "live_at T m loan (phase_after n) (t, e)" "0 \<le> T"
  shows "in_execution e \<longleftrightarrow> snd (phase_after n) < nat T"
  using assms by (auto simp: live_at_def at_phase_def ctl_inv_def)

lemma live_cycles:
  assumes "live_at T m loan (phase_after 0) (t, e)" "in_execution e"
    and T: "T \<le> 2147483596" "1 \<le> T" and m: "is_i32 m" "0 \<le> m"
    and V: "v_IPub N = V" "v_IPubControl N = C" and d: "dd_p_pattern d = Some (PubPattern t)"
    and n: "n \<le> 45 + 13 * nat T"
  shows "\<exists>t' e'. run_cycles clk [cl_dds_module N garbage rubbish opens clk] n (d, e) =
      Some (Inr (d\<lparr>dd_p_pattern := Some (PubPattern t')\<rparr>, e')) \<and> live_at T m loan (phase_after n) (t', e')"
  using n
proof (induction n)
  case 0
  have "d\<lparr>dd_p_pattern := Some (PubPattern t)\<rparr> = d" using d by simp
  with assms(1) show ?case by (metis run_cycles.simps(1))
next
  case (Suc n)
  let ?M = "[cl_dds_module N garbage rubbish opens clk]"
  from Suc.IH Suc.prems obtain t' e' where
    r: "run_cycles clk ?M n (d, e) = Some (Inr (d\<lparr>dd_p_pattern := Some (PubPattern t')\<rparr>, e'))"
    and l: "live_at T m loan (phase_after n) (t', e')" by auto
  have "snd (phase_after n) \<le> snd (phase_after (57 + 13 * (nat T - 1)))"
    using Suc.prems T(2) by (intro phase_after_mono) (simp add: diff_mult_distrib2)
  then have "in_execution e'" using live_running[OF l] T(2) phase_before_test[of "nat T - 1"] by simp
  moreover have "is_i32 T" using T by (simp add: is_i32_def)
  ultimately obtain u f where
    "execute_cycle clk ?M (d\<lparr>dd_p_pattern := Some (PubPattern t')\<rparr>, e') =
      Some (Inr (d\<lparr>dd_p_pattern := Some (PubPattern u)\<rparr>, f))" "live_at T m loan (phase_after (Suc n)) (u, f)"
    using live_cycle[OF l _ T(1) _ m V, where d = "d\<lparr>dd_p_pattern := Some (PubPattern t')\<rparr>"
      and clk = clk and garbage = garbage and rubbish = rubbish and opens = opens]
    by (auto simp: phase_after_Suc)
  moreover have "run_cycles clk ?M (n + 1) (d, e) = cbind (run_cycles clk ?M n (d, e)) (run_cycles clk ?M 1)"
    by (rule run_cycles_add)
  ultimately show ?case using r by auto
qed

lemma live_run:
  assumes "live_at T m loan (phase_after 0) (t, e)" "in_execution e"
    and T: "T \<le> 2147483596" "1 \<le> T" and m: "is_i32 m" "0 \<le> m"
    and V: "v_IPub N = V" "v_IPubControl N = C" and d: "dd_p_pattern d = Some (PubPattern t)"
  shows "\<exists>t' e'. main_loop clk [cl_dds_module N garbage rubbish opens clk] (d, e) =
        Some (Inr (d\<lparr>dd_p_pattern := Some (PubPattern t')\<rparr>, e'))
    \<and> ex_current_cycle e' = ex_current_cycle e + of_nat (45 + 13 * nat T)
    \<and> ex_total_time e + (45 + 13 * T) * cycle_min_duration \<le> ex_total_time e'
    \<and> commands (pt_pub_control t') = test_commands m loan (nat T)
    \<and> (loan \<or> sent (pt_pub t') = concat (replicate (nat T) (batch m)))"
proof -
  let ?M = "[cl_dds_module N garbage rubbish opens clk]" and ?n = "45 + 13 * nat T"
  have n: "?n = 58 + 13 * (nat T - 1)" using T(2) by (simp add: diff_mult_distrib2)
  from live_cycles[OF assms order_refl, of clk garbage rubbish opens] obtain t' e' where
    r: "run_cycles clk ?M ?n (d, e) = Some (Inr (d\<lparr>dd_p_pattern := Some (PubPattern t')\<rparr>, e'))"
    and l: "live_at T m loan (phase_after ?n) (t', e')" by blast
  have p: "phase_after ?n = (Stopped 0, nat T)" unfolding n using T(2) by (simp add: phase_after_test)
  have stop: "\<not> in_execution e'" using live_running[OF l] T(2) p by simp
  have "main_loop clk ?M (d, e) = main_loop clk ?M (d\<lparr>dd_p_pattern := Some (PubPattern t')\<rparr>, e')"
  proof (rule main_loop_cycles[OF r])
    fix k u assume k: "k < ?n" "run_cycles clk ?M k (d, e) = Some (Inr u)"
    from live_cycles[OF assms, where n = k and clk = clk and garbage = garbage
        and rubbish = rubbish and opens = opens] k obtain v f where "u = (d\<lparr>dd_p_pattern := Some (PubPattern v)\<rparr>, f)"
      "live_at T m loan (phase_after k) (v, f)" by auto
    moreover have "snd (phase_after k) \<le> snd (phase_after (57 + 13 * (nat T - 1)))"
      using k(1) n by (intro phase_after_mono) simp
    ultimately show "in_execution (snd u)" using live_running[of T m loan k v f] T(2)
      phase_before_test[of "nat T - 1"] by simp
  qed
  then have "main_loop clk ?M (d, e) = Some (Inr (d\<lparr>dd_p_pattern := Some (PubPattern t')\<rparr>, e'))"
    using stop by (simp add: main_loop_stopped)
  moreover have "out_inv V sent commands m loan t'" "at_phase (Stopped 0) (nat T) t'"
    using l p by (simp_all add: live_at_def)
  moreover note dds_client.run_accounting[OF r]
  ultimately show ?thesis using T(2)
    by (auto simp: out_inv_def at_phase_def)
qed

text \<open>The same from a new test pattern whose two topics have matched.\<close>

lemma new_run:
  assumes i: "pub_test_init V C (pub_test_new V garbage config p0 c0) = Inr t"
    and new: "sent p0 = []" "commands c0 = []"
    and T: "tcf_test_count config \<le> 2147483596" "1 \<le> tcf_test_count config"
    and m: "is_i32 (tcf_message_count config)" and e: "in_execution e"
    and p: "sent p = sent (pt_pub t)" "ip_messages_per_cycle V p = ip_messages_per_cycle V (pt_pub t)"
    and c: "commands c = commands (pt_pub_control t)" and up: "up p" "cup c"
    and V: "v_IPub N = V" "v_IPubControl N = C"
    and d: "dd_p_pattern d = Some (PubPattern (t\<lparr>pt_pub := p, pt_pub_control := c\<rparr>))"
  shows "\<exists>t' e'. main_loop clk [cl_dds_module N g rubbish opens clk] (d, e) =
        Some (Inr (d\<lparr>dd_p_pattern := Some (PubPattern t')\<rparr>, e'))
    \<and> ex_current_cycle e' = ex_current_cycle e + of_nat (45 + 13 * nat (tcf_test_count config))
    \<and> ex_total_time e + (45 + 13 * tcf_test_count config) * cycle_min_duration \<le> ex_total_time e'
    \<and> commands (pt_pub_control t') = test_commands (tcf_message_count config) (tcf_loan_mode config) (nat (tcf_test_count config))
    \<and> (tcf_loan_mode config \<or> sent (pt_pub t') =
        concat (replicate (nat (tcf_test_count config)) (batch (tcf_message_count config))))"
proof -
  note j = init_inv[OF i new T(2) m]
  let ?t = "t\<lparr>pt_pub := p, pt_pub_control := c\<rparr>"
  have "ctl_inv (tcf_test_count config) 0 (?t, e)" using j(1)[of e] e by (simp add: ctl_inv_def)
  moreover have "out_inv V sent commands (tcf_message_count config) (tcf_loan_mode config) ?t"
    using j(2) p c by (simp add: out_inv_def pre_ok_def)
  moreover have "at_phase (Waiting 0) 0 ?t" using j(4) by (simp add: at_phase_def)
  ultimately have "live_at (tcf_test_count config) (tcf_message_count config) (tcf_loan_mode config)
      (phase_after 0) (?t, e)"
    using up by (simp add: live_at_def phase_after_def)
  from live_run[OF this e T m j(3) V d] show ?thesis .
qed

end

end
