(* ===== verification/Vendors.thy ===== *)
theory Vendors
  imports FastPub FastSub FastControl OpenRuntime Cyclone MainApp
begin

section \<open>Participant managers and vendors\<close>

text \<open>
  \<open>src/stress_test/DDSParticipantManager.h\<close>: the managers of the three vendors and the
  factory; \<open>src/stress_test/DDSFactory.h\<close>: which classes a build uses. The Cyclone and Fast
  managers are created empty, and no code calls their \<open>Init\<close>; the OpenDDS one creates the
  participant in its constructor. At the end the nodes: a Fast DDS pair of publishers and
  an OpenDDS pair run the publishing test through the interfaces of \<open>Interfaces\<close>.
\<close>

subsection \<open>FastDDSParticipantManager\<close>

record 'w participant_manager =
  pm_participant :: "nat option"
  pm_debug :: bool
  pm_dds :: "'w dds"

definition participant_manager_new :: "'w \<Rightarrow> 'w participant_manager" where
  "participant_manager_new w =
     \<lparr>pm_participant = None, pm_debug = False, pm_dds = \<lparr>dds_world = w, dds_trace = []\<rparr>\<rparr>"

definition pm_SetDebugMode :: "bool \<Rightarrow> 'w participant_manager \<Rightarrow> 'w participant_manager" where
  "pm_SetDebugMode value m = m\<lparr>pm_debug := value\<rparr>"

definition FastManager_qos :: "'w dds_api \<Rightarrow> participant_qos" where
  "FastManager_qos api = (let q = api_participant_qos api in
     q\<lparr>pq_name := ''Participant_FastDDS'', pq_lease_infinite := True, pq_use_builtin_transports := False,
       pq_user_transports := pq_user_transports q @ [(udp_65500 api)\<lparr>udp_non_blocking_send := True\<rparr>]\<rparr>)"

definition FastManager_Init :: "'w dds_api \<Rightarrow> 'w participant_manager \<Rightarrow> bool \<times> 'w participant_manager" where
  "FastManager_Init api m =
     (let (p, s) = dds_create api (CreateParticipant 0 (FastManager_qos api)) (pm_dds m);
          m = m\<lparr>pm_participant := p, pm_dds := s\<rparr>
      in (p \<noteq> None, m))"

definition FastManager_getParticipant :: "'w participant_manager \<Rightarrow> nat option" where
  "FastManager_getParticipant m = pm_participant m"

definition FastManager_shutdown :: "'w dds_api \<Rightarrow> 'w participant_manager \<Rightarrow> 'w participant_manager" where
  "FastManager_shutdown api m =
     (if pm_participant m \<noteq> None
      then m\<lparr>pm_dds := snd (dds_call api (DeleteParticipant (pm_participant m)) (pm_dds m)),
             pm_participant := None\<rparr>
      else m)"

subsection \<open>CycloneDDSParticipantManager and OpenDDSParticipantManager\<close>

record 'w cyclone_manager =
  cm_participant :: "nat option"
  cm_world :: 'w

definition CycloneManager_Init :: "'w cyclone_api \<Rightarrow> 'w cyclone_manager \<Rightarrow> bool \<times> 'w cyclone_manager" where
  "CycloneManager_Init api m =
     (let (p, w) = cy_make api (CyParticipant 0) (cm_world m); m = m\<lparr>cm_world := w\<rparr>
      in case p of None \<Rightarrow> (False, m) | Some h \<Rightarrow> (True, m\<lparr>cm_participant := Some h\<rparr>))"

text \<open>When \<open>close\<close> throws, the handle stays.\<close>

definition CycloneManager_shutdown :: "'w cyclone_api \<Rightarrow> 'w cyclone_manager \<Rightarrow> 'w cyclone_manager" where
  "CycloneManager_shutdown api m =
     (case cm_participant m of None \<Rightarrow> m
      | Some h \<Rightarrow> (let (ok, w) = cy_close api h (cm_world m); m = m\<lparr>cm_world := w\<rparr>
          in if ok then m\<lparr>cm_participant := None\<rparr> else m))"

definition OpenManager_new :: "'w dds_api \<Rightarrow> 'w dds \<Rightarrow> (nat \<times> 'w dds) res" where
  "OpenManager_new api s =
     (let (p, s) = dds_create api (CreateParticipant 0 (api_participant_qos api)) s
      in case p of None \<Rightarrow> Inl (Thrown ''[OpenDDS] Failed to create participant'')
         | Some h \<Rightarrow> Inr (h, s))"

subsection \<open>The vendors of a build\<close>

definition fast_vendor :: "'e dds_api \<Rightarrow> (AirEntity, 'w1) writer_api \<Rightarrow> (TestControl, 'w2) writer_api
    \<Rightarrow> (AirEntity, 'w3) reader_api \<Rightarrow> (TestControl, 'w4) reader_api \<Rightarrow> 'e \<Rightarrow> 'w1 \<Rightarrow> 'w2 \<Rightarrow> 'w3 \<Rightarrow> 'w4
    \<Rightarrow> (('w1, 'e) FastPub, ('w2, 'e) FastPubControl, ('w3, 'e) FastSub, ('w4, 'e) FastSubControl) vendor" where
  "fast_vendor eapi wa wc ra rc e w1 w2 w3 w4 = \<lparr>v_library = FastDDS, v_IPub = FastPub_IPub eapi wa,
     v_IPubControl = FastPubControl_IPubControl eapi wc, v_ISub = FastSub_ISub eapi ra,
     v_ISubControl = FastSubControl_ISubControl eapi rc,
     v_create_participant = Inr (FastManager_getParticipant (participant_manager_new e)),
     v_new_pub = FastPub_new e w1, v_new_pub_control = FastPubControl_new e w2,
     v_new_sub = FastSub_new e w3, v_new_sub_control = FastSubControl_new e w4,
     v_pub_participant = (\<lambda>_ p. p), v_pub_control_participant = (\<lambda>_ c. c),
     v_sub_participant = (\<lambda>_ s. s), v_sub_control_participant = (\<lambda>_ c. c)\<rparr>"

definition open_vendor :: "'e dds_api \<Rightarrow> (AirEntity, 'w1) writer_api \<Rightarrow> (TestControl, 'w2) writer_api
    \<Rightarrow> (AirEntity, 'w3) reader_api \<Rightarrow> (TestControl, 'w4) reader_api \<Rightarrow> 'e \<Rightarrow> 'w1 \<Rightarrow> 'w2 \<Rightarrow> 'w3 \<Rightarrow> 'w4
    \<Rightarrow> (('w1, 'e) OpenPub, ('w2, 'e) OpenPubControl, ('w3, 'e) OpenSub, ('w4, 'e) OpenSubControl) vendor" where
  "open_vendor eapi wa wc ra rc e w1 w2 w3 w4 = \<lparr>v_library = OpenDDS, v_IPub = OpenPub_IPub eapi wa,
     v_IPubControl = OpenPubControl_IPubControl eapi wc, v_ISub = OpenSub_ISub eapi ra,
     v_ISubControl = OpenSubControl_ISubControl eapi rc,
     v_create_participant = rbind (OpenManager_new eapi \<lparr>dds_world = e, dds_trace = []\<rparr>) (\<lambda>(h, s). Inr (Some h)),
     v_new_pub = OpenPub_new e w1, v_new_pub_control = OpenPubControl_new e w2,
     v_new_sub = OpenSub_new e w3, v_new_sub_control = OpenSubControl_new e w4,
     v_pub_participant = (\<lambda>d p. p\<lparr>op_ptrs := set_participant_manager d (op_ptrs p)\<rparr>),
     v_pub_control_participant = (\<lambda>d c. c\<lparr>oc_ptrs := set_participant_manager d (oc_ptrs c)\<rparr>),
     v_sub_participant = (\<lambda>d s. s\<lparr>os_ptrs := set_participant_manager d (os_ptrs s)\<rparr>),
     v_sub_control_participant = (\<lambda>d c. c\<lparr>osc_ptrs := set_participant_manager d (osc_ptrs c)\<rparr>)\<rparr>"

subsection \<open>The publishing nodes\<close>

interpretation fast_node: pub_node "FastPub_IPub eapi wa" FastPub_sent
    "FastPubControl_IPubControl eapi wc" FastPubControl_commands
  by unfold_locales

interpretation open_node: pub_node "OpenPub_IPub eapi wa" OpenPub_sent
    "OpenPubControl_IPubControl eapi wc" OpenPubControl_commands
  by unfold_locales

text \<open>
  A writer that works: it accepts every sample, and lends a buffer when it says so. With
  such writers, existing endpoints and enough matched readers a node is up.
\<close>

definition writer_works :: "('m, 'w) writer_api \<Rightarrow> bool" where
  "writer_works api \<longleftrightarrow> (\<forall>h m w. fst (wa_write api h m w) = RETCODE_OK)
     \<and> (\<forall>h w. fst (wa_loan_sample api h w) = RETCODE_OK \<longrightarrow> fst (snd (wa_loan_sample api h w)) \<noteq> None)"

definition fast_pub_up :: "(AirEntity, 'w) writer_api \<Rightarrow> ('w, 'e) FastPub \<Rightarrow> bool" where
  "fast_pub_up wa p \<longleftrightarrow> writer_works wa \<and> p_endpoint (fp_ptrs p) \<noteq> None
     \<and> 0 < fp_matched p \<and> fp_min_subs p \<le> fp_matched p"

definition fast_control_up :: "('w, 'e) FastPubControl \<Rightarrow> bool" where
  "fast_control_up c \<longleftrightarrow> p_endpoint (fc_ptrs c) \<noteq> None \<and> 0 < fc_matched c"

definition open_pub_up :: "(AirEntity, 'w) writer_api \<Rightarrow> ('w, 'e) OpenPub \<Rightarrow> bool" where
  "open_pub_up wa p \<longleftrightarrow> writer_works wa \<and> op_air_writer p \<noteq> None \<and> op_min_subs p \<le> op_matched_subs p"

definition narrow_works :: "'e dds_api \<Rightarrow> bool" where
  "narrow_works eapi \<longleftrightarrow> (\<forall>h e. fst (api_create eapi (Narrow h) e) \<noteq> None)"

definition open_control_up :: "'e dds_api \<Rightarrow> ('w, 'e) OpenPubControl \<Rightarrow> bool" where
  "open_control_up eapi c \<longleftrightarrow> narrow_works eapi \<and> p_endpoint (oc_ptrs c) \<noteq> None \<and> oc_dr c \<noteq> None
     \<and> oc_min_subs c \<le> oc_matched_subs c"

lemma w_write_ok: "writer_works api \<Longrightarrow> fst (w_write api h m s) = RETCODE_OK"
  by (simp add: writer_works_def w_write_def split: prod.split) (metis fst_conv)

lemma FastPub_publish_loan_up:
  assumes "fast_pub_up wa p"
  shows "\<exists>b q. FastPub_publish_loan wa n p = Inr (b, q) \<and> fast_pub_up wa q"
  using assms
proof (induction n arbitrary: p)
  case 0
  then show ?case by auto
next
  case (Suc n)
  then have ww: "writer_works wa" and e: "p_endpoint (fp_ptrs p) \<noteq> None"
    by (simp_all add: fast_pub_up_def)
  from e obtain h where h: "p_endpoint (fp_ptrs p) = Some h" by blast
  obtain r buf s1 where l: "w_loan_sample wa h (fp_writer p) = (r, buf, s1)" by (metis prod_cases3)
  have b: "r = RETCODE_OK \<Longrightarrow> buf \<noteq> None"
    using ww l unfolding writer_works_def w_loan_sample_def by (auto split: prod.splits) (metis fst_conv snd_conv)
  show ?case
  proof (cases "r = RETCODE_OK")
    case False
    then show ?thesis using h l Suc.prems by (auto simp: deref_def Let_def fast_pub_up_def)
  next
    case True
    then obtain smp where smp: "buf = Some smp" using b by blast
    let ?e = "smp\<lparr>ent_id := fp_current_id p\<rparr>"
    obtain s2 where w: "w_write wa h ?e s1 = (RETCODE_OK, s2)"
      using w_write_ok[OF ww, of h ?e s1] by (cases "w_write wa h ?e s1") simp
    have "fast_pub_up wa (p\<lparr>fp_current_id := i32 (fp_current_id p + 1), fp_writer := s2\<rparr>)"
      using Suc.prems by (simp add: fast_pub_up_def)
    from Suc.IH[OF this] show ?thesis using h l True smp w by (simp add: deref_def Let_def)
  qed
qed

interpretation fast_node_up: pub_node_up
    "FastPub_IPub (eapi :: 'e dds_api) (wa :: (AirEntity, 'w) writer_api)" FastPub_sent
    "FastPubControl_IPubControl eapi (wc :: (TestControl, 'v) writer_api)" FastPubControl_commands "fast_pub_up wa" fast_control_up
proof unfold_locales
  fix p :: "('w, 'e) FastPub" and x assume up: "fast_pub_up wa p"
  then obtain h where "p_endpoint (fp_ptrs p) = Some h" by (auto simp: fast_pub_up_def)
  then show "\<exists>q. ip_publish (FastPub_IPub eapi wa) x p = Inr (True, q) \<and> fast_pub_up wa q"
    using up w_write_ok[of wa h x "fp_writer p"]
    by (auto simp: FastPub_IPub_def FastPub_publish_def deref_def fast_pub_up_def split_beta)
next
  fix p :: "('w, 'e) FastPub" and n assume "fast_pub_up wa p"
  then show "\<exists>b q. ip_publish_loan (FastPub_IPub eapi wa) n p = Inr (b, q) \<and> fast_pub_up wa q"
    using FastPub_publish_loan_up by (simp add: FastPub_IPub_def)
qed (auto simp: FastPub_IPub_def FastPub_is_matched_def fast_pub_up_def Let_def
    FastPubControl_IPubControl_def FastPubControl_is_matched_def fast_control_up_def
    FastPubControl_publish_start_def FastPubControl_publish_stop_def deref_def split_beta Let_def)

interpretation open_node_up: pub_node_up
    "OpenPub_IPub (eapi :: 'e dds_api) (wa :: (AirEntity, 'w) writer_api)" OpenPub_sent
    "OpenPubControl_IPubControl eapi (wc :: (TestControl, 'v) writer_api)" OpenPubControl_commands "open_pub_up wa" "open_control_up eapi"
proof unfold_locales
  fix p :: "('w, 'e) OpenPub" and x assume up: "open_pub_up wa p"
  then obtain h where "op_air_writer p = Some h" by (auto simp: open_pub_up_def)
  then show "\<exists>q. ip_publish (OpenPub_IPub eapi wa) x p = Inr (True, q) \<and> open_pub_up wa q"
    using up w_write_ok[of wa h x "op_writer p"]
    by (auto simp: OpenPub_IPub_def OpenPub_publish_def deref_def open_pub_up_def split_beta)
next
  fix c :: "('v, 'e) OpenPubControl" and i assume up: "open_control_up eapi c"
  then obtain h where h: "p_endpoint (oc_ptrs c) = Some h" by (auto simp: open_control_up_def)
  obtain n where "fst (api_create eapi (Narrow h) (dds_world (oc_dds c))) = Some n"
    using up by (auto simp: open_control_up_def narrow_works_def)
  then have "fst (dds_create eapi (Narrow h) (oc_dds c)) = Some n" by (simp add: dds_create_def split_beta)
  with up h show "\<exists>b d. ic_publish_stop (OpenPubControl_IPubControl eapi wc) i c = Inr (b, d) \<and> open_control_up eapi d"
    by (auto simp: OpenPubControl_IPubControl_def OpenPubControl_publish_stop_def deref_def
      open_control_up_def split_beta Let_def)
qed (auto simp: OpenPub_IPub_def OpenPub_is_matched_def open_pub_up_def OpenPub_publish_loan_def
    OpenPubControl_IPubControl_def OpenPubControl_is_matched_def open_control_up_def
    OpenPubControl_publish_start_def deref_def split_beta Let_def)

text \<open>What the callbacks of the two Fast DDS publishers can do to the objects.\<close>

definition fast_pub_events :: "(('w, 'e) FastPub \<Rightarrow> ('w, 'e) FastPub) set" where
  "fast_pub_events = {FastPub_on_publication_matched change tot | change tot. True}"

definition fast_control_events :: "(('w, 'e) FastPubControl \<Rightarrow> ('w, 'e) FastPubControl) set" where
  "fast_control_events = {FastPubControl_on_publication_matched change | change. True}"

definition open_pub_events :: "(('w, 'e) OpenPub \<Rightarrow> ('w, 'e) OpenPub) set" where
  "open_pub_events = {OpenPub_on_publication_matched tot | tot. True}"

definition open_control_events :: "(('w, 'e) OpenPubControl \<Rightarrow> ('w, 'e) OpenPubControl) set" where
  "open_control_events = {OpenPubControl_on_publication_matched tot | tot. True}"

lemma fast_event_kept:
  "f \<in> fast_pub_events \<Longrightarrow> FastPub_sent (f p) = FastPub_sent p
     \<and> ip_messages_per_cycle (FastPub_IPub eapi wa) (f p) = ip_messages_per_cycle (FastPub_IPub eapi wa) p"
  "g \<in> fast_control_events \<Longrightarrow> FastPubControl_commands (g c) = FastPubControl_commands c"
  by (auto simp: fast_pub_events_def fast_control_events_def FastPub_on_publication_matched_def
    FastPubControl_on_publication_matched_def FastPub_sent_def FastPubControl_commands_def FastPub_IPub_def)

lemma open_event_kept:
  "f \<in> open_pub_events \<Longrightarrow> OpenPub_sent (f p) = OpenPub_sent p
     \<and> ip_messages_per_cycle (OpenPub_IPub eapi wa) (f p) = ip_messages_per_cycle (OpenPub_IPub eapi wa) p"
  "g \<in> open_control_events \<Longrightarrow> OpenPubControl_commands (g c) = OpenPubControl_commands c"
  by (auto simp: open_pub_events_def open_control_events_def OpenPub_on_publication_matched_def
    OpenPubControl_on_publication_matched_def OpenPub_sent_def OpenPubControl_commands_def OpenPub_IPub_def)

end
