(* ===== verification/IndraQueue.thy ===== *)
theory IndraQueue
  imports Loopback
begin

section \<open>indra_dds: the message queues\<close>

text \<open>
  \<open>src/indra_dds/Utils/Multithreading/ThreadSafeQueue.h\<close> and the queue inside
  \<open>src/indra_dds/FastDDS/Subscriber/FastSubscriber.tpp\<close>. Every operation runs under the
  object's mutex, so operations of several threads are some sequence of whole operations,
  which is what the model runs. \<open>std::queue\<close> is a list, front first.

  \<open>fifo\<close> is the contract of both: \<open>pop\<close> hands out what was pushed, once and in order.
\<close>

text \<open>
  \<open>n\<close> calls of \<open>pop\<close>, each into the same variable, and the values of the successful ones;
  and any sequence of operations, with the values popped.
\<close>

fun pops :: "('a \<Rightarrow> 'q \<Rightarrow> bool \<times> 'a \<times> 'q) \<Rightarrow> nat \<Rightarrow> 'a \<Rightarrow> 'q \<Rightarrow> 'a list \<times> 'q" where
  "pops pop 0 d q = ([], q)"
| "pops pop (Suc n) d q = (let (ok, x, r) = pop d q; (ys, s) = pops pop n x r in (if ok then x # ys else ys, s))"

datatype 'a queue_op = QPush 'a | QPop

fun pushed :: "'a queue_op list \<Rightarrow> 'a list" where
  "pushed [] = []"
| "pushed (QPush x # ops) = x # pushed ops"
| "pushed (QPop # ops) = pushed ops"

fun run_ops :: "('a \<Rightarrow> 'q \<Rightarrow> 'q) \<Rightarrow> ('a \<Rightarrow> 'q \<Rightarrow> bool \<times> 'a \<times> 'q) \<Rightarrow> 'a \<Rightarrow> 'a queue_op list \<Rightarrow> 'q \<Rightarrow> 'a list \<times> 'q" where
  "run_ops push pop d [] q = ([], q)"
| "run_ops push pop d (QPush x # ops) q = run_ops push pop d ops (push x q)"
| "run_ops push pop d (QPop # ops) q = (let (ok, x, r) = pop d q; (ys, s) = run_ops push pop d ops r
     in (if ok then x # ys else ys, s))"

locale fifo =
  fixes push :: "'a \<Rightarrow> 'q \<Rightarrow> 'q"
    and pop :: "'a \<Rightarrow> 'q \<Rightarrow> bool \<times> 'a \<times> 'q"
    and contents :: "'q \<Rightarrow> 'a list"
  assumes push_contents: "contents (push x q) = contents q @ [x]"
    and pop_empty: "contents q = [] \<Longrightarrow> pop d q = (False, d, q)"
    and pop_next: "contents q = x # xs \<Longrightarrow> \<exists>r. pop d q = (True, x, r) \<and> contents r = xs"
begin

lemma contents_pushes: "contents (fold push xs q) = contents q @ xs"
  by (induction xs arbitrary: q) (simp_all add: push_contents)

lemma pops_prefix: "fst (pops pop n d q) = take n (contents q) \<and> contents (snd (pops pop n d q)) = drop n (contents q)"
proof (induction n arbitrary: d q)
  case (Suc n)
  show ?case
  proof (cases "contents q")
    case Nil
    then show ?thesis using Suc.IH[of d q] by (simp add: pop_empty split_beta Let_def)
  next
    case (Cons x xs)
    from pop_next[OF Cons, of d] obtain r where "pop d q = (True, x, r)" "contents r = xs" by blast
    then show ?thesis using Cons Suc.IH[of x r] by (simp add: split_beta Let_def)
  qed
qed simp

lemma run_ops_fifo:
  "fst (run_ops push pop d ops q) @ contents (snd (run_ops push pop d ops q)) = contents q @ pushed ops"
proof (induction ops arbitrary: q rule: pushed.induct)
  case (2 x ops)
  then show ?case by (simp add: push_contents)
next
  case (3 ops)
  show ?case
  proof (cases "contents q")
    case Nil
    then show ?thesis using 3[of q] by (simp add: pop_empty split_beta Let_def)
  next
    case (Cons x xs)
    from pop_next[OF Cons, of d] obtain r where "pop d q = (True, x, r)" "contents r = xs" by blast
    then show ?thesis using Cons 3[of r] by (simp add: split_beta Let_def)
  qed
qed simp

end

subsection \<open>ThreadSafeQueue\<close>

definition Push :: "'a \<Rightarrow> 'a list \<Rightarrow> 'a list" where
  "Push value queue = queue @ [value]"

definition TryPop :: "'a \<Rightarrow> 'a list \<Rightarrow> bool \<times> 'a \<times> 'a list" where
  "TryPop result queue = (case queue of [] \<Rightarrow> (False, result, queue) | x # xs \<Rightarrow> (True, x, xs))"

interpretation thread_safe_queue: fifo Push TryPop "\<lambda>q. q"
  by unfold_locales (auto simp: Push_def TryPop_def)

subsection \<open>FastSubscriber\<close>

record ('m, 'w) FastSubscriber =
  fsu_started :: bool
  fsu_messageQueue :: "'m list"
  fsu_notified :: nat
  fsu_reader :: 'w

text \<open>
  The constructor checks none of the pointers it gets: a null participant or subscriber is
  dereferenced, a null topic goes to the middleware. The second result are the entities.
\<close>

definition FastSubscriber_new :: "'e dds_api \<Rightarrow> nat option \<Rightarrow> string \<Rightarrow> string \<Rightarrow> 'w \<Rightarrow> 'e dds
    \<Rightarrow> (('m, 'w) FastSubscriber \<times> entity_ptrs \<times> 'e dds) res" where
  "FastSubscriber_new api participant topic_name type_name w s =
     rbind (deref ''participant_'' participant) (\<lambda>part.
       let (_, s) = dds_call api (RegisterType part type_name) s;
           (t, s) = dds_create api (CreateTopic part topic_name type_name) s;
           (g, s) = dds_create api (CreateSubscriber part) s
       in rbind (deref ''subscriber_'' g) (\<lambda>sub.
            let (r, s) = dds_create api (case t of None \<Rightarrow> CreateDataReaderNullTopic sub (api_reader_qos api)
                           | Some tp \<Rightarrow> CreateDataReader sub tp (api_reader_qos api)) s
            in Inr (\<lparr>fsu_started = False, fsu_messageQueue = [], fsu_notified = 0, fsu_reader = w\<rparr>,
                    \<lparr>p_participant = participant, p_topic = t, p_group = g, p_endpoint = r\<rparr>, s)))"

definition FastSubscriber_start :: "('m, 'w) FastSubscriber \<Rightarrow> ('m, 'w) FastSubscriber" where
  "FastSubscriber_start s = s\<lparr>fsu_started := True\<rparr>"

definition FastSubscriber_stop :: "('m, 'w) FastSubscriber \<Rightarrow> ('m, 'w) FastSubscriber" where
  "FastSubscriber_stop s = s\<lparr>fsu_started := False, fsu_messageQueue := []\<rparr>"

definition FastSubscriber_read_next :: "'m \<Rightarrow> ('m, 'w) FastSubscriber \<Rightarrow> bool \<times> 'm \<times> ('m, 'w) FastSubscriber" where
  "FastSubscriber_read_next out s = (case fsu_messageQueue s of [] \<Rightarrow> (False, out, s)
     | x # xs \<Rightarrow> (True, x, s\<lparr>fsu_messageQueue := xs\<rparr>))"

text \<open>The body of the loop for one sample; the flag is \<open>instance_state == ALIVE_INSTANCE_STATE\<close>.\<close>

definition FastSubscriber_enqueue :: "'m \<Rightarrow> ('m, 'w) FastSubscriber \<Rightarrow> ('m, 'w) FastSubscriber" where
  "FastSubscriber_enqueue x s = s\<lparr>fsu_messageQueue := fsu_messageQueue s @ [x],
     fsu_notified := fsu_notified s + 1\<rparr>"

partial_function (option) FastSubscriber_on_data_available :: "('m, 'w) reader_api \<Rightarrow> nat
    \<Rightarrow> ('m, 'w) FastSubscriber \<Rightarrow> ('m, 'w) FastSubscriber option" where
  "FastSubscriber_on_data_available api h s =
     (let (ret, (sample, alive), w) = ra_take_next_sample api h (fsu_reader s); s = s\<lparr>fsu_reader := w\<rparr>
      in if ret = RETCODE_OK
         then FastSubscriber_on_data_available api h (if alive then FastSubscriber_enqueue sample s else s)
         else Some s)"

interpretation fast_subscriber: fifo FastSubscriber_enqueue FastSubscriber_read_next fsu_messageQueue
  by unfold_locales (auto simp: FastSubscriber_enqueue_def FastSubscriber_read_next_def)

text \<open>A callback moves every sample of an alive instance into the queue, in order, and returns.\<close>

lemma on_data_available_queue:
  assumes q: "queue_reader api h q"
  shows "\<exists>t. FastSubscriber_on_data_available api h s = Some t
    \<and> fsu_messageQueue t = fsu_messageQueue s @ map fst (filter snd (q (fsu_reader s)))
    \<and> q (fsu_reader t) = [] \<and> fsu_started t = fsu_started s"
proof (induction "q (fsu_reader s)" arbitrary: s)
  case Nil
  from queue_reader_empty[OF q Nil[symmetric]] obtain x w where
    "ra_take_next_sample api h (fsu_reader s) = (RETCODE_NO_DATA, x, w)" "q w = []" .
  with Nil show ?case by (subst FastSubscriber_on_data_available.simps) (cases x, simp)
next
  case (Cons x xs)
  obtain m v where x: "x = (m, v)" by (cases x)
  from queue_reader_next[OF q Cons(2)[symmetric]] obtain w where
    f: "ra_take_next_sample api h (fsu_reader s) = (RETCODE_OK, x, w)" "q w = xs" .
  let ?s = "if v then FastSubscriber_enqueue m (s\<lparr>fsu_reader := w\<rparr>) else s\<lparr>fsu_reader := w\<rparr>"
  have "xs = q (fsu_reader ?s)" using f(2) by (simp add: FastSubscriber_enqueue_def)
  from Cons(1)[OF this] obtain t where "FastSubscriber_on_data_available api h ?s = Some t"
    "fsu_messageQueue t = fsu_messageQueue ?s @ map fst (filter snd (q (fsu_reader ?s)))"
    "q (fsu_reader t) = []" "fsu_started t = fsu_started ?s" by blast
  then show ?case using f x
    by (subst FastSubscriber_on_data_available.simps)
      (auto simp: FastSubscriber_enqueue_def simp flip: Cons(2))
qed

subsection \<open>Properties\<close>

text \<open>
  \<open>ThreadSafeQueue\<close> is first in, first out: for every interleaving of whole \<open>Push\<close> and
  \<open>TryPop\<close> calls, what was popped, followed by what is left, is what was there and what
  was pushed, in order.
\<close>

lemma thread_safe_queue_fifo:
  "fst (run_ops Push TryPop d ops q) @ snd (run_ops Push TryPop d ops q) = q @ pushed ops"
  by (rule thread_safe_queue.run_ops_fifo)

text \<open>
  A data callback of \<open>FastSubscriber\<close> returns for every finite backlog and leaves the reader
  empty; \<open>read_next\<close> then hands out the older messages and the new samples of alive
  instances, each once and in order. \<open>started_\<close> plays no part in it.
\<close>

lemma fast_subscriber_delivers:
  assumes "queue_reader api h q"
  shows "\<exists>t. FastSubscriber_on_data_available api h s = Some t \<and> q (fsu_reader t) = []
    \<and> fst (pops FastSubscriber_read_next n d t)
      = take n (fsu_messageQueue s @ map fst (filter snd (q (fsu_reader s))))"
proof -
  from on_data_available_queue[OF assms, of s] obtain t where t:
    "FastSubscriber_on_data_available api h s = Some t"
    "fsu_messageQueue t = fsu_messageQueue s @ map fst (filter snd (q (fsu_reader s)))" "q (fsu_reader t) = []"
    by blast
  then show ?thesis using fast_subscriber.pops_prefix[of n d t] by auto
qed

end
