(* ===== verification/IndraDomain.thy ===== *)
theory IndraDomain
  imports Lifecycle Loopback
begin

section \<open>indra_dds: domains and participants\<close>

text \<open>
  \<open>src/indra_dds/FastDDS\<close>: \<open>FastParticipantQoS\<close>, \<open>FastParticipant\<close>, \<open>FastDomain\<close>, and
  \<open>DDSFactory.h\<close>. The Fast DDS factory is the parameter \<open>'w dds_api\<close> of \<open>Dds\<close> with the
  default participant QoS it keeps (\<open>dom_default_qos\<close>).

  A \<open>unique_ptr\<close> in the vector of a domain is \<open>Some\<close> of an address and its object, or
  \<open>None\<close> after it was moved from. \<open>remove_participant\<close> runs \<open>std::remove_if\<close> on the slots
  the way the library documents it: kept elements are moved towards the front, and the
  slots behind the returned position hold what the moves left there.

  \<open>IParticipant\<close> has no virtual destructor, so deleting through it does not reach
  \<open>~FastParticipant\<close>: an element that disappears makes no \<open>delete_participant\<close> call.
\<close>

subsection \<open>FastParticipantQoS\<close>

text \<open>The helper writes through its pointer; here it maps the QoS it points to.\<close>

definition bytes_of :: "string \<Rightarrow> 8 word list" where
  "bytes_of text = map of_char text"

definition set_user_data :: "8 word list \<Rightarrow> participant_qos \<Rightarrow> participant_qos" where
  "set_user_data octets q = q\<lparr>pq_user_data := octets\<rparr>"

definition set_user_data_text :: "string \<Rightarrow> participant_qos \<Rightarrow> participant_qos" where
  "set_user_data_text text q = q\<lparr>pq_user_data := bytes_of text\<rparr>"

definition set_auto_enable_entities :: "bool \<Rightarrow> participant_qos \<Rightarrow> participant_qos" where
  "set_auto_enable_entities value q = q\<lparr>pq_autoenable_created_entities := value\<rparr>"

definition set_property :: "string \<Rightarrow> string \<Rightarrow> participant_qos \<Rightarrow> participant_qos" where
  "set_property key value q = q\<lparr>pq_properties := pq_properties q @ [(key, value)]\<rparr>"

subsection \<open>FastParticipant\<close>

record FastParticipant =
  part_native :: "nat option"
  part_member_qos :: participant_qos
  part_enabled :: bool
  part_publishers :: nat
  part_topics :: "(string \<times> string) list"

text \<open>
  \<open>on_init\<close> declares a local \<open>participant_qos\<close>, which hides the member: the participant is
  created with the factory's default, the member stays default constructed.
\<close>

definition FastParticipant_new :: "'w dds_api \<Rightarrow> participant_qos \<Rightarrow> 'w dds \<Rightarrow> FastParticipant \<times> 'w dds" where
  "FastParticipant_new api factory_default s =
     (let (h, s) = dds_create api (CreateParticipant 0 factory_default) s
      in (\<lparr>part_native = h, part_member_qos = api_participant_qos api, part_enabled = False,
           part_publishers = 0, part_topics = []\<rparr>, s))"

definition FastParticipant_destroy :: "'w dds_api \<Rightarrow> FastParticipant \<Rightarrow> 'w dds \<Rightarrow> 'w dds" where
  "FastParticipant_destroy api p s = snd (dds_call api (DeleteParticipant (part_native p)) s)"

definition FastParticipant_enable :: "FastParticipant \<Rightarrow> FastParticipant" where
  "FastParticipant_enable p = p\<lparr>part_enabled := True\<rparr>"

definition FastParticipant_disable :: "FastParticipant \<Rightarrow> FastParticipant" where
  "FastParticipant_disable p = (if \<not> part_enabled p then p else p\<lparr>part_enabled := False\<rparr>)"

definition FastParticipant_is_enabled :: "FastParticipant \<Rightarrow> bool" where
  "FastParticipant_is_enabled p = part_enabled p"

definition FastParticipant_update :: "FastParticipant \<Rightarrow> FastParticipant" where
  "FastParticipant_update p = p"

definition FastParticipant_create_pub :: "FastParticipant \<Rightarrow> nat \<times> FastParticipant" where
  "FastParticipant_create_pub p = (part_publishers p, p\<lparr>part_publishers := part_publishers p + 1\<rparr>)"

definition FastParticipant_create_sub :: "FastParticipant \<Rightarrow> nat option \<times> FastParticipant" where
  "FastParticipant_create_sub p = (None, p)"

text \<open>\<open>create_topic\<close> uses \<open>participant_\<close> without a check; the answer is the topic's place.\<close>

definition FastParticipant_create_topic :: "'w dds_api \<Rightarrow> string \<Rightarrow> string \<Rightarrow> FastParticipant \<Rightarrow> 'w dds
    \<Rightarrow> (nat option \<times> FastParticipant \<times> 'w dds) res" where
  "FastParticipant_create_topic api topic_name type_name p s =
     rbind (deref ''participant_'' (part_native p)) (\<lambda>d.
       let (raw_topic, s) = dds_create api (CreateTopic d topic_name type_name) s
       in case raw_topic of None \<Rightarrow> Inr (None, p, s)
          | Some t \<Rightarrow> Inr (Some (length (part_topics p)),
                          p\<lparr>part_topics := part_topics p @ [(topic_name, type_name)]\<rparr>, s))"

definition FastParticipant_apply_qos :: "'w dds_api \<Rightarrow> FastParticipant \<Rightarrow> 'w dds \<Rightarrow> 'w dds" where
  "FastParticipant_apply_qos api p s = (case part_native p of None \<Rightarrow> s
     | Some d \<Rightarrow> snd (dds_call api (SetParticipantQos d (part_member_qos p)) s))"

definition FastParticipant_apply_qos_of :: "'w dds_api \<Rightarrow> participant_qos \<Rightarrow> FastParticipant \<Rightarrow> 'w dds \<Rightarrow> 'w dds" where
  "FastParticipant_apply_qos_of api q p s = (case part_native p of None \<Rightarrow> s
     | Some d \<Rightarrow> snd (dds_call api (SetParticipantQos d q) s))"

subsection \<open>FastDomain\<close>

type_synonym slot = "(nat \<times> FastParticipant) option"

record 'w FastDomain =
  dom_id :: int
  dom_participants :: "slot list"
  dom_next_address :: nat
  dom_default_qos :: participant_qos
  dom_dds :: "'w dds"

definition FastDomain_new :: "'w dds_api \<Rightarrow> int \<Rightarrow> 'w \<Rightarrow> 'w FastDomain" where
  "FastDomain_new api i w = \<lparr>dom_id = i, dom_participants = [], dom_next_address = 0,
     dom_default_qos = api_participant_qos api, dom_dds = \<lparr>dds_world = w, dds_trace = []\<rparr>\<rparr>"

text \<open>The factory takes a new default only when it answers \<open>RETCODE_OK\<close>.\<close>

definition set_default_participant_qos :: "'w dds_api \<Rightarrow> participant_qos \<Rightarrow> 'w FastDomain \<Rightarrow> retcode \<times> 'w FastDomain" where
  "set_default_participant_qos api q d =
     (let (r, s) = dds_call api (SetDefaultParticipantQos q) (dom_dds d); d = d\<lparr>dom_dds := s\<rparr>
      in (r, if r = RETCODE_OK then d\<lparr>dom_default_qos := q\<rparr> else d))"

definition change_default_participant_qos :: "'w dds_api \<Rightarrow> participant_qos \<Rightarrow> 'w FastDomain \<Rightarrow> 'w FastDomain" where
  "change_default_participant_qos api q d = snd (set_default_participant_qos api q d)"

definition change_initial_participant_qos :: "'w dds_api \<Rightarrow> 'w FastDomain \<Rightarrow> 'w FastDomain" where
  "change_initial_participant_qos api d = snd (set_default_participant_qos api (api_participant_qos api) d)"

definition FastDomain_init :: "'w dds_api \<Rightarrow> 'w FastDomain \<Rightarrow> 'w FastDomain" where
  "FastDomain_init api d =
     (let default_qos = set_user_data_text ''indra_participant'' (api_participant_qos api)
      in change_default_participant_qos api default_qos d)"

definition create_participant :: "'w dds_api \<Rightarrow> 'w FastDomain \<Rightarrow> nat \<times> 'w FastDomain" where
  "create_participant api d =
     (let (p, s) = FastParticipant_new api (dom_default_qos d) (dom_dds d); a = dom_next_address d
      in (a, d\<lparr>dom_participants := dom_participants d @ [Some (a, p)], dom_next_address := a + 1,
               dom_dds := s\<rparr>))"

definition slot_is :: "nat option \<Rightarrow> slot \<Rightarrow> bool" where
  "slot_is participant sl = (map_option fst sl = participant)"

text \<open>
  \<open>std::remove_if\<close>: \<open>find_if\<close>, then one pass over the rest; \<open>r\<close> is the position to fill,
  \<open>i\<close> the one looked at. The result is the vector and the returned position.
\<close>

fun find_if_pos :: "('a \<Rightarrow> bool) \<Rightarrow> 'a list \<Rightarrow> nat" where
  "find_if_pos P [] = 0"
| "find_if_pos P (x # xs) = (if P x then 0 else Suc (find_if_pos P xs))"

function remove_pass :: "(slot \<Rightarrow> bool) \<Rightarrow> slot list \<Rightarrow> nat \<Rightarrow> nat \<Rightarrow> slot list \<times> nat" where
  "remove_pass P v r i =
     (if length v \<le> i then (v, r)
      else if P (v ! i) then remove_pass P v r (i + 1)
      else remove_pass P (v[r := v ! i, i := None]) (r + 1) (i + 1))"
  by pat_completeness auto
termination by (relation "measure (\<lambda>(P, v, r, i). length v - i)") auto

declare remove_pass.simps [simp del]

definition remove_if_slots :: "(slot \<Rightarrow> bool) \<Rightarrow> slot list \<Rightarrow> slot list \<times> nat" where
  "remove_if_slots P v = (let r = find_if_pos P v in if r = length v then (v, r) else remove_pass P v r (r + 1))"

definition remove_participant :: "nat option \<Rightarrow> 'w FastDomain \<Rightarrow> 'w FastDomain res" where
  "remove_participant participant d =
     (let (v, it) = remove_if_slots (slot_is participant) (dom_participants d)
      in if it = length v then Inr (d\<lparr>dom_participants := v\<rparr>)
         else (case v ! it of None \<Rightarrow> Inl (NullDeref ''(*it)'')
               | Some (a, p) \<Rightarrow>
                   let v = v[it := Some (a, FastParticipant_disable p)]
                   in Inr (d\<lparr>dom_participants := take it v\<rparr>)))"

fun enable_slots :: "slot list \<Rightarrow> slot list res" where
  "enable_slots [] = Inr []"
| "enable_slots (None # ps) = Inl (NullDeref ''p'')"
| "enable_slots (Some (a, p) # ps) = rbind (enable_slots ps) (\<lambda>qs. Inr (Some (a, FastParticipant_enable p) # qs))"

definition enable_all :: "'w FastDomain \<Rightarrow> 'w FastDomain res" where
  "enable_all d = rbind (enable_slots (dom_participants d)) (\<lambda>v. Inr (d\<lparr>dom_participants := v\<rparr>))"

fun disable_slots :: "slot list \<Rightarrow> slot list res" where
  "disable_slots [] = Inr []"
| "disable_slots (None # ps) = Inl (NullDeref ''p'')"
| "disable_slots (Some (a, p) # ps) = rbind (disable_slots ps) (\<lambda>qs. Inr (Some (a, FastParticipant_disable p) # qs))"

definition shutdown_all :: "'w FastDomain \<Rightarrow> 'w FastDomain res" where
  "shutdown_all d = rbind (disable_slots (dom_participants d)) (\<lambda>_. Inr (d\<lparr>dom_participants := []\<rparr>))"

definition domain_close :: "'w FastDomain \<Rightarrow> 'w FastDomain res" where
  "domain_close d = shutdown_all d"

definition domain_reset :: "'w dds_api \<Rightarrow> 'w FastDomain \<Rightarrow> 'w FastDomain res" where
  "domain_reset api d = shutdown_all (change_initial_participant_qos api d)"

subsection \<open>DDSFactory and the status values\<close>

datatype DDSLibrary = FAST_DDS

datatype DDSStatus = OK | TIMEOUT | ERROR | INVALID_ARGUMENT | NOT_INITIALIZED

datatype DDSResult = FAILURE | SUCCESS

fun CreateDomain :: "'w dds_api \<Rightarrow> DDSLibrary \<Rightarrow> int \<Rightarrow> 'w \<Rightarrow> 'w FastDomain res" where
  "CreateDomain api FAST_DDS domain_id w = Inr (FastDomain_new api domain_id w)"

subsection \<open>What remove_if leaves behind\<close>

definition domain_ok :: "'w FastDomain \<Rightarrow> bool" where
  "domain_ok d \<longleftrightarrow> (\<exists>ps. dom_participants d = map Some ps \<and> distinct (map fst ps)
     \<and> (\<forall>x \<in> set ps. fst x < dom_next_address d))"

lemma find_if_pos_split:
  assumes "\<forall>x \<in> set xs. \<not> P x" and "P y"
  shows "find_if_pos P (xs @ y # ys) = length xs"
  using assms by (induction xs) auto

lemma find_if_pos_none: "\<forall>x \<in> set xs. \<not> P x \<Longrightarrow> find_if_pos P xs = length xs"
  by (induction xs) auto

lemma remove_pass_kept:
  assumes "\<forall>y \<in> set ys. \<not> P y"
  shows "remove_pass P (xs @ x # ys) (length xs) (length xs + 1) =
    (if ys = [] then (xs @ [x], length xs) else (xs @ ys @ [None], length xs + length ys))"
  using assms
proof (induction ys arbitrary: xs x)
  case Nil
  then show ?case by (simp add: remove_pass.simps)
next
  case (Cons y ys)
  have u: "(xs @ x # y # ys)[length xs := y, length xs + 1 := None] = (xs @ [y]) @ None # ys"
    by (simp add: list_update_append)
  have g: "(xs @ x # y # ys) ! (length xs + 1) = y" by (simp add: nth_append)
  have "remove_pass P (xs @ x # y # ys) (length xs) (length xs + 1) =
      remove_pass P ((xs @ [y]) @ None # ys) (length xs + 1) (length xs + 1 + 1)"
    by (subst remove_pass.simps) (use Cons.prems g u in simp)
  also have "\<dots> = (if ys = [] then ((xs @ [y]) @ [None], length (xs @ [y]))
      else ((xs @ [y]) @ ys @ [None], length (xs @ [y]) + length ys))"
    using Cons.IH[of "xs @ [y]" None] Cons.prems by simp
  finally show ?case by (cases "ys = []") auto
qed

lemma remove_if_found:
  assumes "\<forall>z \<in> set xs. \<not> P z" "P x" "\<forall>z \<in> set ys. \<not> P z"
  shows "remove_if_slots P (xs @ x # ys) =
    (if ys = [] then (xs @ [x], length xs) else (xs @ ys @ [None], length xs + length ys))"
  using remove_pass_kept[OF assms(3), of xs x] find_if_pos_split[OF assms(1,2), of ys]
  by (simp add: remove_if_slots_def)

lemma slot_not_in: "a \<notin> fst ` set ps \<Longrightarrow> \<forall>z \<in> set (map Some ps). \<not> slot_is (Some a) z"
  by (force simp: slot_is_def)

lemma slot_is_own: "slot_is (Some a) (Some (a, p))"
  by (simp add: slot_is_def)

lemma remove_participant_last:
  assumes "dom_participants d = map Some (ps @ [(a, p)])" "a \<notin> fst ` set ps"
  shows "remove_participant (Some a) d = Inr (d\<lparr>dom_participants := map Some ps\<rparr>)"
proof -
  have "remove_if_slots (slot_is (Some a)) (map Some ps @ [Some (a, p)]) = (map Some ps @ [Some (a, p)], length ps)"
    using remove_if_found[OF slot_not_in[OF assms(2)] slot_is_own[of a p], of "[]"] by simp
  then show ?thesis using assms(1) by (simp add: remove_participant_def nth_append list_update_append)
qed

lemma remove_participant_inner:
  assumes "dom_participants d = map Some (ps @ (a, p) # qs)" "qs \<noteq> []"
    and "a \<notin> fst ` set ps" "a \<notin> fst ` set qs"
  shows "remove_participant (Some a) d = Inl (NullDeref ''(*it)'')"
proof -
  have "remove_if_slots (slot_is (Some a)) (map Some ps @ Some (a, p) # map Some qs)
      = (map Some ps @ map Some qs @ [None], length ps + length qs)"
    using remove_if_found[OF slot_not_in[OF assms(3)] slot_is_own[of a p] slot_not_in[OF assms(4)]] assms(2)
    by simp
  then show ?thesis using assms(1) by (simp add: remove_participant_def nth_append)
qed

lemma remove_participant_absent:
  assumes "dom_participants d = map Some ps" "a \<notin> fst ` set ps"
  shows "remove_participant (Some a) d = Inr d"
proof -
  have "find_if_pos (slot_is (Some a)) (map Some ps) = length (map Some ps)"
    by (intro find_if_pos_none slot_not_in assms(2))
  then show ?thesis using assms(1) by (simp add: remove_participant_def remove_if_slots_def)
qed

lemma enable_slots_ok: "enable_slots (map Some ps) = Inr (map (\<lambda>(a, p). Some (a, FastParticipant_enable p)) ps)"
  by (induction ps) auto

lemma disable_slots_ok: "disable_slots (map Some ps) = Inr (map (\<lambda>(a, p). Some (a, FastParticipant_disable p)) ps)"
  by (induction ps) auto

lemma domain_ok_new: "domain_ok (FastDomain_new api i w)"
  by (simp add: domain_ok_def FastDomain_new_def)

lemma domain_ok_create:
  assumes "domain_ok d"
  shows "domain_ok (snd (create_participant api d))"
proof -
  from assms obtain ps where ps: "dom_participants d = map Some ps" "distinct (map fst ps)"
    "\<forall>x \<in> set ps. fst x < dom_next_address d" by (auto simp: domain_ok_def)
  let ?a = "dom_next_address d" and ?p = "fst (FastParticipant_new api (dom_default_qos d) (dom_dds d))"
  have "dom_participants (snd (create_participant api d)) = map Some (ps @ [(?a, ?p)])"
    "dom_next_address (snd (create_participant api d)) = ?a + 1"
    using ps(1) by (simp_all add: create_participant_def Let_def split_beta)
  moreover have "distinct (map fst (ps @ [(?a, ?p)]))" using ps(2,3) by auto
  moreover have "\<forall>x \<in> set (ps @ [(?a, ?p)]). fst x < ?a + 1" using ps(3) by auto
  ultimately show ?thesis unfolding domain_ok_def by metis
qed

text \<open>The states of a domain: any sequence of its operations that return.\<close>

inductive domain_reach :: "'w dds_api \<Rightarrow> 'w FastDomain \<Rightarrow> bool" for api where
  dr_new: "CreateDomain api FAST_DDS i w = Inr d \<Longrightarrow> domain_reach api d"
| dr_init: "domain_reach api d \<Longrightarrow> domain_reach api (FastDomain_init api d)"
| dr_create: "domain_reach api d \<Longrightarrow> create_participant api d = (a, e) \<Longrightarrow> domain_reach api e"
| dr_remove: "domain_reach api d \<Longrightarrow> remove_participant (Some a) d = Inr e \<Longrightarrow> domain_reach api e"
| dr_enable: "domain_reach api d \<Longrightarrow> enable_all d = Inr e \<Longrightarrow> domain_reach api e"
| dr_shutdown: "domain_reach api d \<Longrightarrow> shutdown_all d = Inr e \<Longrightarrow> domain_reach api e"
| dr_reset: "domain_reach api d \<Longrightarrow> domain_reset api d = Inr e \<Longrightarrow> domain_reach api e"

inductive_cases domain_reachE: "domain_reach api d"

lemma set_default_slots [simp]:
  "dom_participants (snd (set_default_participant_qos api q d)) = dom_participants d"
  "dom_next_address (snd (set_default_participant_qos api q d)) = dom_next_address d"
  by (simp_all add: set_default_participant_qos_def Let_def split_beta)

lemma domain_ok_default [simp]: "domain_ok (snd (set_default_participant_qos api q d)) = domain_ok d"
  by (simp add: domain_ok_def)

lemma remove_participant_split:
  assumes "dom_participants d = map Some (ps @ (a, p) # qs)" "distinct (map fst (ps @ (a, p) # qs))"
  shows "remove_participant (Some a) d =
    (if qs = [] then Inr (d\<lparr>dom_participants := map Some ps\<rparr>) else Inl (NullDeref ''(*it)''))"
  using assms remove_participant_last[of d ps a p] remove_participant_inner[of d ps a p qs] by auto

lemma domain_ok_remove:
  assumes "domain_ok d" "remove_participant (Some a) d = Inr e"
  shows "domain_ok e"
proof -
  from assms(1) obtain ps where ps: "dom_participants d = map Some ps" "distinct (map fst ps)"
    "\<forall>x \<in> set ps. fst x < dom_next_address d" by (auto simp: domain_ok_def)
  show ?thesis
  proof (cases "a \<in> fst ` set ps")
    case False
    then show ?thesis using remove_participant_absent[OF ps(1)] assms by simp
  next
    case True
    then obtain p xs ys where s: "ps = xs @ (a, p) # ys" by (metis imageE prod.collapse split_list)
    then have "e = d\<lparr>dom_participants := map Some xs\<rparr>"
      using remove_participant_split[of d xs a p ys] ps(1,2) assms(2) by (auto split: if_splits)
    then show ?thesis using ps(2,3) s by (auto simp: domain_ok_def intro!: exI[of _ xs])
  qed
qed

lemma domain_ok_mapped:
  assumes "domain_ok d" "\<And>x. fst (g x) = fst x"
    and "\<And>ps. dom_participants d = map Some ps \<Longrightarrow> dom_participants e = map (\<lambda>x. Some (g x)) ps"
    and "dom_next_address e = dom_next_address d"
  shows "domain_ok e"
proof -
  from assms(1) obtain ps where ps: "dom_participants d = map Some ps" "distinct (map fst ps)"
    "\<forall>x \<in> set ps. fst x < dom_next_address d" by (auto simp: domain_ok_def)
  have "dom_participants e = map Some (map g ps)" using assms(3)[OF ps(1)] by simp
  moreover have "map fst (map g ps) = map fst ps" using assms(2) by simp
  ultimately show ?thesis using ps(2,3) assms(2,4) unfolding domain_ok_def by (metis (no_types, lifting) image_iff list.set_map)
qed

lemma domain_ok_enable:
  assumes "domain_ok d" "enable_all d = Inr e"
  shows "domain_ok e"
  by (rule domain_ok_mapped[OF assms(1), of "\<lambda>(a, p). (a, FastParticipant_enable p)"])
    (use assms(2) in \<open>auto simp: enable_all_def enable_slots_ok split_beta elim!: rbind_InrE\<close>)

lemma domain_ok_shutdown: "shutdown_all d = Inr e \<Longrightarrow> domain_ok e"
  by (auto simp: shutdown_all_def domain_ok_def elim!: rbind_InrE)

lemma domain_reach_ok: "domain_reach api d \<Longrightarrow> domain_ok d"
proof (induction rule: domain_reach.induct)
  case (dr_new i w d)
  then show ?case using domain_ok_new by auto
next
  case (dr_create d a e)
  then show ?case using domain_ok_create[of d api] by simp
next
  case (dr_reset d e)
  then show ?case using domain_ok_shutdown by (auto simp: domain_reset_def)
qed (auto simp: FastDomain_init_def change_default_participant_qos_def Let_def
    intro: domain_ok_remove domain_ok_enable domain_ok_shutdown)

subsection \<open>Properties\<close>

text \<open>
  C37: In every reachable state of a domain the slots hold participants with different
  addresses and no moved-from pointer, so \<open>enable_all\<close> and \<open>shutdown_all\<close> return.
\<close>

theorem domain_slots_valid:
  assumes "domain_reach api d"
  shows "domain_ok d \<and> (\<exists>e. enable_all d = Inr e \<and> domain_ok e) \<and> (\<exists>e. shutdown_all d = Inr e)"
proof -
  have ok: "domain_ok d" by (rule domain_reach_ok[OF assms])
  then obtain ps where "dom_participants d = map Some ps" by (auto simp: domain_ok_def)
  then have "\<exists>e. enable_all d = Inr e" "\<exists>e. shutdown_all d = Inr e"
    by (simp_all add: enable_all_def enable_slots_ok shutdown_all_def disable_slots_ok)
  then show ?thesis using ok domain_ok_enable by blast
qed

theorem domain_slots_valid_witness:
  "\<exists>e. enable_all (snd (create_participant loop_dds (FastDomain_new loop_dds 0 0))) = Inr e"
proof -
  have "domain_reach loop_dds (snd (create_participant loop_dds (FastDomain_new loop_dds 0 0)))"
    by (rule dr_create[OF dr_new[of loop_dds 0 0], of _ "fst (create_participant loop_dds (FastDomain_new loop_dds 0 0))"])
      simp_all
  from domain_slots_valid[OF this] show ?thesis by blast
qed

text \<open>
  \<open>remove_participant\<close> removes the participant that was created last. For any other one
  \<open>remove_if\<close> has left a moved-from pointer at the position it returns, and the call to
  \<open>disable()\<close> goes through null.
\<close>

lemma remove_participant_only_last:
  assumes "domain_reach api d" "dom_participants d = map Some (ps @ (a, p) # qs)"
  shows "remove_participant (Some a) d =
    (if qs = [] then Inr (d\<lparr>dom_participants := map Some ps\<rparr>) else Inl (NullDeref ''(*it)''))"
proof -
  obtain rs where "dom_participants d = map Some rs" "distinct (map fst rs)"
    using domain_reach_ok[OF assms(1)] by (auto simp: domain_ok_def)
  moreover from this(1) assms(2) have "rs = ps @ (a, p) # qs"
    by (metis inj_Some inj_map_eq_map)
  ultimately show ?thesis using remove_participant_split[OF assms(2)] by simp
qed

text \<open>
  After \<open>init()\<close> a participant is created with the user data \<open>indra_participant\<close>, but
  \<open>apply_qos()\<close> sends the member that \<open>on_init\<close> never filled: it puts the library's default
  back.
\<close>

lemma apply_qos_drops_user_data:
  assumes "\<forall>w. fst (api_call api (SetDefaultParticipantQos (set_user_data_text ''indra_participant''
      (api_participant_qos api))) w) = RETCODE_OK"
    and "create_participant api (FastDomain_init api d) = (a, e)"
  shows "\<exists>p. last (dom_participants e) = Some (a, p)
    \<and> last (dds_trace (dom_dds e)) = Created (CreateParticipant 0
        ((api_participant_qos api)\<lparr>pq_user_data := bytes_of ''indra_participant''\<rparr>)) (part_native p)
    \<and> (case part_native p of None \<Rightarrow> FastParticipant_apply_qos api p s = s
       | Some n \<Rightarrow> \<exists>r. dds_trace (FastParticipant_apply_qos api p s) =
           dds_trace s @ [Called (SetParticipantQos n (api_participant_qos api)) r])"
proof -
  let ?q = "set_user_data_text ''indra_participant'' (api_participant_qos api)"
  have "fst (dds_call api (SetDefaultParticipantQos ?q) (dom_dds d)) = RETCODE_OK"
    using assms(1) by (simp add: dds_call_def split_beta)
  then have q: "dom_default_qos (FastDomain_init api d) = ?q"
    by (simp add: FastDomain_init_def change_default_participant_qos_def set_default_participant_qos_def
      Let_def split_beta)
  show ?thesis using assms(2)
    by (auto simp: create_participant_def FastParticipant_new_def q set_user_data_text_def Let_def split_beta
      FastParticipant_apply_qos_def split: option.splits)
qed

end
