(* ===== verification/SubRun.thy ===== *)
theory SubRun
  imports SubTest FastSub FastControl Cyclone PubRun "HOL-Library.Multiset"
begin

section \<open>The subscribing test with the Fast DDS subscribers\<close>

text \<open>
  What \<open>sub_test_1_to_1\<close> measures when it runs on \<open>FastSub\<close> and \<open>FastSubControl\<close>: one read
  that finds a start command arms the test, the next one without a command measures once.
  The two readers are queues of unread samples (\<open>queue_reader\<close> of \<open>Writer\<close>).
\<close>

subsection \<open>One read of the node\<close>

text \<open>The last control message of a backlog decides.\<close>

lemma fast_read_polled:
  assumes "queue_reader capi hc qc" "p_endpoint (fsc_ptrs (sb_sub_control t)) = Some hc"
    and "valid_samples (qc (fsc_reader (sb_sub_control t))) \<noteq> []"
    and "last (valid_samples (qc (fsc_reader (sb_sub_control t)))) = m"
  obtains d where "sub_read (FastSub_ISub eapi api) (FastSubControl_ISubControl eapi' capi) opens clk (t, e) =
      Some (Inr (sub_apply_config (FastSub_ISub eapi api) (config_of m) (t\<lparr>sb_sub_control := d\<rparr>), e))"
    and "qc (fsc_reader d) = []" and "fsc_ptrs d = fsc_ptrs (sb_sub_control t)"
proof -
  from poll_control_queue[OF assms(1,2), of TestConfig_new] assms(3,4) obtain d where
    p: "sc_poll_control (FastSubControl_ISubControl eapi' capi) TestConfig_new (sb_sub_control t) =
      Some (Inr (True, config_of m, d))"
    and d: "qc (fsc_reader d) = []" "fsc_ptrs d = fsc_ptrs (sb_sub_control t)"
    by (auto simp: FastSubControl_ISubControl_def)
  show thesis by (rule that[OF sub_read_polled[OF p] d])
qed

lemma fast_read_quiet:
  assumes "queue_reader capi hc qc" "p_endpoint (fsc_ptrs (sb_sub_control t)) = Some hc"
    and "qc (fsc_reader (sb_sub_control t)) = []"
  obtains d where "sub_read (FastSub_ISub eapi api) (FastSubControl_ISubControl eapi' capi) opens clk (t, e) =
      (if sb_test_active t then sub_measure (FastSub_ISub eapi api) opens clk (t\<lparr>sb_sub_control := d\<rparr>, e)
       else Some (Inr (t\<lparr>sb_sub_control := d\<rparr>, e)))"
    and "qc (fsc_reader d) = []" and "fsc_ptrs d = fsc_ptrs (sb_sub_control t)"
proof -
  from poll_control_queue[OF assms(1,2), of TestConfig_new] assms(3) obtain d where
    p: "sc_poll_control (FastSubControl_ISubControl eapi' capi) TestConfig_new (sb_sub_control t) =
      Some (Inr (False, TestConfig_new, d))"
    and d: "qc (fsc_reader d) = []" "fsc_ptrs d = fsc_ptrs (sb_sub_control t)"
    by (auto simp: FastSubControl_ISubControl_def valid_samples_def)
  show thesis by (rule that[OF sub_read_quiet[OF p] d])
qed

lemma run_without_loan_keeps:
  "FastSub_run_without_loan api k s = Inr (b, l, t) \<Longrightarrow> fs_ptrs t = fs_ptrs s \<and> fs_capacity t = fs_capacity s"
  by (auto simp: FastSub_run_without_loan_def FastSub_verdict_def Let_def flow)

text \<open>The measurement in normal mode, for a number of entities the vectors have room for.\<close>

lemma fast_measure_normal:
  fixes t :: "(('w, 'e) FastSub, 'd) sub_test"
  assumes q: "queue_reader api h q" "p_endpoint (fs_ptrs (sb_sub t)) = Some h"
    and n: "fs_expected_messages_cycle (sb_sub t) = int n" "n \<le> fs_capacity (sb_sub t)" "n < 2 ^ 31"
    and mode: "sb_process_type t = Normal"
    and ids: "ids = {ent_id m | m. (m, True) \<in> set (take n (q (fs_reader (sb_sub t))))}"
  obtains t' e' where "sub_measure (FastSub_ISub eapi api) opens clk (t, e) = Some (Inr (t', e'))"
    and "sb_test_validation t' = sb_test_validation t @ [if card ids = n then VALID else INVALID]"
    and "sb_total_lost_samples t' =
      i32 (sb_total_lost_samples t + (if card ids = n then 0 else int n - int (card ids)))"
    and "pb_current_test t' = i32 (pb_current_test t + 1)" and "\<not> sb_test_active t'"
    and "q (fs_reader (sb_sub t')) = drop n (q (fs_reader (sb_sub t)))"
    and "fs_ptrs (sb_sub t') = fs_ptrs (sb_sub t)" "fs_capacity (sb_sub t') = fs_capacity (sb_sub t)"
    and "sb_sub_control t' = sb_sub_control t"
proof -
  let ?S = "FastSub_ISub eapi api :: ('w, 'e) FastSub ISub"
  let ?s = "is_reset_samples ?S (sb_sub t)"
  have s: "p_endpoint (fs_ptrs ?s) = Some h" "fs_expected_messages_cycle ?s = int n"
    "n \<le> fs_capacity ?s" "fs_reader ?s = fs_reader (sb_sub t)"
    using q n by (simp_all add: FastSub_ISub_def FastSub_reset_samples_def)
  have m: "min n (length (q (fs_reader ?s))) \<le> fs_capacity ?s" using s(3) by simp
  from run_without_loan_queue[OF q(1) s(1,2) m n(3), of 0] obtain u where u:
    "FastSub_run_without_loan api 0 ?s = Inr (card (fs_received_ids u) = n,
       if card (fs_received_ids u) = n then 0 else int n - int (card (fs_received_ids u)), u)"
    "fs_received_ids u = ids" "q (fs_reader u) = drop n (q (fs_reader (sb_sub t)))"
    unfolding s(4) ids by blast
  have r: "sub_run ?S (sb_process_type t) 0 ?s = Some (Inr (card ids = n,
      if card ids = n then 0 else int n - int (card ids), u))"
    using u mode by (simp add: sub_run_def FastSub_ISub_def)
  from sub_measure_returns[OF r, of opens clk e] obtain t' e' where
    m: "sub_measure ?S opens clk (t, e) = Some (Inr (t', e'))" by blast
  show thesis
  proof (rule sub_measure_result[OF m])
    fix result lost v
    assume v: "sub_run ?S (sb_process_type t) 0 ?s = Some (Inr (result, lost, v))"
      and f: "sb_test_validation t' = sb_test_validation t @ [if result then VALID else INVALID]"
        "sb_total_lost_samples t' = i32 (sb_total_lost_samples t + lost)"
        "pb_current_test t' = i32 (pb_current_test t + 1)" "\<not> sb_test_active t'"
        "sb_sub t' = is_reset_samples ?S v" "sb_sub_control t' = sb_sub_control t"
    from v r have "result = (card ids = n)" "v = u"
      "lost = (if card ids = n then 0 else int n - int (card ids))" by auto
    with f u(3) run_without_loan_keeps[OF u(1)] show thesis
      by (intro that[OF m]) (simp_all add: FastSub_ISub_def FastSub_reset_samples_def)
  qed
qed

text \<open>A batch as it is sent has as many different ids as entities, in whatever order it arrives.\<close>

lemma batch_ids: "ent_id ` set (batch (int n)) = int ` {0..<n}"
  by (auto simp: batch_def numbered_entity_def image_def)

lemma delivered_batch_ids:
  assumes "mset xs = mset (batch (int n))"
  shows "card {ent_id m | m. (m, True) \<in> set (take n (map (\<lambda>x. (x, True)) xs))} = n"
proof -
  have s: "set xs = set (batch (int n))" using assms by (rule mset_eq_setD)
  have "length xs = n" using mset_eq_length[OF assms] by (simp add: batch_def)
  then have "{ent_id m | m. (m, True) \<in> set (take n (map (\<lambda>x. (x, True)) xs))} = ent_id ` set xs" by auto
  also have "\<dots> = int ` {0..<n}" by (simp only: s batch_ids)
  finally show ?thesis by (simp add: card_image)
qed

text \<open>Arming and measuring, over two reads.\<close>

lemma start_then_measure:
  assumes "queue_reader capi hc qc" "p_endpoint (fsc_ptrs (sb_sub_control t)) = Some hc"
    and "queue_reader api h q" "p_endpoint (fs_ptrs (sb_sub t)) = Some h"
    and "valid_samples (qc (fsc_reader (sb_sub_control t))) \<noteq> []"
    and "last (valid_samples (qc (fsc_reader (sb_sub_control t)))) = start_msg k (int n) False"
    and "n \<le> fs_capacity (sb_sub t)" "n < 2 ^ 31"
    and "ids = {ent_id m | m. (m, True) \<in> set (take n (q w))}"
  shows "\<exists>t1 t2 e2. sub_read (FastSub_ISub eapi api) (FastSubControl_ISubControl eapi' capi) opens clk (t, e)
        = Some (Inr (t1, e))
    \<and> sb_test_active t1 \<and> sb_current_test_id t1 = k \<and> sb_test_validation t1 = sb_test_validation t
    \<and> fs_reader (sb_sub t1) = fs_reader (sb_sub t)
    \<and> sub_read (FastSub_ISub eapi api) (FastSubControl_ISubControl eapi' capi) opens clk
        (t1\<lparr>sb_sub := (sb_sub t1)\<lparr>fs_reader := w\<rparr>\<rparr>, e) = Some (Inr (t2, e2))
    \<and> sb_test_validation t2 = sb_test_validation t @ [if card ids = n then VALID else INVALID]
    \<and> sb_total_lost_samples t2 =
        i32 (sb_total_lost_samples t + (if card ids = n then 0 else int n - int (card ids)))
    \<and> \<not> sb_test_active t2 \<and> q (fs_reader (sb_sub t2)) = drop n (q w)"
proof -
  from fast_read_polled[OF assms(1,2,5,6), where eapi = eapi and api = api and eapi' = eapi' and opens = opens and clk = clk and e = e] obtain d where
    r1: "sub_read (FastSub_ISub eapi api) (FastSubControl_ISubControl eapi' capi) opens clk (t, e) =
      Some (Inr (sub_apply_config (FastSub_ISub eapi api) (config_of (start_msg k (int n) False))
        (t\<lparr>sb_sub_control := d\<rparr>), e))"
    and d: "qc (fsc_reader d) = []" "fsc_ptrs d = fsc_ptrs (sb_sub_control t)" by blast
  let ?t1 = "sub_apply_config (FastSub_ISub eapi api) (config_of (start_msg k (int n) False)) (t\<lparr>sb_sub_control := d\<rparr>)"
  let ?u = "?t1\<lparr>sb_sub := (sb_sub ?t1)\<lparr>fs_reader := w\<rparr>\<rparr>"
  have a: "sb_test_active ?t1" "sb_current_test_id ?t1 = k" "sb_test_validation ?t1 = sb_test_validation t"
    "fs_reader (sb_sub ?t1) = fs_reader (sb_sub t)" "sb_total_lost_samples ?t1 = sb_total_lost_samples t"
    "sb_sub_control ?u = d" "sb_test_active ?u"
    by (simp_all add: sub_apply_config_def config_of_def start_msg_def FastSub_ISub_def)
  have c: "p_endpoint (fsc_ptrs (sb_sub_control ?u)) = Some hc" "qc (fsc_reader (sb_sub_control ?u)) = []"
    using d assms(2) a(6) by simp_all
  from fast_read_quiet[OF assms(1) c, where eapi = eapi and api = api and eapi' = eapi' and opens = opens and clk = clk and e = e] a(7) obtain d2 where
    r2: "sub_read (FastSub_ISub eapi api) (FastSubControl_ISubControl eapi' capi) opens clk (?u, e) =
      sub_measure (FastSub_ISub eapi api) opens clk (?u\<lparr>sb_sub_control := d2\<rparr>, e)" by auto
  let ?v = "?u\<lparr>sb_sub_control := d2\<rparr>"
  have v: "p_endpoint (fs_ptrs (sb_sub ?v)) = Some h" "fs_expected_messages_cycle (sb_sub ?v) = int n"
    "n \<le> fs_capacity (sb_sub ?v)" "sb_process_type ?v = Normal" "fs_reader (sb_sub ?v) = w"
    "sb_test_validation ?v = sb_test_validation t" "sb_total_lost_samples ?v = sb_total_lost_samples t"
    using assms(4,7) by (simp_all add: sub_apply_config_def config_of_def start_msg_def FastSub_ISub_def
      TestControl_new_def)
  have "ids = {ent_id m | m. (m, True) \<in> set (take n (q (fs_reader (sb_sub ?v))))}"
    using assms(9) v(5) by simp
  from fast_measure_normal[OF assms(3) v(1,2,3) assms(8) v(4) this, of eapi opens clk e]
  obtain t2 e2 where "sub_measure (FastSub_ISub eapi api) opens clk (?v, e) = Some (Inr (t2, e2))"
    "sb_test_validation t2 = sb_test_validation t @ [if card ids = n then VALID else INVALID]"
    "sb_total_lost_samples t2 =
        i32 (sb_total_lost_samples t + (if card ids = n then 0 else int n - int (card ids)))"
    "\<not> sb_test_active t2" "q (fs_reader (sb_sub t2)) = drop n (q w)"
    unfolding v(5,6,7) by metis
  with r1 r2 a show ?thesis by (intro exI[of _ ?t1] exI[of _ t2] exI[of _ e2]) simp
qed

subsection \<open>Properties\<close>

text \<open>
  C28: The books of a subscriber, for any pair of subscribers: at every point of a run there is
  one verdict and one CPU time per counted test, the run is in execution while fewer tests
  than configured are done, and ends with the last one.
\<close>

theorem sub_run_books:
  assumes "sub_test_init S D (sub_test_new S config s d) = Inr t0" "in_execution e0"
    and "is_i32 (tcf_test_count config)"
    and "sub_reach S D opens clk F G (t0, e0) (t, e)"
  shows "int (length (sb_test_validation t)) = pb_current_test t
    \<and> length (dvalues (sb_cpu_times t)) = length (sb_test_validation t)
    \<and> (in_execution e \<longleftrightarrow> pb_current_test t < max 1 (tcf_test_count config))"
proof -
  have "sub_books (t0, e0)" "pb_max_test t0 = tcf_test_count config"
    using assms(1-3) by (auto simp: sub_test_init_def sub_test_new_def sub_books_def Distribution_new_def
      elim!: rbind_InrE)
  then have b: "sub_books (t, e)" "pb_max_test t = tcf_test_count config"
    using sub_reach_books[OF assms(4)] by simp_all
  then show ?thesis by (simp add: sub_books_def)
qed

theorem sub_run_books_witness:
  "\<exists>t0 t e. sub_reach CycloneSub_ISub CycloneSubControl_ISubControl (\<lambda>_. True) int {} {}
      (t0, Executive_new\<lparr>ex_currentState := EXECUTION\<rparr>) (t, e)
    \<and> length (sb_test_validation t) = 0 \<and> in_execution e"
proof -
  let ?e = "Executive_new\<lparr>ex_currentState := EXECUTION\<rparr>"
  let ?t = "sub_test_new CycloneSub_ISub test_config_new stub_sub_new ()"
  have i: "sub_test_init CycloneSub_ISub CycloneSubControl_ISubControl ?t = Inr ?t"
    by (simp add: sub_test_init_def sub_test_new_def CycloneSub_ISub_def CycloneSubControl_ISubControl_def)
  have x: "in_execution ?e" by (simp add: in_execution_def)
  have r: "sub_reach CycloneSub_ISub CycloneSubControl_ISubControl (\<lambda>_. True) int {} {} (?t, ?e) (?t, ?e)"
    by (rule sub_start)
  have "is_i32 (tcf_test_count test_config_new)" by (simp add: test_config_new_def is_i32_def)
  from sub_run_books[OF i x this r] x r show ?thesis
    by (intro exI[of _ ?t] exI[of _ ?e]) (simp add: sub_test_new_def)
qed

text \<open>
  C26: A start command arms the Fast DDS subscriber and the read after it measures once. When the
  last valid control message announces \<open>n\<close> entities in normal mode, no more than the vectors of the
  subscriber have room for, the first read takes the
  configuration over and leaves the data alone; whatever \<open>w\<close> the data reader then holds, the
  second read counts the different ids of its first \<open>n\<close> samples, appends the verdict, adds what
  is missing to the lost samples and disarms.
\<close>

theorem fast_start_then_measure:
  assumes "queue_reader capi hc qc" "p_endpoint (fsc_ptrs (sb_sub_control t)) = Some hc"
    and "queue_reader api h q" "p_endpoint (fs_ptrs (sb_sub t)) = Some h"
    and "valid_samples (qc (fsc_reader (sb_sub_control t))) \<noteq> []"
    and "last (valid_samples (qc (fsc_reader (sb_sub_control t)))) = start_msg k (int n) False"
    and "n \<le> fs_capacity (sb_sub t)" "n < 2 ^ 31"
    and "ids = {ent_id m | m. (m, True) \<in> set (take n (q w))}"
  shows "\<exists>t1 t2 e2. sub_read (FastSub_ISub eapi api) (FastSubControl_ISubControl eapi' capi) opens clk (t, e)
        = Some (Inr (t1, e))
    \<and> sb_test_active t1 \<and> sb_current_test_id t1 = k \<and> sb_test_validation t1 = sb_test_validation t
    \<and> fs_reader (sb_sub t1) = fs_reader (sb_sub t)
    \<and> sub_read (FastSub_ISub eapi api) (FastSubControl_ISubControl eapi' capi) opens clk
        (t1\<lparr>sb_sub := (sb_sub t1)\<lparr>fs_reader := w\<rparr>\<rparr>, e) = Some (Inr (t2, e2))
    \<and> sb_test_validation t2 = sb_test_validation t @ [if card ids = n then VALID else INVALID]
    \<and> sb_total_lost_samples t2 =
        i32 (sb_total_lost_samples t + (if card ids = n then 0 else int n - int (card ids)))
    \<and> \<not> sb_test_active t2 \<and> q (fs_reader (sb_sub t2)) = drop n (q w)"
  by (rule start_then_measure[OF assms])

definition armed_sub :: "(TestControl \<times> bool) list \<Rightarrow> (AirEntity \<times> bool) list
    \<Rightarrow> (((AirEntity \<times> bool) list, nat) FastSub, ((TestControl \<times> bool) list, nat) FastSubControl) sub_test" where
  "armed_sub cs w = sub_test_new (FastSub_ISub loop_dds (loop_reader AirEntity_new)) test_config_new
     (ready_sub 0 w) (ready_sub_control cs)"

lemma armed_sub_fields:
  "p_endpoint (fsc_ptrs (sb_sub_control (armed_sub cs w))) = Some 3"
  "fsc_reader (sb_sub_control (armed_sub cs w)) = cs"
  "p_endpoint (fs_ptrs (sb_sub (armed_sub cs w))) = Some 3"
  "fs_capacity (sb_sub (armed_sub cs w)) = 1000" "fs_reader (sb_sub (armed_sub cs w)) = w"
  "sb_test_validation (armed_sub cs w) = []" "sb_total_lost_samples (armed_sub cs w) = 0"
  by (simp_all add: armed_sub_def sub_test_new_def ready_sub_def ready_sub_control_def
    FastSub_new_def FastSubControl_new_def FastSub_ISub_def)

theorem fast_start_then_measure_witness:
  "\<exists>t1 t2 e2. sub_read (FastSub_ISub loop_dds (loop_reader AirEntity_new))
        (FastSubControl_ISubControl loop_dds (loop_reader TestControl_new)) (\<lambda>_. True) int
        (t1\<lparr>sb_sub := (sb_sub t1)\<lparr>fs_reader := [(entity_with_id 0, True), (entity_with_id 0, True)]\<rparr>\<rparr>, Executive_new)
        = Some (Inr (t2, e2))
    \<and> sb_test_validation t2 = [INVALID] \<and> sb_total_lost_samples t2 = 1 \<and> fs_reader (sb_sub t2) = []"
proof -
  let ?t = "armed_sub [(stop_msg 0, True), (start_msg 1 (int 2) False, True)] []"
  let ?w = "[(entity_with_id 0, True), (entity_with_id 0, True)]"
  have i: "{0} = {ent_id m | m. (m, True) \<in> set (take 2 ?w)}"
    by (auto simp: entity_with_id_def)
  have l: "last (valid_samples (fsc_reader (sb_sub_control ?t))) = start_msg 1 (int 2) False"
    "valid_samples (fsc_reader (sb_sub_control ?t)) \<noteq> []"
    by (simp_all only: armed_sub_fields) (simp_all add: valid_samples_def)
  have b: "(2::nat) \<le> fs_capacity (sb_sub ?t)" "(2::nat) < 2 ^ 31" by (simp_all add: armed_sub_fields)
  show ?thesis
    using fast_start_then_measure[OF loop_reader_queue[where d = TestControl_new] armed_sub_fields(1) loop_reader_queue[where d = AirEntity_new] armed_sub_fields(3)
        l(2,1) b i, where eapi = loop_dds and eapi' = loop_dds and opens = "\<lambda>_. True" and clk = int and e = Executive_new]
    by (auto simp: armed_sub_fields i32_def)
qed

text \<open>
  C25: A batch that arrives whole is a valid test. When the start command announces, in normal mode,
  the \<open>n\<close> entities the publishing test sends in one cycle, no more than the vectors of the subscriber
  have room for, and exactly these arrive, in any order, the
  second read records a valid test and no lost sample, and leaves the reader empty.
\<close>

theorem fast_delivered_batch_is_valid:
  assumes "queue_reader capi hc qc" "p_endpoint (fsc_ptrs (sb_sub_control t)) = Some hc"
    and "queue_reader api h q" "p_endpoint (fs_ptrs (sb_sub t)) = Some h"
    and "valid_samples (qc (fsc_reader (sb_sub_control t))) \<noteq> []"
    and "last (valid_samples (qc (fsc_reader (sb_sub_control t)))) = start_msg k (int n) False"
    and "n \<le> fs_capacity (sb_sub t)" "n < 2 ^ 31"
    and "q w = map (\<lambda>x. (x, True)) xs" "mset xs = mset (batch (int n))"
    and "is_i32 (sb_total_lost_samples t)"
  shows "\<exists>t1 t2 e2. sub_read (FastSub_ISub eapi api) (FastSubControl_ISubControl eapi' capi) opens clk (t, e)
        = Some (Inr (t1, e))
    \<and> sub_read (FastSub_ISub eapi api) (FastSubControl_ISubControl eapi' capi) opens clk
        (t1\<lparr>sb_sub := (sb_sub t1)\<lparr>fs_reader := w\<rparr>\<rparr>, e) = Some (Inr (t2, e2))
    \<and> sb_test_validation t2 = sb_test_validation t @ [VALID]
    \<and> sb_total_lost_samples t2 = sb_total_lost_samples t \<and> q (fs_reader (sb_sub t2)) = []"
proof -
  let ?ids = "{ent_id m | m. (m, True) \<in> set (take n (q w))}"
  have c: "card ?ids = n" using delivered_batch_ids[OF assms(10)] assms(9) by simp
  have len: "length (q w) = n" using mset_eq_length[OF assms(10)] assms(9) by (simp add: batch_def)
  have d: "drop n (q w) = []" by (simp add: len)
  from start_then_measure[OF assms(1-8) refl[of ?ids], where eapi = eapi and eapi' = eapi' and opens = opens and clk = clk and e = e]
  show ?thesis using assms(11) unfolding c d by (auto simp: i32_id)
qed

theorem fast_delivered_batch_is_valid_witness:
  "\<exists>t1 t2 e2. sub_read (FastSub_ISub loop_dds (loop_reader AirEntity_new))
        (FastSubControl_ISubControl loop_dds (loop_reader TestControl_new)) (\<lambda>_. True) int
        (t1\<lparr>sb_sub := (sb_sub t1)\<lparr>fs_reader := [(numbered_entity 1, True), (numbered_entity 0, True)]\<rparr>\<rparr>, Executive_new)
        = Some (Inr (t2, e2))
    \<and> sb_test_validation t2 = [VALID] \<and> sb_total_lost_samples t2 = 0"
proof -
  let ?t = "armed_sub [(start_msg 1 (int 2) False, True)] []"
  let ?xs = "[numbered_entity 1, numbered_entity 0]"
  have l: "last (valid_samples (fsc_reader (sb_sub_control ?t))) = start_msg 1 (int 2) False"
    "valid_samples (fsc_reader (sb_sub_control ?t)) \<noteq> []"
    by (simp_all only: armed_sub_fields) (simp_all add: valid_samples_def)
  have b: "(2::nat) \<le> fs_capacity (sb_sub ?t)" "(2::nat) < 2 ^ 31" "is_i32 (sb_total_lost_samples ?t)"
    by (simp_all add: armed_sub_fields is_i32_def)
  have w: "[(numbered_entity 1, True), (numbered_entity 0, True)] = map (\<lambda>x. (x, True)) ?xs" by simp
  have m: "mset ?xs = mset (batch (int 2))" by (simp add: batch_def numeral_2_eq_2)
  show ?thesis
    using fast_delivered_batch_is_valid[OF loop_reader_queue[where d = TestControl_new] armed_sub_fields(1) loop_reader_queue[where d = AirEntity_new] armed_sub_fields(3)
        l(2,1) b(1,2) w m b(3), where eapi = loop_dds and eapi' = loop_dds and opens = "\<lambda>_. True" and clk = int and e = Executive_new]
    by (auto simp: armed_sub_fields)
qed

text \<open>
  C27: A stop command cancels a start that was not yet measured. When the last valid control
  message is a stop, as when start and stop arrive between two reads, the read counts no test
  and takes no sample, and neither does the next one: the test is lost without a verdict.
\<close>

theorem fast_stop_cancels:
  assumes "queue_reader capi hc qc" "p_endpoint (fsc_ptrs (sb_sub_control t)) = Some hc"
    and "valid_samples (qc (fsc_reader (sb_sub_control t))) \<noteq> []"
    and "last (valid_samples (qc (fsc_reader (sb_sub_control t)))) = stop_msg k"
  shows "\<exists>t1 t2. sub_read (FastSub_ISub eapi api) (FastSubControl_ISubControl eapi' capi) opens clk (t, e)
        = Some (Inr (t1, e))
    \<and> sub_read (FastSub_ISub eapi api) (FastSubControl_ISubControl eapi' capi) opens clk (t1, e)
        = Some (Inr (t2, e))
    \<and> sb_test_validation t2 = sb_test_validation t \<and> pb_current_test t2 = pb_current_test t
    \<and> fs_reader (sb_sub t2) = fs_reader (sb_sub t) \<and> \<not> sb_test_active t2"
proof -
  from fast_read_polled[OF assms, where eapi = eapi and api = api and eapi' = eapi' and opens = opens and clk = clk and e = e] obtain d where
    r1: "sub_read (FastSub_ISub eapi api) (FastSubControl_ISubControl eapi' capi) opens clk (t, e) =
      Some (Inr (sub_apply_config (FastSub_ISub eapi api) (config_of (stop_msg k)) (t\<lparr>sb_sub_control := d\<rparr>), e))"
    and d: "qc (fsc_reader d) = []" "fsc_ptrs d = fsc_ptrs (sb_sub_control t)" by blast
  let ?t1 = "sub_apply_config (FastSub_ISub eapi api) (config_of (stop_msg k)) (t\<lparr>sb_sub_control := d\<rparr>)"
  have f: "\<not> sb_test_active ?t1" "sb_sub_control ?t1 = d" "sb_test_validation ?t1 = sb_test_validation t"
    "pb_current_test ?t1 = pb_current_test t" "fs_reader (sb_sub ?t1) = fs_reader (sb_sub t)"
    by (simp_all add: sub_apply_config_def config_of_def stop_msg_def FastSub_ISub_def)
  have c: "p_endpoint (fsc_ptrs (sb_sub_control ?t1)) = Some hc" "qc (fsc_reader (sb_sub_control ?t1)) = []"
    using d assms(2) f(2) by simp_all
  from fast_read_quiet[OF assms(1) c, where eapi = eapi and api = api and eapi' = eapi' and opens = opens and clk = clk and e = e] f(1) obtain d2 where
    "sub_read (FastSub_ISub eapi api) (FastSubControl_ISubControl eapi' capi) opens clk (?t1, e) =
      Some (Inr (?t1\<lparr>sb_sub_control := d2\<rparr>, e))" by auto
  with r1 f show ?thesis by (intro exI[of _ ?t1] exI[of _ "?t1\<lparr>sb_sub_control := d2\<rparr>"]) simp
qed

theorem fast_stop_cancels_witness:
  "\<exists>t1 t2. sub_read (FastSub_ISub loop_dds (loop_reader AirEntity_new))
        (FastSubControl_ISubControl loop_dds (loop_reader TestControl_new)) (\<lambda>_. True) int
        (armed_sub [(start_msg 1 1 False, True), (stop_msg 1, True)] [(entity_with_id 0, True)], Executive_new)
        = Some (Inr (t1, Executive_new))
    \<and> sub_read (FastSub_ISub loop_dds (loop_reader AirEntity_new))
        (FastSubControl_ISubControl loop_dds (loop_reader TestControl_new)) (\<lambda>_. True) int (t1, Executive_new)
        = Some (Inr (t2, Executive_new))
    \<and> sb_test_validation t2 = [] \<and> fs_reader (sb_sub t2) = [(entity_with_id 0, True)]"
proof -
  let ?t = "armed_sub [(start_msg 1 1 False, True), (stop_msg 1, True)] [(entity_with_id 0, True)]"
  have l: "last (valid_samples (fsc_reader (sb_sub_control ?t))) = stop_msg 1"
    "valid_samples (fsc_reader (sb_sub_control ?t)) \<noteq> []"
    by (simp_all only: armed_sub_fields) (simp_all add: valid_samples_def)
  show ?thesis
    using fast_stop_cancels[OF loop_reader_queue[where d = TestControl_new] armed_sub_fields(1) l(2,1), where eapi = loop_dds
        and api = "loop_reader AirEntity_new" and eapi' = loop_dds and opens = "\<lambda>_. True" and clk = int
        and e = Executive_new]
    by (simp add: armed_sub_fields) blast
qed

end
