(* ===== verification/TwoNodes.thy ===== *)
theory TwoNodes
  imports SubRun Vendors
begin

section \<open>A publishing and a subscribing node together\<close>

text \<open>
  The two test patterns on two nodes, both with the Fast DDS classes. One \<open>joint_round\<close> is a cycle of
  the publisher, the delivery, and a cycle of the subscriber, each node while its executive is in
  execution. The logs \<open>FastPub_sent\<close> and \<open>FastPubControl_commands\<close> say what was written; the two
  readers get what was added to them.

  The network is one that loses nothing, duplicates nothing and is fast: what a cycle of the
  publisher wrote arrives, in order, before the next cycle of the subscriber. BEST_EFFORT does not
  promise that, so it is a hypothesis. What the reader then keeps is limited by its QoS, the one
  \<open>init\<close> gives it: samples of at most so many instances, so many in all and so many of each
  instance. A sample beyond a limit may replace another one or be dropped, and \<open>delivers\<close> says nothing then.
\<close>

definition within_limit :: "int \<Rightarrow> nat \<Rightarrow> bool" where
  "within_limit limit n \<longleftrightarrow> limit \<le> 0 \<or> int n \<le> limit"

definition qos_admits :: "endpoint_qos \<Rightarrow> ('m \<Rightarrow> int) \<Rightarrow> int set \<Rightarrow> 'm list \<Rightarrow> bool" where
  "qos_admits qos key instances ms \<longleftrightarrow> key ` set ms \<subseteq> instances
     \<and> within_limit (rl_max_instances (q_limits qos)) (card instances)
     \<and> within_limit (rl_max_samples (q_limits qos)) (length ms)
     \<and> (\<forall>k \<in> key ` set ms. within_limit (rl_max_samples_per_instance (q_limits qos)) (count_list (map key ms) k)
         \<and> (q_history qos = KEEP_LAST \<longrightarrow> int (count_list (map key ms) k) \<le> q_depth qos))"

definition delivers :: "endpoint_qos \<Rightarrow> ('m \<Rightarrow> int) \<Rightarrow> int set \<Rightarrow> ('m list \<Rightarrow> 'w \<Rightarrow> 'w) \<Rightarrow> ('w \<Rightarrow> ('m \<times> bool) list) \<Rightarrow> bool" where
  "delivers qos key instances dv q \<longleftrightarrow> (\<forall>xs w. qos_admits qos key instances (map fst (q w) @ xs) \<longrightarrow>
     q (dv xs w) = q w @ map (\<lambda>x. (x, True)) xs)"

text \<open>
  Of a run of \<open>T\<close> tests with \<open>m\<close> entities each the QoS admits every cycle, as long as the reader is
  emptied in between: the entities of a batch are different instances, at most the 200 of the QoS, and
  the same ones in every test; a cycle sends at most one command.
\<close>

definition run_delivers :: "int \<Rightarrow> int \<Rightarrow> (AirEntity list \<Rightarrow> 'w \<Rightarrow> 'w) \<Rightarrow> ('w \<Rightarrow> (AirEntity \<times> bool) list)
    \<Rightarrow> (TestControl list \<Rightarrow> 'v \<Rightarrow> 'v) \<Rightarrow> ('v \<Rightarrow> (TestControl \<times> bool) list) \<Rightarrow> bool" where
  "run_delivers T m da q dc qc \<longleftrightarrow>
     (\<forall>w. q w = [] \<longrightarrow> q (da [] w) = [] \<and> q (da (batch m) w) = map (\<lambda>x. (x, True)) (batch m))
   \<and> (\<forall>w. qc w = [] \<longrightarrow> qc (dc [] w) = [] \<and> (\<forall>c. tc_test_id c \<in> {1..T} \<longrightarrow> qc (dc [c] w) = [(c, True)]))"

lemma ids_of_batch: "0 \<le> m \<Longrightarrow> map ent_id (batch m) = map int [0..<nat m]"
  by (rule nth_equalityI) (simp_all add: batch_def numbered_entity_def)

lemma run_delivers:
  assumes "delivers (FastSub_reader_qos gapi) ent_id {0..<m} da q"
    and "delivers (FastSubControl_reader_qos gapi) tc_test_id {1..T} dc qc" and m: "0 \<le> m" "m \<le> 200"
  shows "run_delivers T m da q dc qc"
proof -
  have b: "ent_id ` set (batch m) \<subseteq> {0..<m}"
    using arg_cong[OF ids_of_batch[OF m(1)], of set] m(1) by auto
  have c: "count_list (map ent_id (batch m)) k \<le> 1" for k
    unfolding ids_of_batch[OF m(1)]
    by (simp add: count_list_eq_length_filter distinct_length_filter) (simp add: card_le_Suc0_iff_eq)
  have l: "length (batch m) = nat m" by (simp add: batch_def)
  have a: "qos_admits (FastSub_reader_qos gapi) ent_id {0..<m} ms" if "ms = [] \<or> ms = batch m" for ms
    using that b c l m by (auto simp: qos_admits_def within_limit_def FastSub_reader_qos_def Let_def)
  have d: "qos_admits (FastSubControl_reader_qos gapi) tc_test_id {1..T} ms"
    if "ms = [] \<or> (\<exists>c. ms = [c] \<and> tc_test_id c \<in> {1..T})" for ms
    using that by (auto simp: qos_admits_def within_limit_def FastSubControl_reader_qos_def Let_def)
  show ?thesis unfolding run_delivers_def
  proof (intro conjI allI impI)
    fix w assume w: "q w = []"
    show "q (da [] w) = []" using assms(1)[unfolded delivers_def, rule_format, of w "[]"] a[of "[]"] w by simp
    show "q (da (batch m) w) = map (\<lambda>x. (x, True)) (batch m)"
      using assms(1)[unfolded delivers_def, rule_format, of w "batch m"] a[of "batch m"] w by simp
  next
    fix w assume w: "qc w = []"
    show "qc (dc [] w) = []" using assms(2)[unfolded delivers_def, rule_format, of w "[]"] d[of "[]"] w by simp
    fix c :: TestControl assume "tc_test_id c \<in> {1..T}"
    then show "qc (dc [c] w) = [(c, True)]"
      using assms(2)[unfolded delivers_def, rule_format, of w "[c]"] d[of "[c]"] w by simp
  qed
qed

definition arrive :: "(AirEntity list \<Rightarrow> 'w \<Rightarrow> 'w) \<Rightarrow> (TestControl list \<Rightarrow> 'v \<Rightarrow> 'v)
    \<Rightarrow> TestControl list \<times> AirEntity list
    \<Rightarrow> (('w, 'g) FastSub, ('v, 'h) FastSubControl) sub_test \<Rightarrow> (('w, 'g) FastSub, ('v, 'h) FastSubControl) sub_test" where
  "arrive da dc = (\<lambda>(cs, xs) u. u\<lparr>
     sb_sub := (sb_sub u)\<lparr>fs_reader := da xs (fs_reader (sb_sub u))\<rparr>,
     sb_sub_control := (sb_sub_control u)\<lparr>fsc_reader := dc cs (fsc_reader (sb_sub_control u))\<rparr>\<rparr>)"

definition written :: "(('wp, 'e) FastPub, ('wc, 'f) FastPubControl) pub_test
    \<Rightarrow> (('wp, 'e) FastPub, ('wc, 'f) FastPubControl) pub_test \<Rightarrow> TestControl list \<times> AirEntity list" where
  "written t t' =
     (drop (length (FastPubControl_commands (pt_pub_control t))) (FastPubControl_commands (pt_pub_control t')),
      drop (length (FastPub_sent (pt_pub t))) (FastPub_sent (pt_pub t')))"

type_synonym ('wp, 'wc, 'e) pub_side = "(('wp, 'e) FastPub, ('wc, 'e) FastPubControl) pub_test \<times> Executive"
type_synonym ('ws, 'wd, 'g) sub_side = "(('ws, 'g) FastSub, ('wd, 'g) FastSubControl) sub_test \<times> Executive"

definition pub_turn :: "'e dds_api \<Rightarrow> (AirEntity, 'wp) writer_api \<Rightarrow> (TestControl, 'wc) writer_api \<Rightarrow> (nat \<Rightarrow> int)
    \<Rightarrow> ('wp, 'wc, 'e) pub_side \<Rightarrow> ('wp, 'wc, 'e) pub_side res" where
  "pub_turn eapi wa wc clk p = (if in_execution (snd p)
     then pub_cycle (FastPub_IPub eapi wa) (FastPubControl_IPubControl eapi wc) clk p else Inr p)"

definition sub_turn :: "'g dds_api \<Rightarrow> (AirEntity, 'ws) reader_api \<Rightarrow> (TestControl, 'wd) reader_api \<Rightarrow> (string \<Rightarrow> bool)
    \<Rightarrow> (nat \<Rightarrow> int) \<Rightarrow> ('ws, 'wd, 'g) sub_side \<Rightarrow> ('ws, 'wd, 'g) sub_side comp" where
  "sub_turn gapi ra rc opens clk s = (if in_execution (snd s)
     then sub_read (FastSub_ISub gapi ra) (FastSubControl_ISubControl gapi rc) opens clk s else Some (Inr s))"

definition joint_round :: "'e dds_api \<Rightarrow> (AirEntity, 'wp) writer_api \<Rightarrow> (TestControl, 'wc) writer_api
    \<Rightarrow> 'g dds_api \<Rightarrow> (AirEntity, 'ws) reader_api \<Rightarrow> (TestControl, 'wd) reader_api
    \<Rightarrow> (AirEntity list \<Rightarrow> 'ws \<Rightarrow> 'ws) \<Rightarrow> (TestControl list \<Rightarrow> 'wd \<Rightarrow> 'wd) \<Rightarrow> (string \<Rightarrow> bool) \<Rightarrow> (nat \<Rightarrow> int)
    \<Rightarrow> ('wp, 'wc, 'e) pub_side \<times> ('ws, 'wd, 'g) sub_side
    \<Rightarrow> (('wp, 'wc, 'e) pub_side \<times> ('ws, 'wd, 'g) sub_side) comp" where
  "joint_round eapi wa wc gapi ra rc da dc opens clk = (\<lambda>(p, u, f).
     cbind (Some (pub_turn eapi wa wc clk p)) (\<lambda>p'.
     cbind (sub_turn gapi ra rc opens clk (arrive da dc (written (fst p) (fst p')) u, f)) (\<lambda>s.
       Some (Inr (p', s)))))"

fun joint_rounds :: "nat \<Rightarrow> 'e dds_api \<Rightarrow> (AirEntity, 'wp) writer_api \<Rightarrow> (TestControl, 'wc) writer_api
    \<Rightarrow> 'g dds_api \<Rightarrow> (AirEntity, 'ws) reader_api \<Rightarrow> (TestControl, 'wd) reader_api
    \<Rightarrow> (AirEntity list \<Rightarrow> 'ws \<Rightarrow> 'ws) \<Rightarrow> (TestControl list \<Rightarrow> 'wd \<Rightarrow> 'wd) \<Rightarrow> (string \<Rightarrow> bool) \<Rightarrow> (nat \<Rightarrow> int)
    \<Rightarrow> ('wp, 'wc, 'e) pub_side \<times> ('ws, 'wd, 'g) sub_side
    \<Rightarrow> (('wp, 'wc, 'e) pub_side \<times> ('ws, 'wd, 'g) sub_side) comp" where
  "joint_rounds 0 eapi wa wc gapi ra rc da dc opens clk s = Some (Inr s)"
| "joint_rounds (Suc n) eapi wa wc gapi ra rc da dc opens clk s =
     cbind (joint_rounds n eapi wa wc gapi ra rc da dc opens clk s)
       (joint_round eapi wa wc gapi ra rc da dc opens clk)"

subsection \<open>What the publisher has written in each phase\<close>

definition commands_at :: "int \<Rightarrow> phase \<times> nat \<Rightarrow> TestControl list" where
  "commands_at m = (\<lambda>(ph, k). test_commands m False k
     @ (case ph of Ready \<Rightarrow> [start_msg (int k + 1) m False] | Sent r \<Rightarrow> [start_msg (int k + 1) m False] | _ \<Rightarrow> []))"

definition sent_at :: "int \<Rightarrow> phase \<times> nat \<Rightarrow> AirEntity list" where
  "sent_at m = (\<lambda>(ph, k). concat (replicate (case ph of Sent r \<Rightarrow> Suc k | _ \<Rightarrow> k) (batch m)))"

context pub_node_up
begin

lemma live_output:
  assumes "live_at T m False pk (t, e)"
  shows "commands (pt_pub_control t) = commands_at m pk \<and> sent (pt_pub t) = sent_at m pk"
  using assms
  by (cases pk) (auto simp: live_at_def at_phase_def out_inv_def commands_at_def sent_at_def split: phase.splits)

end

text \<open>What the cycle after phase \<open>pk\<close> writes.\<close>

fun news_of :: "int \<Rightarrow> phase \<times> nat \<Rightarrow> TestControl list \<times> AirEntity list" where
  "news_of m (Waiting c, k) = (if c < 50 then ([], []) else ([start_msg (int k + 1) m False], []))"
| "news_of m (Ready, k) = ([], batch m)"
| "news_of m (Sent r, k) = (if r < 5 then ([], []) else ([stop_msg (int k + 1)], []))"
| "news_of m (Stopped r, k) = (if r < 5 then ([], []) else ([start_msg (int k + 1) m False], []))"

lemma concat_replicate_Suc: "concat (replicate (Suc n) xs) = concat (replicate n xs) @ xs"
  by (induction n) auto

lemma news_of_phase:
  "drop (length (commands_at m pk)) (commands_at m (next_phase pk)) = fst (news_of m pk)"
  "drop (length (sent_at m pk)) (sent_at m (next_phase pk)) = snd (news_of m pk)"
proof -
  obtain ph k where pk: "pk = (ph, k)" by (cases pk)
  show "drop (length (commands_at m pk)) (commands_at m (next_phase pk)) = fst (news_of m pk)"
    by (cases ph) (simp_all add: pk commands_at_def)
  show "drop (length (sent_at m pk)) (sent_at m (next_phase pk)) = snd (news_of m pk)"
    by (cases ph) (simp_all add: pk sent_at_def concat_replicate_Suc del: replicate_Suc)
qed

subsection \<open>The subscriber in each phase\<close>

text \<open>
  \<open>j\<close> tests are done, all valid; \<open>active\<close> says whether the next one is armed.
\<close>

definition sub_at :: "int \<Rightarrow> int \<Rightarrow> nat \<Rightarrow> ('ws \<Rightarrow> (AirEntity \<times> bool) list) \<Rightarrow> nat \<Rightarrow> ('wd \<Rightarrow> (TestControl \<times> bool) list)
    \<Rightarrow> nat \<Rightarrow> bool \<Rightarrow> ('ws, 'wd, 'g) sub_side \<Rightarrow> bool" where
  "sub_at T m h q hc qc j active = (\<lambda>(u, f).
     p_endpoint (fs_ptrs (sb_sub u)) = Some h \<and> p_endpoint (fsc_ptrs (sb_sub_control u)) = Some hc
   \<and> nat m \<le> fs_capacity (sb_sub u) \<and> pb_max_test u = T \<and> pb_current_test u = int j
   \<and> sb_test_validation u = replicate j VALID \<and> sb_total_lost_samples u = 0
   \<and> (in_execution f \<longleftrightarrow> int j < T) \<and> sb_test_active u = active
   \<and> (int j < T \<longrightarrow> q (fs_reader (sb_sub u)) = [] \<and> qc (fsc_reader (sb_sub_control u)) = [])
   \<and> (active \<longrightarrow> fs_expected_messages_cycle (sb_sub u) = m \<and> sb_process_type u = Normal))"

lemma arrive_fields:
  "sb_sub_control (arrive da dc (cs, xs) u) = (sb_sub_control u)\<lparr>fsc_reader := dc cs (fsc_reader (sb_sub_control u))\<rparr>"
  "sb_sub (arrive da dc (cs, xs) u) = (sb_sub u)\<lparr>fs_reader := da xs (fs_reader (sb_sub u))\<rparr>"
  "pb_max_test (arrive da dc (cs, xs) u) = pb_max_test u"
  "pb_current_test (arrive da dc (cs, xs) u) = pb_current_test u"
  "sb_test_validation (arrive da dc (cs, xs) u) = sb_test_validation u"
  "sb_total_lost_samples (arrive da dc (cs, xs) u) = sb_total_lost_samples u"
  "sb_test_active (arrive da dc (cs, xs) u) = sb_test_active u"
  "sb_process_type (arrive da dc (cs, xs) u) = sb_process_type u"
  by (simp_all add: arrive_def)

text \<open>What arrives when nothing was written, with a start, with a batch, and with a stop.\<close>

lemma turn_command:
  assumes qc: "queue_reader rc hc qc" and dv: "run_delivers T m da q dc qc"
    and s: "sub_at T m h q hc qc j False (u, f)" "int j < T"
    and c: "c = start_msg i m False \<or> c = stop_msg i" "1 \<le> i" "i \<le> T"
  shows "\<exists>s'. sub_turn gapi ra rc opens clk (arrive da dc ([c], []) u, f) = Some (Inr s')
    \<and> sub_at T m h q hc qc j (c = start_msg i m False) s'"
proof -
  let ?u = "arrive da dc ([c], []) u"
  have e: "p_endpoint (fsc_ptrs (sb_sub_control ?u)) = Some hc"
    and x: "in_execution f" and k: "tc_test_id c \<in> {1..T}"
    using s c by (auto simp: sub_at_def arrive_fields start_msg_def stop_msg_def)
  have v: "valid_samples (qc (fsc_reader (sb_sub_control ?u))) = [c]"
    using s dv k by (simp add: sub_at_def arrive_fields run_delivers_def valid_samples_def)
  have v': "valid_samples (qc (fsc_reader (sb_sub_control ?u))) \<noteq> []"
    "last (valid_samples (qc (fsc_reader (sb_sub_control ?u)))) = c" by (simp_all add: v)
  from fast_read_polled[OF qc e v', where eapi = gapi and api = ra and eapi' = gapi and opens = opens and clk = clk and e = f]
  obtain d where
    r: "sub_read (FastSub_ISub gapi ra) (FastSubControl_ISubControl gapi rc) opens clk (?u, f) =
      Some (Inr (sub_apply_config (FastSub_ISub gapi ra) (config_of c) (?u\<lparr>sb_sub_control := d\<rparr>), f))"
    and d: "qc (fsc_reader d) = []" "fsc_ptrs d = fsc_ptrs (sb_sub_control ?u)" by blast
  have "tc_start (start_msg i m False) \<noteq> tc_start (stop_msg i)" by (simp add: start_msg_def stop_msg_def)
  then have "start_msg i m False \<noteq> stop_msg i" by metis
  then show ?thesis using r d e x s dv c
    by (auto simp: sub_turn_def sub_at_def sub_apply_config_def arrive_fields run_delivers_def
      FastSub_ISub_def config_of_def start_msg_def stop_msg_def TestControl_new_def)
qed

lemma turn_quiet:
  assumes qc: "queue_reader rc hc qc" and dv: "run_delivers T m da q dc qc"
    and s: "sub_at T m h q hc qc j False (u, f)" and news: "cs = [] \<or> \<not> int j < T"
  shows "\<exists>s'. sub_turn gapi ra rc opens clk (arrive da dc (cs, []) u, f) = Some (Inr s')
    \<and> sub_at T m h q hc qc j False s'"
proof (cases "int j < T")
  case False
  then show ?thesis using s by (simp add: sub_turn_def sub_at_def arrive_fields)
next
  case True
  let ?u = "arrive da dc (cs, []) u"
  have e: "p_endpoint (fsc_ptrs (sb_sub_control ?u)) = Some hc" "qc (fsc_reader (sb_sub_control ?u)) = []"
    and x: "in_execution f" "\<not> sb_test_active ?u"
    using s dv True news by (simp_all add: sub_at_def arrive_fields run_delivers_def)
  from fast_read_quiet[OF qc e, where eapi = gapi and api = ra and eapi' = gapi and opens = opens and clk = clk and e = f] x(2)
  obtain d where
    r: "sub_read (FastSub_ISub gapi ra) (FastSubControl_ISubControl gapi rc) opens clk (?u, f) =
      Some (Inr (?u\<lparr>sb_sub_control := d\<rparr>, f))"
    and d: "qc (fsc_reader d) = []" "fsc_ptrs d = fsc_ptrs (sb_sub_control ?u)" by auto
  then show ?thesis using e x s dv
    by (simp add: sub_turn_def sub_at_def arrive_fields run_delivers_def)
qed

lemma turn_batch:
  assumes ra: "queue_reader ra h q" and rc: "queue_reader rc hc qc"
    and dv: "run_delivers T m da q dc qc"
    and s: "sub_at T m h q hc qc j True (u, f)" "int j < T"
    and T: "T \<le> 2147483596" and m: "is_i32 m" "0 \<le> m"
  shows "\<exists>s'. sub_turn gapi ra rc opens clk (arrive da dc ([], batch m) u, f) = Some (Inr s')
    \<and> sub_at T m h q hc qc (Suc j) False s'"
proof -
  let ?u = "arrive da dc ([], batch m) u"
  have e: "p_endpoint (fsc_ptrs (sb_sub_control ?u)) = Some hc" "qc (fsc_reader (sb_sub_control ?u)) = []"
    and x: "in_execution f" "sb_test_active ?u"
    using s dv by (simp_all add: sub_at_def arrive_fields run_delivers_def)
  from fast_read_quiet[OF rc e, where eapi = gapi and api = ra and eapi' = gapi and opens = opens and clk = clk and e = f] x(2)
  obtain d where
    r: "sub_read (FastSub_ISub gapi ra) (FastSubControl_ISubControl gapi rc) opens clk (?u, f) =
      sub_measure (FastSub_ISub gapi ra) opens clk (?u\<lparr>sb_sub_control := d\<rparr>, f)"
    and d: "qc (fsc_reader d) = []" "fsc_ptrs d = fsc_ptrs (sb_sub_control ?u)" by auto
  let ?v = "?u\<lparr>sb_sub_control := d\<rparr>" and ?n = "nat m"
  let ?ids = "{ent_id x | x. (x, True) \<in> set (take ?n (q (fs_reader (sb_sub ?v))))}"
  have qv: "q (fs_reader (sb_sub ?v)) = map (\<lambda>x. (x, True)) (batch (int ?n))"
    using s dv m by (simp add: sub_at_def arrive_fields run_delivers_def)
  have c: "card ?ids = ?n" unfolding qv by (rule delivered_batch_ids) simp
  have dr: "drop ?n (q (fs_reader (sb_sub ?v))) = []" unfolding qv by (simp add: batch_def)
  have v: "p_endpoint (fs_ptrs (sb_sub ?v)) = Some h" "fs_expected_messages_cycle (sb_sub ?v) = int ?n"
    "?n \<le> fs_capacity (sb_sub ?v)" "?n < 2 ^ 31" "sb_process_type ?v = Normal"
    using s m by (simp_all add: sub_at_def arrive_fields is_i32_def)
  from fast_measure_normal[OF ra v refl, of gapi opens clk f] obtain u2 f2 where
    me: "sub_measure (FastSub_ISub gapi ra) opens clk (?v, f) = Some (Inr (u2, f2))"
    and g: "sb_test_validation u2 = sb_test_validation ?v @ [VALID]"
      "sb_total_lost_samples u2 = i32 (sb_total_lost_samples ?v + 0)"
      "pb_current_test u2 = i32 (pb_current_test ?v + 1)" "\<not> sb_test_active u2"
      "q (fs_reader (sb_sub u2)) = []"
      "fs_ptrs (sb_sub u2) = fs_ptrs (sb_sub ?v)" "fs_capacity (sb_sub u2) = fs_capacity (sb_sub ?v)"
      "sb_sub_control u2 = sb_sub_control ?v"
    unfolding c dr by (auto simp only: if_True simp_thms)
  have i: "i32 (int j + 1) = int j + 1" using s(2) T by (intro i32_small) simp_all
  have ex: "pb_max_test u2 = T \<and> (in_execution f2 \<longleftrightarrow> int j + 1 < T)"
  proof (rule sub_measure_result[OF me])
    assume a: "pb_max_test u2 = pb_max_test ?v"
      "ex_currentState f2 = (if pb_max_test ?v \<le> pb_current_test u2 then END else ex_currentState f)"
    have "pb_max_test ?v = T" "pb_current_test u2 = int j + 1"
      using s i by (simp_all add: g(3) sub_at_def arrive_fields)
    with a x(1) show ?thesis by (auto simp: in_execution_def)
  qed
  have "sub_at T m h q hc qc (Suc j) False (u2, f2)"
    using s d e g(1-4) i ex unfolding sub_at_def
    by (simp add: arrive_fields g(5-8) replicate_append_same[symmetric] i32_small add.commute)
  with r me x(1) show ?thesis by (simp add: sub_turn_def)
qed

text \<open>The subscriber of a run, by the publisher's phase: one test ahead once the batch is out.\<close>

definition sub_tests :: "phase \<times> nat \<Rightarrow> nat" where
  "sub_tests = (\<lambda>(ph, k). case ph of Sent r \<Rightarrow> Suc k | _ \<Rightarrow> k)"

definition joint_at :: "int \<Rightarrow> int \<Rightarrow> 'e dds_api \<Rightarrow> (AirEntity, 'wp) writer_api \<Rightarrow> nat \<Rightarrow> ('ws \<Rightarrow> (AirEntity \<times> bool) list)
    \<Rightarrow> nat \<Rightarrow> ('wd \<Rightarrow> (TestControl \<times> bool) list) \<Rightarrow> phase \<times> nat
    \<Rightarrow> ('wp, 'wc, 'e) pub_side \<times> ('ws, 'wd, 'g) sub_side \<Rightarrow> bool" where
  "joint_at T m eapi wa h q hc qc pk = (\<lambda>(p, s). fast_node_up.live_at eapi wa T m False pk p
     \<and> sub_at T m h q hc qc (sub_tests pk) (fst pk = Ready) s)"

lemma live_running_fast:
  assumes "fast_node_up.live_at eapi wa T m loan (ph, k) (t, e)"
  shows "in_execution e \<longleftrightarrow> int k < T" and "int k \<le> T"
  using assms unfolding fast_node_up.live_at_def at_phase_def ctl_inv_def by auto

lemma joint_step:
  fixes t :: "(('wp, 'e) FastPub, ('wc, 'e) FastPubControl) pub_test"
  assumes ra: "queue_reader ra h q" and rc: "queue_reader rc hc qc"
    and dv: "run_delivers T m da q dc qc"
    and j: "joint_at T m eapi wa h q hc qc (ph, k) ((t, e), u, f)" and k: "int k < T"
    and T: "T \<le> 2147483596" and m: "is_i32 m" "0 \<le> m"
  shows "\<exists>s'. joint_round eapi wa (wc :: (TestControl, 'wc) writer_api) gapi ra rc da dc opens clk ((t, e), u, f) = Some (Inr s')
    \<and> joint_at T m eapi wa h q hc qc (next_phase (ph, k)) s'"
proof -
  have l: "fast_node_up.live_at eapi wa T m False (ph, k) (t, e)"
    and s: "sub_at T m h q hc qc (sub_tests (ph, k)) (ph = Ready) (u, f)"
    using j by (simp_all add: joint_at_def)
  have x: "in_execution e" using live_running_fast(1)[OF l] k by simp
  have T32: "is_i32 T" using T k by (simp add: is_i32_def)
  from fast_node_up.cycle_live[OF l x T T32 m, where clk = clk and wc = wc] obtain t' e' where
    c: "pub_cycle (FastPub_IPub eapi wa) (FastPubControl_IPubControl eapi wc) clk (t, e) = Inr (t', e')"
    and l': "fast_node_up.live_at eapi wa T m False (next_phase (ph, k)) (t', e')" by fastforce
  have w: "written t t' = news_of m (ph, k)"
    using fast_node_up.live_output[OF l] fast_node_up.live_output[OF l'] news_of_phase[of m "(ph, k)"]
    by (simp add: written_def prod_eq_iff)
  have "\<exists>s'. sub_turn gapi ra rc opens clk (arrive da dc (news_of m (ph, k)) u, f) = Some (Inr s')
    \<and> sub_at T m h q hc qc (sub_tests (next_phase (ph, k))) (fst (next_phase (ph, k)) = Ready) s'"
  proof (cases ph)
    case (Waiting n)
    then have s': "sub_at T m h q hc qc k False (u, f)" using s by (simp add: sub_tests_def)
    show ?thesis using turn_quiet[OF rc dv s', of "[]"]
        turn_command[OF rc dv s' k, where c = "start_msg (int k + 1) m False" and i = "int k + 1"] k Waiting
      by (simp add: sub_tests_def)
  next
    case Ready
    then have "sub_at T m h q hc qc k True (u, f)" using s by (simp add: sub_tests_def)
    from turn_batch[OF ra rc dv this k T m] Ready show ?thesis by (simp add: sub_tests_def)
  next
    case (Sent r)
    then have s': "sub_at T m h q hc qc (Suc k) False (u, f)" using s by (simp add: sub_tests_def)
    have n: "start_msg i m False \<noteq> stop_msg i" for i
    proof -
      have "tc_start (start_msg i m False) \<noteq> tc_start (stop_msg i)" by (simp add: start_msg_def stop_msg_def)
      then show ?thesis by metis
    qed
    show ?thesis
    proof (cases "int (Suc k) < T")
      case True
      have "stop_msg i \<noteq> start_msg i m False" for i using n[of i] by simp
      with turn_quiet[OF rc dv s', of "[]"] turn_command[OF rc dv s' True, where c = "stop_msg (int k + 1)" and i = "int k + 1"] k Sent
      show ?thesis by (simp add: sub_tests_def)
    next
      case False
      with turn_quiet[OF rc dv s'] Sent show ?thesis by (simp add: sub_tests_def)
    qed
  next
    case (Stopped r)
    then have s': "sub_at T m h q hc qc k False (u, f)" using s by (simp add: sub_tests_def)
    show ?thesis using turn_quiet[OF rc dv s', of "[]"]
        turn_command[OF rc dv s' k, where c = "start_msg (int k + 1) m False" and i = "int k + 1"] k Stopped
      by (simp add: sub_tests_def)
  qed
  then show ?thesis using c x l' w by (auto simp: joint_round_def pub_turn_def joint_at_def)
qed

lemma joint_run:
  fixes p :: "('wp, 'wc, 'e) pub_side"
  assumes ra: "queue_reader ra h q" and rc: "queue_reader rc hc qc"
    and dv: "run_delivers T m da q dc qc"
    and j: "joint_at T m eapi wa h q hc qc (phase_after 0) (p, s)"
    and T: "T \<le> 2147483596" "1 \<le> T" and m: "is_i32 m" "0 \<le> m"
    and n: "n \<le> 45 + 13 * nat T"
  shows "\<exists>z. joint_rounds n eapi wa (wc :: (TestControl, 'wc) writer_api) gapi ra rc da dc opens clk (p, s) = Some (Inr z)
    \<and> joint_at T m eapi wa h q hc qc (phase_after n) z"
  using n
proof (induction n)
  case 0
  then show ?case using j by simp
next
  case (Suc n)
  then obtain t e u f where
    r: "joint_rounds n eapi wa wc gapi ra rc da dc opens clk (p, s) = Some (Inr ((t, e), u, f))"
    and i: "joint_at T m eapi wa h q hc qc (phase_after n) ((t, e), u, f)" by fastforce
  obtain ph k where pk: "phase_after n = (ph, k)" by (cases "phase_after n")
  have "snd (phase_after n) \<le> snd (phase_after (57 + 13 * (nat T - 1)))"
    using Suc.prems T(2) by (intro phase_after_mono) (simp add: diff_mult_distrib2)
  then have "int k < T" using T(2) pk phase_before_test[of "nat T - 1"] by simp
  from joint_step[OF ra rc dv i[unfolded pk] this T(1) m, where wc = wc and gapi = gapi and opens = opens and clk = clk]
  show ?case using r pk by (auto simp: phase_after_Suc)
qed

end
