(* ===== verification/IdlTypes.thy ===== *)
theory IdlTypes
  imports Types
begin

section \<open>The remaining types of the IDL and the comparison of all of them\<close>

text \<open>
  \<open>src/IDLs/generated/inse/inse.hpp\<close>: the three classes that \<open>AirEntity\<close> does not use, and
  \<open>operator ==\<close> of all six. A \<open>float\<close> or \<open>double\<close> is its bits, compared as IEEE 754 does:
  a NaN (exponent all ones, fraction not zero) differs from everything, the two zeros are equal.
\<close>

type_synonym double_bits = "64 word"

record EntityID =
  eid_id :: int
  eid_creatorID :: int
  eid_entityName :: "c_char list"
  eid_modelName :: "c_char list"
  eid_visualID :: int
  eid_visualModel :: int
  eid_visualDetail :: int
  eid_active :: c_char
  eid_delayedActivationTime :: "32 word"
  eid_manned :: c_char
  eid_remote :: c_char
  eid_entityType :: c_char
  eid_side :: c_char
  eid_weight :: double_bits

record Target =
  tgt_entity_id :: int

record Position =
  pos_latitude :: double_bits
  pos_longitude :: double_bits
  pos_altitude :: float_bits
  pos_altitudeAGL :: float_bits
  pos_altitude_target :: float_bits

definition EntityID_new :: EntityID where
  "EntityID_new = \<lparr>eid_id = 0, eid_creatorID = 0, eid_entityName = replicate 20 0,
     eid_modelName = replicate 20 0, eid_visualID = 0, eid_visualModel = 0, eid_visualDetail = 0,
     eid_active = 0, eid_delayedActivationTime = 0, eid_manned = 0, eid_remote = 0,
     eid_entityType = 0, eid_side = 0, eid_weight = 0\<rparr>"

definition Target_new :: Target where
  "Target_new = \<lparr>tgt_entity_id = 0\<rparr>"

definition Position_new :: Position where
  "Position_new = \<lparr>pos_latitude = 0, pos_longitude = 0, pos_altitude = 0, pos_altitudeAGL = 0,
     pos_altitude_target = 0\<rparr>"

subsection \<open>Comparison\<close>

definition float_nan :: "float_bits \<Rightarrow> bool" where
  "float_nan x \<longleftrightarrow> 0x7F800000 < take_bit 31 x"

definition double_nan :: "double_bits \<Rightarrow> bool" where
  "double_nan x \<longleftrightarrow> 0x7FF0000000000000 < take_bit 63 x"

definition float_eq :: "float_bits \<Rightarrow> float_bits \<Rightarrow> bool" where
  "float_eq x y \<longleftrightarrow> \<not> float_nan x \<and> \<not> float_nan y \<and> (x = y \<or> take_bit 31 x = 0 \<and> take_bit 31 y = 0)"

definition double_eq :: "double_bits \<Rightarrow> double_bits \<Rightarrow> bool" where
  "double_eq x y \<longleftrightarrow> \<not> double_nan x \<and> \<not> double_nan y \<and> (x = y \<or> take_bit 63 x = 0 \<and> take_bit 63 y = 0)"

definition EntityID_eq :: "EntityID \<Rightarrow> EntityID \<Rightarrow> bool" where
  "EntityID_eq a b \<longleftrightarrow> eid_id a = eid_id b \<and> eid_creatorID a = eid_creatorID b \<and>
     eid_entityName a = eid_entityName b \<and> eid_modelName a = eid_modelName b \<and>
     eid_visualID a = eid_visualID b \<and> eid_visualModel a = eid_visualModel b \<and>
     eid_visualDetail a = eid_visualDetail b \<and> eid_active a = eid_active b \<and>
     eid_delayedActivationTime a = eid_delayedActivationTime b \<and>
     eid_manned a = eid_manned b \<and> eid_remote a = eid_remote b \<and>
     eid_entityType a = eid_entityType b \<and> eid_side a = eid_side b \<and>
     double_eq (eid_weight a) (eid_weight b)"

definition Target_eq :: "Target \<Rightarrow> Target \<Rightarrow> bool" where
  "Target_eq a b \<longleftrightarrow> tgt_entity_id a = tgt_entity_id b"

definition Position_eq :: "Position \<Rightarrow> Position \<Rightarrow> bool" where
  "Position_eq a b \<longleftrightarrow> double_eq (pos_latitude a) (pos_latitude b) \<and>
     double_eq (pos_longitude a) (pos_longitude b) \<and>
     float_eq (pos_altitude a) (pos_altitude b) \<and>
     float_eq (pos_altitudeAGL a) (pos_altitudeAGL b) \<and>
     float_eq (pos_altitude_target a) (pos_altitude_target b)"

definition Attitude_eq :: "Attitude \<Rightarrow> Attitude \<Rightarrow> bool" where
  "Attitude_eq a b \<longleftrightarrow> float_eq (pitch a) (pitch b) \<and> float_eq (yaw a) (yaw b) \<and> float_eq (roll a) (roll b)"

definition MovementAirEntity_eq :: "MovementAirEntity \<Rightarrow> MovementAirEntity \<Rightarrow> bool" where
  "MovementAirEntity_eq a b \<longleftrightarrow> float_eq (speed a) (speed b) \<and> float_eq (speed_target a) (speed_target b) \<and>
     float_eq (geographicHeading a) (geographicHeading b) \<and>
     float_eq (geographicHeading_target a) (geographicHeading_target b) \<and>
     float_eq (magneticHeading a) (magneticHeading b) \<and> tmllf a = tmllf b \<and>
     onGround a = onGround b \<and> missionName a = missionName b \<and>
     float_eq (indicatedSpeed a) (indicatedSpeed b) \<and>
     float_eq (indicatedSpeed_target a) (indicatedSpeed_target b) \<and>
     float_eq (loadFactor a) (loadFactor b) \<and>
     float_eq (verticalSpeed a) (verticalSpeed b) \<and>
     float_eq (verticalSpeed_target a) (verticalSpeed_target b) \<and>
     float_eq (groundSpeed a) (groundSpeed b) \<and>
     float_eq (groundSpeed_target a) (groundSpeed_target b) \<and>
     float_eq (throttle a) (throttle b) \<and> infiniteFuel a = infiniteFuel b \<and>
     float_eq (initialFuel a) (initialFuel b) \<and>
     float_eq (currentFuel a) (currentFuel b) \<and>
     float_eq (fuelConsumption a) (fuelConsumption b)"

definition AirEntity_eq :: "AirEntity \<Rightarrow> AirEntity \<Rightarrow> bool" where
  "AirEntity_eq a b \<longleftrightarrow> ent_id a = ent_id b \<and> Attitude_eq (entity_attitude a) (entity_attitude b) \<and>
     MovementAirEntity_eq (movement a) (movement b) \<and> commsActive a = commsActive b \<and>
     formationID a = formationID b \<and> posInt_inseoFormation a = posInt_inseoFormation b \<and>
     isAutomaticTraffic a = isAutomaticTraffic b"

subsection \<open>When a value equals itself\<close>

text \<open>Some member is a NaN.\<close>

definition Attitude_nan :: "Attitude \<Rightarrow> bool" where
  "Attitude_nan a \<longleftrightarrow> float_nan (pitch a) \<or> float_nan (yaw a) \<or> float_nan (roll a)"

definition MovementAirEntity_nan :: "MovementAirEntity \<Rightarrow> bool" where
  "MovementAirEntity_nan a \<longleftrightarrow> float_nan (speed a) \<or> float_nan (speed_target a) \<or>
     float_nan (geographicHeading a) \<or> float_nan (geographicHeading_target a) \<or>
     float_nan (magneticHeading a) \<or> float_nan (indicatedSpeed a) \<or>
     float_nan (indicatedSpeed_target a) \<or> float_nan (loadFactor a) \<or>
     float_nan (verticalSpeed a) \<or> float_nan (verticalSpeed_target a) \<or>
     float_nan (groundSpeed a) \<or> float_nan (groundSpeed_target a) \<or>
     float_nan (throttle a) \<or> float_nan (initialFuel a) \<or> float_nan (currentFuel a) \<or>
     float_nan (fuelConsumption a)"

definition AirEntity_nan :: "AirEntity \<Rightarrow> bool" where
  "AirEntity_nan a \<longleftrightarrow> Attitude_nan (entity_attitude a) \<or> MovementAirEntity_nan (movement a)"

lemma float_eq_refl [simp]: "float_eq x x \<longleftrightarrow> \<not> float_nan x"
  by (auto simp: float_eq_def)

lemma Attitude_eq_refl [simp]: "Attitude_eq a a \<longleftrightarrow> \<not> Attitude_nan a"
  by (simp add: Attitude_eq_def Attitude_nan_def)

lemma MovementAirEntity_eq_refl [simp]: "MovementAirEntity_eq a a \<longleftrightarrow> \<not> MovementAirEntity_nan a"
  by (simp add: MovementAirEntity_eq_def MovementAirEntity_nan_def)

end
