(* ===== verification/CdrSize.thy ===== *)
theory CdrSize
  imports IdlTypes
begin

unbundle bit_operations_syntax

section \<open>The size of a serialized value\<close>

text \<open>
  \<open>calculate_serialized_size\<close> of the six types (\<open>src/IDLs/generated/inse/inseCdrAux.ipp\<close>) with
  the class it runs on, \<open>CdrSizeCalculator\<close> of Fast CDR, as far as that is a template in its
  header: the sizes of the scalars, of \<open>std::array<char, n>\<close> and of a member. The constructor
  and the two functions that open and close a type are compiled code: the parameter
  \<open>calculator_api\<close>. \<open>current_alignment\<close>, which every call passes on by reference, is a field of
  the calculator. The sizes are far below \<open>2 ^ 64\<close>, so \<open>size_t\<close> is \<open>nat\<close>.
\<close>

datatype cdr_version = CORBA_CDR | DDS_CDR | XCDRv1 | XCDRv2
datatype cdr_encoding = PLAIN_CDR | PL_CDR | PLAIN_CDR2 | DELIMIT_CDR2 | PL_CDR2
datatype member_size_kind = NO_SERIALIZED_MEMBER_SIZE | SERIALIZED_MEMBER_SIZE
  | SERIALIZED_MEMBER_SIZE_4 | SERIALIZED_MEMBER_SIZE_8

record calculator =
  ka_version :: cdr_version
  ka_encoding :: cdr_encoding
  ka_serialized_member_size :: member_size_kind
  ka_align64 :: nat
  ka_alignment :: nat

type_synonym size_act = "calculator \<Rightarrow> nat \<times> calculator"

record calculator_api =
  ka_make :: "cdr_version \<Rightarrow> calculator"
  ka_begin_type :: "cdr_encoding \<Rightarrow> size_act"
  ka_end_type :: "cdr_encoding \<Rightarrow> size_act"

definition cdr_alignment :: "nat \<Rightarrow> nat \<Rightarrow> nat" where
  "cdr_alignment current_alignment data_size =
     (data_size - current_alignment mod data_size) AND (data_size - 1)"

definition size_aligned :: "nat \<Rightarrow> nat \<Rightarrow> size_act" where
  "size_aligned bytes data_size c =
     (let calculated_size = bytes + cdr_alignment (ka_alignment c) data_size
      in (calculated_size, c\<lparr>ka_alignment := ka_alignment c + calculated_size\<rparr>))"

definition size_int32 :: size_act where
  "size_int32 = size_aligned 4 4"

definition size_uint32 :: size_act where
  "size_uint32 = size_aligned 4 4"

definition size_float :: size_act where
  "size_float = size_aligned 4 4"

definition size_double :: size_act where
  "size_double c = size_aligned 8 (ka_align64 c) c"

definition size_char :: size_act where
  "size_char c = (1, c\<lparr>ka_alignment := ka_alignment c + 1\<rparr>)"

definition size_bool :: size_act where
  "size_bool c = (1, c\<lparr>ka_alignment := ka_alignment c + 1\<rparr>)"

text \<open>An array of \<open>char\<close> has no header of its own: \<open>is_multi_array_primitive\<close> holds.\<close>

definition size_chars :: "c_char list \<Rightarrow> size_act" where
  "size_chars data c = (length data, c\<lparr>ka_alignment := ka_alignment c + length data\<rparr>)"

definition member_size :: "nat \<Rightarrow> size_act \<Rightarrow> size_act" where
  "member_size member_id calculate c =
     (let initial_alignment = ka_alignment c;
          pl = (ka_encoding c = PL_CDR \<or> ka_encoding c = PL_CDR2);
          c = (if pl then c\<lparr>ka_alignment := ka_alignment c + cdr_alignment (ka_alignment c) 4\<rparr> else c);
          prev_size = ka_alignment c - initial_alignment;
          c = (if ka_encoding c = PL_CDR then c\<lparr>ka_alignment := 0\<rparr> else c);
          (calculated_size, c) = calculate c;
          (extra_size, calculated_size) =
            (if ka_version c = XCDRv2 \<and> ka_encoding c = PL_CDR2 \<and> 0 < calculated_size
             then (if 8 < calculated_size \<or> calculated_size \<notin> {1, 2, 4, 8}
                   then (8, if ka_serialized_member_size c \<noteq> NO_SERIALIZED_MEMBER_SIZE
                            then calculated_size - 4 else calculated_size)
                   else (4, calculated_size))
             else if ka_version c = XCDRv1 \<and> ka_encoding c = PL_CDR \<and> 0 < calculated_size
             then (if 0x3F00 < member_id \<or> 0xFFFF < calculated_size then 4 + 8 else 4, calculated_size)
             else (0, calculated_size));
          c = (if ka_encoding c \<noteq> PL_CDR then c\<lparr>ka_alignment := ka_alignment c + extra_size\<rparr> else c)
      in (calculated_size + (prev_size + extra_size),
          c\<lparr>ka_serialized_member_size := NO_SERIALIZED_MEMBER_SIZE\<rparr>))"

fun add_sizes :: "size_act list \<Rightarrow> nat \<Rightarrow> size_act" where
  "add_sizes [] calculated_size c = (calculated_size, c)"
| "add_sizes (m # ms) calculated_size c = (let (n, c) = m c in add_sizes ms (calculated_size + n) c)"

subsection \<open>The types\<close>

definition plain_encoding :: "cdr_version \<Rightarrow> cdr_encoding" where
  "plain_encoding version = (if version = XCDRv2 then PLAIN_CDR2 else PLAIN_CDR)"

text \<open>What the six functions have in common.\<close>

definition type_size :: "calculator_api \<Rightarrow> size_act list \<Rightarrow> size_act" where
  "type_size api members c =
     (let previous_encoding = ka_encoding c;
          (calculated_size, c) = ka_begin_type api (plain_encoding (ka_version c)) c;
          (calculated_size, c) = add_sizes members calculated_size c;
          (n, c) = ka_end_type api previous_encoding c
      in (calculated_size + n, c))"

definition EntityID_size :: "calculator_api \<Rightarrow> EntityID \<Rightarrow> size_act" where
  "EntityID_size api data = type_size api
    [member_size 0 size_int32, member_size 1 size_int32,
     member_size 2 (size_chars (eid_entityName data)),
     member_size 3 (size_chars (eid_modelName data)), member_size 4 size_int32,
     member_size 5 size_int32, member_size 6 size_int32, member_size 7 size_char,
     member_size 8 size_uint32, member_size 9 size_char, member_size 10 size_char,
     member_size 11 size_char, member_size 12 size_char, member_size 13 size_double]"

definition Target_size :: "calculator_api \<Rightarrow> Target \<Rightarrow> size_act" where
  "Target_size api data = type_size api
    [member_size 0 size_int32]"

definition Position_size :: "calculator_api \<Rightarrow> Position \<Rightarrow> size_act" where
  "Position_size api data = type_size api
    [member_size 0 size_double, member_size 1 size_double, member_size 2 size_float,
     member_size 3 size_float, member_size 4 size_float]"

definition Attitude_size :: "calculator_api \<Rightarrow> Attitude \<Rightarrow> size_act" where
  "Attitude_size api data = type_size api
    [member_size 0 size_float, member_size 1 size_float, member_size 2 size_float]"

definition MovementAirEntity_size :: "calculator_api \<Rightarrow> MovementAirEntity \<Rightarrow> size_act" where
  "MovementAirEntity_size api data = type_size api
    [member_size 0 size_float, member_size 1 size_float, member_size 2 size_float,
     member_size 3 size_float, member_size 4 size_float, member_size 5 size_char,
     member_size 6 size_char, member_size 7 (size_chars (missionName data)),
     member_size 8 size_float, member_size 9 size_float, member_size 10 size_float,
     member_size 11 size_float, member_size 12 size_float, member_size 13 size_float,
     member_size 14 size_float, member_size 15 size_float, member_size 16 size_bool,
     member_size 17 size_float, member_size 18 size_float, member_size 19 size_float]"

definition AirEntity_size :: "calculator_api \<Rightarrow> AirEntity \<Rightarrow> size_act" where
  "AirEntity_size api data = type_size api
    [member_size 0 size_int32, member_size 1 (Attitude_size api (entity_attitude data)),
     member_size 2 (MovementAirEntity_size api (movement data)), member_size 3 size_char,
     member_size 4 size_int32, member_size 5 size_int32, member_size 6 size_char]"

text \<open>The constants of \<open>inseCdrAux.hpp\<close>.\<close>

definition EntityID_max_cdr_typesize :: nat where
  "EntityID_max_cdr_typesize = 80"

definition EntityID_max_key_cdr_typesize :: nat where
  "EntityID_max_key_cdr_typesize = 0"

definition Target_max_cdr_typesize :: nat where
  "Target_max_cdr_typesize = 4"

definition Target_max_key_cdr_typesize :: nat where
  "Target_max_key_cdr_typesize = 0"

definition Position_max_cdr_typesize :: nat where
  "Position_max_cdr_typesize = 28"

definition Position_max_key_cdr_typesize :: nat where
  "Position_max_key_cdr_typesize = 0"

definition Attitude_max_cdr_typesize :: nat where
  "Attitude_max_cdr_typesize = 12"

definition Attitude_max_key_cdr_typesize :: nat where
  "Attitude_max_key_cdr_typesize = 0"

definition MovementAirEntity_max_cdr_typesize :: nat where
  "MovementAirEntity_max_cdr_typesize = 104"

definition MovementAirEntity_max_key_cdr_typesize :: nat where
  "MovementAirEntity_max_key_cdr_typesize = 0"

definition AirEntity_max_cdr_typesize :: nat where
  "AirEntity_max_cdr_typesize = 133"

definition AirEntity_max_key_cdr_typesize :: nat where
  "AirEntity_max_key_cdr_typesize = 4"

subsection \<open>Sizes under the plain encodings\<close>

text \<open>
  What Fast CDR documents of its compiled part: a calculator starts with a plain encoding at
  the alignment of the version, and under a plain encoding opening and closing a type switch
  the encoding and encode no header.
\<close>

definition plain :: "cdr_encoding \<Rightarrow> bool" where
  "plain e \<longleftrightarrow> e = PLAIN_CDR \<or> e = PLAIN_CDR2"

definition plain_calculator :: "calculator_api \<Rightarrow> bool" where
  "plain_calculator api \<longleftrightarrow>
     (\<forall>v. plain (ka_encoding (ka_make api v)) \<and> ka_version (ka_make api v) = v
        \<and> (ka_align64 (ka_make api v) = 4 \<or> ka_align64 (ka_make api v) = 8))
   \<and> (\<forall>e c. plain e \<longrightarrow> (\<exists>m. ka_begin_type api e c =
        (0, c\<lparr>ka_encoding := e, ka_serialized_member_size := m\<rparr>)))
   \<and> (\<forall>e c. plain (ka_encoding c) \<longrightarrow> (\<exists>m. ka_end_type api e c =
        (0, c\<lparr>ka_encoding := e, ka_serialized_member_size := m\<rparr>)))"

lemma plain_begin:
  assumes "plain_calculator api" "plain e"
  obtains m where "ka_begin_type api e c = (0, c\<lparr>ka_encoding := e, ka_serialized_member_size := m\<rparr>)"
  using assms unfolding plain_calculator_def by blast

lemma plain_end:
  assumes "plain_calculator api" "plain (ka_encoding c)"
  obtains m where "ka_end_type api e c = (0, c\<lparr>ka_encoding := e, ka_serialized_member_size := m\<rparr>)"
  using assms unfolding plain_calculator_def by blast

lemma plain_encoding_plain [simp]: "plain (plain_encoding v)"
  by (simp add: plain_def plain_encoding_def)

text \<open>
  The calculation takes the alignment \<open>a\<close> to \<open>e a\<close> and answers the difference, for a
  calculator that aligns 8 bytes at \<open>w\<close>.
\<close>

named_theorems ends_rules "where the calculation of a size ends"

definition ends :: "nat \<Rightarrow> size_act \<Rightarrow> (nat \<Rightarrow> nat) \<Rightarrow> bool" where
  "ends w f e \<longleftrightarrow> (\<forall>c. plain (ka_encoding c) \<longrightarrow> ka_align64 c = w \<longrightarrow> (\<exists>m. ka_alignment c \<le> e (ka_alignment c)
     \<and> f c = (e (ka_alignment c) - ka_alignment c,
         c\<lparr>ka_alignment := e (ka_alignment c), ka_serialized_member_size := m\<rparr>)))"

definition end_aligned :: "nat \<Rightarrow> nat \<Rightarrow> nat \<Rightarrow> nat" where
  "end_aligned k d a = a + (k + cdr_alignment a d)"

lemma endsD:
  assumes "ends w f e" "plain (ka_encoding c)" "ka_align64 c = w"
  obtains m where "ka_alignment c \<le> e (ka_alignment c)" "f c = (e (ka_alignment c) - ka_alignment c,
      c\<lparr>ka_alignment := e (ka_alignment c), ka_serialized_member_size := m\<rparr>)"
  using assms by (auto simp: ends_def)

lemma endsI:
  assumes "\<And>c. ka_align64 c = w \<Longrightarrow> f c = (e (ka_alignment c) - ka_alignment c, c\<lparr>ka_alignment := e (ka_alignment c)\<rparr>)"
    and "\<And>a. a \<le> e a"
  shows "ends w f e"
  unfolding ends_def
proof (intro allI impI)
  fix c :: calculator
  assume "ka_align64 c = w"
  from assms(1)[OF this] assms(2) show "\<exists>m. ka_alignment c \<le> e (ka_alignment c)
      \<and> f c = (e (ka_alignment c) - ka_alignment c,
          c\<lparr>ka_alignment := e (ka_alignment c), ka_serialized_member_size := m\<rparr>)"
    by (intro exI[of _ "ka_serialized_member_size c"]) simp
qed

lemma ends_scalar [ends_rules]:
  "ends w size_int32 (end_aligned 4 4)" "ends w size_uint32 (end_aligned 4 4)"
  "ends w size_float (end_aligned 4 4)" "ends w size_double (end_aligned 8 w)"
  "ends w size_char Suc" "ends w size_bool Suc" "ends w (size_chars data) ((+) (length data))"
  by (auto intro!: endsI simp: size_aligned_def size_int32_def size_uint32_def size_float_def size_double_def
    size_char_def size_bool_def size_chars_def end_aligned_def Let_def)

lemma ends_member [ends_rules]:
  assumes "ends w f e"
  shows "ends w (member_size i f) e"
  unfolding ends_def
proof (intro allI impI)
  fix c :: calculator
  assume c: "plain (ka_encoding c)" "ka_align64 c = w"
  let ?a = "ka_alignment c" and ?b = "e (ka_alignment c)"
  from endsD[OF assms c] obtain m where
    "?a \<le> ?b" "f c = (?b - ?a, c\<lparr>ka_alignment := ?b, ka_serialized_member_size := m\<rparr>)" .
  then show "\<exists>m. ?a \<le> ?b \<and> member_size i f c = (?b - ?a, c\<lparr>ka_alignment := ?b, ka_serialized_member_size := m\<rparr>)"
    using c(1) by (auto simp: member_size_def plain_def Let_def)
qed

lemma ends_add:
  assumes "list_all2 (ends w) fs es" "plain (ka_encoding c)" "ka_align64 c = w"
  shows "\<exists>m. ka_alignment c \<le> fold id es (ka_alignment c)
    \<and> add_sizes fs n c = (n + (fold id es (ka_alignment c) - ka_alignment c),
        c\<lparr>ka_alignment := fold id es (ka_alignment c), ka_serialized_member_size := m\<rparr>)"
  using assms
proof (induction fs es arbitrary: c n rule: list_all2_induct)
  case Nil
  then show ?case by (intro exI[of _ "ka_serialized_member_size c"]) simp
next
  case (Cons f fs e es)
  let ?a = "ka_alignment c"
  from endsD[OF Cons.hyps(1) Cons.prems] obtain m where
    m: "?a \<le> e ?a" "f c = (e ?a - ?a, c\<lparr>ka_alignment := e ?a, ka_serialized_member_size := m\<rparr>)" .
  from Cons.IH[of "c\<lparr>ka_alignment := e ?a, ka_serialized_member_size := m\<rparr>" "n + (e ?a - ?a)"] Cons.prems m
  show ?case by auto
qed

lemma ends_type [ends_rules]:
  assumes "plain_calculator api" "list_all2 (ends w) ms es"
  shows "ends w (type_size api ms) (fold id es)"
  unfolding ends_def
proof (intro allI impI)
  fix c :: calculator
  assume c: "plain (ka_encoding c)" "ka_align64 c = w"
  let ?e = "plain_encoding (ka_version c)" and ?a = "ka_alignment c"
  let ?b = "fold id es ?a"
  obtain m where m: "ka_begin_type api ?e c = (0, c\<lparr>ka_encoding := ?e, ka_serialized_member_size := m\<rparr>)"
    by (rule plain_begin[OF assms(1) plain_encoding_plain])
  let ?c = "c\<lparr>ka_encoding := ?e, ka_serialized_member_size := m\<rparr>"
  from ends_add[OF assms(2), of ?c 0] c(2) obtain m' where m': "?a \<le> ?b"
    "add_sizes ms 0 ?c = (?b - ?a, ?c\<lparr>ka_alignment := ?b, ka_serialized_member_size := m'\<rparr>)" by auto
  let ?d = "?c\<lparr>ka_alignment := ?b, ka_serialized_member_size := m'\<rparr>"
  have "plain (ka_encoding ?d)" by simp
  from plain_end[OF assms(1) this] obtain k where "ka_end_type api (ka_encoding c) ?d =
      (0, ?d\<lparr>ka_encoding := ka_encoding c, ka_serialized_member_size := k\<rparr>)" .
  with m m' show "\<exists>m. ?a \<le> ?b \<and> type_size api ms c = (?b - ?a, c\<lparr>ka_alignment := ?b, ka_serialized_member_size := m\<rparr>)"
    by (auto simp: type_size_def)
qed

text \<open>What the C++ types guarantee: the width of an \<open>int32_t\<close>, the length of an array.\<close>

definition EntityID_ok :: "EntityID \<Rightarrow> bool" where
  "EntityID_ok a \<longleftrightarrow> length (eid_entityName a) = 20 \<and> length (eid_modelName a) = 20
   \<and> is_i32 (eid_id a) \<and> is_i32 (eid_creatorID a) \<and> is_i32 (eid_visualID a)
   \<and> is_i32 (eid_visualModel a) \<and> is_i32 (eid_visualDetail a)"

definition Target_ok :: "Target \<Rightarrow> bool" where
  "Target_ok a \<longleftrightarrow> is_i32 (tgt_entity_id a)"

definition MovementAirEntity_ok :: "MovementAirEntity \<Rightarrow> bool" where
  "MovementAirEntity_ok a \<longleftrightarrow> length (missionName a) = 32"

definition AirEntity_ok :: "AirEntity \<Rightarrow> bool" where
  "AirEntity_ok a \<longleftrightarrow> MovementAirEntity_ok (movement a)
   \<and> is_i32 (ent_id a) \<and> is_i32 (formationID a) \<and> is_i32 (posInt_inseoFormation a)"

lemma ends_EntityID [ends_rules]: "plain_calculator api \<Longrightarrow> ends w (EntityID_size api a) (fold id
    [end_aligned 4 4, end_aligned 4 4, (+) (length (eid_entityName a)), (+) (length (eid_modelName a)),
     end_aligned 4 4, end_aligned 4 4, end_aligned 4 4, Suc, end_aligned 4 4, Suc, Suc, Suc, Suc,
     end_aligned 8 w])"
  unfolding EntityID_size_def by (intro ends_rules list.rel_intros)

lemma ends_Target [ends_rules]: "plain_calculator api \<Longrightarrow> ends w (Target_size api a) (fold id [end_aligned 4 4])"
  unfolding Target_size_def by (intro ends_rules list.rel_intros)

lemma ends_Position [ends_rules]: "plain_calculator api \<Longrightarrow> ends w (Position_size api a)
    (fold id [end_aligned 8 w, end_aligned 8 w, end_aligned 4 4, end_aligned 4 4, end_aligned 4 4])"
  unfolding Position_size_def by (intro ends_rules list.rel_intros)

abbreviation Attitude_end :: "nat \<Rightarrow> nat" where
  "Attitude_end \<equiv> fold id [end_aligned 4 4, end_aligned 4 4, end_aligned 4 4]"

abbreviation MovementAirEntity_end :: "nat \<Rightarrow> nat \<Rightarrow> nat" where
  "MovementAirEntity_end n \<equiv> fold id
     [end_aligned 4 4, end_aligned 4 4, end_aligned 4 4, end_aligned 4 4, end_aligned 4 4, Suc, Suc, (+) n,
      end_aligned 4 4, end_aligned 4 4, end_aligned 4 4, end_aligned 4 4, end_aligned 4 4, end_aligned 4 4,
      end_aligned 4 4, end_aligned 4 4, Suc, end_aligned 4 4, end_aligned 4 4, end_aligned 4 4]"

lemma ends_Attitude [ends_rules]: "plain_calculator api \<Longrightarrow> ends w (Attitude_size api a) Attitude_end"
  unfolding Attitude_size_def by (intro ends_rules list.rel_intros)

lemma ends_MovementAirEntity [ends_rules]:
  "plain_calculator api \<Longrightarrow> ends w (MovementAirEntity_size api a) (MovementAirEntity_end (length (missionName a)))"
  unfolding MovementAirEntity_size_def by (intro ends_rules list.rel_intros)

lemma ends_AirEntity [ends_rules]: "plain_calculator api \<Longrightarrow> ends w (AirEntity_size api a) (fold id
    [end_aligned 4 4, Attitude_end, MovementAirEntity_end (length (missionName (movement a))),
     Suc, end_aligned 4 4, end_aligned 4 4, Suc])"
  unfolding AirEntity_size_def by (intro ends_rules list.rel_intros)

text \<open>The size of a value at the start of a payload.\<close>

lemma ends_size:
  assumes "ends w f e" "plain (ka_encoding c)" "ka_align64 c = w" "ka_alignment c = 0"
  shows "fst (f c) = e 0"
  using assms by (auto simp: ends_def)

lemma size_at_start:
  assumes "plain_calculator api" "plain (ka_encoding c)" "ka_align64 c = 4 \<or> ka_align64 c = 8" "ka_alignment c = 0"
  shows "EntityID_ok e \<Longrightarrow> fst (EntityID_size api e c) = EntityID_max_cdr_typesize"
    and "fst (Target_size api t c) = Target_max_cdr_typesize"
    and "fst (Position_size api p c) = Position_max_cdr_typesize"
    and "fst (Attitude_size api a c) = Attitude_max_cdr_typesize"
    and "MovementAirEntity_ok m \<Longrightarrow> fst (MovementAirEntity_size api m c) = MovementAirEntity_max_cdr_typesize"
    and "AirEntity_ok x \<Longrightarrow> fst (AirEntity_size api x c) = AirEntity_max_cdr_typesize"
proof -
  note s = ends_size[OF _ assms(2) refl assms(4)]
  note d = end_aligned_def cdr_alignment_def
  show "EntityID_ok e \<Longrightarrow> fst (EntityID_size api e c) = EntityID_max_cdr_typesize"
    using assms(3) by (subst s[OF ends_EntityID[OF assms(1)]])
      (auto simp: d EntityID_ok_def EntityID_max_cdr_typesize_def)
  show "fst (Target_size api t c) = Target_max_cdr_typesize"
    by (subst s[OF ends_Target[OF assms(1)]]) (simp add: d Target_max_cdr_typesize_def)
  show "fst (Position_size api p c) = Position_max_cdr_typesize"
    using assms(3) by (subst s[OF ends_Position[OF assms(1)]]) (auto simp: d Position_max_cdr_typesize_def)
  show "fst (Attitude_size api a c) = Attitude_max_cdr_typesize"
    by (subst s[OF ends_Attitude[OF assms(1)]]) (simp add: d Attitude_max_cdr_typesize_def)
  show "MovementAirEntity_ok m \<Longrightarrow> fst (MovementAirEntity_size api m c) = MovementAirEntity_max_cdr_typesize"
    by (subst s[OF ends_MovementAirEntity[OF assms(1)]]) (simp add: d MovementAirEntity_ok_def MovementAirEntity_max_cdr_typesize_def)
  show "AirEntity_ok x \<Longrightarrow> fst (AirEntity_size api x c) = AirEntity_max_cdr_typesize"
    by (subst s[OF ends_AirEntity[OF assms(1)]]) (simp add: d AirEntity_ok_def MovementAirEntity_ok_def AirEntity_max_cdr_typesize_def)
qed

end
