(* ===== verification/CdrCodec.thy ===== *)
theory CdrCodec
  imports CdrSize
begin

section \<open>Serialization of the types\<close>

text \<open>
  \<open>serialize\<close>, \<open>deserialize\<close> and \<open>serialize_key\<close> of the six types
  (\<open>src/IDLs/generated/inse/inseCdrAux.ipp\<close>). The class \<open>Cdr\<close> they run on is compiled code of
  Fast CDR: the parameter \<open>cdr_api\<close>, with \<open>'s\<close> a stream on its buffer and \<open>'c\<close> a saved
  \<open>Cdr::state\<close>. \<open>deserialize_type\<close> takes the function that reads one member; it is a parameter
  for each type, since that function writes into an object of the type.

  A call that throws an exception of Fast CDR answers \<open>Inl\<close> with the stream (and the object)
  as it leaves it, any other call \<open>Inr\<close>.
\<close>

type_synonym 'x act = "'x \<Rightarrow> 'x + 'x"

datatype endianness = BIG_ENDIANNESS | LITTLE_ENDIANNESS

record ('s, 'c) cdr_api =
  cdr_default_endian :: endianness
  cdr_open :: "8 word list \<Rightarrow> endianness \<Rightarrow> cdr_version \<Rightarrow> 's"
  cdr_endianness :: "'s \<Rightarrow> endianness"
  cdr_get_version :: "'s \<Rightarrow> cdr_version"
  cdr_set_encoding_flag :: "cdr_encoding \<Rightarrow> 's \<Rightarrow> 's"
  cdr_serialize_encapsulation :: "'s act"
  cdr_read_encapsulation :: "'s act"
  cdr_set_dds_cdr_options :: "nat \<times> nat \<Rightarrow> 's \<Rightarrow> 's"
  cdr_length :: "'s \<Rightarrow> nat"
  cdr_memory :: "'s \<Rightarrow> 8 word list"
  cdr_state :: "'s \<Rightarrow> 'c"
  cdr_begin_type :: "cdr_encoding \<Rightarrow> 'c \<Rightarrow> 's \<Rightarrow> 's + 'c \<times> 's"
  cdr_end_type :: "'c \<Rightarrow> 's act"
  cdr_begin_member :: "nat \<Rightarrow> 'c \<Rightarrow> 's \<Rightarrow> 's + 'c \<times> 's"
  cdr_end_member :: "'c \<Rightarrow> 's act"
  cdr_put_int32 :: "int \<Rightarrow> 's act"
  cdr_put_uint32 :: "32 word \<Rightarrow> 's act"
  cdr_put_float :: "float_bits \<Rightarrow> 's act"
  cdr_put_double :: "double_bits \<Rightarrow> 's act"
  cdr_put_char :: "c_char \<Rightarrow> 's act"
  cdr_put_bool :: "bool \<Rightarrow> 's act"
  cdr_put_chars :: "c_char list \<Rightarrow> 's act"
  cdr_get_int32 :: "'s \<Rightarrow> 's + int \<times> 's"
  cdr_get_uint32 :: "'s \<Rightarrow> 's + 32 word \<times> 's"
  cdr_get_float :: "'s \<Rightarrow> 's + float_bits \<times> 's"
  cdr_get_double :: "'s \<Rightarrow> 's + double_bits \<times> 's"
  cdr_get_char :: "'s \<Rightarrow> 's + c_char \<times> 's"
  cdr_get_bool :: "'s \<Rightarrow> 's + bool \<times> 's"
  cdr_get_chars :: "nat \<Rightarrow> 's \<Rightarrow> 's + c_char list \<times> 's"

type_synonym ('s, 'd) deserialize_type =
  "cdr_encoding \<Rightarrow> (nat \<Rightarrow> 's \<times> 'd \<Rightarrow> 's \<times> 'd + bool \<times> 's \<times> 'd) \<Rightarrow> ('s \<times> 'd) act"

definition act_then :: "'x act \<Rightarrow> 'x act \<Rightarrow> 'x act" where
  "act_then f g x = (case f x of Inl y \<Rightarrow> Inl y | Inr y \<Rightarrow> g y)"

fun acts :: "'x act list \<Rightarrow> 'x act" where
  "acts [] x = Inr x"
| "acts (f # fs) x = act_then f (acts fs) x"

subsection \<open>Writing\<close>

text \<open>\<open>scdr << MemberId(i) << v\<close>: \<open>serialize_member\<close> of \<open>Cdr.h\<close>.\<close>

definition serialize_member :: "('s, 'c) cdr_api \<Rightarrow> nat \<Rightarrow> 's act \<Rightarrow> 's act" where
  "serialize_member api member_id put s =
     (case cdr_begin_member api member_id (cdr_state api s) s of Inl s \<Rightarrow> Inl s
      | Inr (current_state, s) \<Rightarrow> act_then put (cdr_end_member api current_state) s)"

text \<open>What the six \<open>serialize\<close> functions have in common.\<close>

definition serialize_type :: "('s, 'c) cdr_api \<Rightarrow> 's act list \<Rightarrow> 's act" where
  "serialize_type api members s =
     (case cdr_begin_type api (plain_encoding (cdr_get_version api s)) (cdr_state api s) s of Inl s \<Rightarrow> Inl s
      | Inr (current_state, s) \<Rightarrow> act_then (acts members) (cdr_end_type api current_state) s)"

definition EntityID_serialize :: "('s, 'c) cdr_api \<Rightarrow> EntityID \<Rightarrow> 's act" where
  "EntityID_serialize api data = serialize_type api
    [serialize_member api 0 (cdr_put_int32 api (eid_id data)),
     serialize_member api 1 (cdr_put_int32 api (eid_creatorID data)),
     serialize_member api 2 (cdr_put_chars api (eid_entityName data)),
     serialize_member api 3 (cdr_put_chars api (eid_modelName data)),
     serialize_member api 4 (cdr_put_int32 api (eid_visualID data)),
     serialize_member api 5 (cdr_put_int32 api (eid_visualModel data)),
     serialize_member api 6 (cdr_put_int32 api (eid_visualDetail data)),
     serialize_member api 7 (cdr_put_char api (eid_active data)),
     serialize_member api 8 (cdr_put_uint32 api (eid_delayedActivationTime data)),
     serialize_member api 9 (cdr_put_char api (eid_manned data)),
     serialize_member api 10 (cdr_put_char api (eid_remote data)),
     serialize_member api 11 (cdr_put_char api (eid_entityType data)),
     serialize_member api 12 (cdr_put_char api (eid_side data)),
     serialize_member api 13 (cdr_put_double api (eid_weight data))]"

definition Target_serialize :: "('s, 'c) cdr_api \<Rightarrow> Target \<Rightarrow> 's act" where
  "Target_serialize api data = serialize_type api
    [serialize_member api 0 (cdr_put_int32 api (tgt_entity_id data))]"

definition Position_serialize :: "('s, 'c) cdr_api \<Rightarrow> Position \<Rightarrow> 's act" where
  "Position_serialize api data = serialize_type api
    [serialize_member api 0 (cdr_put_double api (pos_latitude data)),
     serialize_member api 1 (cdr_put_double api (pos_longitude data)),
     serialize_member api 2 (cdr_put_float api (pos_altitude data)),
     serialize_member api 3 (cdr_put_float api (pos_altitudeAGL data)),
     serialize_member api 4 (cdr_put_float api (pos_altitude_target data))]"

definition Attitude_serialize :: "('s, 'c) cdr_api \<Rightarrow> Attitude \<Rightarrow> 's act" where
  "Attitude_serialize api data = serialize_type api
    [serialize_member api 0 (cdr_put_float api (pitch data)),
     serialize_member api 1 (cdr_put_float api (yaw data)),
     serialize_member api 2 (cdr_put_float api (roll data))]"

definition MovementAirEntity_serialize :: "('s, 'c) cdr_api \<Rightarrow> MovementAirEntity \<Rightarrow> 's act" where
  "MovementAirEntity_serialize api data = serialize_type api
    [serialize_member api 0 (cdr_put_float api (speed data)),
     serialize_member api 1 (cdr_put_float api (speed_target data)),
     serialize_member api 2 (cdr_put_float api (geographicHeading data)),
     serialize_member api 3 (cdr_put_float api (geographicHeading_target data)),
     serialize_member api 4 (cdr_put_float api (magneticHeading data)),
     serialize_member api 5 (cdr_put_char api (tmllf data)),
     serialize_member api 6 (cdr_put_char api (onGround data)),
     serialize_member api 7 (cdr_put_chars api (missionName data)),
     serialize_member api 8 (cdr_put_float api (indicatedSpeed data)),
     serialize_member api 9 (cdr_put_float api (indicatedSpeed_target data)),
     serialize_member api 10 (cdr_put_float api (loadFactor data)),
     serialize_member api 11 (cdr_put_float api (verticalSpeed data)),
     serialize_member api 12 (cdr_put_float api (verticalSpeed_target data)),
     serialize_member api 13 (cdr_put_float api (groundSpeed data)),
     serialize_member api 14 (cdr_put_float api (groundSpeed_target data)),
     serialize_member api 15 (cdr_put_float api (throttle data)),
     serialize_member api 16 (cdr_put_bool api (infiniteFuel data)),
     serialize_member api 17 (cdr_put_float api (initialFuel data)),
     serialize_member api 18 (cdr_put_float api (currentFuel data)),
     serialize_member api 19 (cdr_put_float api (fuelConsumption data))]"

definition AirEntity_serialize :: "('s, 'c) cdr_api \<Rightarrow> AirEntity \<Rightarrow> 's act" where
  "AirEntity_serialize api data = serialize_type api
    [serialize_member api 0 (cdr_put_int32 api (ent_id data)),
     serialize_member api 1 (Attitude_serialize api (entity_attitude data)),
     serialize_member api 2 (MovementAirEntity_serialize api (movement data)),
     serialize_member api 3 (cdr_put_char api (commsActive data)),
     serialize_member api 4 (cdr_put_int32 api (formationID data)),
     serialize_member api 5 (cdr_put_int32 api (posInt_inseoFormation data)),
     serialize_member api 6 (cdr_put_char api (isAutomaticTraffic data))]"

subsection \<open>Reading\<close>

text \<open>\<open>dcdr >> data.x()\<close> for a scalar or an array, and for a nested object.\<close>

definition get_into :: "('s \<Rightarrow> 's + 'v \<times> 's) \<Rightarrow> ('v \<Rightarrow> 'd \<Rightarrow> 'd) \<Rightarrow> ('s \<times> 'd) act" where
  "get_into get store = (\<lambda>(s, d). case get s of Inl s \<Rightarrow> Inl (s, d) | Inr (v, s) \<Rightarrow> Inr (s, store v d))"

definition get_nested :: "('s \<times> 'v) act \<Rightarrow> ('d \<Rightarrow> 'v) \<Rightarrow> ('v \<Rightarrow> 'd \<Rightarrow> 'd) \<Rightarrow> ('s \<times> 'd) act" where
  "get_nested get field store = (\<lambda>(s, d). case get (s, field d) of
     Inl (s, v) \<Rightarrow> Inl (s, store v d) | Inr (s, v) \<Rightarrow> Inr (s, store v d))"

text \<open>The \<open>switch\<close> on the member identifier.\<close>

definition switch_members :: "('s \<times> 'd) act list \<Rightarrow> nat \<Rightarrow> 's \<times> 'd \<Rightarrow> 's \<times> 'd + bool \<times> 's \<times> 'd" where
  "switch_members cases i x =
     (if i < length cases then (case (cases ! i) x of Inl y \<Rightarrow> Inl y | Inr y \<Rightarrow> Inr (True, y))
      else Inr (False, x))"

text \<open>What the six \<open>deserialize\<close> functions have in common.\<close>

definition deserialize_members :: "('s, 'c) cdr_api \<Rightarrow> ('s, 'd) deserialize_type
    \<Rightarrow> ('s \<times> 'd) act list \<Rightarrow> ('s \<times> 'd) act" where
  "deserialize_members api dt cases x =
     dt (plain_encoding (cdr_get_version api (fst x))) (switch_members cases) x"

definition EntityID_deserialize :: "('s, 'c) cdr_api \<Rightarrow> ('s, EntityID) deserialize_type
    \<Rightarrow> ('s \<times> EntityID) act" where
  "EntityID_deserialize api dt = deserialize_members api dt
    [get_into (cdr_get_int32 api) (\<lambda>x d. d\<lparr>eid_id := x\<rparr>),
     get_into (cdr_get_int32 api) (\<lambda>x d. d\<lparr>eid_creatorID := x\<rparr>),
     get_into (cdr_get_chars api 20) (\<lambda>x d. d\<lparr>eid_entityName := x\<rparr>),
     get_into (cdr_get_chars api 20) (\<lambda>x d. d\<lparr>eid_modelName := x\<rparr>),
     get_into (cdr_get_int32 api) (\<lambda>x d. d\<lparr>eid_visualID := x\<rparr>),
     get_into (cdr_get_int32 api) (\<lambda>x d. d\<lparr>eid_visualModel := x\<rparr>),
     get_into (cdr_get_int32 api) (\<lambda>x d. d\<lparr>eid_visualDetail := x\<rparr>),
     get_into (cdr_get_char api) (\<lambda>x d. d\<lparr>eid_active := x\<rparr>),
     get_into (cdr_get_uint32 api) (\<lambda>x d. d\<lparr>eid_delayedActivationTime := x\<rparr>),
     get_into (cdr_get_char api) (\<lambda>x d. d\<lparr>eid_manned := x\<rparr>),
     get_into (cdr_get_char api) (\<lambda>x d. d\<lparr>eid_remote := x\<rparr>),
     get_into (cdr_get_char api) (\<lambda>x d. d\<lparr>eid_entityType := x\<rparr>),
     get_into (cdr_get_char api) (\<lambda>x d. d\<lparr>eid_side := x\<rparr>),
     get_into (cdr_get_double api) (\<lambda>x d. d\<lparr>eid_weight := x\<rparr>)]"

definition Target_deserialize :: "('s, 'c) cdr_api \<Rightarrow> ('s, Target) deserialize_type
    \<Rightarrow> ('s \<times> Target) act" where
  "Target_deserialize api dt = deserialize_members api dt
    [get_into (cdr_get_int32 api) (\<lambda>x d. d\<lparr>tgt_entity_id := x\<rparr>)]"

definition Position_deserialize :: "('s, 'c) cdr_api \<Rightarrow> ('s, Position) deserialize_type
    \<Rightarrow> ('s \<times> Position) act" where
  "Position_deserialize api dt = deserialize_members api dt
    [get_into (cdr_get_double api) (\<lambda>x d. d\<lparr>pos_latitude := x\<rparr>),
     get_into (cdr_get_double api) (\<lambda>x d. d\<lparr>pos_longitude := x\<rparr>),
     get_into (cdr_get_float api) (\<lambda>x d. d\<lparr>pos_altitude := x\<rparr>),
     get_into (cdr_get_float api) (\<lambda>x d. d\<lparr>pos_altitudeAGL := x\<rparr>),
     get_into (cdr_get_float api) (\<lambda>x d. d\<lparr>pos_altitude_target := x\<rparr>)]"

definition Attitude_deserialize :: "('s, 'c) cdr_api \<Rightarrow> ('s, Attitude) deserialize_type
    \<Rightarrow> ('s \<times> Attitude) act" where
  "Attitude_deserialize api dt = deserialize_members api dt
    [get_into (cdr_get_float api) (\<lambda>x d. d\<lparr>pitch := x\<rparr>),
     get_into (cdr_get_float api) (\<lambda>x d. d\<lparr>yaw := x\<rparr>),
     get_into (cdr_get_float api) (\<lambda>x d. d\<lparr>roll := x\<rparr>)]"

definition MovementAirEntity_deserialize :: "('s, 'c) cdr_api \<Rightarrow> ('s, MovementAirEntity) deserialize_type
    \<Rightarrow> ('s \<times> MovementAirEntity) act" where
  "MovementAirEntity_deserialize api dt = deserialize_members api dt
    [get_into (cdr_get_float api) (\<lambda>x d. d\<lparr>speed := x\<rparr>),
     get_into (cdr_get_float api) (\<lambda>x d. d\<lparr>speed_target := x\<rparr>),
     get_into (cdr_get_float api) (\<lambda>x d. d\<lparr>geographicHeading := x\<rparr>),
     get_into (cdr_get_float api) (\<lambda>x d. d\<lparr>geographicHeading_target := x\<rparr>),
     get_into (cdr_get_float api) (\<lambda>x d. d\<lparr>magneticHeading := x\<rparr>),
     get_into (cdr_get_char api) (\<lambda>x d. d\<lparr>tmllf := x\<rparr>),
     get_into (cdr_get_char api) (\<lambda>x d. d\<lparr>onGround := x\<rparr>),
     get_into (cdr_get_chars api 32) (\<lambda>x d. d\<lparr>missionName := x\<rparr>),
     get_into (cdr_get_float api) (\<lambda>x d. d\<lparr>indicatedSpeed := x\<rparr>),
     get_into (cdr_get_float api) (\<lambda>x d. d\<lparr>indicatedSpeed_target := x\<rparr>),
     get_into (cdr_get_float api) (\<lambda>x d. d\<lparr>loadFactor := x\<rparr>),
     get_into (cdr_get_float api) (\<lambda>x d. d\<lparr>verticalSpeed := x\<rparr>),
     get_into (cdr_get_float api) (\<lambda>x d. d\<lparr>verticalSpeed_target := x\<rparr>),
     get_into (cdr_get_float api) (\<lambda>x d. d\<lparr>groundSpeed := x\<rparr>),
     get_into (cdr_get_float api) (\<lambda>x d. d\<lparr>groundSpeed_target := x\<rparr>),
     get_into (cdr_get_float api) (\<lambda>x d. d\<lparr>throttle := x\<rparr>),
     get_into (cdr_get_bool api) (\<lambda>x d. d\<lparr>infiniteFuel := x\<rparr>),
     get_into (cdr_get_float api) (\<lambda>x d. d\<lparr>initialFuel := x\<rparr>),
     get_into (cdr_get_float api) (\<lambda>x d. d\<lparr>currentFuel := x\<rparr>),
     get_into (cdr_get_float api) (\<lambda>x d. d\<lparr>fuelConsumption := x\<rparr>)]"

definition AirEntity_deserialize :: "('s, 'c) cdr_api \<Rightarrow> ('s, Attitude) deserialize_type
    \<Rightarrow> ('s, MovementAirEntity) deserialize_type \<Rightarrow> ('s, AirEntity) deserialize_type
    \<Rightarrow> ('s \<times> AirEntity) act" where
  "AirEntity_deserialize api dt_a dt_m dt = deserialize_members api dt
    [get_into (cdr_get_int32 api) (\<lambda>x d. d\<lparr>ent_id := x\<rparr>),
     get_nested (Attitude_deserialize api dt_a) entity_attitude (\<lambda>x d. d\<lparr>entity_attitude := x\<rparr>),
     get_nested (MovementAirEntity_deserialize api dt_m) movement (\<lambda>x d. d\<lparr>movement := x\<rparr>),
     get_into (cdr_get_char api) (\<lambda>x d. d\<lparr>commsActive := x\<rparr>),
     get_into (cdr_get_int32 api) (\<lambda>x d. d\<lparr>formationID := x\<rparr>),
     get_into (cdr_get_int32 api) (\<lambda>x d. d\<lparr>posInt_inseoFormation := x\<rparr>),
     get_into (cdr_get_char api) (\<lambda>x d. d\<lparr>isAutomaticTraffic := x\<rparr>)]"

text \<open>The keys: only the member of \<open>AirEntity\<close> that the IDL marks is one.\<close>

definition EntityID_serialize_key :: "('s, 'c) cdr_api \<Rightarrow> EntityID \<Rightarrow> 's act" where
  "EntityID_serialize_key api data = acts
    [cdr_put_int32 api (eid_id data), cdr_put_int32 api (eid_creatorID data),
     cdr_put_chars api (eid_entityName data), cdr_put_chars api (eid_modelName data),
     cdr_put_int32 api (eid_visualID data), cdr_put_int32 api (eid_visualModel data),
     cdr_put_int32 api (eid_visualDetail data), cdr_put_char api (eid_active data),
     cdr_put_uint32 api (eid_delayedActivationTime data), cdr_put_char api (eid_manned data),
     cdr_put_char api (eid_remote data), cdr_put_char api (eid_entityType data),
     cdr_put_char api (eid_side data), cdr_put_double api (eid_weight data)]"

definition Target_serialize_key :: "('s, 'c) cdr_api \<Rightarrow> Target \<Rightarrow> 's act" where
  "Target_serialize_key api data = acts
    [cdr_put_int32 api (tgt_entity_id data)]"

definition Position_serialize_key :: "('s, 'c) cdr_api \<Rightarrow> Position \<Rightarrow> 's act" where
  "Position_serialize_key api data = acts
    [cdr_put_double api (pos_latitude data), cdr_put_double api (pos_longitude data),
     cdr_put_float api (pos_altitude data), cdr_put_float api (pos_altitudeAGL data),
     cdr_put_float api (pos_altitude_target data)]"

definition Attitude_serialize_key :: "('s, 'c) cdr_api \<Rightarrow> Attitude \<Rightarrow> 's act" where
  "Attitude_serialize_key api data = acts
    [cdr_put_float api (pitch data), cdr_put_float api (yaw data), cdr_put_float api (roll data)]"

definition MovementAirEntity_serialize_key :: "('s, 'c) cdr_api \<Rightarrow> MovementAirEntity \<Rightarrow> 's act" where
  "MovementAirEntity_serialize_key api data = acts
    [cdr_put_float api (speed data), cdr_put_float api (speed_target data),
     cdr_put_float api (geographicHeading data), cdr_put_float api (geographicHeading_target data),
     cdr_put_float api (magneticHeading data), cdr_put_char api (tmllf data),
     cdr_put_char api (onGround data), cdr_put_chars api (missionName data),
     cdr_put_float api (indicatedSpeed data), cdr_put_float api (indicatedSpeed_target data),
     cdr_put_float api (loadFactor data), cdr_put_float api (verticalSpeed data),
     cdr_put_float api (verticalSpeed_target data), cdr_put_float api (groundSpeed data),
     cdr_put_float api (groundSpeed_target data), cdr_put_float api (throttle data),
     cdr_put_bool api (infiniteFuel data), cdr_put_float api (initialFuel data),
     cdr_put_float api (currentFuel data), cdr_put_float api (fuelConsumption data)]"

definition AirEntity_serialize_key :: "('s, 'c) cdr_api \<Rightarrow> AirEntity \<Rightarrow> 's act" where
  "AirEntity_serialize_key api data = acts [cdr_put_int32 api (ent_id data)]"

subsection \<open>What Fast CDR documents\<close>

text \<open>
  \<open>writes api s ps s'\<close>: a sequence of calls that encodes the values \<open>ps\<close>, every type with the
  plain encoding of the version and every bracket closed, and takes \<open>s\<close> to \<open>s'\<close>.
\<close>

datatype prim = PInt32 int | PUInt32 "32 word" | PFloat float_bits | PDouble double_bits
  | PChar c_char | PBool bool | PChars "c_char list"

fun put_prim :: "('s, 'c) cdr_api \<Rightarrow> prim \<Rightarrow> 's act" where
  "put_prim api (PInt32 x) = cdr_put_int32 api x"
| "put_prim api (PUInt32 x) = cdr_put_uint32 api x"
| "put_prim api (PFloat x) = cdr_put_float api x"
| "put_prim api (PDouble x) = cdr_put_double api x"
| "put_prim api (PChar x) = cdr_put_char api x"
| "put_prim api (PBool x) = cdr_put_bool api x"
| "put_prim api (PChars x) = cdr_put_chars api x"

fun get_prim :: "('s, 'c) cdr_api \<Rightarrow> prim \<Rightarrow> 's \<Rightarrow> ('s + prim \<times> 's)" where
  "get_prim api (PInt32 _) s = map_sum id (map_prod PInt32 id) (cdr_get_int32 api s)"
| "get_prim api (PUInt32 _) s = map_sum id (map_prod PUInt32 id) (cdr_get_uint32 api s)"
| "get_prim api (PFloat _) s = map_sum id (map_prod PFloat id) (cdr_get_float api s)"
| "get_prim api (PDouble _) s = map_sum id (map_prod PDouble id) (cdr_get_double api s)"
| "get_prim api (PChar _) s = map_sum id (map_prod PChar id) (cdr_get_char api s)"
| "get_prim api (PBool _) s = map_sum id (map_prod PBool id) (cdr_get_bool api s)"
| "get_prim api (PChars x) s = map_sum id (map_prod PChars id) (cdr_get_chars api (length x) s)"

fun prim_ok :: "prim \<Rightarrow> bool" where
  "prim_ok (PInt32 x) = is_i32 x"
| "prim_ok (PChars x) = (x \<noteq> [])"
| "prim_ok _ = True"

inductive writes :: "('s, 'c) cdr_api \<Rightarrow> 's \<Rightarrow> prim list \<Rightarrow> 's \<Rightarrow> bool" for api where
  writes_none: "writes api s [] s"
| writes_prim: "prim_ok p \<Longrightarrow> put_prim api p s = Inr s' \<Longrightarrow> writes api s [p] s'"
| writes_seq: "writes api s ps s' \<Longrightarrow> writes api s' qs s'' \<Longrightarrow> writes api s (ps @ qs) s''"
| writes_member: "cdr_begin_member api i (cdr_state api s) s = Inr (c, s1) \<Longrightarrow> writes api s1 ps s2
    \<Longrightarrow> cdr_end_member api c s2 = Inr s3 \<Longrightarrow> writes api s ps s3"
| writes_type: "cdr_begin_type api (plain_encoding (cdr_get_version api s)) (cdr_state api s) s = Inr (c, s1)
    \<Longrightarrow> writes api s1 ps s2 \<Longrightarrow> cdr_end_type api c s2 = Inr s3 \<Longrightarrow> writes api s ps s3"

text \<open>\<open>reads api s ps\<close>: from \<open>s\<close> on the values \<open>ps\<close> can be read, each call consuming data.\<close>

fun reads :: "('s, 'c) cdr_api \<Rightarrow> 's \<Rightarrow> prim list \<Rightarrow> bool" where
  "reads api s [] = True"
| "reads api s (p # ps) = (case get_prim api p s of Inl _ \<Rightarrow> False
     | Inr (q, s') \<Rightarrow> q = p \<and> cdr_length api s < cdr_length api s' \<and> reads api s' ps)"

text \<open>
  \<open>deserialize_type\<close> under a plain encoding calls the function with the member identifiers 0, 1,
  \<open>\<dots>\<close> in order until it answers false (or the data is used up, which the calls of a
  \<open>member_calls\<close> exclude: each but the last consumes some).
\<close>

inductive member_calls :: "('s, 'c) cdr_api \<Rightarrow> (nat \<Rightarrow> 's \<times> 'd \<Rightarrow> 's \<times> 'd + bool \<times> 's \<times> 'd)
    \<Rightarrow> nat \<Rightarrow> 's \<times> 'd \<Rightarrow> 's \<times> 'd \<Rightarrow> bool" for api f where
  calls_end: "f i x = Inr (False, x) \<Longrightarrow> member_calls api f i x x"
| calls_next: "f i x = Inr (True, y) \<Longrightarrow> cdr_length api (fst x) < cdr_length api (fst y)
    \<Longrightarrow> member_calls api f (Suc i) y z \<Longrightarrow> member_calls api f i x z"

definition members_in_order :: "('s, 'c) cdr_api \<Rightarrow> ('s, 'd) deserialize_type \<Rightarrow> bool" where
  "members_in_order api dt \<longleftrightarrow> (\<forall>e f x y. plain e \<longrightarrow> member_calls api f 0 x y \<longrightarrow> dt e f x = Inr y)"

text \<open>The bytes of a number, the most significant one first.\<close>

fun be_bytes :: "nat \<Rightarrow> nat \<Rightarrow> 8 word list" where
  "be_bytes 0 x = []"
| "be_bytes (Suc n) x = be_bytes n (x div 256) @ [word_of_nat (x mod 256)]"

fun be_value :: "8 word list \<Rightarrow> nat \<Rightarrow> nat" where
  "be_value [] x = x"
| "be_value (b # bs) x = be_value bs (256 * x + unat b)"

lemma length_be_bytes [simp]: "length (be_bytes n x) = n"
  by (induction n arbitrary: x) auto

lemma be_value_append: "be_value (bs @ cs) x = be_value cs (be_value bs x)"
  by (induction bs arbitrary: x) auto

lemma be_value_bytes: "x < 256 ^ n \<Longrightarrow> be_value (be_bytes n x) 0 = x"
proof (induction n arbitrary: x)
  case (Suc n)
  have "unat (word_of_nat (x mod 256) :: 8 word) = x mod 256" by (simp add: unat_of_nat take_bit_eq_mod)
  moreover have "x div 256 < 256 ^ n" using Suc.prems by (simp add: less_mult_imp_div_less mult.commute)
  ultimately show ?case using Suc.IH by (simp add: be_value_append)
qed simp

lemma i32_mod: "i32 (x mod 2 ^ 32) = i32 x"
  by (simp add: i32_def mod_add_left_eq)

text \<open>
  A stream that was opened for a version with a plain encoding, has got its encapsulation and
  then a sequence of values, has encoded at most the bytes of its buffer; opened on these
  bytes, after \<open>read_encapsulation\<close>, it reads the same values.
\<close>

definition cdr_transmits :: "('s, 'c) cdr_api \<Rightarrow> bool" where
  "cdr_transmits api \<longleftrightarrow> (\<forall>buffer v s ps s' o'.
     cdr_serialize_encapsulation api (cdr_set_encoding_flag api (plain_encoding v)
       (cdr_open api buffer (cdr_default_endian api) v)) = Inr s
     \<longrightarrow> writes api s ps s' \<longrightarrow> (let s' = cdr_set_dds_cdr_options api o' s' in
       cdr_length api s' \<le> length buffer
       \<and> (\<exists>r. cdr_read_encapsulation api (cdr_open api (take (cdr_length api s') (cdr_memory api s'))
                (cdr_default_endian api) XCDRv2) = Inr r
            \<and> reads api r ps)))"

subsection \<open>What is written\<close>

definition EntityID_prims :: "EntityID \<Rightarrow> prim list" where
  "EntityID_prims a = concat
    [[PInt32 (eid_id a)], [PInt32 (eid_creatorID a)], [PChars (eid_entityName a)],
     [PChars (eid_modelName a)], [PInt32 (eid_visualID a)], [PInt32 (eid_visualModel a)],
     [PInt32 (eid_visualDetail a)], [PChar (eid_active a)],
     [PUInt32 (eid_delayedActivationTime a)], [PChar (eid_manned a)], [PChar (eid_remote a)],
     [PChar (eid_entityType a)], [PChar (eid_side a)], [PDouble (eid_weight a)]]"

definition Target_prims :: "Target \<Rightarrow> prim list" where
  "Target_prims a = concat
    [[PInt32 (tgt_entity_id a)]]"

definition Position_prims :: "Position \<Rightarrow> prim list" where
  "Position_prims a = concat
    [[PDouble (pos_latitude a)], [PDouble (pos_longitude a)], [PFloat (pos_altitude a)],
     [PFloat (pos_altitudeAGL a)], [PFloat (pos_altitude_target a)]]"

definition Attitude_prims :: "Attitude \<Rightarrow> prim list" where
  "Attitude_prims a = concat
    [[PFloat (pitch a)], [PFloat (yaw a)], [PFloat (roll a)]]"

definition MovementAirEntity_prims :: "MovementAirEntity \<Rightarrow> prim list" where
  "MovementAirEntity_prims a = concat
    [[PFloat (speed a)], [PFloat (speed_target a)], [PFloat (geographicHeading a)],
     [PFloat (geographicHeading_target a)], [PFloat (magneticHeading a)], [PChar (tmllf a)],
     [PChar (onGround a)], [PChars (missionName a)], [PFloat (indicatedSpeed a)],
     [PFloat (indicatedSpeed_target a)], [PFloat (loadFactor a)], [PFloat (verticalSpeed a)],
     [PFloat (verticalSpeed_target a)], [PFloat (groundSpeed a)], [PFloat (groundSpeed_target a)],
     [PFloat (throttle a)], [PBool (infiniteFuel a)], [PFloat (initialFuel a)],
     [PFloat (currentFuel a)], [PFloat (fuelConsumption a)]]"

definition AirEntity_prims :: "AirEntity \<Rightarrow> prim list" where
  "AirEntity_prims a = concat
    [[PInt32 (ent_id a)], Attitude_prims (entity_attitude a), MovementAirEntity_prims (movement a),
     [PChar (commsActive a)], [PInt32 (formationID a)], [PInt32 (posInt_inseoFormation a)],
     [PChar (isAutomaticTraffic a)]]"

lemma act_then_Inr: "act_then f g x = Inr z \<longleftrightarrow> (\<exists>y. f x = Inr y \<and> g y = Inr z)"
  by (auto simp: act_then_def split: sum.splits)

definition emits :: "('s, 'c) cdr_api \<Rightarrow> 's act \<Rightarrow> prim list \<Rightarrow> bool" where
  "emits api f ps \<longleftrightarrow> (\<forall>s s'. f s = Inr s' \<longrightarrow> writes api s ps s')"

named_theorems emits_rules "what a writing call encodes"

lemma emits_put [emits_rules]:
  "is_i32 i \<Longrightarrow> emits api (cdr_put_int32 api i) [PInt32 i]"
  "emits api (cdr_put_uint32 api u) [PUInt32 u]" "emits api (cdr_put_float api x) [PFloat x]"
  "emits api (cdr_put_double api d) [PDouble d]" "emits api (cdr_put_char api c) [PChar c]"
  "emits api (cdr_put_bool api b) [PBool b]"
  "cs \<noteq> [] \<Longrightarrow> emits api (cdr_put_chars api cs) [PChars cs]"
  unfolding emits_def by (auto intro: writes_prim)

lemma emits_member [emits_rules]:
  assumes "emits api f ps"
  shows "emits api (serialize_member api i f) ps"
  using assms unfolding emits_def serialize_member_def
  by (auto simp: act_then_Inr intro: writes_member split: sum.splits)

lemma emits_acts: "list_all2 (emits api) fs pss \<Longrightarrow> emits api (acts fs) (concat pss)"
proof (induction rule: list_all2_induct)
  case Nil
  then show ?case by (simp add: emits_def writes_none)
next
  case (Cons f fs ps pss)
  have "writes api s (ps @ concat pss) s'" if "f s = Inr y" "acts fs y = Inr s'" for s y s'
    using that Cons.hyps(1) Cons.IH unfolding emits_def by (blast intro: writes_seq)
  then show ?case by (auto simp: emits_def act_then_Inr)
qed

lemma emits_type [emits_rules]:
  assumes "list_all2 (emits api) fs pss"
  shows "emits api (serialize_type api fs) (concat pss)"
  using emits_acts[OF assms] unfolding emits_def serialize_type_def
  by (auto simp: act_then_Inr intro: writes_type split: sum.splits)

lemma emits_EntityID [emits_rules]:
  "EntityID_ok a \<Longrightarrow> emits api (EntityID_serialize api a) (EntityID_prims a)"
  unfolding EntityID_serialize_def EntityID_prims_def EntityID_ok_def
  by (intro emits_rules list.rel_intros) auto

lemma emits_Target [emits_rules]:
  "Target_ok a \<Longrightarrow> emits api (Target_serialize api a) (Target_prims a)"
  unfolding Target_serialize_def Target_prims_def Target_ok_def
  by (intro emits_rules list.rel_intros) auto

lemma emits_Position [emits_rules]:
  "emits api (Position_serialize api a) (Position_prims a)"
  unfolding Position_serialize_def Position_prims_def
  by (intro emits_rules list.rel_intros)

lemma emits_Attitude [emits_rules]:
  "emits api (Attitude_serialize api a) (Attitude_prims a)"
  unfolding Attitude_serialize_def Attitude_prims_def
  by (intro emits_rules list.rel_intros)

lemma emits_MovementAirEntity [emits_rules]:
  "MovementAirEntity_ok a \<Longrightarrow> emits api (MovementAirEntity_serialize api a) (MovementAirEntity_prims a)"
  unfolding MovementAirEntity_serialize_def MovementAirEntity_prims_def MovementAirEntity_ok_def
  by (intro emits_rules list.rel_intros) auto

lemma emits_AirEntity [emits_rules]:
  "AirEntity_ok a \<Longrightarrow> emits api (AirEntity_serialize api a) (AirEntity_prims a)"
  unfolding AirEntity_serialize_def AirEntity_prims_def AirEntity_ok_def
  by (intro emits_rules list.rel_intros) auto

subsection \<open>What is read\<close>

definition fetches :: "('s, 'c) cdr_api \<Rightarrow> ('s \<times> 'd) act \<Rightarrow> prim list \<Rightarrow> ('d \<Rightarrow> 'd) \<Rightarrow> bool" where
  "fetches api f ps g \<longleftrightarrow> ps \<noteq> [] \<and> (\<forall>s qs d. reads api s (ps @ qs) \<longrightarrow>
     (\<exists>s'. f (s, d) = Inr (s', g d) \<and> reads api s' qs \<and> cdr_length api s < cdr_length api s'))"

named_theorems fetches_rules "what a reading call delivers"

lemma fetches_get [fetches_rules]:
  "fetches api (get_into (cdr_get_int32 api) h) [PInt32 i] (h i)"
  "fetches api (get_into (cdr_get_uint32 api) h1) [PUInt32 u] (h1 u)"
  "fetches api (get_into (cdr_get_float api) h2) [PFloat x] (h2 x)"
  "fetches api (get_into (cdr_get_double api) h3) [PDouble y] (h3 y)"
  "fetches api (get_into (cdr_get_char api) h4) [PChar c] (h4 c)"
  "fetches api (get_into (cdr_get_bool api) h5) [PBool b] (h5 b)"
  by (auto simp: fetches_def get_into_def split: sum.splits)

lemma fetches_chars [fetches_rules]:
  "length cs = n \<Longrightarrow> fetches api (get_into (cdr_get_chars api n) h) [PChars cs] (h cs)"
  by (auto simp: fetches_def get_into_def split: sum.splits)

lemma fetches_nested [fetches_rules]:
  assumes "fetches api f ps (\<lambda>_. v)"
  shows "fetches api (get_nested f field store) ps (store v)"
  unfolding fetches_def
proof (intro conjI allI impI)
  show "ps \<noteq> []" using assms by (simp add: fetches_def)
next
  fix s qs d
  assume "reads api s (ps @ qs)"
  with assms obtain s' where "f (s, field d) = Inr (s', v)" "reads api s' qs" "cdr_length api s < cdr_length api s'"
    unfolding fetches_def by blast
  then show "\<exists>s'. get_nested f field store (s, d) = Inr (s', store v d) \<and> reads api s' qs
      \<and> cdr_length api s < cdr_length api s'" by (simp add: get_nested_def)
qed

fun apply_all :: "('d \<Rightarrow> 'd) list \<Rightarrow> 'd \<Rightarrow> 'd" where
  "apply_all [] d = d"
| "apply_all (g # gs) d = apply_all gs (g d)"

inductive all_fetch :: "('s, 'c) cdr_api \<Rightarrow> ('s \<times> 'd) act list \<Rightarrow> prim list list \<Rightarrow> ('d \<Rightarrow> 'd) list \<Rightarrow> bool" for api where
  fetch_none: "all_fetch api [] [] []"
| fetch_one: "fetches api f ps g \<Longrightarrow> all_fetch api fs pss gs \<Longrightarrow> all_fetch api (f # fs) (ps # pss) (g # gs)"

lemma fetched_calls:
  assumes "all_fetch api fs pss gs" "drop i cases = fs" "i \<le> length cases" "reads api s (concat pss @ qs)"
  shows "\<exists>s'. member_calls api (switch_members cases) i (s, d) (s', apply_all gs d) \<and> reads api s' qs
    \<and> cdr_length api s \<le> cdr_length api s' \<and> (pss \<noteq> [] \<longrightarrow> cdr_length api s < cdr_length api s')"
  using assms
proof (induction arbitrary: i s d rule: all_fetch.induct)
  case fetch_none
  then have "switch_members cases i (s, d) = Inr (False, (s, d))" by (simp add: switch_members_def)
  from calls_end[where f = "switch_members cases", OF this] fetch_none show ?case
    by (intro exI[of _ s]) simp
next
  case (fetch_one f ps g fs pss gs)
  from fetch_one.prems have i: "i < length cases" "cases ! i = f" "drop (Suc i) cases = fs"
    by (metis drop_all linorder_not_le list.distinct(1), metis hd_drop_conv_nth drop_all linorder_not_le list.distinct(1) list.sel(1),
      metis drop_Suc list.sel(3) tl_drop)
  from fetch_one.hyps(1) fetch_one.prems(3) obtain u where
    u: "f (s, d) = Inr (u, g d)" "reads api u (concat pss @ qs)" "cdr_length api s < cdr_length api u"
    unfolding fetches_def concat.simps append_assoc by blast
  from fetch_one.IH[OF i(3) _ u(2), of "g d"] i(1) obtain s' where
    s': "member_calls api (switch_members cases) (Suc i) (u, g d) (s', apply_all gs (g d))" "reads api s' qs"
      "cdr_length api u \<le> cdr_length api s'" by auto
  have "switch_members cases i (s, d) = Inr (True, (u, g d))"
    using i(1,2) u(1) by (simp add: switch_members_def)
  from calls_next[OF this _ s'(1)] u(3) s'(2,3) show ?case by (intro exI[of _ s']) simp
qed

lemma fetches_members:
  assumes "members_in_order api dt" "all_fetch api fs pss gs" "pss \<noteq> []" "concat pss \<noteq> []" "\<And>d. apply_all gs d = a"
  shows "fetches api (deserialize_members api dt fs) (concat pss) (\<lambda>_. a)"
  unfolding fetches_def
proof (intro conjI allI impI assms(4))
  fix s qs d
  assume r: "reads api s (concat pss @ qs)"
  from fetched_calls[OF assms(2) _ _ r, of 0 fs d] obtain s' where
    s': "member_calls api (switch_members fs) 0 (s, d) (s', a)" "reads api s' qs"
      "cdr_length api s < cdr_length api s'" using assms(3,5) by auto
  have "dt (plain_encoding (cdr_get_version api s)) (switch_members fs) (s, d) = Inr (s', a)"
    using assms(1) s'(1) unfolding members_in_order_def by simp
  with s' show "\<exists>s'. deserialize_members api dt fs (s, d) = Inr (s', a) \<and> reads api s' qs
      \<and> cdr_length api s < cdr_length api s'" by (simp add: deserialize_members_def)
qed

lemma fetches_EntityID [fetches_rules]:
  "members_in_order api dt \<Longrightarrow> EntityID_ok a \<Longrightarrow> fetches api (EntityID_deserialize api dt)
    (EntityID_prims a) (\<lambda>_. a)"
  unfolding EntityID_deserialize_def EntityID_prims_def EntityID_ok_def
  by (rule fetches_members, assumption, (rule fetch_one fetch_none fetches_rules | simp)+)

lemma fetches_Target [fetches_rules]:
  "members_in_order api dt \<Longrightarrow> Target_ok a \<Longrightarrow> fetches api (Target_deserialize api dt)
    (Target_prims a) (\<lambda>_. a)"
  unfolding Target_deserialize_def Target_prims_def Target_ok_def
  by (rule fetches_members, assumption, (rule fetch_one fetch_none fetches_rules | simp)+)

lemma fetches_Position [fetches_rules]:
  "members_in_order api dt \<Longrightarrow> fetches api (Position_deserialize api dt)
    (Position_prims a) (\<lambda>_. a)"
  unfolding Position_deserialize_def Position_prims_def
  by (rule fetches_members, assumption, (rule fetch_one fetch_none fetches_rules | simp)+)

lemma fetches_Attitude [fetches_rules]:
  "members_in_order api dt \<Longrightarrow> fetches api (Attitude_deserialize api dt)
    (Attitude_prims a) (\<lambda>_. a)"
  unfolding Attitude_deserialize_def Attitude_prims_def
  by (rule fetches_members, assumption, (rule fetch_one fetch_none fetches_rules | simp)+)

lemma fetches_MovementAirEntity [fetches_rules]:
  "members_in_order api dt \<Longrightarrow> MovementAirEntity_ok a \<Longrightarrow> fetches api (MovementAirEntity_deserialize api dt)
    (MovementAirEntity_prims a) (\<lambda>_. a)"
  unfolding MovementAirEntity_deserialize_def MovementAirEntity_prims_def MovementAirEntity_ok_def
  by (rule fetches_members, assumption, (rule fetch_one fetch_none fetches_rules | simp)+)

lemma fetches_AirEntity [fetches_rules]:
  "members_in_order api dt_a \<Longrightarrow> members_in_order api dt_m \<Longrightarrow> members_in_order api dt \<Longrightarrow> AirEntity_ok a \<Longrightarrow> fetches api (AirEntity_deserialize api dt_a dt_m dt)
    (AirEntity_prims a) (\<lambda>_. a)"
  unfolding AirEntity_deserialize_def AirEntity_prims_def AirEntity_ok_def
  by (rule fetches_members, assumption, (rule fetch_one fetch_none fetches_rules | simp)+)

end
