(* ===== verification/OpenSerializer.thy ===== *)
theory OpenSerializer
  imports CdrCodec
begin

section \<open>The serializer of OpenDDS\<close>

text \<open>
  The classes \<open>Encoding\<close> and \<open>Serializer\<close> the OpenDDS type supports run on, as far as they are
  inline code (\<open>src/lib/OpenDDS/OpenDDS-install/include/dds/DCPS/Serializer.inl\<close>). A serializer
  writes to a chain of message blocks (\<open>OpenReader\<close> has the reading half): a block is the address of its write
  pointer with the memory from there on. \<open>align_wshift_\<close> keeps the
  alignment across blocks. The two compiled copies are what the comments of \<open>doread\<close> and
  \<open>dowrite\<close> draw: \<open>smemcpy\<close> copies, \<open>swapcpy\<close> copies in reverse. \<open>sw_bytes\<close> is what has gone
  into the blocks so far, in order. Addresses are \<open>size_t\<close>, 64 bits; a length of memory is far
  below that and a \<open>nat\<close>.
\<close>

datatype encoding_kind = KIND_XCDR1 | KIND_XCDR2 | KIND_UNALIGNED_CDR
datatype xcdr_version = XCDR_VERSION_NONE | XCDR_VERSION_1 | XCDR_VERSION_2

record encoding =
  en_kind :: encoding_kind
  en_endianness :: endianness
  en_alignment :: "64 word"
  en_zero_init_padding :: bool
  en_xcdr_version :: xcdr_version

definition set_kind :: "encoding_kind \<Rightarrow> encoding \<Rightarrow> encoding" where
  "set_kind v e = (let e = e\<lparr>en_zero_init_padding := True\<rparr>;
     e = (case v of KIND_XCDR1 \<Rightarrow> e\<lparr>en_alignment := 8, en_xcdr_version := XCDR_VERSION_1\<rparr>
          | KIND_XCDR2 \<Rightarrow> e\<lparr>en_alignment := 4, en_xcdr_version := XCDR_VERSION_2\<rparr>
          | KIND_UNALIGNED_CDR \<Rightarrow> e\<lparr>en_alignment := 0, en_xcdr_version := XCDR_VERSION_NONE\<rparr>)
     in e\<lparr>en_kind := v\<rparr>)"

definition dcps_align :: "64 word \<Rightarrow> 64 word \<Rightarrow> 64 word" where
  "dcps_align val by = (val + by - 1) AND NOT (by - 1)"

definition encoding_align :: "encoding \<Rightarrow> 64 word \<Rightarrow> 64 word \<Rightarrow> 64 word" where
  "encoding_align e val by = (if en_alignment e \<noteq> 0 then dcps_align val (min (en_alignment e) by) else val)"

subsection \<open>Writing\<close>

record wblock =
  wb_ptr :: "64 word"
  wb_free :: "8 word list"

record ser_w =
  sw_encoding :: encoding
  sw_native :: endianness
  sw_swap :: bool
  sw_chain :: "wblock list"
  sw_good :: bool
  sw_shift :: "8 word"
  sw_pos :: nat
  sw_bytes :: "8 word list"

definition shift_offset :: "64 word \<Rightarrow> 64 word \<Rightarrow> 64 word \<Rightarrow> 8 word" where
  "shift_offset index start align = ucast ((index - start) mod align)"

definition align_cont_w :: "ser_w \<Rightarrow> ser_w" where
  "align_cont_w s = (case sw_chain s of [] \<Rightarrow> s | b # bs \<Rightarrow>
     let max_align = en_alignment (sw_encoding s);
         thisblock = (if max_align \<noteq> 0 then (wb_ptr b - ucast (sw_shift s)) mod max_align else 0);
         s = s\<lparr>sw_chain := bs\<rparr>
     in case bs of [] \<Rightarrow> s | b # _ \<Rightarrow>
       if max_align \<noteq> 0 then s\<lparr>sw_shift := shift_offset (wb_ptr b) thisblock max_align\<rparr> else s)"

text \<open>\<open>wr_ptr(n)\<close> after \<open>xs\<close> was stored there.\<close>

definition store_w :: "8 word list \<Rightarrow> ser_w \<Rightarrow> ser_w" where
  "store_w xs s = (case sw_chain s of [] \<Rightarrow> s | b # bs \<Rightarrow>
     s\<lparr>sw_chain := \<lparr>wb_ptr = wb_ptr b + of_nat (length xs), wb_free = drop (length xs) (wb_free b)\<rparr> # bs,
       sw_pos := sw_pos s + length xs, sw_bytes := sw_bytes s @ xs\<rparr>)"

definition dowrite :: "8 word list \<Rightarrow> nat \<Rightarrow> bool \<Rightarrow> nat \<Rightarrow> ser_w \<Rightarrow> nat \<times> ser_w" where
  "dowrite src sz swap offset s = (case sw_chain s of [] \<Rightarrow> (sz, s\<lparr>sw_good := False\<rparr>) | b # bs \<Rightarrow>
     let spc = length (wb_free b);
         remainder = (if sz - offset > spc then sz - offset - spc else 0);
         initial = sz - offset - remainder;
         s = store_w (if swap then rev (take initial (drop remainder src)) else take initial (drop offset src)) s;
         s = (if spc - initial = 0
              then if en_alignment (sw_encoding s) \<noteq> 0 then align_cont_w s else s\<lparr>sw_chain := bs\<rparr>
              else s)
     in (offset + initial, s))"

lemma align_cont_chain: "sw_chain (align_cont_w s) = tl (sw_chain s)"
  by (simp add: align_cont_w_def Let_def split: list.split)

lemma store_chain:
  "tl (sw_chain (store_w xs s)) = tl (sw_chain s)" "sw_encoding (store_w xs s) = sw_encoding s"
  by (simp_all add: store_w_def split: list.split)

lemma dowrite_Cons:
  fixes src :: "8 word list" and sz offset :: nat and swap :: bool
  assumes "sw_chain s = b # bs"
  defines "n \<equiv> min (sz - offset) (length (wb_free b))"
  defines "t \<equiv> store_w (if swap then rev (take n (drop (sz - offset - n) src)) else take n (drop offset src)) s"
  shows "dowrite src sz swap offset s = (offset + n,
    if length (wb_free b) - n = 0 then if en_alignment (sw_encoding s) \<noteq> 0 then align_cont_w t else t\<lparr>sw_chain := bs\<rparr> else t)"
proof -
  have r: "(if sz - offset > length (wb_free b) then sz - offset - length (wb_free b) else 0) = sz - offset - n"
    and i: "sz - offset - (sz - offset - n) = n" by (simp_all add: n_def)
  show ?thesis unfolding dowrite_def assms(1) list.case Let_def r i t_def store_chain(2) by (rule refl)
qed

lemma dowrite_progress:
  assumes "dowrite src sz swap offset s = (o', s')" "sz > offset"
  shows "o' = sz \<or> length (sw_chain s') < length (sw_chain s)"
proof (cases "sw_chain s")
  case Nil
  then show ?thesis using assms(1) by (simp add: dowrite_def)
next
  case (Cons b bs)
  define t where "t xs = store_w xs s" for xs
  have t: "tl (sw_chain (t xs)) = bs" for xs by (simp add: t_def store_chain Cons)
  show ?thesis using assms Cons unfolding dowrite_Cons[OF Cons] t_def[symmetric]
    by (auto simp only: prod.inject align_cont_chain t list.size split: if_splits) simp_all
qed

function buffer_write_from :: "8 word list \<Rightarrow> nat \<Rightarrow> bool \<Rightarrow> nat \<Rightarrow> ser_w \<Rightarrow> ser_w" where
  "buffer_write_from src sz swap offset s = (if sz > offset
     then case dowrite src sz swap offset s of (offset, s) \<Rightarrow> buffer_write_from src sz swap offset s
     else s)"
  by pat_completeness simp

termination
proof (relation "measure (\<lambda>(src, sz, swap, offset, s). if sz > offset then Suc (length (sw_chain s)) else 0)")
  fix src sz swap offset s o' s'
  assume "(sz :: nat) > offset" "(o', s') = dowrite src sz swap offset s"
  then have "sz > offset" "o' = sz \<or> length (sw_chain s') < length (sw_chain s)"
    using dowrite_progress[of src sz swap offset s o' s'] by simp_all
  then show "((src, sz, swap, o', s'), (src, sz, swap, offset, s)) \<in>
      measure (\<lambda>(src, sz, swap, offset, s). if sz > offset then Suc (length (sw_chain s)) else 0)" by auto
qed simp

declare buffer_write_from.simps [simp del]

definition buffer_write :: "8 word list \<Rightarrow> bool \<Rightarrow> ser_w \<Rightarrow> ser_w" where
  "buffer_write src swap s = buffer_write_from src (length src) swap 0 s"

text \<open>The padding: zeros, or what the memory holds.\<close>

definition padding :: "ser_w \<Rightarrow> nat \<Rightarrow> 8 word list \<Rightarrow> 8 word list" where
  "padding s n memory = (if en_zero_init_padding (sw_encoding s) then replicate n 0 else take n memory)"

function pad_w :: "nat \<Rightarrow> ser_w \<Rightarrow> ser_w" where
  "pad_w len s = (if len = 0 then s else case sw_chain s of [] \<Rightarrow> s\<lparr>sw_good := False\<rparr> | b # bs \<Rightarrow>
     let cur_spc = length (wb_free b)
     in if cur_spc \<le> len
        then pad_w (len - cur_spc) (align_cont_w (store_w (padding s cur_spc (wb_free b)) s))
        else store_w (padding s len (wb_free b)) s)"
  by auto

termination
  by (relation "measure (\<lambda>(len, s). length (sw_chain s))") (auto simp: align_cont_chain store_w_def)

declare pad_w.simps [simp del]

definition align_w :: "64 word \<Rightarrow> ser_w \<Rightarrow> bool \<times> ser_w" where
  "align_w al s = (if en_alignment (sw_encoding s) = 0 then (True, s) else case sw_chain s of
     [] \<Rightarrow> (False, s\<lparr>sw_good := False\<rparr>) | b # bs \<Rightarrow>
     let al = min al (en_alignment (sw_encoding s));
         len = (al - wb_ptr b + ucast (sw_shift s)) mod al;
         s = pad_w (unat len) s
     in (sw_good s, s))"

text \<open>The memory of a number on the machine.\<close>

definition mem_bytes :: "endianness \<Rightarrow> nat \<Rightarrow> nat \<Rightarrow> 8 word list" where
  "mem_bytes native n x = (if native = BIG_ENDIANNESS then be_bytes n x else rev (be_bytes n x))"

text \<open>The insertion operators.\<close>

definition insert_aligned :: "64 word \<Rightarrow> 8 word list \<Rightarrow> ser_w \<Rightarrow> bool \<times> ser_w" where
  "insert_aligned al x s = (case align_w al s of (ok, s) \<Rightarrow>
     if \<not> ok then (False, s) else let s = buffer_write x (sw_swap s) s in (sw_good s, s))"

definition insert_Long :: "int \<Rightarrow> ser_w \<Rightarrow> bool \<times> ser_w" where
  "insert_Long x s = insert_aligned 4 (mem_bytes (sw_native s) 4 (nat (x mod 2 ^ 32))) s"

definition insert_ULong :: "32 word \<Rightarrow> ser_w \<Rightarrow> bool \<times> ser_w" where
  "insert_ULong x s = insert_aligned 4 (mem_bytes (sw_native s) 4 (unat x)) s"

definition insert_Float :: "float_bits \<Rightarrow> ser_w \<Rightarrow> bool \<times> ser_w" where
  "insert_Float x s = insert_aligned 4 (mem_bytes (sw_native s) 4 (unat x)) s"

definition insert_Double :: "double_bits \<Rightarrow> ser_w \<Rightarrow> bool \<times> ser_w" where
  "insert_Double x s = insert_aligned 8 (mem_bytes (sw_native s) 8 (unat x)) s"

definition insert_from_char :: "c_char \<Rightarrow> ser_w \<Rightarrow> bool \<times> ser_w" where
  "insert_from_char x s = (let s = buffer_write [x] False s in (sw_good s, s))"

definition insert_from_boolean :: "bool \<Rightarrow> ser_w \<Rightarrow> bool \<times> ser_w" where
  "insert_from_boolean x s = (let s = buffer_write [if x then 1 else 0] False s in (sw_good s, s))"

text \<open>\<open>write_char_array\<close>: \<open>write_array\<close> with elements of one byte, which are never swapped.\<close>

definition write_char_array :: "c_char list \<Rightarrow> nat \<Rightarrow> ser_w \<Rightarrow> bool \<times> ser_w" where
  "write_char_array x len s = (let s = buffer_write (take len x) False s in (sw_good s, s))"

definition write_delimiter :: "64 word \<Rightarrow> ser_w \<Rightarrow> bool \<times> ser_w" where
  "write_delimiter sz s = (if en_xcdr_version (sw_encoding s) = XCDR_VERSION_2
     then insert_ULong (ucast (sz - 4)) s else (True, s))"

text \<open>\<open>f && g && \<dots>\<close>\<close>

fun all_ok :: "('x \<Rightarrow> bool \<times> 'x) list \<Rightarrow> 'x \<Rightarrow> bool \<times> 'x" where
  "all_ok [] x = (True, x)"
| "all_ok (f # fs) x = (case f x of (ok, x) \<Rightarrow> if ok then all_ok fs x else (False, x))"

subsection \<open>A chain of blocks is one buffer\<close>

text \<open>
  \<open>ready_w\<close>: the serializer is good and in step, that is, the shift of the current block makes
  up for its address, as the constructor sets it up. Then writing puts the bytes after what is
  there while the chain has room for them, and otherwise loses the good bit.
\<close>

definition room :: "ser_w \<Rightarrow> nat" where
  "room s = sum_list (map (\<lambda>b. length (wb_free b)) (sw_chain s))"

definition encoding_ok :: "encoding \<Rightarrow> bool" where
  "encoding_ok e \<longleftrightarrow> en_zero_init_padding e \<and> en_alignment e \<in> {0, 4, 8}"

definition in_step_w :: "ser_w \<Rightarrow> bool" where
  "in_step_w s \<longleftrightarrow> (case sw_chain s of [] \<Rightarrow> True | b # bs \<Rightarrow> en_alignment (sw_encoding s) \<noteq> 0 \<longrightarrow>
     en_alignment (sw_encoding s) dvd wb_ptr b - ucast (sw_shift s) - of_nat (sw_pos s))"

definition ready_w :: "ser_w \<Rightarrow> bool" where
  "ready_w s \<longleftrightarrow> sw_good s \<and> encoding_ok (sw_encoding s) \<and> in_step_w s
     \<and> sw_swap s = (en_endianness (sw_encoding s) \<noteq> sw_native s)"

definition wrote :: "8 word list \<Rightarrow> ser_w \<Rightarrow> ser_w \<Rightarrow> bool" where
  "wrote xs s s' \<longleftrightarrow> ready_w s' \<and> sw_bytes s' = sw_bytes s @ xs \<and> sw_pos s' = sw_pos s + length xs
     \<and> room s' + length xs = room s \<and> sw_encoding s' = sw_encoding s \<and> sw_native s' = sw_native s"

lemma wrote_none: "ready_w s \<Longrightarrow> wrote [] s s"
  by (simp add: wrote_def)

lemma wrote_trans: "wrote xs s t \<Longrightarrow> wrote ys t u \<Longrightarrow> wrote (xs @ ys) s u"
  by (auto simp: wrote_def)

lemma word_dvd_mod: "(m :: 64 word) dvd x - x mod m"
  by (metis add_diff_cancel_right' dvd_triv_right mult_div_mod_eq mult.commute)

lemma shift_offset_dvd:
  assumes "(m :: 64 word) = 4 \<or> m = 8"
  shows "m dvd p - ucast (shift_offset p q m) - q"
proof -
  have "unat ((p - q) mod m) < 256" using assms by (auto simp: unat_mod intro: order_less_trans[OF mod_less_divisor])
  then have "ucast (ucast ((p - q) mod m) :: 8 word) = (p - q) mod m"
    by (simp add: word_unat_eq_iff unsigned_ucast_eq unsigned_take_bit_eq take_bit_nat_eq_self)
  moreover have "m dvd (p - q) - (p - q) mod m" by (rule word_dvd_mod)
  ultimately show ?thesis by (simp add: shift_offset_def algebra_simps)
qed

lemma align_cont_ready:
  assumes s: "ready_w s" "sw_chain s = b # bs" "wb_free b = []"
  shows "wrote [] s (align_cont_w s)"
proof (cases "bs = [] \<or> en_alignment (sw_encoding s) = 0")
  case True
  then show ?thesis using s
    by (auto simp: wrote_def ready_w_def in_step_w_def align_cont_w_def room_def Let_def split: list.splits)
next
  case False
  let ?m = "en_alignment (sw_encoding s)"
  from False obtain c cs where bs: "bs = c # cs" by (cases bs) auto
  have m: "?m = 4 \<or> ?m = 8" using s(1) False by (auto simp: ready_w_def encoding_ok_def)
  let ?x = "wb_ptr b - ucast (sw_shift s)"
  let ?sh = "shift_offset (wb_ptr c) (?x mod ?m) ?m"
  have a: "align_cont_w s = s\<lparr>sw_chain := bs, sw_shift := ?sh\<rparr>"
    using s(2) bs False by (simp add: align_cont_w_def Let_def)
  have "?m dvd ?x - of_nat (sw_pos s)" using s(1,2) False by (simp add: ready_w_def in_step_w_def)
  from dvd_diff[OF dvd_add[OF shift_offset_dvd[OF m] this] word_dvd_mod]
  have "?m dvd (wb_ptr c - ucast ?sh - ?x mod ?m) + (?x - of_nat (sw_pos s)) - (?x - ?x mod ?m)" .
  then have "?m dvd wb_ptr c - ucast ?sh - of_nat (sw_pos s)" by (simp add: algebra_simps)
  then show ?thesis using s bs unfolding a
    by (simp add: wrote_def ready_w_def in_step_w_def room_def)
qed

lemma store_ready:
  assumes "ready_w s" "sw_chain s = b # bs" "length xs \<le> length (wb_free b)"
  shows "wrote xs s (store_w xs s)"
  using assms by (simp add: wrote_def ready_w_def in_step_w_def store_w_def room_def algebra_simps)

lemma store_head:
  "sw_chain s = b # bs \<Longrightarrow> sw_chain (store_w xs s) =
     \<lparr>wb_ptr = wb_ptr b + of_nat (length xs), wb_free = drop (length xs) (wb_free b)\<rparr> # bs"
  by (simp add: store_w_def)

lemma drop_block_ready:
  assumes "ready_w s" "sw_chain s = b # bs" "wb_free b = []" "en_alignment (sw_encoding s) = 0"
  shows "wrote [] s (s\<lparr>sw_chain := bs\<rparr>)"
  using assms by (auto simp: wrote_def ready_w_def in_step_w_def room_def split: list.splits)

lemma rev_segment:
  assumes "n \<le> length xs - i" "i \<le> length xs"
  shows "rev (take n (drop (length xs - i - n) xs)) = take n (drop i (rev xs))"
proof -
  have "rev (take n (drop (length xs - i - n) xs)) = drop i (take (length xs - (length xs - i - n)) (rev xs))"
    using assms by (simp add: rev_take rev_drop)
  moreover have "length xs - (length xs - i - n) = n + i" using assms by simp
  ultimately show ?thesis by (simp add: take_drop add.commute)
qed

lemma dowrite_ready:
  assumes s: "ready_w s" "sw_chain s = b # bs" and o: "offset \<le> sz" "length src = sz"
  defines "n \<equiv> min (sz - offset) (length (wb_free b))"
  obtains t where "dowrite src sz swap offset s = (offset + n, t)"
    and "wrote (take n (drop offset (if swap then rev src else src))) s t"
proof -
  define xs where "xs = (if swap then rev (take n (drop (sz - offset - n) src)) else take n (drop offset src))"
  have n: "n \<le> sz - offset" "n \<le> length (wb_free b)" by (simp_all add: n_def)
  have "rev (take n (drop (sz - offset - n) src)) = take n (drop offset (rev src))"
    unfolding o(2)[symmetric] by (rule rev_segment) (use o n in simp_all)
  then have xs: "xs = take n (drop offset (if swap then rev src else src))" by (simp add: xs_def)
  then have len: "length xs = n" using o n by simp
  let ?t = "store_w xs s"
  have t: "wrote xs s ?t" using store_ready[OF s] len n by simp
  then have r: "ready_w ?t" by (simp add: wrote_def)
  note h = store_head[OF s(2), of xs]
  let ?u = "if length (wb_free b) - n = 0 then if en_alignment (sw_encoding s) \<noteq> 0 then align_cont_w ?t
      else ?t\<lparr>sw_chain := bs\<rparr> else ?t"
  have "wrote [] ?t ?u"
    using align_cont_ready[OF r h] drop_block_ready[OF r h] wrote_none[OF r] len
    by (simp add: store_chain)
  from wrote_trans[OF t this] have "wrote xs s ?u" by simp
  moreover have "dowrite src sz swap offset s = (offset + n, ?u)"
    unfolding dowrite_Cons[OF s(2)] n_def[symmetric] xs_def[symmetric] by (rule refl)
  ultimately show thesis using that xs by simp
qed

lemma room_Cons: "sw_chain s = b # bs \<Longrightarrow> length (wb_free b) \<le> room s"
  by (simp add: room_def)

lemma buffer_write_from_ready:
  assumes "ready_w s" "offset \<le> sz" "length src = sz" "xs = drop offset (if swap then rev src else src)"
  shows "if length xs \<le> room s then wrote xs s (buffer_write_from src sz swap offset s)
    else \<not> sw_good (buffer_write_from src sz swap offset s)"
  using assms
proof (induction src sz swap offset s arbitrary: xs rule: buffer_write_from.induct)
  case (1 src sz swap offset s)
  show ?case
  proof (cases "sz > offset")
    case False
    then show ?thesis using 1 by (simp add: buffer_write_from.simps wrote_none)
  next
    case True
    have len: "length xs = sz - offset" using 1 by simp
    show ?thesis
    proof (cases "sw_chain s")
      case Nil
      then have "dowrite src sz swap offset s = (sz, s\<lparr>sw_good := False\<rparr>)" by (simp add: dowrite_def)
      then have "\<not> sw_good (buffer_write_from src sz swap offset s)" using True
        by (simp add: buffer_write_from.simps[of src sz swap offset] buffer_write_from.simps[of src sz swap sz])
      then show ?thesis using Nil True len by (simp add: room_def)
    next
      case (Cons b bs)
      define n where "n = min (sz - offset) (length (wb_free b))"
      from dowrite_ready[OF 1(2) Cons 1(3,4)] obtain t where
        d: "dowrite src sz swap offset s = (offset + n, t)" and w: "wrote (take n xs) s t"
        unfolding n_def 1(5) by blast
      have step: "buffer_write_from src sz swap offset s = buffer_write_from src sz swap (offset + n) t"
        using True d by (simp add: buffer_write_from.simps[of src sz swap offset])
      have r: "ready_w t" using w by (simp add: wrote_def)
      have x: "drop n xs = drop (offset + n) (if swap then rev src else src)" by (simp add: 1(5) add.commute)
      have "offset + n \<le> sz" using 1(3) by (simp add: n_def)
      from 1(1)[OF True d[symmetric] r this 1(4) x]
      have "if length (drop n xs) \<le> room t then wrote (drop n xs) t (buffer_write_from src sz swap (offset + n) t)
        else \<not> sw_good (buffer_write_from src sz swap (offset + n) t)" .
      moreover have "room t + length (take n xs) = room s" using w by (simp add: wrote_def)
      ultimately show ?thesis unfolding step using wrote_trans[OF w, of "drop n xs"] n_def len
        by (auto split: if_splits)
    qed
  qed
qed

lemma buffer_write_ready:
  fixes src :: "8 word list" and swap :: bool
  assumes "ready_w s"
  defines "xs \<equiv> if swap then rev src else src"
  shows "if length src \<le> room s then wrote xs s (buffer_write src swap s) else \<not> sw_good (buffer_write src swap s)"
  using buffer_write_from_ready[OF assms(1), of 0 "length src" src xs swap]
  by (simp add: buffer_write_def xs_def split: if_splits)

lemma pad_w_ready:
  assumes "ready_w s" "en_alignment (sw_encoding s) \<noteq> 0"
  shows "if n \<le> room s then wrote (replicate n 0) s (pad_w n s) else \<not> sw_good (pad_w n s)"
  using assms
proof (induction n s rule: pad_w.induct)
  case (1 n s)
  show ?case
  proof (cases "n = 0")
    case True
    then show ?thesis using 1(2) by (simp add: pad_w.simps wrote_none)
  next
    case False
    show ?thesis
    proof (cases "sw_chain s")
      case Nil
      then show ?thesis using False by (simp add: pad_w.simps room_def)
    next
      case (Cons b bs)
      let ?k = "length (wb_free b)"
      have p: "padding s k xs = replicate k 0" for k xs
        using 1(2) by (simp add: padding_def ready_w_def encoding_ok_def)
      show ?thesis
      proof (cases "?k \<le> n")
        case True
        let ?t = "store_w (replicate ?k 0) s"
        have w: "wrote (replicate ?k 0) s ?t" using store_ready[OF 1(2) Cons] by simp
        then have "ready_w ?t" by (simp add: wrote_def)
        from align_cont_ready[OF this store_head[OF Cons]] have "wrote [] ?t (align_cont_w ?t)" by simp
        from wrote_trans[OF w this] have c: "wrote (replicate ?k 0) s (align_cont_w ?t)" by simp
        have e: "pad_w n s = pad_w (n - ?k) (align_cont_w ?t)"
          using False True Cons by (simp add: pad_w.simps[of n] p Let_def)
        have "ready_w (align_cont_w ?t)" "en_alignment (sw_encoding (align_cont_w ?t)) \<noteq> 0"
          using c 1(3) by (simp_all add: wrote_def)
        from 1(1)[OF False Cons refl True, unfolded p, OF this]
        have i: "if n - ?k \<le> room (align_cont_w ?t)
            then wrote (replicate (n - ?k) 0) (align_cont_w ?t) (pad_w n s) else \<not> sw_good (pad_w n s)"
          by (simp add: e)
        have "room (align_cont_w ?t) + ?k = room s" using c by (simp add: wrote_def)
        moreover have "replicate ?k 0 @ replicate (n - ?k) 0 = replicate n (0 :: 8 word)"
          using True by (simp add: replicate_add[symmetric])
        ultimately show ?thesis using i wrote_trans[OF c, of "replicate (n - ?k) 0"] True
          by (auto split: if_splits)
      next
        case f: False
        have "pad_w n s = store_w (replicate n 0) s" using False f Cons by (simp add: pad_w.simps[of n] p Let_def)
        moreover have "n \<le> room s" using f room_Cons[OF Cons] by simp
        ultimately show ?thesis using store_ready[OF 1(2) Cons] f by simp
      qed
    qed
  qed
qed

definition cdr_pad :: "nat \<Rightarrow> nat \<Rightarrow> nat" where
  "cdr_pad al p = (al - p mod al) mod al"

definition stream_align :: "encoding \<Rightarrow> nat \<Rightarrow> nat" where
  "stream_align e n = (if en_alignment e = 0 then 1 else min n (unat (en_alignment e)))"

lemma word_dvd_unat:
  assumes "(a :: 64 word) dvd w" "a = 4 \<or> a = 8"
  shows "unat a dvd unat w"
proof -
  from assms(1) obtain c where "w = a * c" by (elim dvdE)
  then have "unat w = unat a * unat c mod 2 ^ 64" by (simp add: unat_word_ariths)
  moreover have "unat a dvd 2 ^ 64" using assms(2) by auto
  ultimately show ?thesis by (simp add: dvd_mod)
qed

lemma pad_complement:
  assumes "(a :: nat) dvd x + n" "0 < a"
  shows "x mod a = (a - n mod a) mod a"
proof -
  have "a dvd x mod a + n mod a" using assms(1) by (simp add: dvd_eq_mod_eq_0 mod_add_eq)
  then obtain c where c: "x mod a + n mod a = a * c" by (elim dvdE)
  have "x mod a < a" "n mod a < a" using assms(2) by simp_all
  then have "a * c < a * 2" using c by linarith
  then have "c = 0 \<or> c = 1" by auto
  then show ?thesis
  proof
    assume "c = 1"
    then have "x mod a = a - n mod a" using c by simp
    then show ?thesis by (metis mod_mod_trivial)
  qed (use c assms(2) in simp)
qed

lemma align_amount:
  assumes "(a :: 64 word) dvd p - sh - of_nat n" "a = 4 \<or> a = 8"
  shows "unat ((a - p + sh) mod a) = cdr_pad (unat a) n"
proof -
  let ?y = "a - p + sh"
  have "a dvd a - (p - sh - of_nat n)" using assms(1) by (rule dvd_diff[OF dvd_refl])
  then have "a dvd ?y + of_nat n" by (simp add: algebra_simps)
  from word_dvd_unat[OF this assms(2)]
  have "unat a dvd (unat ?y + n mod 2 ^ 64) mod 2 ^ 64" by (simp add: unat_word_ariths unat_of_nat take_bit_eq_mod)
  then have "unat a dvd (unat ?y + n) mod 2 ^ 64" by (simp add: mod_add_right_eq)
  moreover have "unat a dvd 2 ^ 64" using assms(2) by auto
  ultimately have "unat a dvd unat ?y + n" by (metis dvd_mod_iff)
  moreover have "0 < unat a" using assms(2) by auto
  ultimately have "unat ?y mod unat a = (unat a - n mod unat a) mod unat a" by (rule pad_complement)
  then show ?thesis by (simp add: cdr_pad_def unat_mod)
qed

lemma min_align:
  assumes "a = 4 \<or> a = (8 :: 64 word)" "m = 4 \<or> m = (8 :: 64 word)"
  shows "min a m dvd m" "min a m = 4 \<or> min a m = 8" "unat (min a m) = min (unat a) (unat m)"
proof -
  have "(4 :: 64 word) dvd 8" by (rule dvdI[of _ _ 2]) simp
  with assms show "min a m dvd m" "min a m = 4 \<or> min a m = 8" "unat (min a m) = min (unat a) (unat m)" by auto
qed

lemma align_w_ready:
  assumes s: "ready_w s" "sw_chain s \<noteq> []" and a: "a = 4 \<or> a = 8"
  defines "k \<equiv> cdr_pad (stream_align (sw_encoding s) (unat a)) (sw_pos s)"
  shows "if k \<le> room s then fst (align_w a s) \<and> wrote (replicate k 0) s (snd (align_w a s))
    else \<not> fst (align_w a s)"
proof (cases "en_alignment (sw_encoding s) = 0")
  case True
  then show ?thesis using s by (simp add: align_w_def k_def stream_align_def cdr_pad_def wrote_none)
next
  case False
  let ?m = "en_alignment (sw_encoding s)"
  obtain b bs where c: "sw_chain s = b # bs" using s(2) by (cases "sw_chain s") auto
  have m: "?m = 4 \<or> ?m = 8" using s(1) False by (auto simp: ready_w_def encoding_ok_def)
  have "?m dvd wb_ptr b - ucast (sw_shift s) - of_nat (sw_pos s)"
    using s(1) c False by (simp add: ready_w_def in_step_w_def)
  with min_align(1)[OF a m] have "min a ?m dvd wb_ptr b - ucast (sw_shift s) - of_nat (sw_pos s)"
    by (rule dvd_trans)
  from align_amount[OF this min_align(2)[OF a m]]
  have "unat ((min a ?m - wb_ptr b + ucast (sw_shift s)) mod min a ?m) = k"
    using False by (simp add: k_def stream_align_def min_align(3)[OF a m])
  then have "align_w a s = (sw_good (pad_w k s), pad_w k s)"
    using False c by (simp add: align_w_def Let_def)
  then show ?thesis using pad_w_ready[OF s(1) False, of k] by (auto simp: wrote_def ready_w_def)
qed

lemma insert_aligned_ready:
  assumes s: "ready_w s" and a: "a = 4 \<or> a = 8" and x: "x \<noteq> []"
  defines "k \<equiv> cdr_pad (stream_align (sw_encoding s) (unat a)) (sw_pos s)"
  shows "if k + length x \<le> room s
    then fst (insert_aligned a x s)
      \<and> wrote (replicate k 0 @ (if sw_swap s then rev x else x)) s (snd (insert_aligned a x s))
    else \<not> fst (insert_aligned a x s)"
proof (cases "sw_chain s = []")
  case True
  have "\<not> fst (insert_aligned a x s)"
  proof (cases "en_alignment (sw_encoding s) = 0")
    case t: True
    have "room s = 0" using True by (simp add: room_def)
    with x have "\<not> sw_good (buffer_write x (sw_swap s) s)"
      using buffer_write_ready[OF s, of x "sw_swap s"] by (simp split: if_splits)
    with t show ?thesis by (simp add: insert_aligned_def align_w_def Let_def)
  next
    case False
    then show ?thesis using True by (simp add: insert_aligned_def align_w_def)
  qed
  then show ?thesis using True x by (simp add: room_def)
next
  case False
  obtain ok t where t: "align_w a s = (ok, t)" by (cases "align_w a s")
  have al: "if k \<le> room s then ok \<and> wrote (replicate k 0) s t else \<not> ok"
    using align_w_ready[OF s False a] unfolding k_def[symmetric] t by (auto split: if_splits)
  show ?thesis
  proof (cases "k \<le> room s")
    case True
    then have w: "wrote (replicate k 0) s t" and ok using al by simp_all
    then have r: "ready_w t" "room t + k = room s" "sw_swap t = sw_swap s"
      using s by (simp_all add: wrote_def ready_w_def)
    have i: "insert_aligned a x s = (sw_good (buffer_write x (sw_swap t) t), buffer_write x (sw_swap t) t)"
      using t \<open>ok\<close> by (simp add: insert_aligned_def Let_def)
    let ?img = "if sw_swap s then rev x else x"
    have b: "if length x \<le> room t then wrote ?img t (buffer_write x (sw_swap t) t)
        else \<not> sw_good (buffer_write x (sw_swap t) t)"
      using buffer_write_ready[OF r(1), of x "sw_swap t"] unfolding r(3) .
    show ?thesis
    proof (cases "length x \<le> room t")
      case True
      then have v: "wrote ?img t (buffer_write x (sw_swap t) t)" using b by simp
      then have "sw_good (buffer_write x (sw_swap t) t)" by (simp add: wrote_def ready_w_def)
      moreover have "k + length x \<le> room s" using True r(2) by simp
      ultimately show ?thesis using wrote_trans[OF w v] by (simp add: i)
    next
      case False
      then show ?thesis using b r(2) by (auto simp: i)
    qed
  next
    case False
    then show ?thesis using al t by (simp add: insert_aligned_def)
  qed
qed

subsection \<open>What the operators put on the wire\<close>

text \<open>
  The specification: each value at a multiple of its size, as far as the encoding aligns at
  all, after zeros, its bytes in the byte order of the encoding.
\<close>

fun prim_align :: "prim \<Rightarrow> nat" where
  "prim_align (PInt32 x) = 4"
| "prim_align (PUInt32 x) = 4"
| "prim_align (PFloat x) = 4"
| "prim_align (PDouble x) = 8"
| "prim_align (PChar x) = 1"
| "prim_align (PBool x) = 1"
| "prim_align (PChars x) = 1"

fun prim_bytes :: "endianness \<Rightarrow> prim \<Rightarrow> 8 word list" where
  "prim_bytes e (PInt32 x) = mem_bytes e 4 (nat (x mod 2 ^ 32))"
| "prim_bytes e (PUInt32 x) = mem_bytes e 4 (unat x)"
| "prim_bytes e (PFloat x) = mem_bytes e 4 (unat x)"
| "prim_bytes e (PDouble x) = mem_bytes e 8 (unat x)"
| "prim_bytes e (PChar x) = [x]"
| "prim_bytes e (PBool x) = [if x then 1 else 0]"
| "prim_bytes e (PChars x) = x"

fun wire_image :: "(nat \<Rightarrow> nat) \<Rightarrow> endianness \<Rightarrow> nat \<Rightarrow> prim list \<Rightarrow> 8 word list" where
  "wire_image al e p [] = []"
| "wire_image al e p (q # qs) = (let xs = replicate (cdr_pad (al (prim_align q)) p) 0 @ prim_bytes e q
     in xs @ wire_image al e (p + length xs) qs)"

lemma image_append: "wire_image al e p (qs @ rs) = wire_image al e p qs @ wire_image al e (p + length (wire_image al e p qs)) rs"
  by (induction qs arbitrary: p) (simp_all add: Let_def add.assoc)

text \<open>The same with any bytes as padding: \<open>g i\<close> stands at position \<open>i\<close>.\<close>

fun wire_image_with :: "(nat \<Rightarrow> 8 word) \<Rightarrow> (nat \<Rightarrow> nat) \<Rightarrow> endianness \<Rightarrow> nat \<Rightarrow> prim list \<Rightarrow> 8 word list" where
  "wire_image_with g al e p [] = []"
| "wire_image_with g al e p (q # qs) = (let xs = map g [p..<p + cdr_pad (al (prim_align q)) p] @ prim_bytes e q
     in xs @ wire_image_with g al e (p + length xs) qs)"

lemma image_with_append: "wire_image_with g al e p (qs @ rs) =
    wire_image_with g al e p qs @ wire_image_with g al e (p + length (wire_image_with g al e p qs)) rs"
  by (induction qs arbitrary: p) (simp_all add: Let_def add.assoc)

lemma image_with_zeros: "wire_image_with (\<lambda>_. 0) al e p qs = wire_image al e p qs"
  by (induction qs arbitrary: p) (simp_all add: Let_def map_replicate_const)

lemma length_image_with [simp]: "length (wire_image_with g al e p qs) = length (wire_image al e p qs)"
  by (induction qs arbitrary: p) (simp_all add: Let_def)

lemma image_with_cong:
  "(\<And>i. p \<le> i \<Longrightarrow> i < p + length (wire_image al e p qs) \<Longrightarrow> g i = h i) \<Longrightarrow>
    wire_image_with g al e p qs = wire_image_with h al e p qs"
proof (induction qs arbitrary: p)
  case (Cons q qs)
  let ?k = "cdr_pad (al (prim_align q)) p" and ?b = "prim_bytes e q"
  have "map g [p..<p + ?k] = map h [p..<p + ?k]" using Cons(2) by (auto simp: Let_def)
  moreover have "wire_image_with g al e (p + ?k + length ?b) qs = wire_image_with h al e (p + ?k + length ?b) qs"
    using Cons(2) by (intro Cons(1)) (auto simp: Let_def add.assoc)
  ultimately show ?case by (simp add: Let_def add.assoc)
qed simp

text \<open>Padding of two parts put together.\<close>

definition join_pads :: "nat \<Rightarrow> (nat \<Rightarrow> 8 word) \<Rightarrow> (nat \<Rightarrow> 8 word) \<Rightarrow> nat \<Rightarrow> 8 word" where
  "join_pads n g h i = (if i < n then g i else h i)"

lemma image_join_pads:
  "p + length (wire_image al e p qs) \<le> n \<Longrightarrow> wire_image_with (join_pads n g h) al e p qs = wire_image_with g al e p qs"
  "n \<le> p \<Longrightarrow> wire_image_with (join_pads n g h) al e p qs = wire_image_with h al e p qs"
  by (rule image_with_cong; simp add: join_pads_def)+

definition image_at :: "encoding \<Rightarrow> nat \<Rightarrow> prim list \<Rightarrow> 8 word list" where
  "image_at e p qs = wire_image (stream_align e) (en_endianness e) p qs"

definition image_with :: "(nat \<Rightarrow> 8 word) \<Rightarrow> encoding \<Rightarrow> nat \<Rightarrow> prim list \<Rightarrow> 8 word list" where
  "image_with g e p qs = wire_image_with g (stream_align e) (en_endianness e) p qs"

lemma image_at_with: "image_at e p qs = image_with (\<lambda>_. 0) e p qs"
  by (simp add: image_at_def image_with_def image_with_zeros)

lemma length_image_at_with [simp]: "length (image_with g e p qs) = length (image_at e p qs)"
  by (simp add: image_with_def image_at_def)

definition inserts :: "(ser_w \<Rightarrow> bool \<times> ser_w) \<Rightarrow> prim list \<Rightarrow> bool" where
  "inserts f qs \<longleftrightarrow> (\<forall>s. ready_w s \<longrightarrow> (let xs = image_at (sw_encoding s) (sw_pos s) qs
     in if length xs \<le> room s then fst (f s) \<and> wrote xs s (snd (f s)) else \<not> fst (f s)))"

named_theorems inserts_rules "what an insertion operator writes"

lemma length_mem_bytes [simp]: "length (mem_bytes e n x) = n"
  by (simp add: mem_bytes_def)

lemma swapped_mem_bytes:
  "(if e \<noteq> native then rev (mem_bytes native n x) else mem_bytes native n x) = mem_bytes e n x"
  by (cases e; cases native) (simp_all add: mem_bytes_def)

lemma stream_align_1 [simp]: "encoding_ok e \<Longrightarrow> stream_align e (Suc 0) = Suc 0"
  by (auto simp: stream_align_def encoding_ok_def)

lemma inserts_number:
  assumes f: "\<And>s. f s = insert_aligned a (mem_bytes (sw_native s) (unat a) x) s" and a: "a = 4 \<or> a = 8"
    and q: "prim_align q = unat a" "\<And>e. prim_bytes e q = mem_bytes e (unat a) x"
  shows "inserts f [q]"
  unfolding inserts_def Let_def
proof (intro allI impI)
  fix s assume s: "ready_w s"
  let ?k = "cdr_pad (stream_align (sw_encoding s) (unat a)) (sw_pos s)"
  let ?x = "mem_bytes (sw_native s) (unat a) x"
  have "0 < unat a" using a by auto
  then have "?x \<noteq> []" by (metis length_mem_bytes length_0_conv less_numeral_extra(3))
  note i = insert_aligned_ready[OF s a this, folded f]
  have "sw_swap s = (en_endianness (sw_encoding s) \<noteq> sw_native s)" using s by (simp add: ready_w_def)
  then have sw: "(if sw_swap s then rev ?x else ?x) = mem_bytes (en_endianness (sw_encoding s)) (unat a) x"
    using swapped_mem_bytes by simp
  have im: "image_at (sw_encoding s) (sw_pos s) [q] =
      replicate ?k 0 @ mem_bytes (en_endianness (sw_encoding s)) (unat a) x"
    by (simp add: image_at_def q Let_def)
  show "if length (image_at (sw_encoding s) (sw_pos s) [q]) \<le> room s
      then fst (f s) \<and> wrote (image_at (sw_encoding s) (sw_pos s) [q]) s (snd (f s)) else \<not> fst (f s)"
    using i unfolding sw im by (simp only: length_append length_replicate length_mem_bytes)
qed

lemma inserts_bytes:
  assumes f: "\<And>s. f s = (let s = buffer_write xs False s in (sw_good s, s))"
    and q: "prim_align q = 1" "\<And>e. prim_bytes e q = xs"
  shows "inserts f [q]"
  unfolding inserts_def Let_def
proof (intro allI impI)
  fix s assume s: "ready_w s"
  then have "encoding_ok (sw_encoding s)" by (simp add: ready_w_def)
  then have im: "image_at (sw_encoding s) (sw_pos s) [q] = xs" by (simp add: image_at_def q cdr_pad_def)
  show "if length (image_at (sw_encoding s) (sw_pos s) [q]) \<le> room s
      then fst (f s) \<and> wrote (image_at (sw_encoding s) (sw_pos s) [q]) s (snd (f s)) else \<not> fst (f s)"
    using buffer_write_ready[OF s, of xs False] unfolding im f
    by (auto simp: Let_def wrote_def ready_w_def split: if_splits)
qed

lemma inserts_ops [inserts_rules]:
  "inserts (insert_Long i) [PInt32 i]" "inserts (insert_ULong u) [PUInt32 u]"
  "inserts (insert_Float x) [PFloat x]" "inserts (insert_Double d) [PDouble d]"
  by (rule inserts_number[where a = 4] inserts_number[where a = 8];
      simp add: insert_Long_def insert_ULong_def insert_Float_def insert_Double_def)+

lemma inserts_char_ops [inserts_rules]:
  "inserts (insert_from_char c) [PChar c]" "inserts (insert_from_boolean b) [PBool b]"
  "length cs = n \<Longrightarrow> inserts (write_char_array cs n) [PChars cs]"
  by (rule inserts_bytes; simp add: insert_from_char_def insert_from_boolean_def write_char_array_def)+

lemma inserts_all [inserts_rules]:
  "list_all2 inserts fs qss \<Longrightarrow> inserts (all_ok fs) (concat qss)"
proof (induction rule: list_all2_induct)
  case Nil
  show ?case by (simp add: inserts_def wrote_none image_at_def)
next
  case (Cons f fs qs qss)
  show ?case unfolding inserts_def Let_def
  proof (intro allI impI)
    fix s assume s: "ready_w s"
    let ?x = "image_at (sw_encoding s) (sw_pos s) qs"
    let ?y = "image_at (sw_encoding s) (sw_pos s + length ?x) (concat qss)"
    obtain ok t where f: "f s = (ok, t)" by (cases "f s")
    have im: "image_at (sw_encoding s) (sw_pos s) (concat (qs # qss)) = ?x @ ?y"
      by (simp add: image_at_def image_append)
    have 1: "if length ?x \<le> room s then ok \<and> wrote ?x s t else \<not> ok"
      using Cons(1) s f unfolding inserts_def Let_def by (auto split: if_splits)
    show "if length (image_at (sw_encoding s) (sw_pos s) (concat (qs # qss))) \<le> room s
      then fst (all_ok (f # fs) s)
        \<and> wrote (image_at (sw_encoding s) (sw_pos s) (concat (qs # qss))) s (snd (all_ok (f # fs) s))
      else \<not> fst (all_ok (f # fs) s)"
    proof (cases "length ?x \<le> room s")
      case True
      then have w: "wrote ?x s t" and ok using 1 by simp_all
      then have t: "ready_w t" "sw_encoding t = sw_encoding s" "sw_pos t = sw_pos s + length ?x"
        "room t + length ?x = room s" by (simp_all add: wrote_def)
      have "if length ?y \<le> room t then fst (all_ok fs t) \<and> wrote ?y t (snd (all_ok fs t)) else \<not> fst (all_ok fs t)"
        by (rule Cons(3)[unfolded inserts_def Let_def, rule_format, OF t(1), unfolded t(2,3)])
      then show ?thesis using wrote_trans[OF w, of ?y] t(4) f \<open>ok\<close> unfolding im by (auto split: if_splits)
    next
      case False
      then show ?thesis using 1 f unfolding im by auto
    qed
  qed
qed

end
