(* ===== verification/OpenReader.thy ===== *)
theory OpenReader
  imports OpenSerializer
begin

section \<open>The serializer of OpenDDS: reading\<close>

text \<open>
  The reading half of \<open>Serializer\<close> (\<open>src/lib/OpenDDS/OpenDDS-install/include/dds/DCPS/Serializer.inl\<close>).
  A block is the address of its read pointer with the data from there on. A read overwrites
  bytes from the address of the variable on, as many as it is told; the variable stays as it is where
  nothing arrived. \<open>sr_inside\<close> is no member of the class: it records whether all bytes stored so far
  lie inside the variables that were given to store them in.
\<close>

record rblock =
  rb_ptr :: "64 word"
  rb_data :: "8 word list"

record ser_r =
  sr_encoding :: encoding
  sr_native :: endianness
  sr_swap :: bool
  sr_chain :: "rblock list"
  sr_good :: bool
  sr_shift :: "8 word"
  sr_pos :: nat
  sr_inside :: bool

definition align_cont_r :: "ser_r \<Rightarrow> ser_r" where
  "align_cont_r s = (case sr_chain s of [] \<Rightarrow> s | b # bs \<Rightarrow>
     let max_align = en_alignment (sr_encoding s);
         thisblock = (if max_align \<noteq> 0 then (rb_ptr b - ucast (sr_shift s)) mod max_align else 0);
         s = s\<lparr>sr_chain := bs\<rparr>
     in case bs of [] \<Rightarrow> s | b # _ \<Rightarrow>
       if max_align \<noteq> 0 then s\<lparr>sr_shift := shift_offset (rb_ptr b) thisblock max_align\<rparr> else s)"

text \<open>\<open>rd_ptr(n)\<close>.\<close>

definition advance_r :: "nat \<Rightarrow> ser_r \<Rightarrow> ser_r" where
  "advance_r n s = (case sr_chain s of [] \<Rightarrow> s | b # bs \<Rightarrow>
     s\<lparr>sr_chain := \<lparr>rb_ptr = rb_ptr b + of_nat n, rb_data = drop n (rb_data b)\<rparr> # bs\<rparr>)"

text \<open>Storing at a position of a variable. Where that reaches behind its end, the list grows.\<close>

definition put_at :: "nat \<Rightarrow> 'a list \<Rightarrow> 'a list \<Rightarrow> 'a list" where
  "put_at i xs dest = take i dest @ xs @ drop (i + length xs) dest"

definition doread :: "8 word list \<Rightarrow> nat \<Rightarrow> bool \<Rightarrow> nat \<Rightarrow> ser_r \<Rightarrow> 8 word list \<times> nat \<times> ser_r" where
  "doread dest sz swap offset s = (case sr_chain s of [] \<Rightarrow> (dest, sz, s\<lparr>sr_good := False\<rparr>) | b # bs \<Rightarrow>
     let len = length (rb_data b);
         remainder = (if sz - offset > len then sz - offset - len else 0);
         initial = sz - offset - remainder;
         piece = take initial (rb_data b);
         inside = (if swap then remainder else offset) + initial \<le> length dest;
         dest = (if swap then put_at remainder (rev piece) dest else put_at offset piece dest);
         s = advance_r initial s;
         s = s\<lparr>sr_pos := sr_pos s + initial, sr_inside := sr_inside s \<and> inside\<rparr>;
         s = (if len - initial = 0
              then if en_alignment (sr_encoding s) \<noteq> 0 then align_cont_r s else s\<lparr>sr_chain := bs\<rparr>
              else s)
     in (dest, offset + initial, s))"

lemma align_cont_chain_r: "sr_chain (align_cont_r s) = tl (sr_chain s)"
  by (simp add: align_cont_r_def Let_def split: list.split)

lemma advance_chain:
  "tl (sr_chain (advance_r n s)) = tl (sr_chain s)" "sr_encoding (advance_r n s) = sr_encoding s"
  by (simp_all add: advance_r_def split: list.split)

lemma doread_Cons:
  fixes dest :: "8 word list" and sz offset :: nat and swap :: bool
  assumes "sr_chain s = b # bs"
  defines "n \<equiv> min (sz - offset) (length (rb_data b))"
  defines "t \<equiv> (advance_r n s)\<lparr>sr_pos := sr_pos (advance_r n s) + n,
    sr_inside := sr_inside (advance_r n s) \<and> (if swap then sz - offset - n else offset) + n \<le> length dest\<rparr>"
  shows "doread dest sz swap offset s =
    (if swap then put_at (sz - offset - n) (rev (take n (rb_data b))) dest else put_at offset (take n (rb_data b)) dest,
     offset + n,
     if length (rb_data b) - n = 0 then if en_alignment (sr_encoding s) \<noteq> 0 then align_cont_r t else t\<lparr>sr_chain := bs\<rparr> else t)"
proof -
  have r: "(if sz - offset > length (rb_data b) then sz - offset - length (rb_data b) else 0) = sz - offset - n"
    and i: "sz - offset - (sz - offset - n) = n" by (simp_all add: n_def)
  have e: "sr_encoding ((advance_r n s)\<lparr>sr_pos := p, sr_inside := q\<rparr>) = sr_encoding s" for p q
    by (simp add: advance_chain)
  show ?thesis unfolding doread_def assms(1) list.case Let_def r i t_def e by (rule refl)
qed

lemma doread_progress:
  assumes "doread dest sz swap offset s = (d', o', s')" "sz > offset"
  shows "o' = sz \<or> length (sr_chain s') < length (sr_chain s)"
proof (cases "sr_chain s")
  case Nil
  then show ?thesis using assms(1) by (simp add: doread_def)
next
  case (Cons b bs)
  define n where "n = min (sz - offset) (length (rb_data b))"
  define t where "t = (advance_r n s)\<lparr>sr_pos := sr_pos (advance_r n s) + n,
    sr_inside := sr_inside (advance_r n s) \<and> (if swap then sz - offset - n else offset) + n \<le> length dest\<rparr>"
  have t: "tl (sr_chain t) = bs" by (simp add: t_def advance_chain Cons)
  have "o' = offset + n" "s' = (if length (rb_data b) - n = 0
      then if en_alignment (sr_encoding s) \<noteq> 0 then align_cont_r t else t\<lparr>sr_chain := bs\<rparr> else t)"
    using assms(1) unfolding doread_Cons[OF Cons] n_def[symmetric] t_def[symmetric] by simp_all
  then show ?thesis using Cons t n_def assms(2) by (auto simp: align_cont_chain_r split: if_splits)
qed

function buffer_read_from :: "8 word list \<Rightarrow> nat \<Rightarrow> bool \<Rightarrow> nat \<Rightarrow> ser_r \<Rightarrow> 8 word list \<times> ser_r" where
  "buffer_read_from dest sz swap offset s = (if sz > offset
     then case doread dest sz swap offset s of (dest, offset, s) \<Rightarrow> buffer_read_from dest sz swap offset s
     else (dest, s))"
  by pat_completeness simp

termination
proof (relation "measure (\<lambda>(dest, sz, swap, offset, s). if sz > offset then Suc (length (sr_chain s)) else 0)")
  fix dest sz swap offset s d' x o' s'
  assume "(sz :: nat) > offset" "(d', x) = doread dest sz swap offset s" "(o', s') = x"
  then have "sz > offset" "o' = sz \<or> length (sr_chain s') < length (sr_chain s)"
    using doread_progress[of dest sz swap offset s d' o' s'] by simp_all
  then show "((d', sz, swap, o', s'), (dest, sz, swap, offset, s)) \<in>
      measure (\<lambda>(dest, sz, swap, offset, s). if sz > offset then Suc (length (sr_chain s)) else 0)" by auto
qed simp

declare buffer_read_from.simps [simp del]

definition buffer_read :: "8 word list \<Rightarrow> nat \<Rightarrow> bool \<Rightarrow> ser_r \<Rightarrow> 8 word list \<times> ser_r" where
  "buffer_read dest sz swap s = buffer_read_from dest sz swap 0 s"

text \<open>\<open>skip(n)\<close> of single bytes, and \<open>skip(n, size)\<close>, which aligns first.\<close>

function skip_loop :: "nat \<Rightarrow> ser_r \<Rightarrow> bool \<times> ser_r" where
  "skip_loop len s = (if len = 0 then (True, s) else case sr_chain s of [] \<Rightarrow> (False, s\<lparr>sr_good := False\<rparr>) | b # bs \<Rightarrow>
     let cur_len = length (rb_data b)
     in if cur_len \<le> len then skip_loop (len - cur_len) (align_cont_r (advance_r cur_len s))
        else (True, advance_r len s))"
  by auto

termination
  by (relation "measure (\<lambda>(len, s). length (sr_chain s))") (auto simp: align_cont_chain_r advance_r_def)

declare skip_loop.simps [simp del]

definition skip_bytes :: "nat \<Rightarrow> ser_r \<Rightarrow> bool \<times> ser_r" where
  "skip_bytes n s = (case skip_loop n s of (ok, s) \<Rightarrow> if \<not> ok then (False, s)
     else let s = (if sr_good s then s\<lparr>sr_pos := sr_pos s + n\<rparr> else s) in (sr_good s, s))"

definition align_r :: "64 word \<Rightarrow> ser_r \<Rightarrow> bool \<times> ser_r" where
  "align_r al s = (if en_alignment (sr_encoding s) = 0 then (True, s) else case sr_chain s of
     [] \<Rightarrow> (False, s\<lparr>sr_good := False\<rparr>) | b # bs \<Rightarrow>
     let al = min al (en_alignment (sr_encoding s));
         len = (al - rb_ptr b + ucast (sr_shift s)) mod al
     in skip_bytes (unat (ucast len :: 16 word)) s)"

definition skip :: "nat \<Rightarrow> 64 word \<Rightarrow> ser_r \<Rightarrow> bool \<times> ser_r" where
  "skip n sz s = (case if sz > 1 then align_r (min sz (en_alignment (sr_encoding s))) s else (True, s) of
     (ok, s) \<Rightarrow> if \<not> ok then (False, s) else skip_bytes (n * unat sz) s)"

text \<open>The value a variable has by its memory.\<close>

definition mem_value :: "endianness \<Rightarrow> 8 word list \<Rightarrow> nat" where
  "mem_value native bs = be_value (if native = BIG_ENDIANNESS then bs else rev bs) 0"

text \<open>The signed number in two's complement, of as many bits as the memory has.\<close>

definition mem_int :: "endianness \<Rightarrow> 8 word list \<Rightarrow> int" where
  "mem_int native bs = (let n = int (mem_value native bs); m = 256 ^ length bs
     in if 2 * n < m then n else n - m)"

text \<open>The extraction operators.\<close>

definition extract_aligned :: "64 word \<Rightarrow> nat \<Rightarrow> 8 word list \<Rightarrow> ser_r \<Rightarrow> bool \<times> 8 word list \<times> ser_r" where
  "extract_aligned al sz x s = (case align_r al s of (ok, s) \<Rightarrow>
     if \<not> ok then (False, x, s) else case buffer_read x sz (sr_swap s) s of (x, s) \<Rightarrow> (sr_good s, x, s))"

definition extract_Long :: "ser_r \<times> int \<Rightarrow> bool \<times> ser_r \<times> int" where
  "extract_Long = (\<lambda>(s, x). case extract_aligned 4 4 (mem_bytes (sr_native s) 4 (nat (x mod 2 ^ 32))) s of
     (ok, bs, s) \<Rightarrow> (ok, s, mem_int (sr_native s) bs))"

definition extract_ULong :: "ser_r \<times> 32 word \<Rightarrow> bool \<times> ser_r \<times> 32 word" where
  "extract_ULong = (\<lambda>(s, x). case extract_aligned 4 4 (mem_bytes (sr_native s) 4 (unat x)) s of
     (ok, bs, s) \<Rightarrow> (ok, s, of_nat (mem_value (sr_native s) bs)))"

definition extract_Float :: "ser_r \<times> float_bits \<Rightarrow> bool \<times> ser_r \<times> float_bits" where
  "extract_Float = (\<lambda>(s, x). case extract_aligned 4 4 (mem_bytes (sr_native s) 4 (unat x)) s of
     (ok, bs, s) \<Rightarrow> (ok, s, of_nat (mem_value (sr_native s) bs)))"

definition extract_Double :: "ser_r \<times> double_bits \<Rightarrow> bool \<times> ser_r \<times> double_bits" where
  "extract_Double = (\<lambda>(s, x). case extract_aligned 8 8 (mem_bytes (sr_native s) 8 (unat x)) s of
     (ok, bs, s) \<Rightarrow> (ok, s, of_nat (mem_value (sr_native s) bs)))"

definition extract_to_char :: "ser_r \<times> c_char \<Rightarrow> bool \<times> ser_r \<times> c_char" where
  "extract_to_char = (\<lambda>(s, x). case buffer_read [x] 1 (sr_swap s) s of (bs, s) \<Rightarrow> (sr_good s, s, hd bs))"

text \<open>A byte other than 0 and 1 is no value of a \<open>bool\<close>; it counts as true.\<close>

definition extract_to_boolean :: "ser_r \<times> bool \<Rightarrow> bool \<times> ser_r \<times> bool" where
  "extract_to_boolean = (\<lambda>(s, x). case buffer_read [if x then 1 else 0] 1 (sr_swap s) s of
     (bs, s) \<Rightarrow> (sr_good s, s, hd bs \<noteq> 0))"

definition read_char_array :: "nat \<Rightarrow> ser_r \<times> c_char list \<Rightarrow> bool \<times> ser_r \<times> c_char list" where
  "read_char_array len = (\<lambda>(s, x). case buffer_read x len False s of
     (x, s) \<Rightarrow> (sr_good s, s, x))"

text \<open>\<open>read_delimiter(size)\<close>; the local \<open>dheader\<close>, not initialised, is only used once it was read.\<close>

definition read_delimiter :: "32 word \<Rightarrow> ser_r \<times> 64 word \<Rightarrow> bool \<times> ser_r \<times> 64 word" where
  "read_delimiter dheader = (\<lambda>(s, sz). if en_xcdr_version (sr_encoding s) = XCDR_VERSION_2
     then case extract_ULong (s, dheader) of (ok, s, dheader) \<Rightarrow> if ok then (True, s, ucast dheader) else (False, s, sz)
     else (False, s, sz))"

text \<open>An extraction into a member of an object.\<close>

definition into :: "('s \<times> 'v \<Rightarrow> bool \<times> 's \<times> 'v) \<Rightarrow> ('d \<Rightarrow> 'v) \<Rightarrow> ('v \<Rightarrow> 'd \<Rightarrow> 'd) \<Rightarrow> 's \<times> 'd \<Rightarrow> bool \<times> 's \<times> 'd" where
  "into op field store = (\<lambda>(s, d). case op (s, field d) of (ok, s, v) \<Rightarrow> (ok, s, store v d))"

subsection \<open>Reading a chain of blocks\<close>

definition unread :: "ser_r \<Rightarrow> 8 word list" where
  "unread s = concat (map rb_data (sr_chain s))"

definition in_step_r :: "ser_r \<Rightarrow> bool" where
  "in_step_r s \<longleftrightarrow> (case sr_chain s of [] \<Rightarrow> True | b # bs \<Rightarrow> en_alignment (sr_encoding s) \<noteq> 0 \<longrightarrow>
     en_alignment (sr_encoding s) dvd rb_ptr b - ucast (sr_shift s) - of_nat (sr_pos s))"

definition ready_r :: "ser_r \<Rightarrow> bool" where
  "ready_r s \<longleftrightarrow> sr_good s \<and> encoding_ok (sr_encoding s) \<and> in_step_r s
     \<and> sr_swap s = (en_endianness (sr_encoding s) \<noteq> sr_native s)"

definition consumed :: "nat \<Rightarrow> ser_r \<Rightarrow> ser_r \<Rightarrow> bool" where
  "consumed n s s' \<longleftrightarrow> ready_r s' \<and> n \<le> length (unread s) \<and> unread s' = drop n (unread s)
     \<and> sr_pos s' = sr_pos s + n \<and> sr_encoding s' = sr_encoding s \<and> sr_native s' = sr_native s"

lemma consumed_none: "ready_r s \<Longrightarrow> consumed 0 s s"
  by (simp add: consumed_def)

lemma consumed_trans: "consumed m s t \<Longrightarrow> consumed n t u \<Longrightarrow> consumed (m + n) s u"
  by (auto simp: consumed_def add.commute)

text \<open>The position is counted after the pointer moved, so the step is stated for a position to come.\<close>

lemma align_cont_ready_r:
  assumes s: "ready_r (s\<lparr>sr_pos := p\<rparr>)" "sr_chain s = b # bs" "rb_data b = []"
  shows "ready_r ((align_cont_r s)\<lparr>sr_pos := p\<rparr>)" and "unread (align_cont_r s) = unread s"
    and "sr_pos (align_cont_r s) = sr_pos s" "sr_encoding (align_cont_r s) = sr_encoding s"
    "sr_native (align_cont_r s) = sr_native s" "sr_good (align_cont_r s) = sr_good s"
proof -
  show "unread (align_cont_r s) = unread s" "sr_pos (align_cont_r s) = sr_pos s"
    "sr_encoding (align_cont_r s) = sr_encoding s" "sr_native (align_cont_r s) = sr_native s"
    "sr_good (align_cont_r s) = sr_good s"
    using s(2,3) by (auto simp: align_cont_r_def unread_def Let_def split: list.split)
  show "ready_r ((align_cont_r s)\<lparr>sr_pos := p\<rparr>)"
  proof (cases "bs = [] \<or> en_alignment (sr_encoding s) = 0")
    case True
    then show ?thesis using s
      by (auto simp: ready_r_def in_step_r_def align_cont_r_def Let_def split: list.splits)
  next
    case False
    let ?m = "en_alignment (sr_encoding s)"
    from False obtain c cs where bs: "bs = c # cs" by (cases bs) auto
    have m: "?m = 4 \<or> ?m = 8" using s(1) False by (auto simp: ready_r_def encoding_ok_def)
    let ?x = "rb_ptr b - ucast (sr_shift s)"
    let ?sh = "shift_offset (rb_ptr c) (?x mod ?m) ?m"
    have a: "align_cont_r s = s\<lparr>sr_chain := bs, sr_shift := ?sh\<rparr>"
      using s(2) bs False by (simp add: align_cont_r_def Let_def)
    have "?m dvd ?x - of_nat p" using s(1,2) False by (simp add: ready_r_def in_step_r_def)
    from dvd_diff[OF dvd_add[OF shift_offset_dvd[OF m] this] word_dvd_mod]
    have "?m dvd (rb_ptr c - ucast ?sh - ?x mod ?m) + (?x - of_nat p) - (?x - ?x mod ?m)" .
    then have "?m dvd rb_ptr c - ucast ?sh - of_nat p" by (simp add: algebra_simps)
    then show ?thesis using s bs unfolding a by (simp add: ready_r_def in_step_r_def)
  qed
qed

lemma advance_ready:
  assumes "ready_r (s\<lparr>sr_pos := p\<rparr>)" "sr_chain s = b # bs" "n \<le> length (rb_data b)"
  shows "ready_r ((advance_r n s)\<lparr>sr_pos := p + n\<rparr>)" and "unread (advance_r n s) = drop n (unread s)"
    and "sr_chain (advance_r n s) = \<lparr>rb_ptr = rb_ptr b + of_nat n, rb_data = drop n (rb_data b)\<rparr> # bs"
    and "sr_pos (advance_r n s) = sr_pos s" "sr_encoding (advance_r n s) = sr_encoding s"
    "sr_native (advance_r n s) = sr_native s" "sr_good (advance_r n s) = sr_good s"
  using assms by (simp_all add: ready_r_def in_step_r_def advance_r_def unread_def algebra_simps)

lemma ready_inside [simp]:
  "ready_r (s\<lparr>sr_inside := b\<rparr>) = ready_r s" "ready_r (s\<lparr>sr_inside := b, sr_pos := p\<rparr>) = ready_r (s\<lparr>sr_pos := p\<rparr>)"
  by (simp_all add: ready_r_def in_step_r_def split: list.split)

lemma set_pos_same [simp]: "s\<lparr>sr_pos := sr_pos s\<rparr> = s"
  by simp

lemma doread_ready:
  assumes s: "ready_r s" "sr_chain s = b # bs" and o: "offset \<le> sz"
  defines "n \<equiv> min (sz - offset) (length (rb_data b))"
  obtains t where "doread dest sz swap offset s =
      (if swap then put_at (sz - offset - n) (rev (take n (unread s))) dest else put_at offset (take n (unread s)) dest,
       offset + n, t)"
    and "consumed n s t"
proof -
  have n: "n \<le> sz - offset" "n \<le> length (rb_data b)" by (simp_all add: n_def)
  have tk: "take n (rb_data b) = take n (unread s)" using s(2) n by (simp add: unread_def)
  have s': "ready_r (s\<lparr>sr_pos := sr_pos s\<rparr>)" using s(1) by simp
  note a = advance_ready[OF s' s(2) n(2)]
  define u where "u = (advance_r n s)\<lparr>sr_pos := sr_pos s + n,
    sr_inside := sr_inside (advance_r n s) \<and> (if swap then sz - offset - n else offset) + n \<le> length dest\<rparr>"
  let ?z = "if length (rb_data b) - n = 0 then if en_alignment (sr_encoding s) \<noteq> 0 then align_cont_r u
      else u\<lparr>sr_chain := bs\<rparr> else u"
  have t: "ready_r u" "sr_chain u = \<lparr>rb_ptr = rb_ptr b + of_nat n, rb_data = drop n (rb_data b)\<rparr> # bs"
    "unread u = drop n (unread s)" "sr_pos u = sr_pos s + n" "sr_encoding u = sr_encoding s" "sr_native u = sr_native s"
    using a by (simp_all add: unread_def u_def)
  have set: "u\<lparr>sr_pos := sr_pos s + n\<rparr> = u" by (simp add: u_def)
  have nu: "n \<le> length (unread s)" using n(2) s(2) by (simp add: unread_def)
  have "consumed n s ?z"
  proof (cases "length (rb_data b) - n = 0")
    case True
    then have e: "rb_data \<lparr>rb_ptr = rb_ptr b + of_nat n, rb_data = drop n (rb_data b)\<rparr> = []" by simp
    have "ready_r (u\<lparr>sr_pos := sr_pos s + n\<rparr>)" using t(1) by (simp only: set)
    note c = align_cont_ready_r[OF this t(2) e]
    have al: "consumed n s (align_cont_r u)"
      using c t(3-) nu by (simp add: consumed_def) (metis set_pos_same)
    have "consumed n s (u\<lparr>sr_chain := bs\<rparr>)" if "en_alignment (sr_encoding s) = 0"
    proof -
      have "unread (u\<lparr>sr_chain := bs\<rparr>) = unread u" using t(2) e by (simp add: unread_def)
      then show ?thesis using t nu that
        by (simp add: consumed_def ready_r_def in_step_r_def split: list.split)
    qed
    with al True show ?thesis by simp
  next
    case False
    then show ?thesis using t nu by (simp add: consumed_def)
  qed
  moreover have "doread dest sz swap offset s =
      (if swap then put_at (sz - offset - n) (rev (take n (unread s))) dest else put_at offset (take n (unread s)) dest,
       offset + n, ?z)"
    unfolding doread_Cons[OF s(2)] n_def[symmetric] tk a(4) u_def[symmetric] by (rule refl)
  ultimately show thesis using that by blast
qed

lemma doread_Nil: "sr_chain s = [] \<Longrightarrow> doread dest sz swap offset s = (dest, sz, s\<lparr>sr_good := False\<rparr>)"
  by (simp add: doread_def)

text \<open>What a read has put into a variable, from \<open>offset\<close> on.\<close>

definition filled :: "bool \<Rightarrow> nat \<Rightarrow> 8 word list \<Rightarrow> 8 word list \<Rightarrow> 8 word list" where
  "filled swap offset dest xs = (if swap then rev xs @ drop (length dest - offset) dest else take offset dest @ xs)"

lemma filled_step:
  fixes swap :: bool and xs dest :: "8 word list"
  assumes "offset + n \<le> length dest" "n \<le> length xs" "length xs = length dest - offset"
  defines "d \<equiv> (if swap then put_at (length dest - offset - n) (rev (take n xs)) dest else put_at offset (take n xs) dest)"
  shows "length d = length dest" and "filled swap (offset + n) d (drop n xs) = filled swap offset dest xs"
proof -
  have t: "length (take n xs) = n" using assms(2) by simp
  show l: "length d = length dest" using assms(1) t by (simp add: d_def put_at_def)
  show "filled swap (offset + n) d (drop n xs) = filled swap offset dest xs"
  proof (cases swap)
    case True
    let ?r = "length dest - offset - n"
    have "length dest - (offset + n) = ?r" "?r + n = length dest - offset" using assms(1) by simp_all
    then have "drop (length dest - (offset + n)) d = rev (take n xs) @ drop (length dest - offset) dest"
      using True t by (simp add: d_def put_at_def)
    moreover have "rev (drop n xs) @ rev (take n xs) = rev xs" by (metis append_take_drop_id rev_append)
    ultimately show ?thesis using True l by (simp add: filled_def)
  next
    case False
    have "take (offset + n) d = take offset dest @ take n xs" using False t assms(1) by (simp add: d_def put_at_def)
    then show ?thesis using False by (simp add: filled_def)
  qed
qed

lemma buffer_read_from_ready:
  assumes "ready_r s" "offset \<le> sz" "length dest = sz"
  shows "if sz - offset \<le> length (unread s)
    then consumed (sz - offset) s (snd (buffer_read_from dest sz swap offset s))
      \<and> fst (buffer_read_from dest sz swap offset s) = filled swap offset dest (take (sz - offset) (unread s))
    else \<not> sr_good (snd (buffer_read_from dest sz swap offset s))"
  using assms
proof (induction dest sz swap offset s rule: buffer_read_from.induct)
  case (1 dest sz swap offset s)
  show ?case
  proof (cases "sz > offset")
    case False
    then show ?thesis using 1 by (simp add: buffer_read_from.simps consumed_none filled_def)
  next
    case True
    show ?thesis
    proof (cases "sr_chain s")
      case Nil
      then have "\<not> sr_good (snd (buffer_read_from dest sz swap offset s))" using True
        by (simp add: buffer_read_from.simps[of dest sz swap offset] buffer_read_from.simps[of dest sz swap sz] doread_Nil)
      then show ?thesis using Nil True by (simp add: unread_def)
    next
      case (Cons b bs)
      define n where "n = min (sz - offset) (length (rb_data b))"
      define d where "d = (if swap then put_at (sz - offset - n) (rev (take n (unread s))) dest
        else put_at offset (take n (unread s)) dest)"
      from doread_ready[OF 1(2) Cons 1(3)] obtain t where
        r: "doread dest sz swap offset s = (d, offset + n, t)" and c: "consumed n s t"
        unfolding n_def d_def by blast
      have step: "buffer_read_from dest sz swap offset s = buffer_read_from d sz swap (offset + n) t"
        using True r by (simp add: buffer_read_from.simps[of dest sz swap offset])
      have t: "ready_r t" "unread t = drop n (unread s)" "n \<le> length (unread s)" using c by (simp_all add: consumed_def)
      have o: "offset + n \<le> sz" using 1(3) by (simp add: n_def)
      have dx: "d = (if swap then put_at (length dest - offset - n) (rev (take n (take (sz - offset) (unread s)))) dest
        else put_at offset (take n (take (sz - offset) (unread s))) dest)"
        unfolding d_def 1(4) using o 1(3) by (simp add: min_def n_def)
      have ld: "length d = sz" unfolding d_def using o 1(4) t(3) by (simp add: put_at_def)
      from 1(1)[OF True r[symmetric] refl t(1) o ld]
      have i: "if sz - (offset + n) \<le> length (unread t)
        then consumed (sz - (offset + n)) t (snd (buffer_read_from d sz swap (offset + n) t))
          \<and> fst (buffer_read_from d sz swap (offset + n) t) = filled swap (offset + n) d (take (sz - (offset + n)) (unread t))
        else \<not> sr_good (snd (buffer_read_from d sz swap (offset + n) t))" .
      show ?thesis
      proof (cases "sz - offset \<le> length (unread s)")
        case enough: True
        then have "sz - (offset + n) \<le> length (unread t)" using t o by simp
        with i have j: "consumed (sz - (offset + n)) t (snd (buffer_read_from d sz swap (offset + n) t))"
          "fst (buffer_read_from d sz swap (offset + n) t) = filled swap (offset + n) d (take (sz - (offset + n)) (unread t))"
          by simp_all
        let ?xs = "take (sz - offset) (unread s)"
        have x: "take (sz - (offset + n)) (unread t) = drop n ?xs" using t(2) by (simp add: drop_take)
        have "filled swap (offset + n) d (drop n ?xs) = filled swap offset dest ?xs"
          unfolding dx by (rule filled_step(2)) (use o 1(4) enough in simp_all)
        moreover have "n + (sz - (offset + n)) = sz - offset" using o by simp
        ultimately show ?thesis using j consumed_trans[OF c j(1)] enough by (simp add: step x)
      next
        case False
        then have "\<not> sz - (offset + n) \<le> length (unread t)" using t o by simp
        with i False show ?thesis by (simp add: step)
      qed
    qed
  qed
qed

lemma buffer_read_ready:
  assumes "ready_r s"
  shows "if length x \<le> length (unread s)
    then consumed (length x) s (snd (buffer_read x (length x) swap s))
      \<and> fst (buffer_read x (length x) swap s) = (if swap then rev (take (length x) (unread s)) else take (length x) (unread s))
    else \<not> sr_good (snd (buffer_read x (length x) swap s))"
  using buffer_read_from_ready[OF assms, of 0 "length x" x swap]
  by (simp add: buffer_read_def filled_def split: if_splits)

lemma skip_loop_ready:
  assumes "ready_r (s\<lparr>sr_pos := p\<rparr>)"
  shows "if n \<le> length (unread s)
    then fst (skip_loop n s) \<and> ready_r ((snd (skip_loop n s))\<lparr>sr_pos := p + n\<rparr>)
      \<and> unread (snd (skip_loop n s)) = drop n (unread s) \<and> sr_pos (snd (skip_loop n s)) = sr_pos s
      \<and> sr_encoding (snd (skip_loop n s)) = sr_encoding s \<and> sr_native (snd (skip_loop n s)) = sr_native s
    else \<not> fst (skip_loop n s)"
  using assms
proof (induction n s arbitrary: p rule: skip_loop.induct)
  case (1 n s)
  show ?case
  proof (cases "n = 0")
    case True
    then show ?thesis using 1(2) by (simp add: skip_loop.simps)
  next
    case False
    show ?thesis
    proof (cases "sr_chain s")
      case Nil
      then show ?thesis using False by (simp add: skip_loop.simps unread_def)
    next
      case (Cons b bs)
      let ?k = "length (rb_data b)"
      have len: "length (unread s) = ?k + length (concat (map rb_data bs))" using Cons by (simp add: unread_def)
      show ?thesis
      proof (cases "?k \<le> n")
        case True
        note a = advance_ready[OF 1(2) Cons order_refl]
        note c = align_cont_ready_r[OF a(1,3), simplified]
        let ?t = "align_cont_r (advance_r ?k s)"
        have e: "skip_loop n s = skip_loop (n - ?k) ?t"
          using False True Cons by (simp add: skip_loop.simps[of n] Let_def)
        have u: "unread ?t = drop ?k (unread s)" "sr_pos ?t = sr_pos s" "sr_encoding ?t = sr_encoding s"
          "sr_native ?t = sr_native s" using c a by simp_all
        have "p + ?k + (n - ?k) = p + n" "n - ?k + ?k = n" using True by simp_all
        then show ?thesis using 1(1)[OF False Cons refl True c(1)] len True unfolding e u
          by (auto simp: add.commute split: if_splits)
      next
        case f: False
        then have "skip_loop n s = (True, advance_r n s)" using False Cons by (simp add: skip_loop.simps[of n] Let_def)
        then show ?thesis using advance_ready[OF 1(2) Cons, of n] f len by simp
      qed
    qed
  qed
qed

lemma skip_bytes_ready:
  assumes "ready_r s"
  shows "if n \<le> length (unread s) then fst (skip_bytes n s) \<and> consumed n s (snd (skip_bytes n s))
    else \<not> fst (skip_bytes n s)"
proof -
  obtain ok t where t: "skip_loop n s = (ok, t)" by (cases "skip_loop n s")
  have "ready_r (s\<lparr>sr_pos := sr_pos s\<rparr>)" using assms by simp
  have l: "if n \<le> length (unread s) then ok \<and> ready_r (t\<lparr>sr_pos := sr_pos s + n\<rparr>)
      \<and> unread t = drop n (unread s) \<and> sr_pos t = sr_pos s \<and> sr_encoding t = sr_encoding s \<and> sr_native t = sr_native s
    else \<not> ok"
    using skip_loop_ready[OF \<open>ready_r (s\<lparr>sr_pos := sr_pos s\<rparr>)\<close>, of n] unfolding t fst_conv snd_conv .
  show ?thesis
  proof (cases "n \<le> length (unread s)")
    case True
    with l have "sr_good t" by (simp add: ready_r_def)
    with l True t show ?thesis by (simp add: skip_bytes_def consumed_def unread_def)
  next
    case False
    with l t show ?thesis by (simp add: skip_bytes_def)
  qed
qed

lemma align_r_ready:
  assumes s: "ready_r s" "sr_chain s \<noteq> []" and a: "a = 4 \<or> a = 8"
  defines "k \<equiv> cdr_pad (stream_align (sr_encoding s) (unat a)) (sr_pos s)"
  shows "if k \<le> length (unread s) then fst (align_r a s) \<and> consumed k s (snd (align_r a s))
    else \<not> fst (align_r a s)"
proof (cases "en_alignment (sr_encoding s) = 0")
  case True
  then show ?thesis using s by (simp add: align_r_def k_def stream_align_def cdr_pad_def consumed_none)
next
  case False
  let ?m = "en_alignment (sr_encoding s)"
  obtain b bs where c: "sr_chain s = b # bs" using s(2) by (cases "sr_chain s") auto
  have m: "?m = 4 \<or> ?m = 8" using s(1) False by (auto simp: ready_r_def encoding_ok_def)
  let ?len = "(min a ?m - rb_ptr b + ucast (sr_shift s)) mod min a ?m"
  have "?m dvd rb_ptr b - ucast (sr_shift s) - of_nat (sr_pos s)"
    using s(1) c False by (simp add: ready_r_def in_step_r_def)
  with min_align(1)[OF a m] have "min a ?m dvd rb_ptr b - ucast (sr_shift s) - of_nat (sr_pos s)"
    by (rule dvd_trans)
  from align_amount[OF this min_align(2)[OF a m]]
  have len: "unat ?len = k" using False by (simp add: k_def stream_align_def min_align(3)[OF a m])
  have "0 < unat (min a ?m)" "unat (min a ?m) \<le> 8" using min_align(2)[OF a m] by auto
  then have "k < 8" unfolding len[symmetric] by (simp add: unat_mod) (meson mod_less_divisor order_less_le_trans)
  then have "unat (ucast ?len :: 16 word) = k" using len by (simp add: unsigned_ucast_eq unsigned_take_bit_eq take_bit_nat_eq_self)
  then have "align_r a s = skip_bytes k s" using False c by (simp add: align_r_def Let_def)
  then show ?thesis using skip_bytes_ready[OF s(1), of k] by simp
qed

subsection \<open>What the operators deliver\<close>

text \<open>
  \<open>extracts D f qs g\<close>: applied to an object of the shape \<open>D\<close> (its arrays have their lengths), where
  enough data is left for values of the shape \<open>qs\<close>, \<open>f\<close> answers true and takes exactly their
  bytes, and if these are the image of \<open>qs\<close>, with whatever padding, the object \<open>d\<close> becomes \<open>g d\<close>; where the data is too
  short, it answers false.
\<close>

definition extracts :: "('d \<Rightarrow> bool) \<Rightarrow> (ser_r \<times> 'd \<Rightarrow> bool \<times> ser_r \<times> 'd) \<Rightarrow> prim list \<Rightarrow> ('d \<Rightarrow> 'd) \<Rightarrow> bool" where
  "extracts D f qs g \<longleftrightarrow> (\<forall>s d. ready_r s \<longrightarrow> D d \<longrightarrow> (let xs = image_at (sr_encoding s) (sr_pos s) qs; n = length xs
     in if n \<le> length (unread s)
        then fst (f (s, d)) \<and> consumed n s (fst (snd (f (s, d)))) \<and> D (snd (snd (f (s, d))))
          \<and> (\<forall>pad. take n (unread s) = image_with pad (sr_encoding s) (sr_pos s) qs \<longrightarrow> snd (snd (f (s, d))) = g d)
        else \<not> fst (f (s, d))))"

lemma extractsI:
  assumes "\<And>s d ok t e. ready_r s \<Longrightarrow> D d \<Longrightarrow> f (s, d) = (ok, t, e) \<Longrightarrow>
    let xs = image_at (sr_encoding s) (sr_pos s) qs
    in if length xs \<le> length (unread s)
       then ok \<and> consumed (length xs) s t \<and> D e
         \<and> (\<forall>pad. take (length xs) (unread s) = image_with pad (sr_encoding s) (sr_pos s) qs \<longrightarrow> e = g d) else \<not> ok"
  shows "extracts D f qs g"
  using assms unfolding extracts_def Let_def by (metis prod.collapse)

lemma extractsD_with:
  assumes "extracts D f qs g" "ready_r s" "D d" "f (s, d) = (ok, t, e)"
  defines "xs \<equiv> image_at (sr_encoding s) (sr_pos s) qs"
  shows "if length xs \<le> length (unread s)
    then ok \<and> consumed (length xs) s t \<and> D e
      \<and> (\<forall>pad. take (length xs) (unread s) = image_with pad (sr_encoding s) (sr_pos s) qs \<longrightarrow> e = g d) else \<not> ok"
  using assms unfolding extracts_def Let_def by (metis fst_conv snd_conv)

lemma extractsD:
  assumes "extracts D f qs g" "ready_r s" "D d" "f (s, d) = (ok, t, e)"
  defines "xs \<equiv> image_at (sr_encoding s) (sr_pos s) qs"
  shows "if length xs \<le> length (unread s)
    then ok \<and> consumed (length xs) s t \<and> D e \<and> (take (length xs) (unread s) = xs \<longrightarrow> e = g d) else \<not> ok"
  proof (cases "length xs \<le> length (unread s)")
  case True
  have "image_with (\<lambda>_. 0) (sr_encoding s) (sr_pos s) qs = xs" by (simp only: xs_def image_at_with)
  with extractsD_with[OF assms(1-4)] True show ?thesis unfolding xs_def[symmetric] by (simp only: if_True) blast
next
  case False
  with extractsD_with[OF assms(1-4)] show ?thesis unfolding xs_def by simp
qed

named_theorems extracts_rules "what an extraction operator delivers"

lemma extract_aligned_ready:
  assumes s: "ready_r s" and a: "a = 4 \<or> a = 8" and x: "x \<noteq> []"
  defines "k \<equiv> cdr_pad (stream_align (sr_encoding s) (unat a)) (sr_pos s)"
  shows "if k + length x \<le> length (unread s)
    then fst (extract_aligned a (length x) x s) \<and> consumed (k + length x) s (snd (snd (extract_aligned a (length x) x s)))
      \<and> fst (snd (extract_aligned a (length x) x s)) =
        (let ys = take (length x) (drop k (unread s)) in if sr_swap s then rev ys else ys)
    else \<not> fst (extract_aligned a (length x) x s)"
proof (cases "sr_chain s = []")
  case True
  then have u: "unread s = []" by (simp add: unread_def)
  have "\<not> fst (extract_aligned a (length x) x s)"
  proof (cases "en_alignment (sr_encoding s) = 0")
    case t: True
    have "\<not> sr_good (snd (buffer_read x (length x) (sr_swap s) s))"
      using buffer_read_ready[OF s, of x "sr_swap s"] u x by (simp split: if_splits)
    with t show ?thesis by (simp add: extract_aligned_def align_r_def split_beta)
  next
    case False
    then show ?thesis using True by (simp add: extract_aligned_def align_r_def)
  qed
  then show ?thesis using u x by simp
next
  case False
  obtain ok t where t: "align_r a s = (ok, t)" by (cases "align_r a s")
  have al: "if k \<le> length (unread s) then ok \<and> consumed k s t else \<not> ok"
    using align_r_ready[OF s False a] unfolding k_def[symmetric] t by (auto split: if_splits)
  show ?thesis
  proof (cases "k \<le> length (unread s)")
    case True
    then have w: "consumed k s t" and ok using al by simp_all
    then have r: "ready_r t" "unread t = drop k (unread s)" "sr_swap t = sr_swap s"
      using s by (simp_all add: consumed_def ready_r_def)
    have i: "extract_aligned a (length x) x s = (sr_good (snd (buffer_read x (length x) (sr_swap t) t)), buffer_read x (length x) (sr_swap t) t)"
      using t \<open>ok\<close> by (simp add: extract_aligned_def split_beta)
    note b = buffer_read_ready[OF r(1), of x "sr_swap t"]
    show ?thesis
    proof (cases "length x \<le> length (unread t)")
      case True
      then have v: "consumed (length x) t (snd (buffer_read x (length x) (sr_swap t) t))" using b by simp
      then have "sr_good (snd (buffer_read x (length x) (sr_swap t) t))" by (simp add: consumed_def ready_r_def)
      moreover have "k + length x \<le> length (unread s)" using True r(2) \<open>k \<le> length (unread s)\<close> by simp
      ultimately show ?thesis using consumed_trans[OF w v] b True by (simp add: i r(2,3))
    next
      case False
      then show ?thesis using b r(2) by (auto simp: i)
    qed
  next
    case False
    then show ?thesis using al t by (simp add: extract_aligned_def)
  qed
qed

lemma swapped_bytes:
  "(if e \<noteq> native then rev (mem_bytes e n x) else mem_bytes e n x) = mem_bytes native n x"
  by (cases e; cases native) (simp_all add: mem_bytes_def)

lemma mem_value_bytes: "x < 256 ^ n \<Longrightarrow> mem_value native (mem_bytes native n x) = x"
  by (cases native) (simp_all add: mem_value_def mem_bytes_def be_value_bytes)

lemma be_value_less: "be_value bs x < 256 ^ length bs * (x + 1)"
proof (induction bs arbitrary: x)
  case (Cons b bs)
  have "unat b < 256" using unsigned_less[of b] by simp
  then have "256 * x + unat b + 1 \<le> 256 * (x + 1)" by simp
  then have "256 ^ length bs * (256 * x + unat b + 1) \<le> 256 ^ length bs * (256 * (x + 1))" by (rule mult_le_mono2)
  with Cons[of "256 * x + unat b"] have "be_value bs (256 * x + unat b) < 256 ^ length bs * (256 * (x + 1))"
    by (rule order_less_le_trans)
  then show ?case by (simp add: algebra_simps)
qed simp

lemma mem_value_less: "mem_value native bs < 256 ^ length bs"
  using be_value_less[of bs 0] be_value_less[of "rev bs" 0] by (simp add: mem_value_def)

lemma mem_int_i32: "length bs = 4 \<Longrightarrow> is_i32 (mem_int native bs)"
  using mem_value_less[of native bs] by (simp add: mem_int_def Let_def is_i32_def)

lemma mem_int_bytes:
  assumes "is_i32 i"
  shows "mem_int native (mem_bytes native 4 (nat (i mod 2 ^ 32))) = i"
proof -
  have b: "nat (i mod 2 ^ 32) < 256 ^ 4" using pos_mod_bound[of "2 ^ 32" i] by (simp add: nat_less_iff)
  have "i mod 2 ^ 32 = (if 0 \<le> i then i else i + 2 ^ 32)"
  proof (cases "0 \<le> i")
    case False
    have "i mod 2 ^ 32 = (i + 2 ^ 32) mod 2 ^ 32" by simp
    also have "\<dots> = i + 2 ^ 32" using assms False by (intro mod_pos_pos_trivial) (simp_all add: is_i32_def)
    finally show ?thesis using False by simp
  qed (use assms in \<open>simp add: is_i32_def\<close>)
  then have "int (nat (i mod 2 ^ 32)) = (if 0 \<le> i then i else i + 2 ^ 32)" using assms by (simp add: is_i32_def)
  then show ?thesis using assms unfolding mem_int_def Let_def mem_value_bytes[OF b] length_mem_bytes
    by (simp add: is_i32_def split: if_splits)
qed

lemma extracts_number:
  assumes f: "\<And>s d. f (s, d) = (case extract_aligned a (unat a) (m d s) s of (ok, bs, s) \<Rightarrow> (ok, s, v (sr_native s) bs))"
    and a: "a = 4 \<or> a = 8" and m: "\<And>d s. length (m d s) = unat a"
    and q: "prim_align q = unat a" "\<And>e. prim_bytes e q = mem_bytes e (unat a) x" "\<And>n. v n (mem_bytes n (unat a) x) = y"
  shows "extracts (\<lambda>_. True) f [q] (\<lambda>_. y)"
proof (rule extractsI)
  fix s d ok t w assume s: "ready_r s" and fE: "f (s, d) = (ok, t, w)"
  let ?k = "cdr_pad (stream_align (sr_encoding s) (unat a)) (sr_pos s)"
  let ?e = "en_endianness (sr_encoding s)"
  have a0: "0 < unat a" using a by auto
  then have ne: "m d s \<noteq> []" using m[of d s] by auto
  note i = extract_aligned_ready[OF s a ne, unfolded m]
  obtain bs where E: "extract_aligned a (unat a) (m d s) s = (ok, bs, t)" and w: "w = v (sr_native t) bs"
    using fE unfolding f by (cases "extract_aligned a (unat a) (m d s) s") auto
  have im: "image_at (sr_encoding s) (sr_pos s) [q] = replicate ?k 0 @ mem_bytes ?e (unat a) x"
    by (simp add: image_at_def q Let_def)
  have sw: "sr_swap s = (?e \<noteq> sr_native s)" using s by (simp add: ready_r_def)
  have "v (sr_native t) bs = y"
    if "take (?k + unat a) (unread s) = image_with pad (sr_encoding s) (sr_pos s) [q]" "?k + unat a \<le> length (unread s)" for pad
  proof -
    have "drop ?k (take (?k + unat a) (unread s)) = mem_bytes ?e (unat a) x"
      using that(1) by (simp add: image_with_def q Let_def)
    then have "take (unat a) (drop ?k (unread s)) = mem_bytes ?e (unat a) x" by (simp add: drop_take)
    then have "bs = mem_bytes (sr_native s) (unat a) x"
      using i that(2) swapped_bytes[of ?e "sr_native s" "unat a" x] by (simp add: E sw split: if_splits)
    moreover have "sr_native t = sr_native s" using i that(2) by (simp add: E consumed_def)
    ultimately show ?thesis by (simp add: q(3))
  qed
  then show "let xs = image_at (sr_encoding s) (sr_pos s) [q]
    in if length xs \<le> length (unread s)
       then ok \<and> consumed (length xs) s t \<and> True
         \<and> (\<forall>pad. take (length xs) (unread s) = image_with pad (sr_encoding s) (sr_pos s) [q] \<longrightarrow> w = y) else \<not> ok"
    using i unfolding im E w by (auto simp: Let_def split: if_splits)
qed

lemma extracts_bytes:
  assumes f: "\<And>s d. f (s, d) = (case buffer_read (m d) n (sw s) s of (bs, s) \<Rightarrow> (sr_good s, s, v bs))"
    and m: "\<And>d. D d \<Longrightarrow> length (m d) = n" and n: "n = length xs" and sw: "\<And>s. sw s \<Longrightarrow> length xs = 1"
    and q: "prim_align q = 1" "\<And>e. prim_bytes e q = xs" "v xs = y"
    and D: "\<And>bs. length bs = n \<Longrightarrow> D (v bs)"
  shows "extracts D f [q] (\<lambda>_. y)"
proof (rule extractsI)
  fix s d ok t w assume s: "ready_r s" and d: "D d" and fE: "f (s, d) = (ok, t, w)"
  from s have "encoding_ok (sr_encoding s)" by (simp add: ready_r_def)
  then have im: "image_at (sr_encoding s) (sr_pos s) [q] = xs" "image_with pad (sr_encoding s) (sr_pos s) [q] = xs" for pad
    by (simp_all add: image_at_def image_with_def q cdr_pad_def)
  obtain bs where E: "buffer_read (m d) n (sw s) s = (bs, t)" "ok = sr_good t" "w = v bs"
    using fE unfolding f by (cases "buffer_read (m d) n (sw s) s") auto
  note b = buffer_read_ready[OF s, of "m d" "sw s", unfolded m[OF d] E fst_conv snd_conv, unfolded n]
  have r: "rev (take (length xs) (unread s)) = take (length xs) (unread s)" if "sw s"
    using sw[OF that] by (cases "unread s") auto
  have bs: "bs = take (length xs) (unread s)" if "length xs \<le> length (unread s)"
    using b that r by (auto split: if_splits)
  show "let xs = image_at (sr_encoding s) (sr_pos s) [q]
    in if length xs \<le> length (unread s)
       then ok \<and> consumed (length xs) s t \<and> D w
         \<and> (\<forall>pad. take (length xs) (unread s) = image_with pad (sr_encoding s) (sr_pos s) [q] \<longrightarrow> w = y) else \<not> ok"
    using b bs D[of bs] q(3) unfolding im E
    by (auto simp: Let_def consumed_def ready_r_def n split: if_splits)
qed

lemma extracts_ops [extracts_rules]:
  "is_i32 i \<Longrightarrow> extracts (\<lambda>_. True) extract_Long [PInt32 i] (\<lambda>_. i)"
  "extracts (\<lambda>_. True) extract_ULong [PUInt32 u] (\<lambda>_. u)"
  "extracts (\<lambda>_. True) extract_Float [PFloat x] (\<lambda>_. x)"
  "extracts (\<lambda>_. True) extract_Double [PDouble y] (\<lambda>_. y)"
proof -
  show "extracts (\<lambda>_. True) extract_Long [PInt32 i] (\<lambda>_. i)" if "is_i32 i"
    by (rule extracts_number[where a = 4 and x = "nat (i mod 2 ^ 32)" and v = mem_int
        and m = "\<lambda>d s. mem_bytes (sr_native s) 4 (nat (d mod 2 ^ 32))"])
      (use mem_int_bytes[OF that] in \<open>simp_all add: extract_Long_def\<close>)
  have w: "unat w < 256 ^ 4" for w :: "32 word" using unsigned_less[of w] by simp
  have w8: "unat w < 256 ^ 8" for w :: "64 word" using unsigned_less[of w] by simp
  show "extracts (\<lambda>_. True) extract_ULong [PUInt32 u] (\<lambda>_. u)"
    by (rule extracts_number[where a = 4 and x = "unat u" and v = "\<lambda>n bs. of_nat (mem_value n bs)" and m = "\<lambda>d s. mem_bytes (sr_native s) 4 (unat d)"])
      (simp_all add: extract_ULong_def mem_value_bytes[OF w])
  show "extracts (\<lambda>_. True) extract_Float [PFloat x] (\<lambda>_. x)"
    by (rule extracts_number[where a = 4 and x = "unat x" and v = "\<lambda>n bs. of_nat (mem_value n bs)" and m = "\<lambda>d s. mem_bytes (sr_native s) 4 (unat d)"])
      (simp_all add: extract_Float_def mem_value_bytes[OF w])
  show "extracts (\<lambda>_. True) extract_Double [PDouble y] (\<lambda>_. y)"
    by (rule extracts_number[where a = 8 and x = "unat y" and v = "\<lambda>n bs. of_nat (mem_value n bs)" and m = "\<lambda>d s. mem_bytes (sr_native s) 8 (unat d)"])
      (simp_all add: extract_Double_def mem_value_bytes[OF w8])
qed

lemma extracts_char [extracts_rules]: "extracts (\<lambda>_. True) extract_to_char [PChar c] (\<lambda>_. c)"
  by (rule extracts_bytes[where v = hd and sw = sr_swap and xs = "[c]" and m = "\<lambda>x. [x]" and n = 1])
    (simp_all add: extract_to_char_def)

lemma extracts_boolean [extracts_rules]: "extracts (\<lambda>_. True) extract_to_boolean [PBool b] (\<lambda>_. b)"
  by (rule extracts_bytes[where v = "\<lambda>bs. hd bs \<noteq> 0" and sw = sr_swap and xs = "[if b then 1 else 0]"
        and m = "\<lambda>x. [if x then 1 else 0]" and n = 1])
    (simp_all add: extract_to_boolean_def)

lemma extracts_char_array [extracts_rules]:
  "length cs = n \<Longrightarrow> extracts (\<lambda>x. length x = n) (read_char_array n) [PChars cs] (\<lambda>_. cs)"
  by (rule extracts_bytes[where v = "\<lambda>bs. bs" and sw = "\<lambda>_. False" and xs = cs and m = "\<lambda>x. x" and n = n])
    (simp_all add: read_char_array_def)

lemma extracts_into [extracts_rules]:
  assumes "extracts D op qs g" "\<And>d. E d \<Longrightarrow> D (field d)" "\<And>d v. E d \<Longrightarrow> D v \<Longrightarrow> E (store v d)"
  shows "extracts E (into op field store) qs (\<lambda>d. store (g (field d)) d)"
proof (rule extractsI)
  fix s d ok t e assume s: "ready_r s" and d: "E d" and f: "into op field store (s, d) = (ok, t, e)"
  obtain v where "op (s, field d) = (ok, t, v)" "e = store v d"
    using f by (auto simp: into_def split: prod.splits)
  then show "let xs = image_at (sr_encoding s) (sr_pos s) qs in if length xs \<le> length (unread s)
      then ok \<and> consumed (length xs) s t \<and> E e
        \<and> (\<forall>pad. take (length xs) (unread s) = image_with pad (sr_encoding s) (sr_pos s) qs \<longrightarrow> e = store (g (field d)) d)
      else \<not> ok"
    using extractsD_with[OF assms(1) s assms(2)[OF d]] assms(3)[OF d] by (fastforce simp: Let_def split: if_splits)
qed

inductive all_extract :: "('d \<Rightarrow> bool) \<Rightarrow> (ser_r \<times> 'd \<Rightarrow> bool \<times> ser_r \<times> 'd) list \<Rightarrow> prim list list \<Rightarrow> ('d \<Rightarrow> 'd) list \<Rightarrow> bool"
  for D where
  extract_none: "all_extract D [] [] []"
| extract_one: "extracts D f qs g \<Longrightarrow> all_extract D fs qss gs \<Longrightarrow> all_extract D (f # fs) (qs # qss) (g # gs)"

lemma extracts_all:
  assumes "all_extract D fs qss gs"
  shows "extracts D (all_ok fs) (concat qss) (apply_all gs)"
  using assms
proof (induction rule: all_extract.induct)
  case extract_none
  show ?case by (rule extractsI) (simp add: image_at_def consumed_none)
next
  case (extract_one f qs g fs qss gs)
  show ?case
  proof (rule extractsI)
    fix s d ok t e assume s: "ready_r s" and d: "D d" and f: "all_ok (f # fs) (s, d) = (ok, t, e)"
    let ?x = "image_at (sr_encoding s) (sr_pos s) qs"
    let ?y = "image_at (sr_encoding s) (sr_pos s + length ?x) (concat qss)"
    obtain ok1 u v where f1: "f (s, d) = (ok1, u, v)" by (cases "f (s, d)")
    have im: "image_at (sr_encoding s) (sr_pos s) (concat (qs # qss)) = ?x @ ?y"
      by (simp add: image_at_def image_append)
    have imp: "image_with pad (sr_encoding s) (sr_pos s) (concat (qs # qss)) = image_with pad (sr_encoding s) (sr_pos s) qs
        @ image_with pad (sr_encoding s) (sr_pos s + length ?x) (concat qss)" for pad
      by (simp add: image_with_def image_with_append image_at_def)
    note 1 = extractsD_with[OF extract_one(1) s d f1]
    show "let xs = image_at (sr_encoding s) (sr_pos s) (concat (qs # qss)) in if length xs \<le> length (unread s)
      then ok \<and> consumed (length xs) s t \<and> D e
        \<and> (\<forall>pad. take (length xs) (unread s) = image_with pad (sr_encoding s) (sr_pos s) (concat (qs # qss)) \<longrightarrow> e = apply_all (g # gs) d)
      else \<not> ok"
    proof (cases "length ?x \<le> length (unread s)")
      case True
      have c: "ok1" "consumed (length ?x) s u" "D v"
        "\<And>pad. take (length ?x) (unread s) = image_with pad (sr_encoding s) (sr_pos s) qs \<Longrightarrow> v = g d"
        using 1 unfolding if_P[OF True] by blast+
      then have u: "ready_r u" "sr_encoding u = sr_encoding s" "sr_pos u = sr_pos s + length ?x"
        "unread u = drop (length ?x) (unread s)" by (simp_all add: consumed_def)
      have "all_ok fs (u, v) = (ok, t, e)" using f f1 c(1) by simp
      note 2 = extractsD_with[OF extract_one(3) u(1) c(3) this, unfolded u(2-4)]
      have tk: "take (length ?x) (unread s) = image_with pad (sr_encoding s) (sr_pos s) qs"
        "take (length ?y) (drop (length ?x) (unread s)) = image_with pad (sr_encoding s) (sr_pos s + length ?x) (concat qss)"
        if "take (length ?x + length ?y) (unread s) = image_with pad (sr_encoding s) (sr_pos s) (concat (qs # qss))" for pad
        using that[unfolded imp] True by (auto simp: take_add append_eq_append_conv)
      have "consumed (length ?x + length ?y) s t" if "length ?x + length ?y \<le> length (unread s)"
        using 2 that consumed_trans[OF c(2)] by simp
      then show ?thesis using 2 c(4) tk True unfolding im Let_def length_append by (auto split: if_splits)
    next
      case False
      then show ?thesis using 1 f f1 unfolding im by (auto simp: Let_def)
    qed
  qed
qed

lemma extracts_object:
  assumes "all_extract D fs qss gs" "\<And>d. D d \<Longrightarrow> apply_all gs d = a"
  shows "extracts D (all_ok fs) (concat qss) (\<lambda>_. a)"
  using extracts_all[OF assms(1)] assms(2) unfolding extracts_def by (simp add: Let_def cong: if_cong)

subsection \<open>Whatever is read, the object stays one of its type\<close>

text \<open>
  A read that is told the size of the variable it was given stores inside it and never changes the
  number of its bytes, in any state of the serializer, whatever the data, also when it fails half way.
\<close>

lemma length_put_at: "i + length xs \<le> length dest \<Longrightarrow> length (put_at i xs dest) = length dest"
  by (simp add: put_at_def)

lemma inside_align_cont: "sr_inside (align_cont_r s) = sr_inside s"
  by (simp add: align_cont_r_def Let_def split: list.split)

lemma inside_advance: "sr_inside (advance_r n s) = sr_inside s"
  by (simp add: advance_r_def split: list.split)

lemma inside_skip_loop: "sr_inside (snd (skip_loop n s)) = sr_inside s"
proof (induction n s rule: skip_loop.induct)
  case (1 n s)
  show ?case
  proof (cases "sr_chain s")
    case Nil
    then show ?thesis by (simp add: skip_loop.simps[of n])
  next
    case (Cons b bs)
    with 1 show ?thesis by (simp add: skip_loop.simps[of n] inside_align_cont inside_advance Let_def)
  qed
qed

lemma inside_skip_bytes: "sr_inside (snd (skip_bytes n s)) = sr_inside s"
  using inside_skip_loop[of n s] by (cases "skip_loop n s") (simp add: skip_bytes_def Let_def)

lemma inside_align: "sr_inside (snd (align_r al s)) = sr_inside s"
  by (simp add: align_r_def Let_def inside_skip_bytes split: list.split)

lemma doread_within:
  assumes "doread dest sz swap offset s = (d', o', s')" "length dest = sz" "offset \<le> sz"
  shows "length d' = sz" "o' \<le> sz" "sr_inside s' = sr_inside s"
proof -
  have "length d' = sz \<and> o' \<le> sz \<and> sr_inside s' = sr_inside s"
  proof (cases "sr_chain s")
    case Nil
    then show ?thesis using assms by (auto simp: doread_def)
  next
    case (Cons b bs)
    from assms show ?thesis unfolding doread_Cons[OF Cons]
      by (auto simp: length_put_at min_def inside_align_cont inside_advance split: if_splits)
  qed
  then show "length d' = sz" "o' \<le> sz" "sr_inside s' = sr_inside s" by simp_all
qed

lemma buffer_read_from_within:
  assumes "length dest = sz" "offset \<le> sz"
  shows "length (fst (buffer_read_from dest sz swap offset s)) = sz
    \<and> sr_inside (snd (buffer_read_from dest sz swap offset s)) = sr_inside s"
  using assms
proof (induction dest sz swap offset s rule: buffer_read_from.induct)
  case (1 dest sz swap offset s)
  show ?case
  proof (cases "sz > offset")
    case True
    obtain d' o' s' where r: "doread dest sz swap offset s = (d', o', s')" by (cases "doread dest sz swap offset s")
    note w = doread_within[OF r 1(2,3)]
    from 1(1)[OF True r[symmetric] refl w(1,2)] True r w(3) show ?thesis
      by (simp add: buffer_read_from.simps[of dest sz])
  next
    case False
    then show ?thesis using 1(2) by (simp add: buffer_read_from.simps[of dest sz])
  qed
qed

lemma buffer_read_within:
  "length x = sz \<Longrightarrow> length (fst (buffer_read x sz swap s)) = sz"
  "length x = sz \<Longrightarrow> sr_inside (snd (buffer_read x sz swap s)) = sr_inside s"
  using buffer_read_from_within[of x sz 0 swap s] by (simp_all add: buffer_read_def)

lemma extract_aligned_within:
  assumes "extract_aligned al sz x s = (ok, bs, t)" "length x = sz"
  shows "length bs = sz" "sr_inside t = sr_inside s"
  using assms inside_align[of al s] buffer_read_within[OF assms(2)]
  by (auto simp: extract_aligned_def split: prod.splits if_splits) (metis fst_conv snd_conv)+

text \<open>\<open>keeps D f\<close>: an object of the shape \<open>D\<close> stays one, and all that is stored lies inside.\<close>

definition keeps :: "('d \<Rightarrow> bool) \<Rightarrow> (ser_r \<times> 'd \<Rightarrow> bool \<times> ser_r \<times> 'd) \<Rightarrow> bool" where
  "keeps D f \<longleftrightarrow> (\<forall>s d. D d \<longrightarrow> D (snd (snd (f (s, d)))) \<and> sr_inside (fst (snd (f (s, d)))) = sr_inside s)"

named_theorems keeps_rules "which shape of an object an extraction operator keeps"

lemma keeps_number:
  assumes "\<And>s d. f (s, d) = (case extract_aligned al sz (m d s) s of (ok, bs, s) \<Rightarrow> (ok, s, v (sr_native s) bs))"
    and "\<And>d s. length (m d s) = sz" "\<And>n bs. length bs = sz \<Longrightarrow> D (v n bs)"
  shows "keeps D f"
  unfolding keeps_def
proof (intro allI impI)
  fix s d
  obtain ok bs t where e: "extract_aligned al sz (m d s) s = (ok, bs, t)" by (cases "extract_aligned al sz (m d s) s")
  show "D (snd (snd (f (s, d)))) \<and> sr_inside (fst (snd (f (s, d)))) = sr_inside s"
    using extract_aligned_within[OF e assms(2)] assms(3) by (simp add: assms(1) e)
qed

lemma keeps_numbers [keeps_rules]:
  "keeps is_i32 extract_Long" "keeps (\<lambda>_. True) extract_ULong" "keeps (\<lambda>_. True) extract_Float"
  "keeps (\<lambda>_. True) extract_Double"
  by (rule keeps_number, simp add: extract_Long_def extract_ULong_def extract_Float_def extract_Double_def,
      simp, simp add: mem_int_i32)+

lemma keeps_bytes [keeps_rules]:
  "keeps (\<lambda>_. True) extract_to_char" "keeps (\<lambda>_. True) extract_to_boolean"
  "keeps (\<lambda>x. length x = n) (read_char_array n)"
  by (simp_all add: keeps_def extract_to_char_def extract_to_boolean_def read_char_array_def split_beta buffer_read_within)

lemma keeps_into [keeps_rules]:
  "keeps D op \<Longrightarrow> (\<And>d. E d \<Longrightarrow> D (field d)) \<Longrightarrow> (\<And>d v. E d \<Longrightarrow> D v \<Longrightarrow> E (store v d)) \<Longrightarrow> keeps E (into op field store)"
  by (simp add: keeps_def into_def split_beta)

lemma keeps_all [keeps_rules]: "keeps D (all_ok [])" "keeps D f \<Longrightarrow> keeps D (all_ok fs) \<Longrightarrow> keeps D (all_ok (f # fs))"
  by (auto simp: keeps_def split: prod.splits) (metis fst_conv snd_conv)+

end
