(* ===== verification/OpenTypes.thy ===== *)
theory OpenTypes
  imports OpenReader
begin

section \<open>The OpenDDS type supports of the six types\<close>

text \<open>
  \<open>src/IDLs_open/generated/inse/inseTypeSupportImpl.cpp\<close>: for each type \<open>set_default\<close>,
  \<open>serialized_size\<close>, \<open>operator <<\<close> (here \<open>write\<close>) and \<open>operator >>\<close> (\<open>read\<close>), and for
  \<open>AirEntity\<close>, the topic type, the same for its key. The classes OpenDDS generates have the members
  of the Fast DDS ones, so the records are shared. \<open>size_t& size\<close> is the argument and the result.
\<close>

subsection \<open>Sizes of the primitive types\<close>

definition primitive_serialized_size :: "64 word \<Rightarrow> encoding \<Rightarrow> 64 word \<Rightarrow> 64 word" where
  "primitive_serialized_size cdr_size e sz = encoding_align e sz cdr_size + cdr_size"

definition primitive_serialized_size_Long :: "encoding \<Rightarrow> int \<Rightarrow> 64 word \<Rightarrow> 64 word" where
  "primitive_serialized_size_Long e val = primitive_serialized_size 4 e"

definition primitive_serialized_size_ULong :: "encoding \<Rightarrow> 32 word \<Rightarrow> 64 word \<Rightarrow> 64 word" where
  "primitive_serialized_size_ULong e val = primitive_serialized_size 4 e"

definition primitive_serialized_size_Float :: "encoding \<Rightarrow> float_bits \<Rightarrow> 64 word \<Rightarrow> 64 word" where
  "primitive_serialized_size_Float e val = primitive_serialized_size 4 e"

definition primitive_serialized_size_Double :: "encoding \<Rightarrow> double_bits \<Rightarrow> 64 word \<Rightarrow> 64 word" where
  "primitive_serialized_size_Double e val = primitive_serialized_size 8 e"

definition primitive_serialized_size_from_boolean :: "encoding \<Rightarrow> bool \<Rightarrow> 64 word \<Rightarrow> 64 word" where
  "primitive_serialized_size_from_boolean e val sz = sz + 1"

definition primitive_serialized_size_from_char :: "encoding \<Rightarrow> c_char \<Rightarrow> 64 word \<Rightarrow> 64 word" where
  "primitive_serialized_size_from_char e val sz = sz + 1"

definition primitive_serialized_size_char :: "encoding \<Rightarrow> nat \<Rightarrow> 64 word \<Rightarrow> 64 word" where
  "primitive_serialized_size_char e count sz = sz + of_nat count"

definition serialized_size_delimiter :: "encoding \<Rightarrow> 64 word \<Rightarrow> 64 word" where
  "serialized_size_delimiter e sz = (if en_xcdr_version e = XCDR_VERSION_2
     then primitive_serialized_size 4 e sz else sz)"

subsection \<open>Default values\<close>

text \<open>\<open>for (i0 = 0; i0 < n; ++i0) arr.get()[i0] = 0\<close>\<close>

definition set_default_array :: "nat \<Rightarrow> c_char list \<Rightarrow> c_char list" where
  "set_default_array n arr = replicate n 0 @ drop n arr"

definition EntityID_set_default :: "EntityID \<Rightarrow> EntityID" where
  "EntityID_set_default stru = stru\<lparr>eid_id := 0, eid_creatorID := 0,
     eid_entityName := set_default_array 20 (eid_entityName stru),
     eid_modelName := set_default_array 20 (eid_modelName stru),
     eid_visualID := 0, eid_visualModel := 0, eid_visualDetail := 0, eid_active := 0,
     eid_delayedActivationTime := 0, eid_manned := 0, eid_remote := 0, eid_entityType := 0,
     eid_side := 0, eid_weight := 0\<rparr>"

definition Target_set_default :: "Target \<Rightarrow> Target" where
  "Target_set_default stru = stru\<lparr>tgt_entity_id := 0\<rparr>"

definition Position_set_default :: "Position \<Rightarrow> Position" where
  "Position_set_default stru = stru\<lparr>pos_latitude := 0, pos_longitude := 0, pos_altitude := 0,
     pos_altitudeAGL := 0, pos_altitude_target := 0\<rparr>"

definition Attitude_set_default :: "Attitude \<Rightarrow> Attitude" where
  "Attitude_set_default stru = stru\<lparr>pitch := 0, yaw := 0, roll := 0\<rparr>"

definition MovementAirEntity_set_default :: "MovementAirEntity \<Rightarrow> MovementAirEntity" where
  "MovementAirEntity_set_default stru = stru\<lparr>speed := 0, speed_target := 0, geographicHeading := 0,
     geographicHeading_target := 0, magneticHeading := 0, tmllf := 0, onGround := 0,
     missionName := set_default_array 32 (missionName stru), indicatedSpeed := 0,
     indicatedSpeed_target := 0, loadFactor := 0, verticalSpeed := 0, verticalSpeed_target := 0,
     groundSpeed := 0, groundSpeed_target := 0, throttle := 0, infiniteFuel := False,
     initialFuel := 0, currentFuel := 0, fuelConsumption := 0\<rparr>"

definition AirEntity_set_default :: "AirEntity \<Rightarrow> AirEntity" where
  "AirEntity_set_default stru = stru\<lparr>ent_id := 0,
     entity_attitude := Attitude_set_default (entity_attitude stru),
     movement := MovementAirEntity_set_default (movement stru), commsActive := 0, formationID := 0,
     posInt_inseoFormation := 0, isAutomaticTraffic := 0\<rparr>"

subsection \<open>Serialized sizes\<close>

definition EntityID_serialized_size :: "encoding \<Rightarrow> EntityID \<Rightarrow> 64 word \<Rightarrow> 64 word" where
  "EntityID_serialized_size e stru = apply_all
    [primitive_serialized_size_Long e (eid_id stru),
     primitive_serialized_size_Long e (eid_creatorID stru),
     primitive_serialized_size_char e 20,
     primitive_serialized_size_char e 20,
     primitive_serialized_size_Long e (eid_visualID stru),
     primitive_serialized_size_Long e (eid_visualModel stru),
     primitive_serialized_size_Long e (eid_visualDetail stru),
     primitive_serialized_size_from_char e (eid_active stru),
     primitive_serialized_size_ULong e (eid_delayedActivationTime stru),
     primitive_serialized_size_from_char e (eid_manned stru),
     primitive_serialized_size_from_char e (eid_remote stru),
     primitive_serialized_size_from_char e (eid_entityType stru),
     primitive_serialized_size_from_char e (eid_side stru),
     primitive_serialized_size_Double e (eid_weight stru)]"

definition Target_serialized_size :: "encoding \<Rightarrow> Target \<Rightarrow> 64 word \<Rightarrow> 64 word" where
  "Target_serialized_size e stru = apply_all [primitive_serialized_size_Long e (tgt_entity_id stru)]"

definition Position_serialized_size :: "encoding \<Rightarrow> Position \<Rightarrow> 64 word \<Rightarrow> 64 word" where
  "Position_serialized_size e stru = apply_all
    [primitive_serialized_size_Double e (pos_latitude stru),
     primitive_serialized_size_Double e (pos_longitude stru),
     primitive_serialized_size_Float e (pos_altitude stru),
     primitive_serialized_size_Float e (pos_altitudeAGL stru),
     primitive_serialized_size_Float e (pos_altitude_target stru)]"

definition Attitude_serialized_size :: "encoding \<Rightarrow> Attitude \<Rightarrow> 64 word \<Rightarrow> 64 word" where
  "Attitude_serialized_size e stru = apply_all
    [primitive_serialized_size_Float e (pitch stru),
     primitive_serialized_size_Float e (yaw stru),
     primitive_serialized_size_Float e (roll stru)]"

definition MovementAirEntity_serialized_size :: "encoding \<Rightarrow> MovementAirEntity \<Rightarrow> 64 word \<Rightarrow> 64 word" where
  "MovementAirEntity_serialized_size e stru = apply_all
    [primitive_serialized_size_Float e (speed stru),
     primitive_serialized_size_Float e (speed_target stru),
     primitive_serialized_size_Float e (geographicHeading stru),
     primitive_serialized_size_Float e (geographicHeading_target stru),
     primitive_serialized_size_Float e (magneticHeading stru),
     primitive_serialized_size_from_char e (tmllf stru),
     primitive_serialized_size_from_char e (onGround stru),
     primitive_serialized_size_char e 32,
     primitive_serialized_size_Float e (indicatedSpeed stru),
     primitive_serialized_size_Float e (indicatedSpeed_target stru),
     primitive_serialized_size_Float e (loadFactor stru),
     primitive_serialized_size_Float e (verticalSpeed stru),
     primitive_serialized_size_Float e (verticalSpeed_target stru),
     primitive_serialized_size_Float e (groundSpeed stru),
     primitive_serialized_size_Float e (groundSpeed_target stru),
     primitive_serialized_size_Float e (throttle stru),
     primitive_serialized_size_from_boolean e (infiniteFuel stru),
     primitive_serialized_size_Float e (initialFuel stru),
     primitive_serialized_size_Float e (currentFuel stru),
     primitive_serialized_size_Float e (fuelConsumption stru)]"

definition AirEntity_serialized_size :: "encoding \<Rightarrow> AirEntity \<Rightarrow> 64 word \<Rightarrow> 64 word" where
  "AirEntity_serialized_size e stru = apply_all
    [primitive_serialized_size_Long e (ent_id stru),
     Attitude_serialized_size e (entity_attitude stru),
     MovementAirEntity_serialized_size e (movement stru),
     primitive_serialized_size_from_char e (commsActive stru),
     primitive_serialized_size_Long e (formationID stru),
     primitive_serialized_size_Long e (posInt_inseoFormation stru),
     primitive_serialized_size_from_char e (isAutomaticTraffic stru)]"

definition AirEntity_key_serialized_size :: "encoding \<Rightarrow> AirEntity \<Rightarrow> 64 word \<Rightarrow> 64 word" where
  "AirEntity_key_serialized_size e stru = apply_all [primitive_serialized_size_Long e (ent_id stru)]"

subsection \<open>Writing\<close>

definition EntityID_write :: "EntityID \<Rightarrow> ser_w \<Rightarrow> bool \<times> ser_w" where
  "EntityID_write stru = all_ok
    [insert_Long (eid_id stru), insert_Long (eid_creatorID stru),
     write_char_array (eid_entityName stru) 20, write_char_array (eid_modelName stru) 20,
     insert_Long (eid_visualID stru), insert_Long (eid_visualModel stru),
     insert_Long (eid_visualDetail stru), insert_from_char (eid_active stru),
     insert_ULong (eid_delayedActivationTime stru), insert_from_char (eid_manned stru),
     insert_from_char (eid_remote stru), insert_from_char (eid_entityType stru),
     insert_from_char (eid_side stru), insert_Double (eid_weight stru)]"

definition Target_write :: "Target \<Rightarrow> ser_w \<Rightarrow> bool \<times> ser_w" where
  "Target_write stru = all_ok [insert_Long (tgt_entity_id stru)]"

definition Position_write :: "Position \<Rightarrow> ser_w \<Rightarrow> bool \<times> ser_w" where
  "Position_write stru = all_ok
    [insert_Double (pos_latitude stru), insert_Double (pos_longitude stru),
     insert_Float (pos_altitude stru), insert_Float (pos_altitudeAGL stru),
     insert_Float (pos_altitude_target stru)]"

definition Attitude_write :: "Attitude \<Rightarrow> ser_w \<Rightarrow> bool \<times> ser_w" where
  "Attitude_write stru = all_ok
    [insert_Float (pitch stru), insert_Float (yaw stru), insert_Float (roll stru)]"

definition MovementAirEntity_write :: "MovementAirEntity \<Rightarrow> ser_w \<Rightarrow> bool \<times> ser_w" where
  "MovementAirEntity_write stru = all_ok
    [insert_Float (speed stru), insert_Float (speed_target stru),
     insert_Float (geographicHeading stru), insert_Float (geographicHeading_target stru),
     insert_Float (magneticHeading stru), insert_from_char (tmllf stru),
     insert_from_char (onGround stru), write_char_array (missionName stru) 32,
     insert_Float (indicatedSpeed stru), insert_Float (indicatedSpeed_target stru),
     insert_Float (loadFactor stru), insert_Float (verticalSpeed stru),
     insert_Float (verticalSpeed_target stru), insert_Float (groundSpeed stru),
     insert_Float (groundSpeed_target stru), insert_Float (throttle stru),
     insert_from_boolean (infiniteFuel stru), insert_Float (initialFuel stru),
     insert_Float (currentFuel stru), insert_Float (fuelConsumption stru)]"

definition AirEntity_write :: "AirEntity \<Rightarrow> ser_w \<Rightarrow> bool \<times> ser_w" where
  "AirEntity_write stru = all_ok
    [insert_Long (ent_id stru), Attitude_write (entity_attitude stru),
     MovementAirEntity_write (movement stru), insert_from_char (commsActive stru),
     insert_Long (formationID stru), insert_Long (posInt_inseoFormation stru),
     insert_from_char (isAutomaticTraffic stru)]"

definition AirEntity_key_write :: "AirEntity \<Rightarrow> ser_w \<Rightarrow> bool \<times> ser_w" where
  "AirEntity_key_write stru = all_ok [insert_Long (ent_id stru)]"

subsection \<open>Reading\<close>

definition EntityID_read :: "ser_r \<times> EntityID \<Rightarrow> bool \<times> ser_r \<times> EntityID" where
  "EntityID_read = all_ok
    [into extract_Long eid_id (\<lambda>v d. d\<lparr>eid_id := v\<rparr>),
     into extract_Long eid_creatorID (\<lambda>v d. d\<lparr>eid_creatorID := v\<rparr>),
     into (read_char_array 20) eid_entityName (\<lambda>v d. d\<lparr>eid_entityName := v\<rparr>),
     into (read_char_array 20) eid_modelName (\<lambda>v d. d\<lparr>eid_modelName := v\<rparr>),
     into extract_Long eid_visualID (\<lambda>v d. d\<lparr>eid_visualID := v\<rparr>),
     into extract_Long eid_visualModel (\<lambda>v d. d\<lparr>eid_visualModel := v\<rparr>),
     into extract_Long eid_visualDetail (\<lambda>v d. d\<lparr>eid_visualDetail := v\<rparr>),
     into extract_to_char eid_active (\<lambda>v d. d\<lparr>eid_active := v\<rparr>),
     into extract_ULong eid_delayedActivationTime (\<lambda>v d. d\<lparr>eid_delayedActivationTime := v\<rparr>),
     into extract_to_char eid_manned (\<lambda>v d. d\<lparr>eid_manned := v\<rparr>),
     into extract_to_char eid_remote (\<lambda>v d. d\<lparr>eid_remote := v\<rparr>),
     into extract_to_char eid_entityType (\<lambda>v d. d\<lparr>eid_entityType := v\<rparr>),
     into extract_to_char eid_side (\<lambda>v d. d\<lparr>eid_side := v\<rparr>),
     into extract_Double eid_weight (\<lambda>v d. d\<lparr>eid_weight := v\<rparr>)]"

definition Target_read :: "ser_r \<times> Target \<Rightarrow> bool \<times> ser_r \<times> Target" where
  "Target_read = all_ok [into extract_Long tgt_entity_id (\<lambda>v d. d\<lparr>tgt_entity_id := v\<rparr>)]"

definition Position_read :: "ser_r \<times> Position \<Rightarrow> bool \<times> ser_r \<times> Position" where
  "Position_read = all_ok
    [into extract_Double pos_latitude (\<lambda>v d. d\<lparr>pos_latitude := v\<rparr>),
     into extract_Double pos_longitude (\<lambda>v d. d\<lparr>pos_longitude := v\<rparr>),
     into extract_Float pos_altitude (\<lambda>v d. d\<lparr>pos_altitude := v\<rparr>),
     into extract_Float pos_altitudeAGL (\<lambda>v d. d\<lparr>pos_altitudeAGL := v\<rparr>),
     into extract_Float pos_altitude_target (\<lambda>v d. d\<lparr>pos_altitude_target := v\<rparr>)]"

definition Attitude_read :: "ser_r \<times> Attitude \<Rightarrow> bool \<times> ser_r \<times> Attitude" where
  "Attitude_read = all_ok
    [into extract_Float pitch (\<lambda>v d. d\<lparr>pitch := v\<rparr>),
     into extract_Float yaw (\<lambda>v d. d\<lparr>yaw := v\<rparr>),
     into extract_Float roll (\<lambda>v d. d\<lparr>roll := v\<rparr>)]"

definition MovementAirEntity_read :: "ser_r \<times> MovementAirEntity \<Rightarrow> bool \<times> ser_r \<times> MovementAirEntity" where
  "MovementAirEntity_read = all_ok
    [into extract_Float speed (\<lambda>v d. d\<lparr>speed := v\<rparr>),
     into extract_Float speed_target (\<lambda>v d. d\<lparr>speed_target := v\<rparr>),
     into extract_Float geographicHeading (\<lambda>v d. d\<lparr>geographicHeading := v\<rparr>),
     into extract_Float geographicHeading_target (\<lambda>v d. d\<lparr>geographicHeading_target := v\<rparr>),
     into extract_Float magneticHeading (\<lambda>v d. d\<lparr>magneticHeading := v\<rparr>),
     into extract_to_char tmllf (\<lambda>v d. d\<lparr>tmllf := v\<rparr>),
     into extract_to_char onGround (\<lambda>v d. d\<lparr>onGround := v\<rparr>),
     into (read_char_array 32) missionName (\<lambda>v d. d\<lparr>missionName := v\<rparr>),
     into extract_Float indicatedSpeed (\<lambda>v d. d\<lparr>indicatedSpeed := v\<rparr>),
     into extract_Float indicatedSpeed_target (\<lambda>v d. d\<lparr>indicatedSpeed_target := v\<rparr>),
     into extract_Float loadFactor (\<lambda>v d. d\<lparr>loadFactor := v\<rparr>),
     into extract_Float verticalSpeed (\<lambda>v d. d\<lparr>verticalSpeed := v\<rparr>),
     into extract_Float verticalSpeed_target (\<lambda>v d. d\<lparr>verticalSpeed_target := v\<rparr>),
     into extract_Float groundSpeed (\<lambda>v d. d\<lparr>groundSpeed := v\<rparr>),
     into extract_Float groundSpeed_target (\<lambda>v d. d\<lparr>groundSpeed_target := v\<rparr>),
     into extract_Float throttle (\<lambda>v d. d\<lparr>throttle := v\<rparr>),
     into extract_to_boolean infiniteFuel (\<lambda>v d. d\<lparr>infiniteFuel := v\<rparr>),
     into extract_Float initialFuel (\<lambda>v d. d\<lparr>initialFuel := v\<rparr>),
     into extract_Float currentFuel (\<lambda>v d. d\<lparr>currentFuel := v\<rparr>),
     into extract_Float fuelConsumption (\<lambda>v d. d\<lparr>fuelConsumption := v\<rparr>)]"

definition AirEntity_read :: "ser_r \<times> AirEntity \<Rightarrow> bool \<times> ser_r \<times> AirEntity" where
  "AirEntity_read = all_ok
    [into extract_Long ent_id (\<lambda>v d. d\<lparr>ent_id := v\<rparr>),
     into Attitude_read entity_attitude (\<lambda>v d. d\<lparr>entity_attitude := v\<rparr>),
     into MovementAirEntity_read movement (\<lambda>v d. d\<lparr>movement := v\<rparr>),
     into extract_to_char commsActive (\<lambda>v d. d\<lparr>commsActive := v\<rparr>),
     into extract_Long formationID (\<lambda>v d. d\<lparr>formationID := v\<rparr>),
     into extract_Long posInt_inseoFormation (\<lambda>v d. d\<lparr>posInt_inseoFormation := v\<rparr>),
     into extract_to_char isAutomaticTraffic (\<lambda>v d. d\<lparr>isAutomaticTraffic := v\<rparr>)]"

definition AirEntity_key_read :: "ser_r \<times> AirEntity \<Rightarrow> bool \<times> ser_r \<times> AirEntity" where
  "AirEntity_key_read = all_ok [into extract_Long ent_id (\<lambda>v d. d\<lparr>ent_id := v\<rparr>)]"

subsection \<open>Sizes are lengths of images\<close>

text \<open>
  \<open>sizes f qs\<close>: from a size that is the position in the stream, modulo \<open>2 ^ 64\<close>, \<open>f\<close> counts
  exactly the image of \<open>qs\<close>.
\<close>

definition sizes :: "(encoding \<Rightarrow> 64 word \<Rightarrow> 64 word) \<Rightarrow> prim list \<Rightarrow> bool" where
  "sizes f qs \<longleftrightarrow> (\<forall>e p. encoding_ok e \<longrightarrow> f e (of_nat p) = of_nat (p + length (image_at e p qs)))"

named_theorems sizes_rules "what a size function counts"

lemma and_not_mask: "x AND NOT (mask n) = x - take_bit n (x :: 64 word)"
proof -
  have "x AND NOT (mask n) = push_bit n (drop_bit n x)" by (rule bit_eqI) (auto simp: bit_simps)
  also have "\<dots> = x - take_bit n x" using bits_ident[of n x] by (simp add: algebra_simps)
  finally show ?thesis .
qed

lemma align_word:
  "(of_nat p + of_nat n) AND NOT (mask k) = (of_nat (p + n - (p + n) mod 2 ^ k) :: 64 word)"
proof -
  have "take_bit k (of_nat (p + n)) = (of_nat ((p + n) mod 2 ^ k) :: 64 word)"
    unfolding take_bit_of_nat by (simp only: take_bit_nat_def)
  moreover have "of_nat (p + n) - of_nat ((p + n) mod 2 ^ k) = (of_nat (p + n - (p + n) mod 2 ^ k) :: 64 word)"
    by (rule of_nat_diff[symmetric]) (rule mod_less_eq_dividend)
  ultimately show ?thesis unfolding and_not_mask of_nat_add[symmetric] by simp
qed

lemma round_up_pad:
  assumes "0 < (a :: nat)"
  shows "p + (a - 1) - (p + (a - 1)) mod a = p + cdr_pad a p"
proof (cases "p mod a = 0")
  case True
  then obtain q where q: "p = a * q" by (auto simp: mod_eq_0_iff_dvd elim: dvdE)
  then have "(p + (a - 1)) mod a = a - 1" using assms by (simp only: mod_mult_self4) simp
  then show ?thesis using q by (simp add: cdr_pad_def)
next
  case False
  define q r where "q = p div a" and "r = p mod a"
  have p: "p = a * q + r" and r: "0 < r" "r < a" using False assms by (simp_all add: q_def r_def)
  have "p + (a - 1) = a * (q + 1) + (r - 1)" using p r by simp
  moreover have "(a * (q + 1) + (r - 1)) mod a = r - 1" using r by (simp only: mod_mult_self4) simp
  ultimately have "p + (a - 1) - (p + (a - 1)) mod a = a * (q + 1)" by simp
  moreover have "cdr_pad a p = a - r" using r by (simp add: cdr_pad_def r_def[symmetric])
  ultimately show ?thesis using p r by simp
qed

lemma dcps_align_pad:
  "dcps_align (of_nat p) 4 = of_nat (p + cdr_pad 4 p)" "dcps_align (of_nat p) 8 = of_nat (p + cdr_pad 8 p)"
proof -
  have "p + 3 - (p + 3) mod 4 = p + cdr_pad 4 p" using round_up_pad[of 4 p] by simp
  then show "dcps_align (of_nat p) 4 = of_nat (p + cdr_pad 4 p)"
    using align_word[of p 3 2] by (simp add: dcps_align_def mask_eq_exp_minus_1 add.commute)
  have "p + 7 - (p + 7) mod 8 = p + cdr_pad 8 p" using round_up_pad[of 8 p] by simp
  then show "dcps_align (of_nat p) 8 = of_nat (p + cdr_pad 8 p)"
    using align_word[of p 7 3] by (simp add: dcps_align_def mask_eq_exp_minus_1 add.commute)
qed

lemma stream_align_word:
  assumes "encoding_ok e" "n = 4 \<or> n = 8"
  shows "encoding_align e (of_nat p) n = of_nat (p + cdr_pad (stream_align e (unat n)) p)"
proof -
  have "(min (8 :: 64 word) 4) = 4" "(min (4 :: 64 word) 8) = 4" by simp_all
  with assms show ?thesis
    by (auto simp: encoding_ok_def encoding_align_def stream_align_def dcps_align_pad cdr_pad_def[of "Suc 0"])
qed

lemma sizes_number:
  assumes "n = 4 \<or> n = 8" "prim_align q = unat n" "\<And>e. length (prim_bytes e q) = unat n"
  shows "sizes (primitive_serialized_size n) [q]"
  unfolding sizes_def primitive_serialized_size_def
  using assms by (auto simp: stream_align_word image_at_def Let_def)

lemma sizes_ops [sizes_rules]:
  "sizes (\<lambda>e. primitive_serialized_size_Long e i) [PInt32 i]"
  "sizes (\<lambda>e. primitive_serialized_size_ULong e u) [PUInt32 u]"
  "sizes (\<lambda>e. primitive_serialized_size_Float e x) [PFloat x]"
  "sizes (\<lambda>e. primitive_serialized_size_Double e y) [PDouble y]"
  unfolding primitive_serialized_size_Long_def primitive_serialized_size_ULong_def
    primitive_serialized_size_Float_def primitive_serialized_size_Double_def
  by (rule sizes_number; simp)+

lemma sizes_char_ops [sizes_rules]:
  "sizes (\<lambda>e. primitive_serialized_size_from_char e c) [PChar c]"
  "sizes (\<lambda>e. primitive_serialized_size_from_boolean e b) [PBool b]"
  "length cs = n \<Longrightarrow> sizes (\<lambda>e. primitive_serialized_size_char e n) [PChars cs]"
  by (auto simp: sizes_def primitive_serialized_size_from_char_def primitive_serialized_size_from_boolean_def
    primitive_serialized_size_char_def image_at_def cdr_pad_def Let_def)

lemma sizes_all [sizes_rules]:
  "sizes (\<lambda>e. apply_all []) (concat [])"
  "sizes f qs \<Longrightarrow> sizes (\<lambda>e. apply_all (fs e)) (concat qss) \<Longrightarrow> sizes (\<lambda>e. apply_all (f e # fs e)) (concat (qs # qss))"
  by (simp_all add: sizes_def image_at_def image_append add.assoc del: of_nat_add)

lemma sizes_EntityID [sizes_rules]:
  "EntityID_ok a \<Longrightarrow> sizes (\<lambda>e. EntityID_serialized_size e a) (EntityID_prims a)"
  unfolding EntityID_serialized_size_def EntityID_prims_def EntityID_ok_def
  by (intro sizes_rules) auto

lemma sizes_Target [sizes_rules]: "sizes (\<lambda>e. Target_serialized_size e a) (Target_prims a)"
  unfolding Target_serialized_size_def Target_prims_def by (intro sizes_rules)

lemma sizes_Position [sizes_rules]: "sizes (\<lambda>e. Position_serialized_size e a) (Position_prims a)"
  unfolding Position_serialized_size_def Position_prims_def by (intro sizes_rules)

lemma sizes_Attitude [sizes_rules]: "sizes (\<lambda>e. Attitude_serialized_size e a) (Attitude_prims a)"
  unfolding Attitude_serialized_size_def Attitude_prims_def by (intro sizes_rules)

lemma sizes_MovementAirEntity [sizes_rules]:
  "MovementAirEntity_ok a \<Longrightarrow> sizes (\<lambda>e. MovementAirEntity_serialized_size e a) (MovementAirEntity_prims a)"
  unfolding MovementAirEntity_serialized_size_def MovementAirEntity_prims_def MovementAirEntity_ok_def
  by (intro sizes_rules)

lemma sizes_AirEntity:
  "AirEntity_ok a \<Longrightarrow> sizes (\<lambda>e. AirEntity_serialized_size e a) (AirEntity_prims a)"
  unfolding AirEntity_serialized_size_def AirEntity_prims_def AirEntity_ok_def
  by (intro sizes_rules) auto

subsection \<open>What is written\<close>

lemma inserts_EntityID [inserts_rules]:
  "EntityID_ok a \<Longrightarrow> inserts (EntityID_write a) (EntityID_prims a)"
  unfolding EntityID_write_def EntityID_prims_def EntityID_ok_def
  by (intro inserts_rules list.rel_intros) auto

lemma inserts_Target [inserts_rules]: "inserts (Target_write a) (Target_prims a)"
  unfolding Target_write_def Target_prims_def by (intro inserts_rules list.rel_intros)

lemma inserts_Position [inserts_rules]: "inserts (Position_write a) (Position_prims a)"
  unfolding Position_write_def Position_prims_def by (intro inserts_rules list.rel_intros)

lemma inserts_Attitude [inserts_rules]: "inserts (Attitude_write a) (Attitude_prims a)"
  unfolding Attitude_write_def Attitude_prims_def by (intro inserts_rules list.rel_intros)

lemma inserts_MovementAirEntity [inserts_rules]:
  "MovementAirEntity_ok a \<Longrightarrow> inserts (MovementAirEntity_write a) (MovementAirEntity_prims a)"
  unfolding MovementAirEntity_write_def MovementAirEntity_prims_def MovementAirEntity_ok_def
  by (intro inserts_rules list.rel_intros)

lemma inserts_AirEntity:
  "AirEntity_ok a \<Longrightarrow> inserts (AirEntity_write a) (AirEntity_prims a)"
  unfolding AirEntity_write_def AirEntity_prims_def AirEntity_ok_def
  by (intro inserts_rules list.rel_intros) auto

subsection \<open>What is read\<close>

text \<open>The shape of an object: its arrays have the lengths of the IDL.\<close>

definition EntityID_shape :: "EntityID \<Rightarrow> bool" where
  "EntityID_shape d \<longleftrightarrow> length (eid_entityName d) = 20 \<and> length (eid_modelName d) = 20"

definition MovementAirEntity_shape :: "MovementAirEntity \<Rightarrow> bool" where
  "MovementAirEntity_shape d \<longleftrightarrow> length (missionName d) = 32"

definition AirEntity_shape :: "AirEntity \<Rightarrow> bool" where
  "AirEntity_shape d \<longleftrightarrow> MovementAirEntity_shape (movement d)"

lemma extracts_EntityID [extracts_rules]:
  "EntityID_ok a \<Longrightarrow> extracts EntityID_shape EntityID_read (EntityID_prims a) (\<lambda>_. a)"
  unfolding EntityID_read_def EntityID_prims_def EntityID_ok_def
  by (rule extracts_object, (rule extract_one extract_none extracts_rules | (simp add: EntityID_shape_def; fail))+)

lemma extracts_Target [extracts_rules]:
  "Target_ok a \<Longrightarrow> extracts (\<lambda>_. True) Target_read (Target_prims a) (\<lambda>_. a)"
  unfolding Target_read_def Target_prims_def Target_ok_def
  by (rule extracts_object, (rule extract_one extract_none extracts_rules | (simp; fail))+)

lemma extracts_Position [extracts_rules]:
  "extracts (\<lambda>_. True) Position_read (Position_prims a) (\<lambda>_. a)"
  unfolding Position_read_def Position_prims_def
  by (rule extracts_object, (rule extract_one extract_none extracts_rules | (simp; fail))+)

lemma extracts_Attitude [extracts_rules]:
  "extracts (\<lambda>_. True) Attitude_read (Attitude_prims a) (\<lambda>_. a)"
  unfolding Attitude_read_def Attitude_prims_def
  by (rule extracts_object, (rule extract_one extract_none extracts_rules | (simp; fail))+)

lemma extracts_MovementAirEntity [extracts_rules]:
  "MovementAirEntity_ok a \<Longrightarrow>
   extracts MovementAirEntity_shape MovementAirEntity_read (MovementAirEntity_prims a) (\<lambda>_. a)"
  unfolding MovementAirEntity_read_def MovementAirEntity_prims_def MovementAirEntity_ok_def
  by (rule extracts_object, (rule extract_one extract_none extracts_rules
    | (simp add: MovementAirEntity_shape_def; fail))+)

lemma extracts_AirEntity:
  "AirEntity_ok a \<Longrightarrow> extracts AirEntity_shape AirEntity_read (AirEntity_prims a) (\<lambda>_. a)"
  unfolding AirEntity_read_def AirEntity_prims_def AirEntity_ok_def
  by (rule extracts_object, (rule extract_one extract_none extracts_rules
    | (simp add: AirEntity_shape_def; fail))+)

subsection \<open>The topic type on the wire\<close>

lemma inserts_AirEntity_key: "inserts (AirEntity_key_write a) [PInt32 (ent_id a)]"
  using inserts_all[of "[insert_Long (ent_id a)]" "[[PInt32 (ent_id a)]]"]
  by (simp add: AirEntity_key_write_def inserts_ops)

text \<open>The end of an image, value by value.\<close>

fun prim_end :: "(nat \<Rightarrow> nat) \<Rightarrow> prim \<Rightarrow> nat \<Rightarrow> nat" where
  "prim_end al (PChars x) p = p + cdr_pad (al 1) p + length x"
| "prim_end al q p = p + cdr_pad (al (prim_align q)) p + prim_align q"

lemma image_end: "p + length (wire_image al e p qs) = fold (prim_end al) qs p"
proof (induction qs arbitrary: p)
  case (Cons q qs)
  have "prim_end al q p = p + length (replicate (cdr_pad (al (prim_align q)) p) 0 @ prim_bytes e q)"
    by (cases q) simp_all
  then show ?case using Cons[of "prim_end al q p"] by (simp add: Let_def add.assoc)
qed simp

lemma image_at_end: "length (image_at e 0 qs) = fold (prim_end (stream_align e)) qs 0"
  using image_end[of 0 "stream_align e" "en_endianness e" qs] by (simp add: image_at_def)

lemma image_AirEntity_length:
  assumes "encoding_ok e" "AirEntity_ok a"
  shows "length (image_at e 0 (AirEntity_prims a)) = (if en_alignment e = 0 then 125 else 133)"
proof -
  have m: "length (missionName (movement a)) = 32"
    using assms(2) by (simp add: AirEntity_ok_def MovementAirEntity_ok_def)
  consider "en_alignment e = 0" "stream_align e = (\<lambda>n. 1)" | "en_alignment e = 4" "stream_align e = (\<lambda>n. min n 4)"
    | "en_alignment e = 8" "stream_align e = (\<lambda>n. min n 8)"
    using assms(1) by (auto simp: encoding_ok_def stream_align_def fun_eq_iff)
  then show ?thesis unfolding image_at_end
    by cases (simp_all add: AirEntity_prims_def Attitude_prims_def MovementAirEntity_prims_def m cdr_pad_def)
qed

text \<open>C9: Round trip of the OpenDDS type support: when \<open>operator <<\<close> has answered true for an
  \<open>AirEntity\<close>, whatever the blocks of the chain it was written to, \<open>operator >>\<close> at the same
  position of a stream in the same encoding that carries the bytes written, in whatever blocks and
  on a machine of whatever byte order, answers true, delivers the very same object and leaves what
  follows unread.\<close>

theorem open_air_entity_roundtrip:
  assumes "ready_w s" "AirEntity_ok a" "AirEntity_write a s = (True, s')"
    and "ready_r r" "sr_encoding r = sw_encoding s" "sr_pos r = sw_pos s"
    and "unread r = drop (length (sw_bytes s)) (sw_bytes s') @ rest" "AirEntity_shape d"
  shows "\<exists>r'. AirEntity_read (r, d) = (True, r', a) \<and> ready_r r' \<and> unread r' = rest"
proof -
  let ?x = "image_at (sw_encoding s) (sw_pos s) (AirEntity_prims a)"
  have "wrote ?x s s'"
    using inserts_AirEntity[OF assms(2)] assms(1,3) unfolding inserts_def Let_def
    by (metis fst_conv snd_conv)
  then have u: "unread r = ?x @ rest" using assms(7) by (simp add: wrote_def)
  obtain ok r' e where r: "AirEntity_read (r, d) = (ok, r', e)" by (cases "AirEntity_read (r, d)")
  show ?thesis
    using extractsD[OF extracts_AirEntity[OF assms(2)] assms(4,8) r, unfolded assms(5,6) u] r
    by (simp add: consumed_def u)
qed

text \<open>A chain of two blocks at odd addresses to write to, and the bytes in two others to read from.\<close>

definition demo_encoding :: encoding where
  "demo_encoding = set_kind KIND_XCDR1 \<lparr>en_kind = KIND_UNALIGNED_CDR, en_endianness = BIG_ENDIANNESS,
     en_alignment = 0, en_zero_init_padding = False, en_xcdr_version = XCDR_VERSION_NONE\<rparr>"

definition demo_ser_w :: "encoding \<Rightarrow> ser_w" where
  "demo_ser_w e = \<lparr>sw_encoding = e, sw_native = LITTLE_ENDIANNESS,
     sw_swap = (en_endianness e \<noteq> LITTLE_ENDIANNESS),
     sw_chain = [\<lparr>wb_ptr = 0x1003, wb_free = replicate 50 0xAA\<rparr>, \<lparr>wb_ptr = 0x2001, wb_free = replicate 90 0xAA\<rparr>],
     sw_good = True, sw_shift = 3, sw_pos = 0, sw_bytes = []\<rparr>"

definition demo_ser_r :: "encoding \<Rightarrow> 8 word list \<Rightarrow> ser_r" where
  "demo_ser_r e bs = \<lparr>sr_encoding = e, sr_native = BIG_ENDIANNESS,
     sr_swap = (en_endianness e \<noteq> BIG_ENDIANNESS),
     sr_chain = [\<lparr>rb_ptr = 0x3005, rb_data = take 7 bs\<rparr>, \<lparr>rb_ptr = 0x4002, rb_data = drop 7 bs\<rparr>],
     sr_good = True, sr_shift = 5, sr_pos = 0, sr_inside = True\<rparr>"

definition demo_air_entity :: AirEntity where
  "demo_air_entity = AirEntity_new\<lparr>ent_id := - 7, commsActive := 65, formationID := 3\<rparr>"

lemma word_dvd_by_nat: "(of_nat m :: 64 word) dvd of_nat (m * n)"
  by (simp only: of_nat_mult dvd_triv_left)

lemma demo_ready: "encoding_ok e \<Longrightarrow> ready_w (demo_ser_w e)" "encoding_ok e \<Longrightarrow> ready_r (demo_ser_r e bs)"
  using word_dvd_by_nat[of 4 1024] word_dvd_by_nat[of 8 512] word_dvd_by_nat[of 4 3072] word_dvd_by_nat[of 8 1536]
  by (auto simp: ready_w_def ready_r_def demo_ser_w_def demo_ser_r_def in_step_w_def in_step_r_def encoding_ok_def)

lemma demo_unread: "unread (demo_ser_r e bs) = bs"
  by (simp add: demo_ser_r_def unread_def)

lemma demo_encoding_ok: "encoding_ok demo_encoding"
  by (simp add: demo_encoding_def set_kind_def encoding_ok_def)

lemma demo_air_entity_ok: "AirEntity_ok demo_air_entity" "AirEntity_shape AirEntity_new"
  by (simp_all add: AirEntity_ok_def MovementAirEntity_ok_def demo_air_entity_def AirEntity_new_def
    MovementAirEntity_new_def is_i32_def AirEntity_shape_def MovementAirEntity_shape_def)

theorem open_air_entity_roundtrip_witness:
  "\<exists>r'. AirEntity_read (demo_ser_r demo_encoding (sw_bytes (snd (AirEntity_write demo_air_entity (demo_ser_w demo_encoding))) @ [9, 9]),
     AirEntity_new) = (True, r', demo_air_entity) \<and> ready_r r' \<and> unread r' = [9, 9]"
proof -
  have w: "AirEntity_write demo_air_entity (demo_ser_w demo_encoding)
      = (True, snd (AirEntity_write demo_air_entity (demo_ser_w demo_encoding)))"
    using inserts_AirEntity[OF demo_air_entity_ok(1)] demo_ready(1)[OF demo_encoding_ok]
      image_AirEntity_length[OF demo_encoding_ok demo_air_entity_ok(1)]
    by (auto simp: inserts_def Let_def demo_ser_w_def room_def prod_eq_iff)
  show ?thesis
    by (rule open_air_entity_roundtrip[OF demo_ready(1)[OF demo_encoding_ok] demo_air_entity_ok(1) w
        demo_ready(2)[OF demo_encoding_ok] _ _ _ demo_air_entity_ok(2)])
      (simp_all add: demo_unread, simp_all add: demo_ser_r_def demo_ser_w_def)
qed

text \<open>C10: \<open>serialized_size\<close> is exact: an \<open>AirEntity\<close> fits into a fresh chain, that is
  \<open>operator <<\<close> answers true, if and only if the chain has room for the size computed, which is 133
  in the aligned encodings and 125 in the unaligned one; then exactly that many bytes are written.\<close>

theorem open_air_entity_fits:
  assumes "ready_w s" "sw_pos s = 0" "AirEntity_ok a"
  defines "n \<equiv> if en_alignment (sw_encoding s) = 0 then 125 else 133"
  shows "unat (AirEntity_serialized_size (sw_encoding s) a 0) = n \<and> (fst (AirEntity_write a s) \<longleftrightarrow> n \<le> room s)
    \<and> (n \<le> room s \<longrightarrow> length (sw_bytes (snd (AirEntity_write a s))) = length (sw_bytes s) + n)"
proof -
  let ?x = "image_at (sw_encoding s) 0 (AirEntity_prims a)"
  have e: "encoding_ok (sw_encoding s)" using assms(1) by (simp add: ready_w_def)
  have len: "length ?x = n" using image_AirEntity_length[OF e assms(3)] by (simp add: n_def)
  have "AirEntity_serialized_size (sw_encoding s) a (of_nat 0) = of_nat (0 + length ?x)"
    using sizes_AirEntity[OF assms(3)] e unfolding sizes_def by blast
  then have "unat (AirEntity_serialized_size (sw_encoding s) a 0) = n" unfolding len by (simp add: n_def)
  moreover have "if n \<le> room s then fst (AirEntity_write a s) \<and> wrote ?x s (snd (AirEntity_write a s))
      else \<not> fst (AirEntity_write a s)"
    using inserts_AirEntity[OF assms(3)] assms(1,2) unfolding inserts_def Let_def by (metis len)
  ultimately show ?thesis using len by (auto simp: wrote_def split: if_splits)
qed

theorem open_air_entity_fits_witness:
  "unat (AirEntity_serialized_size demo_encoding demo_air_entity 0) = 133
   \<and> fst (AirEntity_write demo_air_entity (demo_ser_w demo_encoding))
   \<and> length (sw_bytes (snd (AirEntity_write demo_air_entity (demo_ser_w demo_encoding)))) = 133"
  using open_air_entity_fits[OF demo_ready(1)[OF demo_encoding_ok] _ demo_air_entity_ok(1)]
  by (simp add: demo_ser_w_def room_def) (simp add: demo_encoding_def set_kind_def)

text \<open>C11: A truncated sample is refused: \<open>operator >>\<close> for an \<open>AirEntity\<close> answers true exactly when
  the chain holds the 133 bytes (125 in the unaligned encoding) of one, whatever they are, and then
  consumes exactly these.\<close>

theorem open_air_entity_truncated:
  assumes "ready_r r" "sr_pos r = 0" "AirEntity_shape d"
  defines "n \<equiv> if en_alignment (sr_encoding r) = 0 then 125 else 133"
  shows "(fst (AirEntity_read (r, d)) \<longleftrightarrow> n \<le> length (unread r))
    \<and> (n \<le> length (unread r) \<longrightarrow> unread (fst (snd (AirEntity_read (r, d)))) = drop n (unread r))"
proof -
  have a: "AirEntity_ok (AirEntity_set_default d)" using assms(3)
    by (simp add: AirEntity_ok_def MovementAirEntity_ok_def AirEntity_set_default_def is_i32_def
      MovementAirEntity_set_default_def set_default_array_def AirEntity_shape_def MovementAirEntity_shape_def)
  have e: "encoding_ok (sr_encoding r)" using assms(1) by (simp add: ready_r_def)
  have "AirEntity_read (r, d) = (fst (AirEntity_read (r, d)), fst (snd (AirEntity_read (r, d))), snd (snd (AirEntity_read (r, d))))"
    by simp
  from extractsD[OF extracts_AirEntity[OF a] assms(1,3) this, unfolded assms(2) image_AirEntity_length[OF e a]]
  show ?thesis unfolding n_def by (auto simp: consumed_def split: if_splits)
qed

theorem open_air_entity_truncated_witness:
  "\<not> fst (AirEntity_read (demo_ser_r demo_encoding (replicate 132 0), AirEntity_new))
   \<and> fst (AirEntity_read (demo_ser_r demo_encoding (replicate 133 0), AirEntity_new))"
proof -
  have u: "unread (demo_ser_r e bs) = bs" "sr_pos (demo_ser_r e bs) = 0" "sr_encoding (demo_ser_r e bs) = e" for e bs
    by (simp_all add: demo_ser_r_def unread_def)
  note t = open_air_entity_truncated[OF demo_ready(2)[OF demo_encoding_ok] u(2) demo_air_entity_ok(2), unfolded u]
  have "en_alignment demo_encoding \<noteq> 0" by (simp add: demo_encoding_def set_kind_def)
  then show ?thesis using t[of "replicate 132 0"] t[of "replicate 133 0"] by simp
qed

subsection \<open>The types of the members\<close>

lemma keeps_EntityID: "keeps EntityID_ok EntityID_read"
  unfolding EntityID_read_def by (rule keeps_rules | (simp add: EntityID_ok_def; fail))+

lemma keeps_Attitude [keeps_rules]: "keeps (\<lambda>_. True) Attitude_read"
  unfolding Attitude_read_def by (rule keeps_rules | (simp; fail))+

lemma keeps_MovementAirEntity [keeps_rules]: "keeps MovementAirEntity_ok MovementAirEntity_read"
  unfolding MovementAirEntity_read_def by (rule keeps_rules | (simp add: MovementAirEntity_ok_def; fail))+

lemma keeps_AirEntity: "keeps AirEntity_ok AirEntity_read"
  unfolding AirEntity_read_def by (rule keeps_rules | (simp add: AirEntity_ok_def; fail))+

text \<open>C23: Whatever the bytes on the wire, the blocks they come in and the state of the serializer, and
  also when it fails half way, \<open>operator >>\<close> of an \<open>AirEntity\<close> or an \<open>EntityID\<close> stores every byte
  inside the member it reads, so the arrays keep their lengths, and leaves the signed numbers in the
  range of their C++ type.\<close>

theorem open_read_type_safe:
  "(AirEntity_ok d \<longrightarrow> AirEntity_ok (snd (snd (AirEntity_read (r, d))))
      \<and> sr_inside (fst (snd (AirEntity_read (r, d)))) = sr_inside r)
   \<and> (EntityID_ok i \<longrightarrow> EntityID_ok (snd (snd (EntityID_read (r, i))))
      \<and> sr_inside (fst (snd (EntityID_read (r, i)))) = sr_inside r)"
  using keeps_AirEntity keeps_EntityID unfolding keeps_def by blast

theorem open_read_type_safe_witness:
  "AirEntity_ok (snd (snd (AirEntity_read (demo_ser_r demo_encoding [255, 255, 255, 255, 1, 2], AirEntity_new))))
   \<and> sr_inside (fst (snd (EntityID_read (demo_ser_r demo_encoding [255, 255, 255, 255, 1, 2], EntityID_new))))"
proof -
  have "AirEntity_ok AirEntity_new" "EntityID_ok EntityID_new"
    by (simp_all add: AirEntity_ok_def MovementAirEntity_ok_def AirEntity_new_def MovementAirEntity_new_def
      EntityID_ok_def EntityID_new_def is_i32_def)
  moreover have "sr_inside (demo_ser_r demo_encoding [255, 255, 255, 255, 1, 2])" by (simp add: demo_ser_r_def)
  ultimately show ?thesis using open_read_type_safe by blast
qed

end
