(* ===== verification/OpenControl.thy ===== *)
theory OpenControl
  imports OpenTypes
begin

section \<open>The OpenDDS type support of TestControl\<close>

text \<open>
  \<open>src/IDLs_open/generated/test_control/test_controlTypeSupportImpl.cpp\<close>. The IDL gives
  \<open>TestControl\<close> no extensibility, so OpenDDS makes it appendable: in XCDR version 2 a delimiter
  with the length precedes the members, a reader gives the members that do not fit its default
  and skips what it does not know. The functions for the object and for its key have that in common.
\<close>

definition TestControl_set_default :: "TestControl \<Rightarrow> TestControl" where
  "TestControl_set_default stru = stru\<lparr>tc_test_id := 0, tc_start := False, tc_expected_entities := 0,
     tc_loan := False, tc_reserve1 := 0, tc_reserve2 := 0\<rparr>"

definition size_delimited :: "encoding \<Rightarrow> 64 word \<Rightarrow> 64 word" where
  "size_delimited e sz = (if en_xcdr_version e = XCDR_VERSION_2 then serialized_size_delimiter e sz else sz)"

definition TestControl_serialized_size :: "encoding \<Rightarrow> TestControl \<Rightarrow> 64 word \<Rightarrow> 64 word" where
  "TestControl_serialized_size e stru = apply_all
    [size_delimited e,
     primitive_serialized_size_Long e (tc_test_id stru),
     primitive_serialized_size_from_boolean e (tc_start stru),
     primitive_serialized_size_Long e (tc_expected_entities stru),
     primitive_serialized_size_from_boolean e (tc_loan stru),
     primitive_serialized_size_Long e (tc_reserve1 stru),
     primitive_serialized_size_Long e (tc_reserve2 stru)]"

definition TestControl_key_serialized_size :: "encoding \<Rightarrow> TestControl \<Rightarrow> 64 word \<Rightarrow> 64 word" where
  "TestControl_key_serialized_size e stru = apply_all
    [size_delimited e, primitive_serialized_size_Long e (tc_test_id stru)]"

text \<open>\<open>total_size\<close>, the delimiter, then the members.\<close>

definition appendable_write :: "(encoding \<Rightarrow> 64 word \<Rightarrow> 64 word) \<Rightarrow> (ser_w \<Rightarrow> bool \<times> ser_w) list \<Rightarrow> ser_w \<Rightarrow> bool \<times> ser_w" where
  "appendable_write serialized_size members s =
     (case if en_xcdr_version (sw_encoding s) = XCDR_VERSION_2
           then write_delimiter (serialized_size (sw_encoding s) 0) s else (True, s) of
        (ok, s) \<Rightarrow> if \<not> ok then (False, s) else all_ok members s)"

definition TestControl_write :: "TestControl \<Rightarrow> ser_w \<Rightarrow> bool \<times> ser_w" where
  "TestControl_write stru = appendable_write (\<lambda>e. TestControl_serialized_size e stru)
    [insert_Long (tc_test_id stru), insert_from_boolean (tc_start stru),
     insert_Long (tc_expected_entities stru), insert_from_boolean (tc_loan stru),
     insert_Long (tc_reserve1 stru), insert_Long (tc_reserve2 stru)]"

definition TestControl_key_write :: "TestControl \<Rightarrow> ser_w \<Rightarrow> bool \<times> ser_w" where
  "TestControl_key_write stru = appendable_write (\<lambda>e. TestControl_key_serialized_size e stru)
    [insert_Long (tc_test_id stru)]"

text \<open>One member, with \<open>reached_end_of_struct\<close> in front of the stream and the object.\<close>

definition read_member :: "nat \<Rightarrow> (ser_r \<times> 'd \<Rightarrow> bool \<times> ser_r \<times> 'd) \<Rightarrow> ('d \<Rightarrow> 'd)
    \<Rightarrow> bool \<times> ser_r \<times> 'd \<Rightarrow> bool \<times> bool \<times> ser_r \<times> 'd" where
  "read_member end_of_struct extract otherwise = (\<lambda>(reached, s, d).
     let reached = (reached \<or> en_xcdr_version (sr_encoding s) = XCDR_VERSION_2 \<and> end_of_struct \<le> sr_pos s)
     in if reached then (True, reached, s, otherwise d)
        else case extract (s, d) of (ok, s, d) \<Rightarrow> (ok, reached, s, d))"

text \<open>\<open>dheader\<close> is what the uninitialised local of \<open>read_delimiter\<close> happens to hold.\<close>

definition appendable_read :: "32 word \<Rightarrow> ((ser_r \<times> 'd \<Rightarrow> bool \<times> ser_r \<times> 'd) \<times> ('d \<Rightarrow> 'd)) list
    \<Rightarrow> ser_r \<times> 'd \<Rightarrow> bool \<times> ser_r \<times> 'd" where
  "appendable_read dheader members = (\<lambda>(s, d).
     case if en_xcdr_version (sr_encoding s) = XCDR_VERSION_2 then read_delimiter dheader (s, 0) else (True, s, 0) of
       (ok, s, total_size) \<Rightarrow> if \<not> ok then (False, s, d) else
     let end_of_struct = sr_pos s + unat total_size in
     case all_ok (map (\<lambda>(f, z). read_member end_of_struct f z) members) (False, s, d) of
       (ok, reached, s, d) \<Rightarrow> if \<not> ok then (False, s, d)
         else if en_xcdr_version (sr_encoding s) = XCDR_VERSION_2 \<and> sr_pos s < end_of_struct
         then (True, snd (skip (end_of_struct - sr_pos s) 1 s), d) else (True, s, d))"

definition TestControl_members :: "((ser_r \<times> TestControl \<Rightarrow> bool \<times> ser_r \<times> TestControl) \<times> (TestControl \<Rightarrow> TestControl)) list" where
  "TestControl_members =
    [(into extract_Long tc_test_id (\<lambda>v d. d\<lparr>tc_test_id := v\<rparr>), \<lambda>d. d\<lparr>tc_test_id := 0\<rparr>),
     (into extract_to_boolean tc_start (\<lambda>v d. d\<lparr>tc_start := v\<rparr>), \<lambda>d. d\<lparr>tc_start := False\<rparr>),
     (into extract_Long tc_expected_entities (\<lambda>v d. d\<lparr>tc_expected_entities := v\<rparr>), \<lambda>d. d\<lparr>tc_expected_entities := 0\<rparr>),
     (into extract_to_boolean tc_loan (\<lambda>v d. d\<lparr>tc_loan := v\<rparr>), \<lambda>d. d\<lparr>tc_loan := False\<rparr>),
     (into extract_Long tc_reserve1 (\<lambda>v d. d\<lparr>tc_reserve1 := v\<rparr>), \<lambda>d. d\<lparr>tc_reserve1 := 0\<rparr>),
     (into extract_Long tc_reserve2 (\<lambda>v d. d\<lparr>tc_reserve2 := v\<rparr>), \<lambda>d. d\<lparr>tc_reserve2 := 0\<rparr>)]"

definition TestControl_read :: "32 word \<Rightarrow> ser_r \<times> TestControl \<Rightarrow> bool \<times> ser_r \<times> TestControl" where
  "TestControl_read dheader = appendable_read dheader TestControl_members"

definition TestControl_key_read :: "32 word \<Rightarrow> ser_r \<times> TestControl \<Rightarrow> bool \<times> ser_r \<times> TestControl" where
  "TestControl_key_read dheader = appendable_read dheader (take 1 TestControl_members)"

subsection \<open>Reading members up to the end of the structure\<close>

inductive_cases all_extract_ConsE: "all_extract D (f # fs) qss gs"

lemma read_member_reached:
  assumes "reached \<or> en_xcdr_version (sr_encoding s) = XCDR_VERSION_2 \<and> n \<le> sr_pos s"
  shows "\<exists>r. all_ok (map (\<lambda>(f, z). read_member n f z) ms) (reached, s, d) = (True, r, s, apply_all (map snd ms) d)"
  using assms by (induction ms arbitrary: reached d) (auto simp: read_member_def)

lemma read_member_plain:
  assumes "en_xcdr_version (sr_encoding s) \<noteq> XCDR_VERSION_2" "all_extract D (map fst ms) qss gs" "ready_r s" "D d"
    and "unread s = image_with pad (sr_encoding s) (sr_pos s) (concat qss) @ rest"
  shows "\<exists>s'. all_ok (map (\<lambda>(f, z). read_member n f z) ms) (False, s, d) = (True, False, s', apply_all gs d)
    \<and> consumed (length (image_at (sr_encoding s) (sr_pos s) (concat qss))) s s'"
  using assms
proof (induction ms arbitrary: s d qss gs)
  case Nil
  then show ?case by (auto simp: image_at_def consumed_none elim: all_extract.cases)
next
  case (Cons m ms)
  obtain f z where m: "m = (f, z)" by (cases m)
  from Cons.prems(2) have "all_extract D (f # map fst ms) qss gs" by (simp add: m)
  then obtain qs qr g gr where q: "qss = qs # qr" "gs = g # gr" "extracts D f qs g"
    "all_extract D (map fst ms) qr gr" by (elim all_extract_ConsE) blast
  let ?x = "image_at (sr_encoding s) (sr_pos s) qs"
  have im: "image_at (sr_encoding s) (sr_pos s) (concat qss) = ?x @ image_at (sr_encoding s) (sr_pos s + length ?x) (concat qr)"
    "image_with pad (sr_encoding s) (sr_pos s) (concat qss) = image_with pad (sr_encoding s) (sr_pos s) qs
      @ image_with pad (sr_encoding s) (sr_pos s + length ?x) (concat qr)"
    by (simp_all add: q image_at_def image_append image_with_def image_with_append)
  obtain ok u e where f: "f (s, d) = (ok, u, e)" by (cases "f (s, d)")
  have c: "ok" "consumed (length ?x) s u" "D e" "e = g d"
    using extractsD_with[OF q(3) Cons.prems(3,4) f] Cons.prems(5) by (auto simp: im)
  then have u: "ready_r u" "sr_encoding u = sr_encoding s" "sr_pos u = sr_pos s + length ?x"
    "unread u = image_with pad (sr_encoding s) (sr_pos s + length ?x) (concat qr) @ rest"
    using Cons.prems(5) by (simp_all add: consumed_def im)
  from Cons.IH[OF _ q(4) u(1) c(3)] Cons.prems(1) obtain s' where
    "all_ok (map (\<lambda>(f, z). read_member n f z) ms) (False, u, e) = (True, False, s', apply_all gr e)"
    "consumed (length (image_at (sr_encoding s) (sr_pos s + length ?x) (concat qr))) u s'"
    unfolding u(2-4) by blast
  then show ?case using Cons.prems(1) f c consumed_trans[OF c(2)]
    by (auto simp: read_member_def m q(2) im)
qed

text \<open>
  In XCDR version 2, again with any padding: the first \<open>k\<close> members are in the data and the structure ends with them,
  or all are and the structure may be longer.
\<close>

lemma read_member_prefix:
  assumes "all_extract D (map fst ms) qss gs" "ready_r s" "D d" "\<forall>qs \<in> set qss. qs \<noteq> []"
    and "unread s = image_with pad (sr_encoding s) (sr_pos s) (concat (take k qss)) @ rest"
    and "en_xcdr_version (sr_encoding s) = XCDR_VERSION_2"
    and "x = image_with pad (sr_encoding s) (sr_pos s) (concat (take k qss))"
    and "n = sr_pos s + length x \<or> length ms \<le> k \<and> sr_pos s + length x \<le> n"
    and "\<And>e p qs. qs \<noteq> [] \<Longrightarrow> encoding_ok e \<Longrightarrow> qs \<in> set qss \<Longrightarrow> image_at e p qs \<noteq> []"
  shows "\<exists>r s'. all_ok (map (\<lambda>(f, z). read_member n f z) ms) (False, s, d) =
      (True, r, s', apply_all (take k gs @ drop k (map snd ms)) d) \<and> consumed (length x) s s'"
  using assms
proof (induction ms arbitrary: s d qss gs k x)
  case Nil
  then have "qss = []" "gs = []" by (auto elim: all_extract.cases)
  then show ?case using Nil(2) by (intro exI[of _ False] exI[of _ s]) (simp add: image_with_def consumed_none Nil(7))
next
  case (Cons m ms)
  obtain f z where m: "m = (f, z)" by (cases m)
  from Cons.prems(1) have "all_extract D (f # map fst ms) qss gs" by (simp add: m)
  then obtain qs qr g gr where q: "qss = qs # qr" "gs = g # gr" "extracts D f qs g"
    "all_extract D (map fst ms) qr gr" by (elim all_extract_ConsE) blast
  show ?case
  proof (cases k)
    case 0
    then have "n = sr_pos s" using Cons.prems(7,8) by (simp add: image_with_def)
    with read_member_reached[of False s n "m # ms" d] Cons.prems(2,6,7) 0 show ?thesis
      by (auto simp: image_with_def consumed_none)
  next
    case (Suc j)
    let ?x = "image_with pad (sr_encoding s) (sr_pos s) qs"
    let ?y = "image_with pad (sr_encoding s) (sr_pos s + length ?x) (concat (take j qr))"
    have im: "x = ?x @ ?y" unfolding Cons.prems(7) by (simp add: q Suc image_with_def image_with_append)
    have "0 < length ?x" using Cons.prems(2,4,9) by (simp add: q ready_r_def)
    moreover have "length x = length ?x + length ?y" by (simp add: im)
    ultimately have go: "\<not> n \<le> sr_pos s" using Cons.prems(8) by linarith
    obtain ok u e where f: "f (s, d) = (ok, u, e)" by (cases "f (s, d)")
    have c: "ok" "consumed (length ?x) s u" "D e" "e = g d"
      using extractsD_with[OF q(3) Cons.prems(2,3) f] Cons.prems(5) unfolding Cons.prems(7)[symmetric] by (auto simp: im)
    then have u: "ready_r u" "sr_encoding u = sr_encoding s" "sr_pos u = sr_pos s + length ?x" "unread u = ?y @ rest"
      using Cons.prems(5) unfolding Cons.prems(7)[symmetric] by (simp_all add: consumed_def im)
    have n: "n = sr_pos s + length ?x + length ?y \<or> length ms \<le> j \<and> sr_pos s + length ?x + length ?y \<le> n"
      using Cons.prems(8) Suc by (auto simp: im)
    have ne: "\<forall>qs\<in>set qr. qs \<noteq> []" using Cons.prems(4) by (simp add: q)
    have i: "image_at e p qs \<noteq> []" if "qs \<noteq> []" "encoding_ok e" "qs \<in> set qr" for e p qs
      using Cons.prems(9) that by (simp add: q)
    from Cons.IH[OF q(4) u(1) c(3) ne, unfolded u(2,3), OF u(4) Cons.prems(6) refl n i] obtain r s' where
      "all_ok (map (\<lambda>(f, z). read_member n f z) ms) (False, u, e) =
        (True, r, s', apply_all (take j gr @ drop j (map snd ms)) e)" "consumed (length ?y) u s'" by blast
    then show ?thesis using go f c consumed_trans[OF c(2)] by (auto simp: read_member_def m q(2) im Suc)
  qed
qed

subsection \<open>What a TestControl is on the wire\<close>

definition TestControl_ok :: "TestControl \<Rightarrow> bool" where
  "TestControl_ok a \<longleftrightarrow> is_i32 (tc_test_id a) \<and> is_i32 (tc_expected_entities a)
   \<and> is_i32 (tc_reserve1 a) \<and> is_i32 (tc_reserve2 a)"

definition TestControl_values :: "TestControl \<Rightarrow> prim list list" where
  "TestControl_values a = [[PInt32 (tc_test_id a)], [PBool (tc_start a)], [PInt32 (tc_expected_entities a)],
     [PBool (tc_loan a)], [PInt32 (tc_reserve1 a)], [PInt32 (tc_reserve2 a)]]"

text \<open>A \<open>TestControl\<close> of which only the first \<open>k\<close> members are known.\<close>

definition first_members :: "nat \<Rightarrow> TestControl \<Rightarrow> TestControl" where
  "first_members k a = apply_all (drop k (map snd TestControl_members)) a"

definition TestControl_stores :: "TestControl \<Rightarrow> (TestControl \<Rightarrow> TestControl) list" where
  "TestControl_stores a = [\<lambda>d. d\<lparr>tc_test_id := tc_test_id a\<rparr>, \<lambda>d. d\<lparr>tc_start := tc_start a\<rparr>,
     \<lambda>d. d\<lparr>tc_expected_entities := tc_expected_entities a\<rparr>, \<lambda>d. d\<lparr>tc_loan := tc_loan a\<rparr>,
     \<lambda>d. d\<lparr>tc_reserve1 := tc_reserve1 a\<rparr>, \<lambda>d. d\<lparr>tc_reserve2 := tc_reserve2 a\<rparr>]"

lemma TestControl_extracts:
  "TestControl_ok a \<Longrightarrow>
   all_extract (\<lambda>_. True) (map fst TestControl_members) (TestControl_values a) (TestControl_stores a)"
  unfolding TestControl_members_def TestControl_values_def TestControl_stores_def TestControl_ok_def list.map fst_conv
  by (rule extract_one extract_none extracts_into[where g = "\<lambda>_. _"] extracts_ops extracts_boolean TrueI | (simp; fail))+

lemma TestControl_stored: "apply_all (take k (TestControl_stores a) @ drop k (map snd TestControl_members)) d = first_members k a"
proof -
  consider "k = 0" | "k = 1" | "k = 2" | "k = 3" | "k = 4" | "k = 5" | "6 \<le> k" by linarith
  then show ?thesis
    by cases (cases d; cases a; simp add: TestControl_stores_def first_members_def TestControl_members_def)+
qed

lemma first_members_all: "6 \<le> k \<Longrightarrow> first_members k a = a"
  by (simp add: first_members_def TestControl_members_def)

lemma TestControl_values_image:
  "qs \<in> set (TestControl_values a) \<Longrightarrow> image_at e p qs \<noteq> []" "qs \<in> set (TestControl_values a) \<Longrightarrow> qs \<noteq> []"
proof -
  have "mem_bytes e n x = [] \<longleftrightarrow> n = 0" for e n x by (metis length_mem_bytes length_0_conv)
  then show "qs \<in> set (TestControl_values a) \<Longrightarrow> image_at e p qs \<noteq> []" "qs \<in> set (TestControl_values a) \<Longrightarrow> qs \<noteq> []"
    by (auto simp: TestControl_values_def image_at_def Let_def)
qed

lemma read_evolved_with:
  fixes n k :: nat and a :: TestControl and pad :: "nat \<Rightarrow> 8 word"
  assumes "ready_r r" "en_xcdr_version (sr_encoding r) = XCDR_VERSION_2" "TestControl_ok a"
  defines "h \<equiv> image_with pad (sr_encoding r) (sr_pos r) [PUInt32 (of_nat n)]"
  defines "x \<equiv> image_with pad (sr_encoding r) (sr_pos r + length h) (concat (take k (TestControl_values a)))"
  assumes "unread r = h @ x @ extra @ rest" "n = length x + length extra" "n < 2 ^ 32" "extra = [] \<or> 6 \<le> k"
  shows "\<exists>r'. TestControl_read u (r, d) = (True, r', first_members k a) \<and> ready_r r' \<and> unread r' = rest"
proof -
  obtain ok s w where ul: "extract_ULong (r, u) = (ok, s, w)" by (cases "extract_ULong (r, u)")
  have "ok" "consumed (length h) r s" "w = of_nat n"
  proof -
    have hl: "length (image_at (sr_encoding r) (sr_pos r) [PUInt32 (of_nat n)]) = length h" by (simp add: h_def)
    have "length h \<le> length (unread r)" "take (length h) (unread r) = h" using assms(6) by simp_all
    with extractsD_with[OF extracts_ops(2)[of "of_nat n"] assms(1) TrueI ul, unfolded hl]
    show "ok" "consumed (length h) r s" "w = of_nat n" by (auto simp: h_def)
  qed
  then have s: "ready_r s" "sr_encoding s = sr_encoding r" "sr_pos s = sr_pos r + length h" "unread s = x @ extra @ rest"
    and ok: ok and w: "unat (ucast w :: 64 word) = n"
    using assms(6,8) by (simp_all add: consumed_def unsigned_ucast_eq unsigned_of_nat unsigned_take_bit_eq take_bit_nat_eq_self)
  let ?stop = "sr_pos s + n"
  have e: "?stop = sr_pos s + length x \<or> length TestControl_members \<le> k \<and> sr_pos s + length x \<le> ?stop"
    using assms(7,9) by (auto simp: TestControl_members_def)
  have ux: "unread s = image_with pad (sr_encoding s) (sr_pos s) (concat (take k (TestControl_values a))) @ extra @ rest"
    using s x_def by simp
  have xs: "x = image_with pad (sr_encoding s) (sr_pos s) (concat (take k (TestControl_values a)))"
    using s x_def by simp
  have v: "en_xcdr_version (sr_encoding s) = XCDR_VERSION_2" using s assms(2) by simp
  obtain q t where t: "all_ok (map (\<lambda>(f, z). read_member ?stop f z) TestControl_members) (False, s, d) =
      (True, q, t, first_members k a)" "consumed (length x) s t"
    using read_member_prefix[OF TestControl_extracts[OF assms(3)] s(1) TrueI _ ux v xs e]
      TestControl_values_image unfolding TestControl_stored by blast
  then have tt: "ready_r t" "sr_pos t = sr_pos s + length x" "unread t = extra @ rest"
    "en_xcdr_version (sr_encoding t) = XCDR_VERSION_2" using s v by (simp_all add: consumed_def)
  have R: "TestControl_read u (r, d) = (if sr_pos t < ?stop then (True, snd (skip (?stop - sr_pos t) 1 t), first_members k a)
      else (True, t, first_members k a))"
    using ul ok w t(1) tt(4) assms(2) by (simp add: TestControl_read_def appendable_read_def read_delimiter_def Let_def)
  have "skip (?stop - sr_pos t) 1 t = skip_bytes (length extra) t"
    using tt(2) assms(7) by (simp add: skip_def)
  then show ?thesis using R tt skip_bytes_ready[OF tt(1), of "length extra"] assms(7)
    by (cases "extra = []") (auto simp: consumed_def)
qed

lemmas read_evolved = read_evolved_with[where pad = "\<lambda>_. 0", folded image_at_with]

text \<open>C12: Old and new publishers: in XCDR version 2, where the data holds a delimiter and the first
  \<open>k\<close> members of a \<open>TestControl\<close>, and the delimiter is their length, or all six members and the
  delimiter counts further bytes too, \<open>operator >>\<close> answers true, delivers the members sent and
  the default 0 for the others, and leaves exactly what follows the structure unread.\<close>

theorem open_control_evolution:
  fixes n k :: nat and a :: TestControl
  assumes "ready_r r" "en_xcdr_version (sr_encoding r) = XCDR_VERSION_2" "TestControl_ok a"
  defines "h \<equiv> image_at (sr_encoding r) (sr_pos r) [PUInt32 (of_nat n)]"
  defines "x \<equiv> image_at (sr_encoding r) (sr_pos r + length h) (concat (take k (TestControl_values a)))"
  assumes "unread r = h @ x @ extra @ rest" "n = length x + length extra" "n < 2 ^ 32" "extra = [] \<or> 6 \<le> k"
  shows "\<exists>r'. TestControl_read u (r, d) = (True, r', first_members k a) \<and> ready_r r' \<and> unread r' = rest"
  by (rule read_evolved[OF assms(1-3) assms(6-9)[unfolded x_def h_def]])

definition demo_encoding2 :: encoding where
  "demo_encoding2 = set_kind KIND_XCDR2 demo_encoding"

definition demo_test_control :: TestControl where
  "demo_test_control = \<lparr>tc_test_id = 7, tc_start = True, tc_expected_entities = - 2, tc_loan = False,
     tc_reserve1 = 0, tc_reserve2 = 1\<rparr>"

lemma demo_encoding2_fields:
  "encoding_ok demo_encoding2" "en_xcdr_version demo_encoding2 = XCDR_VERSION_2" "en_alignment demo_encoding2 = 4"
  "en_endianness demo_encoding2 = BIG_ENDIANNESS"
  by (simp_all add: demo_encoding2_def demo_encoding_def set_kind_def encoding_ok_def)

lemma demo_test_control_ok: "TestControl_ok demo_test_control"
  by (simp add: TestControl_ok_def demo_test_control_def is_i32_def)

lemma be_bytes_4: "be_bytes 4 x = [word_of_nat (x div 256 div 256 div 256 mod 256), word_of_nat (x div 256 div 256 mod 256),
    word_of_nat (x div 256 mod 256), word_of_nat (x mod 256)]"
proof -
  have "(4 :: nat) = Suc (Suc (Suc (Suc 0)))" by simp
  then show ?thesis by (simp only: be_bytes.simps) simp
qed

theorem open_control_evolution_witness:
  "\<exists>r'. TestControl_read 5 (demo_ser_r demo_encoding2 [0, 0, 0, 5, 0, 0, 0, 7, 1, 9], TestControl_new) =
     (True, r', first_members 2 demo_test_control) \<and> ready_r r' \<and> unread r' = [9]"
proof -
  let ?r = "demo_ser_r demo_encoding2 [0, 0, 0, 5, 0, 0, 0, 7, 1, 9]"
  have r: "sr_encoding ?r = demo_encoding2" "sr_pos ?r = 0" "unread ?r = [0, 0, 0, 5, 0, 0, 0, 7, 1, 9]"
    by (simp_all add: demo_ser_r_def unread_def)
  have h: "image_at demo_encoding2 0 [PUInt32 5] = [0, 0, 0, 5]"
    by (simp add: image_at_def stream_align_def demo_encoding2_fields cdr_pad_def mem_bytes_def be_bytes_4)
  have x: "image_at demo_encoding2 4 (concat (take 2 (TestControl_values demo_test_control))) = [0, 0, 0, 7, 1]"
    by (simp add: image_at_def stream_align_def demo_encoding2_fields cdr_pad_def mem_bytes_def
      TestControl_values_def demo_test_control_def Let_def be_bytes_4)
  have four: "Suc (Suc (Suc (Suc 0))) = 4" by simp
  show ?thesis
    using open_control_evolution[OF demo_ready(2)[OF demo_encoding2_fields(1)], of "[0, 0, 0, 5, 0, 0, 0, 7, 1, 9]"
        demo_test_control 5 2 "[]" "[9]" 5 TestControl_new, unfolded r, OF demo_encoding2_fields(2) demo_test_control_ok]
    by (simp add: h x four)
qed

text \<open>An encoding made by the constructor for its kind.\<close>

definition encoding_std :: "encoding \<Rightarrow> bool" where
  "encoding_std e \<longleftrightarrow> e = set_kind (en_kind e) e"

lemma encoding_std_cases:
  assumes "encoding_std e"
  obtains "en_xcdr_version e \<noteq> XCDR_VERSION_2" | "en_xcdr_version e = XCDR_VERSION_2" "stream_align e = (\<lambda>n. min n 4)"
proof -
  have "en_xcdr_version e = en_xcdr_version (set_kind (en_kind e) e)" "en_alignment e = en_alignment (set_kind (en_kind e) e)"
    using assms unfolding encoding_std_def by metis+
  then show ?thesis using that
    by (cases "en_kind e") (auto simp: set_kind_def stream_align_def fun_eq_iff)
qed

lemma image_from: "length (image_at e p qs) = fold (prim_end (stream_align e)) qs p - p"
  using image_end[of p "stream_align e" "en_endianness e" qs] by (simp add: image_at_def)

lemma cdr_pad_mult: "cdr_pad 4 (4 * m + c) = cdr_pad 4 c" "cdr_pad (Suc 0) c = 0"
  by (simp_all add: cdr_pad_def)

lemma TestControl_values_length:
  assumes "stream_align e = (\<lambda>n. min n 4)"
  shows "length (image_at e (4 * m) (concat (TestControl_values a))) = 24"
  using cdr_pad_mult(1)[of m 0]
  by (simp add: image_from assms TestControl_values_def add.assoc cdr_pad_mult, simp add: cdr_pad_def)

lemma TestControl_size:
  assumes "encoding_ok e" "en_xcdr_version e = XCDR_VERSION_2" "stream_align e = (\<lambda>n. min n 4)" "TestControl_ok a"
  shows "TestControl_serialized_size e a 0 = 28"
proof -
  have d: "size_delimited e = primitive_serialized_size_ULong e 0"
    by (simp add: fun_eq_iff size_delimited_def serialized_size_delimiter_def primitive_serialized_size_ULong_def assms(2))
  have "sizes (\<lambda>e. apply_all
    [primitive_serialized_size_ULong e 0, primitive_serialized_size_Long e (tc_test_id a),
     primitive_serialized_size_from_boolean e (tc_start a), primitive_serialized_size_Long e (tc_expected_entities a),
     primitive_serialized_size_from_boolean e (tc_loan a), primitive_serialized_size_Long e (tc_reserve1 a),
     primitive_serialized_size_Long e (tc_reserve2 a)]) (concat ([PUInt32 0] # TestControl_values a))"
    unfolding TestControl_values_def by (intro sizes_rules)
  then have "TestControl_serialized_size e a (of_nat 0) =
      of_nat (0 + length (image_at e 0 (concat ([PUInt32 0] # TestControl_values a))))"
    unfolding sizes_def TestControl_serialized_size_def d using assms(1) by blast
  also have "length (image_at e 0 (concat ([PUInt32 0] # TestControl_values a))) = 28"
    by (simp add: image_at_end assms(3) TestControl_values_def cdr_pad_def)
  finally show ?thesis by simp
qed

lemma TestControl_writes:
  "inserts (all_ok
    [insert_Long (tc_test_id a), insert_from_boolean (tc_start a), insert_Long (tc_expected_entities a),
     insert_from_boolean (tc_loan a), insert_Long (tc_reserve1 a), insert_Long (tc_reserve2 a)]) (concat (TestControl_values a))"
  unfolding TestControl_values_def by (intro inserts_rules list.rel_intros)

lemma inserts_wrote:
  assumes "inserts f qs" "ready_w s" "f s = (True, s')"
  shows "wrote (image_at (sw_encoding s) (sw_pos s) qs) s s'"
  using assms unfolding inserts_def Let_def by (metis fst_conv snd_conv)

lemma TestControl_write_delimited:
  assumes "ready_w s" "en_xcdr_version (sw_encoding s) = XCDR_VERSION_2"
    "stream_align (sw_encoding s) = (\<lambda>n. min n 4)" "TestControl_ok a"
  defines "x \<equiv> image_at (sw_encoding s) (sw_pos s) (concat ([PUInt32 24] # TestControl_values a))"
  shows "if length x \<le> room s then fst (TestControl_write a s) \<and> wrote x s (snd (TestControl_write a s))
    else \<not> fst (TestControl_write a s)"
proof -
  have ok: "encoding_ok (sw_encoding s)" using assms(1) by (simp add: ready_w_def)
  have sz: "ucast (TestControl_serialized_size (sw_encoding s) a 0 - 4) = (24 :: 32 word)"
    using TestControl_size[OF ok assms(2-4)] by simp
  have i: "inserts (all_ok (insert_ULong 24 #
    [insert_Long (tc_test_id a), insert_from_boolean (tc_start a), insert_Long (tc_expected_entities a),
     insert_from_boolean (tc_loan a), insert_Long (tc_reserve1 a), insert_Long (tc_reserve2 a)]))
    (concat ([PUInt32 24] # TestControl_values a))"
    unfolding TestControl_values_def by (intro inserts_rules list.rel_intros)
  have "TestControl_write a s = all_ok (insert_ULong 24 #
    [insert_Long (tc_test_id a), insert_from_boolean (tc_start a), insert_Long (tc_expected_entities a),
     insert_from_boolean (tc_loan a), insert_Long (tc_reserve1 a), insert_Long (tc_reserve2 a)]) s"
    using assms(2) by (simp add: TestControl_write_def appendable_write_def write_delimiter_def sz split_beta)
  then show ?thesis using i assms(1) unfolding inserts_def Let_def x_def by metis
qed

text \<open>Reading what stands in the stream for a \<open>TestControl\<close>, without and with the delimiter.\<close>

lemma read_plain_with:
  assumes "ready_r r" "en_xcdr_version (sr_encoding r) \<noteq> XCDR_VERSION_2" "TestControl_ok a"
    and "unread r = image_with pad (sr_encoding r) (sr_pos r) (concat (TestControl_values a)) @ rest"
  shows "\<exists>r'. TestControl_read u (r, d) = (True, r', a) \<and> ready_r r' \<and> unread r' = rest"
proof -
  let ?x = "image_with pad (sr_encoding r) (sr_pos r) (concat (TestControl_values a))"
  obtain r' where r': "all_ok (map (\<lambda>(f, z). read_member (sr_pos r) f z) TestControl_members) (False, r, d)
      = (True, False, r', apply_all (TestControl_stores a) d)" "consumed (length ?x) r r'"
    using read_member_plain[OF assms(2) TestControl_extracts[OF assms(3)] assms(1) TrueI assms(4)] by auto
  have "apply_all (TestControl_stores a) d = a"
    by (cases d; cases a) (simp add: TestControl_stores_def)
  moreover have "sr_encoding r' = sr_encoding r" using r'(2) by (simp add: consumed_def)
  ultimately show ?thesis using r' assms(2,4)
    by (simp add: TestControl_read_def appendable_read_def consumed_def)
qed

lemma read_delimited_with:
  assumes "ready_r r" "en_xcdr_version (sr_encoding r) = XCDR_VERSION_2"
    "stream_align (sr_encoding r) = (\<lambda>n. min n 4)" "TestControl_ok a"
    and "unread r = image_with pad (sr_encoding r) (sr_pos r) (concat ([PUInt32 24] # TestControl_values a)) @ rest"
  shows "\<exists>r'. TestControl_read u (r, d) = (True, r', a) \<and> ready_r r' \<and> unread r' = rest"
proof -
  let ?e = "sr_encoding r" let ?p = "sr_pos r"
  let ?h = "image_with pad ?e ?p [PUInt32 (of_nat 24)]"
  let ?x = "image_with pad ?e (?p + length ?h) (concat (take 6 (TestControl_values a)))"
  have t6: "take 6 (TestControl_values a) = TestControl_values a" by (simp add: TestControl_values_def)
  have "image_with pad ?e ?p (concat ([PUInt32 24] # TestControl_values a)) = ?h @ ?x"
    by (simp add: image_with_def image_with_append t6)
  moreover have "length ?x = 24"
  proof -
    have "4 dvd ?p + cdr_pad 4 ?p"
      using round_up_pad[of 4 ?p] by (simp add: dvd_minus_mod flip: round_up_pad)
    then obtain m where "?p + cdr_pad 4 ?p = 4 * m" by (elim dvdE)
    then have "?p + length ?h = 4 * (m + 1)" using image_end[of ?p "stream_align ?e" "en_endianness ?e" "[PUInt32 (of_nat 24)]"]
      by (simp add: image_at_def assms(3))
    then show ?thesis using TestControl_values_length[OF assms(3), of "m + 1" a] by (simp add: t6)
  qed
  ultimately have "\<exists>r'. TestControl_read u (r, d) = (True, r', first_members 6 a) \<and> ready_r r' \<and> unread r' = rest"
    using read_evolved_with[OF assms(1,2,4), of pad 24 6 "[]" rest u d] assms(5) by simp
  then show ?thesis by (simp add: first_members_all)
qed

lemmas read_plain = read_plain_with[where pad = "\<lambda>_. 0", folded image_at_with]

lemmas read_delimited = read_delimited_with[where pad = "\<lambda>_. 0", folded image_at_with]

text \<open>Round trip of \<open>TestControl\<close> in every encoding OpenDDS constructs, with the delimiter of
  XCDR version 2 or without: what \<open>operator <<\<close> has written with the answer true, at any
  position and in whatever blocks, \<open>operator >>\<close> reads back as the same object at the same
  position, and leaves what follows unread.\<close>

lemma open_control_roundtrip:
  assumes "ready_w s" "encoding_std (sw_encoding s)" "TestControl_ok a" "TestControl_write a s = (True, s')"
    and "ready_r r" "sr_encoding r = sw_encoding s" "sr_pos r = sw_pos s"
    and "unread r = drop (length (sw_bytes s)) (sw_bytes s') @ rest"
  shows "\<exists>r'. TestControl_read u (r, d) = (True, r', a) \<and> ready_r r' \<and> unread r' = rest"
  using assms(2)
proof (cases rule: encoding_std_cases)
  case 1
  have "wrote (image_at (sw_encoding s) (sw_pos s) (concat (TestControl_values a))) s s'"
    using inserts_wrote[OF TestControl_writes assms(1)] assms(4) 1 by (simp add: TestControl_write_def appendable_write_def)
  then have "unread r = image_at (sr_encoding r) (sr_pos r) (concat (TestControl_values a)) @ rest"
    using assms(6-8) by (simp add: wrote_def)
  then show ?thesis using 1 assms(6) by (intro read_plain[OF assms(5) _ assms(3)]) simp_all
next
  case 2
  have "wrote (image_at (sw_encoding s) (sw_pos s) (concat ([PUInt32 24] # TestControl_values a))) s s'"
    using TestControl_write_delimited[OF assms(1) 2 assms(3)] assms(4) by (simp split: if_splits)
  then have "unread r = image_at (sr_encoding r) (sr_pos r) (concat ([PUInt32 24] # TestControl_values a)) @ rest"
    using assms(6-8) by (simp add: wrote_def)
  then show ?thesis using 2 assms(6) by (intro read_delimited[OF assms(5) _ _ assms(3)]) simp_all
qed

end
