(* ===== verification/FlatCdr.thy ===== *)
theory FlatCdr
  imports CdrCodec
begin

section \<open>A library without alignment\<close>

text \<open>
  A concrete \<open>cdr_api\<close> on which the properties of the type supports are evaluated: every value
  goes to the buffer as its bytes, the most significant one first, after 4 bytes for the
  encapsulation. It satisfies \<open>cdr_transmits\<close> and \<open>members_in_order\<close>.
\<close>

record flat =
  fl_memory :: "8 word list"
  fl_pos :: nat
  fl_version :: cdr_version

definition flat_put :: "8 word list \<Rightarrow> flat act" where
  "flat_put bs s = (let n = fl_pos s + length bs
     in if n \<le> length (fl_memory s)
        then Inr (s\<lparr>fl_memory := take (fl_pos s) (fl_memory s) @ bs @ drop n (fl_memory s), fl_pos := n\<rparr>)
        else Inl s)"

definition flat_get :: "nat \<Rightarrow> (8 word list \<Rightarrow> 'v) \<Rightarrow> flat \<Rightarrow> flat + 'v \<times> flat" where
  "flat_get n f s = (if fl_pos s + n \<le> length (fl_memory s)
     then Inr (f (take n (drop (fl_pos s) (fl_memory s))), s\<lparr>fl_pos := fl_pos s + n\<rparr>) else Inl s)"

definition flat_cdr :: "(flat, unit) cdr_api" where
  "flat_cdr = \<lparr>cdr_default_endian = BIG_ENDIANNESS,
     cdr_open = (\<lambda>m e v. \<lparr>fl_memory = m, fl_pos = 0, fl_version = v\<rparr>),
     cdr_endianness = (\<lambda>_. BIG_ENDIANNESS), cdr_get_version = fl_version,
     cdr_set_encoding_flag = (\<lambda>_ s. s), cdr_serialize_encapsulation = flat_put [0, 0, 0, 0],
     cdr_read_encapsulation = (\<lambda>s. map_sum id snd (flat_get 4 id s)),
     cdr_set_dds_cdr_options = (\<lambda>_ s. s), cdr_length = fl_pos, cdr_memory = fl_memory,
     cdr_state = (\<lambda>_. ()), cdr_begin_type = (\<lambda>_ c s. Inr (c, s)), cdr_end_type = (\<lambda>_. Inr),
     cdr_begin_member = (\<lambda>_ c s. Inr (c, s)), cdr_end_member = (\<lambda>_. Inr),
     cdr_put_int32 = (\<lambda>x. flat_put (be_bytes 4 (nat (x mod 2 ^ 32)))),
     cdr_put_uint32 = (\<lambda>x. flat_put (be_bytes 4 (unat x))),
     cdr_put_float = (\<lambda>x. flat_put (be_bytes 4 (unat x))),
     cdr_put_double = (\<lambda>x. flat_put (be_bytes 8 (unat x))),
     cdr_put_char = (\<lambda>x. flat_put [x]), cdr_put_bool = (\<lambda>x. flat_put [if x then 1 else 0]),
     cdr_put_chars = flat_put,
     cdr_get_int32 = flat_get 4 (\<lambda>bs. i32 (int (be_value bs 0))),
     cdr_get_uint32 = flat_get 4 (\<lambda>bs. word_of_nat (be_value bs 0)),
     cdr_get_float = flat_get 4 (\<lambda>bs. word_of_nat (be_value bs 0)),
     cdr_get_double = flat_get 8 (\<lambda>bs. word_of_nat (be_value bs 0)),
     cdr_get_char = flat_get 1 hd, cdr_get_bool = flat_get 1 (\<lambda>bs. hd bs = 1),
     cdr_get_chars = (\<lambda>n. flat_get n id)\<rparr>"

partial_function (option) flat_members :: "(nat \<Rightarrow> 's \<times> 'd \<Rightarrow> 's \<times> 'd + bool \<times> 's \<times> 'd) \<Rightarrow> nat \<Rightarrow> 's \<times> 'd
    \<Rightarrow> ('s \<times> 'd + 's \<times> 'd) option" where
  "flat_members f i x = (case f i x of Inl y \<Rightarrow> Some (Inl y)
     | Inr (again, y) \<Rightarrow> if again then flat_members f (Suc i) y else Some (Inr y))"

definition flat_deserialize_type :: "(flat, 'd) deserialize_type" where
  "flat_deserialize_type e f x = (case flat_members f 0 x of None \<Rightarrow> Inl x | Some r \<Rightarrow> r)"

subsection \<open>It behaves as documented\<close>

lemma flat_members_calls: "member_calls api f i x y \<Longrightarrow> flat_members f i x = Some (Inr y)"
  by (induction rule: member_calls.induct) (subst flat_members.simps; simp)+

lemma flat_in_order: "members_in_order api flat_deserialize_type"
  by (simp add: members_in_order_def flat_deserialize_type_def flat_members_calls)

fun flat_prim :: "prim \<Rightarrow> 8 word list" where
  "flat_prim (PInt32 x) = be_bytes 4 (nat (x mod 2 ^ 32))"
| "flat_prim (PUInt32 x) = be_bytes 4 (unat x)"
| "flat_prim (PFloat x) = be_bytes 4 (unat x)"
| "flat_prim (PDouble x) = be_bytes 8 (unat x)"
| "flat_prim (PChar x) = [x]"
| "flat_prim (PBool x) = [if x then 1 else 0]"
| "flat_prim (PChars x) = x"

lemma flat_length: "cdr_length flat_cdr = fl_pos"
  by (simp add: flat_cdr_def)

lemma flat_put_prim: "put_prim flat_cdr p = flat_put (flat_prim p)"
  by (cases p) (simp_all add: flat_cdr_def)

lemma flat_prim_nonempty: "prim_ok p \<Longrightarrow> 0 < length (flat_prim p)"
  by (cases p) simp_all

lemma flat_get_found:
  assumes "drop (fl_pos s) (fl_memory s) = cs @ bs" "length cs = n" "0 < n"
  shows "flat_get n f s = Inr (f cs, s\<lparr>fl_pos := fl_pos s + n\<rparr>)"
proof -
  have "length (drop (fl_pos s) (fl_memory s)) = n + length bs" using assms(1,2) by (simp only: length_append)
  then have "fl_pos s + n \<le> length (fl_memory s)" using assms(3) by (simp only: length_drop)
  then show ?thesis using assms by (simp add: flat_get_def)
qed

lemma flat_word_32: "word_of_nat (be_value (be_bytes 4 (unat x)) 0) = (x :: 32 word)"
proof -
  have "unat x < 2 ^ LENGTH(32)" by (rule unsigned_less)
  then show ?thesis by (simp add: be_value_bytes)
qed

lemma flat_word_64: "word_of_nat (be_value (be_bytes 8 (unat x)) 0) = (x :: 64 word)"
proof -
  have "unat x < 2 ^ LENGTH(64)" by (rule unsigned_less)
  then show ?thesis by (simp add: be_value_bytes)
qed

lemma flat_int: "is_i32 x \<Longrightarrow> i32 (int (be_value (be_bytes 4 (nat (x mod 2 ^ 32))) 0)) = x"
  by (subst be_value_bytes) (simp_all add: i32_mod[simplified] i32_id nat_less_iff)

lemma flat_get_prim:
  assumes "prim_ok p" "drop (fl_pos s) (fl_memory s) = flat_prim p @ bs"
  shows "get_prim flat_cdr p s = Inr (p, s\<lparr>fl_pos := fl_pos s + length (flat_prim p)\<rparr>)"
proof -
  note g = flat_get_found[OF assms(2) refl flat_prim_nonempty[OF assms(1)]]
  show ?thesis
  proof (cases p)
    case (PInt32 x)
    then show ?thesis using g[of "\<lambda>bs. i32 (int (be_value bs 0))"] assms(1) flat_int[of x]
      by (simp add: flat_cdr_def)
  next
    case (PUInt32 x)
    then show ?thesis using g[of "\<lambda>bs. word_of_nat (be_value bs 0) :: 32 word"] by (simp add: flat_cdr_def flat_word_32)
  next
    case (PFloat x)
    then show ?thesis using g[of "\<lambda>bs. word_of_nat (be_value bs 0) :: 32 word"] by (simp add: flat_cdr_def flat_word_32)
  next
    case (PDouble x)
    then show ?thesis using g[of "\<lambda>bs. word_of_nat (be_value bs 0) :: 64 word"] by (simp add: flat_cdr_def flat_word_64)
  next
    case (PChar x)
    then show ?thesis using g[of hd] by (simp add: flat_cdr_def)
  next
    case (PBool x)
    then show ?thesis using g[of "\<lambda>bs. hd bs = 1"] by (simp add: flat_cdr_def)
  next
    case (PChars x)
    then show ?thesis using g[of id] by (simp add: flat_cdr_def)
  qed
qed

lemma flat_reads:
  assumes "\<forall>p \<in> set ps. prim_ok p" "drop (fl_pos s) (fl_memory s) = concat (map flat_prim ps) @ bs"
  shows "reads flat_cdr s ps"
  using assms
proof (induction ps arbitrary: s)
  case (Cons p ps)
  have n: "0 < length (flat_prim p)" using Cons.prems(1) by (intro flat_prim_nonempty) simp
  let ?s = "s\<lparr>fl_pos := fl_pos s + length (flat_prim p)\<rparr>"
  have d: "drop (fl_pos s) (fl_memory s) = flat_prim p @ (concat (map flat_prim ps) @ bs)"
    using Cons.prems(2) by simp
  have "drop (length (flat_prim p)) (drop (fl_pos s) (fl_memory s)) = concat (map flat_prim ps) @ bs"
    unfolding d by simp
  then have "reads flat_cdr ?s ps" using Cons.prems(1) by (intro Cons.IH) (simp_all add: add.commute)
  moreover have "get_prim flat_cdr p s = Inr (p, ?s)" using Cons.prems(1) by (intro flat_get_prim[OF _ d]) simp
  ultimately show ?case using n by (simp add: flat_length)
qed simp

lemma flat_writes:
  assumes "writes flat_cdr s ps s'" "fl_pos s \<le> length (fl_memory s)"
  shows "(\<forall>p \<in> set ps. prim_ok p) \<and> length (fl_memory s') = length (fl_memory s)
    \<and> fl_pos s' \<le> length (fl_memory s')
    \<and> take (fl_pos s') (fl_memory s') = take (fl_pos s) (fl_memory s) @ concat (map flat_prim ps)"
  using assms
proof (induction rule: writes.induct)
  case (writes_prim p s s')
  then show ?case by (auto simp: flat_put_prim flat_put_def Let_def split: if_splits)
next
  case (writes_member i s c s1 ps s2 s3)
  then show ?case by (auto simp: flat_cdr_def)
next
  case (writes_type s c s1 ps s2 s3)
  then show ?case by (auto simp: flat_cdr_def)
qed auto

lemma flat_transmits: "cdr_transmits flat_cdr"
  unfolding cdr_transmits_def Let_def
proof (intro allI impI)
  fix buffer v s ps s' and o' :: "nat \<times> nat"
  assume s: "cdr_serialize_encapsulation flat_cdr (cdr_set_encoding_flag flat_cdr (plain_encoding v)
      (cdr_open flat_cdr buffer (cdr_default_endian flat_cdr) v)) = Inr s" and w: "writes flat_cdr s ps s'"
  from s have s: "fl_pos s = 4" "length (fl_memory s) = length buffer" "4 \<le> length buffer"
    by (auto simp: flat_cdr_def flat_put_def split: if_splits)
  from flat_writes[OF w] s have w: "\<forall>p \<in> set ps. prim_ok p" "fl_pos s' \<le> length buffer"
    "length (fl_memory s') = length buffer"
    "take (fl_pos s') (fl_memory s') = take 4 (fl_memory s) @ concat (map flat_prim ps)" by auto
  let ?b = "take (fl_pos s') (fl_memory s')"
  let ?r = "\<lparr>fl_memory = ?b, fl_pos = 4, fl_version = XCDRv2\<rparr>"
  have l: "4 \<le> length ?b" unfolding w(4) using s by simp
  have "cdr_read_encapsulation flat_cdr (cdr_open flat_cdr ?b (cdr_default_endian flat_cdr) XCDRv2) = Inr ?r"
    using l by (simp add: flat_cdr_def flat_get_def)
  moreover have "drop (fl_pos ?r) (fl_memory ?r) = concat (map flat_prim ps) @ []"
    using s by (simp add: w(4))
  then have "reads flat_cdr ?r ps" by (rule flat_reads[OF w(1)])
  moreover have "cdr_set_dds_cdr_options flat_cdr o' s' = s'" "cdr_length flat_cdr = fl_pos"
    "cdr_memory flat_cdr = fl_memory" by (simp_all add: flat_cdr_def)
  ultimately show "cdr_length flat_cdr (cdr_set_dds_cdr_options flat_cdr o' s') \<le> length buffer
      \<and> (\<exists>r. cdr_read_encapsulation flat_cdr (cdr_open flat_cdr
            (take (cdr_length flat_cdr (cdr_set_dds_cdr_options flat_cdr o' s'))
              (cdr_memory flat_cdr (cdr_set_dds_cdr_options flat_cdr o' s')))
            (cdr_default_endian flat_cdr) XCDRv2) = Inr r \<and> reads flat_cdr r ps)"
    using w(2) by auto
qed

subsection \<open>It fails only when the buffer is full\<close>

text \<open>Types in a plain encoding and members add nothing of their own to the values.\<close>

definition flat_framing :: "(flat, 'c) cdr_api \<Rightarrow> bool" where
  "flat_framing api \<longleftrightarrow> (\<forall>e s. plain e \<longrightarrow> cdr_begin_type api e (cdr_state api s) s = Inr (cdr_state api s, s))
   \<and> (\<forall>i s. cdr_begin_member api i (cdr_state api s) s = Inr (cdr_state api s, s))
   \<and> (\<forall>s t. cdr_end_type api (cdr_state api s) t = Inr t) \<and> (\<forall>s t. cdr_end_member api (cdr_state api s) t = Inr t)"

lemma framing_id:
  assumes "flat_framing api"
  shows "serialize_member api i f s = f s" "serialize_type api fs s = acts fs s"
  using assms by (simp_all add: serialize_member_def serialize_type_def flat_framing_def act_then_def split: sum.splits)

definition fits :: "flat act \<Rightarrow> nat \<Rightarrow> bool" where
  "fits f n \<longleftrightarrow> (\<forall>s. fl_pos s + n \<le> length (fl_memory s) \<longrightarrow>
     (\<exists>s'. f s = Inr s' \<and> fl_pos s' \<le> fl_pos s + n \<and> length (fl_memory s') = length (fl_memory s)))"

named_theorems fits_rules "how much room a writing call needs"

lemma flat_framing [fits_rules]: "flat_framing flat_cdr"
  by (simp add: flat_framing_def flat_cdr_def)

lemma fits_put: "length bs = n \<Longrightarrow> fits (flat_put bs) n"
  by (auto simp: fits_def flat_put_def Let_def)

lemma fits_prim [fits_rules]:
  "fits (cdr_put_int32 flat_cdr i) 4" "fits (cdr_put_uint32 flat_cdr u) 4" "fits (cdr_put_float flat_cdr x) 4"
  "fits (cdr_put_double flat_cdr y) 8" "fits (cdr_put_char flat_cdr c) 1" "fits (cdr_put_bool flat_cdr b) 1"
  "fits (cdr_put_chars flat_cdr cs) (length cs)"
  by (simp_all add: flat_cdr_def fits_put)

lemma fits_member [fits_rules]: "fits f n \<Longrightarrow> flat_framing api \<Longrightarrow> fits (serialize_member api i f) n"
  by (simp add: fits_def framing_id)

lemma fits_acts: "list_all2 fits fs ns \<Longrightarrow> fits (acts fs) (sum_list ns)"
proof (induction rule: list_all2_induct)
  case Nil
  then show ?case by (simp add: fits_def)
next
  case (Cons f fs n ns)
  show ?case unfolding fits_def
  proof (intro allI impI)
    fix s :: flat
    assume r: "fl_pos s + sum_list (n # ns) \<le> length (fl_memory s)"
    with Cons.hyps(1) obtain s' where
      s': "f s = Inr s'" "fl_pos s' \<le> fl_pos s + n" "length (fl_memory s') = length (fl_memory s)"
      unfolding fits_def by (metis add.assoc add_leD1 sum_list.Cons)
    with r have "fl_pos s' + sum_list ns \<le> length (fl_memory s')" by simp
    with Cons.IH obtain u where "acts fs s' = Inr u" "fl_pos u \<le> fl_pos s' + sum_list ns"
      "length (fl_memory u) = length (fl_memory s')" unfolding fits_def by blast
    with s' show "\<exists>s''. acts (f # fs) s = Inr s'' \<and> fl_pos s'' \<le> fl_pos s + sum_list (n # ns)
        \<and> length (fl_memory s'') = length (fl_memory s)" by (simp add: act_then_def)
  qed
qed

lemma fits_type [fits_rules]:
  "list_all2 fits fs ns \<Longrightarrow> flat_framing api \<Longrightarrow> fits (serialize_type api fs) (sum_list ns)"
  using fits_acts by (simp add: fits_def framing_id)

lemma fits_eq: "fits f n \<Longrightarrow> n = k \<Longrightarrow> fits f k"
  by simp

lemma fits_Attitude [fits_rules]: "fits (Attitude_serialize flat_cdr a) 12"
  unfolding Attitude_serialize_def by (rule fits_eq, (rule fits_rules list.rel_intros)+) simp

lemma fits_MovementAirEntity [fits_rules]:
  "fits (MovementAirEntity_serialize flat_cdr a) (67 + length (missionName a))"
  unfolding MovementAirEntity_serialize_def by (rule fits_eq, (rule fits_rules list.rel_intros)+) simp

lemma fits_AirEntity: "AirEntity_ok a \<Longrightarrow> fits (AirEntity_serialize flat_cdr a) 125"
  unfolding AirEntity_serialize_def AirEntity_ok_def MovementAirEntity_ok_def
  by (rule fits_eq, (rule fits_rules list.rel_intros)+) simp

end
