(* ===== verification/TypeSupport.thy ===== *)
theory TypeSupport
  imports FlatCdr
begin

section \<open>The type supports\<close>

text \<open>
  \<open>src/IDLs/generated/inse/insePubSubTypes.cxx\<close>: for each of the six types the class through
  which Fast DDS serializes its samples. The classes differ in the type, its constants and its
  four functions only, so each operation is defined once and instantiated six times.

  The memory of a payload has \<open>max_size\<close> bytes. \<open>md5\<close> is the digest of Fast DDS. An exception
  that leaves a function is \<open>Thrown\<close>.
\<close>

datatype representation = XCDR_DATA_REPRESENTATION | XML_DATA_REPRESENTATION | XCDR2_DATA_REPRESENTATION
datatype encapsulation = CDR_BE | CDR_LE

record SerializedPayload =
  pl_encapsulation :: encapsulation
  pl_length :: nat
  pl_data :: "8 word list"

record pubsub_type =
  ps_name :: string
  ps_max_serialized_type_size :: nat
  ps_is_compute_key_provided :: bool
  ps_key_buffer :: "8 word list"

type_synonym handle = "8 word list"

definition u32 :: "nat \<Rightarrow> nat" where
  "u32 n = n mod 2 ^ 32"

definition ps_new :: "string \<Rightarrow> nat \<Rightarrow> nat \<Rightarrow> bool \<Rightarrow> pubsub_type" where
  "ps_new name max_cdr_typesize max_key_cdr_typesize has_key =
     (let type_size = u32 (max_cdr_typesize + cdr_alignment max_cdr_typesize 4);
          key_length = (if max_key_cdr_typesize > 16 then max_key_cdr_typesize else 16)
      in \<lparr>ps_name = name, ps_max_serialized_type_size = u32 (type_size + 4),
          ps_is_compute_key_provided = has_key, ps_key_buffer = replicate key_length 0\<rparr>)"

definition version_of :: "representation \<Rightarrow> cdr_version" where
  "version_of r = (if r = XCDR_DATA_REPRESENTATION then XCDRv1 else XCDRv2)"

definition encoding_of :: "representation \<Rightarrow> cdr_encoding" where
  "encoding_of r = (if r = XCDR_DATA_REPRESENTATION then PLAIN_CDR else PLAIN_CDR2)"

definition encapsulation_of :: "endianness \<Rightarrow> encapsulation" where
  "encapsulation_of e = (if e = BIG_ENDIANNESS then CDR_BE else CDR_LE)"

definition ps_serialize :: "('s, 'c) cdr_api \<Rightarrow> ('d \<Rightarrow> 's act) \<Rightarrow> 'd \<Rightarrow> representation
    \<Rightarrow> SerializedPayload \<Rightarrow> bool \<times> SerializedPayload" where
  "ps_serialize api serialize data r payload =
     (let ser = cdr_open api (pl_data payload) (cdr_default_endian api) (version_of r);
          payload = payload\<lparr>pl_encapsulation := encapsulation_of (cdr_endianness api ser)\<rparr>;
          ser = cdr_set_encoding_flag api (encoding_of r) ser
      in case act_then (cdr_serialize_encapsulation api) (serialize data) ser of
           Inl ser \<Rightarrow> (False, payload\<lparr>pl_data := cdr_memory api ser\<rparr>)
         | Inr ser \<Rightarrow>
             let ser = cdr_set_dds_cdr_options api (0, 0) ser
             in (True, payload\<lparr>pl_data := cdr_memory api ser, pl_length := u32 (cdr_length api ser)\<rparr>))"

definition ps_deserialize :: "('s, 'c) cdr_api \<Rightarrow> ('s \<times> 'd) act \<Rightarrow> SerializedPayload \<Rightarrow> 'd
    \<Rightarrow> bool \<times> SerializedPayload \<times> 'd" where
  "ps_deserialize api deserialize payload data =
     (let deser = cdr_open api (take (pl_length payload) (pl_data payload)) (cdr_default_endian api) XCDRv2
      in case cdr_read_encapsulation api deser of Inl deser \<Rightarrow> (False, payload, data)
         | Inr deser \<Rightarrow>
             let payload = payload\<lparr>pl_encapsulation := encapsulation_of (cdr_endianness api deser)\<rparr>
             in case deserialize (deser, data) of Inl (deser, data) \<Rightarrow> (False, payload, data)
                | Inr (deser, data) \<Rightarrow> (True, payload, data))"

definition ps_calculate_serialized_size :: "calculator_api \<Rightarrow> ('d \<Rightarrow> size_act) \<Rightarrow> 'd \<Rightarrow> representation \<Rightarrow> nat" where
  "ps_calculate_serialized_size kapi calculate data r =
     u32 (u32 (fst (calculate data ((ka_make kapi (version_of r))\<lparr>ka_alignment := 0\<rparr>))) + 4)"

definition ps_compute_key :: "('s, 'c) cdr_api \<Rightarrow> (8 word list \<Rightarrow> 8 word list) \<Rightarrow> nat \<Rightarrow> ('d \<Rightarrow> 's act)
    \<Rightarrow> 'd \<Rightarrow> bool \<Rightarrow> pubsub_type \<times> handle \<Rightarrow> (bool \<times> pubsub_type \<times> handle) res" where
  "ps_compute_key api md5 max_key_cdr_typesize serialize_key data force_md5 = (\<lambda>(t, ihandle).
     if \<not> ps_is_compute_key_provided t then Inr (False, t, ihandle)
     else let ser = cdr_open api (take max_key_cdr_typesize (ps_key_buffer t)) BIG_ENDIANNESS XCDRv2;
              ser = cdr_set_encoding_flag api PLAIN_CDR2 ser
          in case serialize_key data ser of Inl ser \<Rightarrow> Inl (Thrown ''eprosima::fastcdr::exception'')
             | Inr ser \<Rightarrow>
                 let buffer = cdr_memory api ser @ drop max_key_cdr_typesize (ps_key_buffer t);
                     t = t\<lparr>ps_key_buffer := buffer\<rparr>
                 in if force_md5 \<or> max_key_cdr_typesize > 16
                    then Inr (True, t, take 16 (md5 (take (cdr_length api ser) buffer)))
                    else Inr (True, t, take 16 buffer))"

definition ps_compute_key_of_payload :: "('s, 'c) cdr_api \<Rightarrow> (8 word list \<Rightarrow> 8 word list) \<Rightarrow> nat \<Rightarrow> ('d \<Rightarrow> 's act)
    \<Rightarrow> ('s \<times> 'd) act \<Rightarrow> 'd \<Rightarrow> SerializedPayload \<Rightarrow> bool \<Rightarrow> pubsub_type \<times> handle
    \<Rightarrow> (bool \<times> SerializedPayload \<times> pubsub_type \<times> handle) res" where
  "ps_compute_key_of_payload api md5 max_key_cdr_typesize serialize_key deserialize fresh payload force_md5 = (\<lambda>(t, ihandle).
     if \<not> ps_is_compute_key_provided t then Inr (False, payload, t, ihandle)
     else let (ok, payload, data) = ps_deserialize api deserialize payload fresh
          in if ok then rbind (ps_compute_key api md5 max_key_cdr_typesize serialize_key data force_md5 (t, ihandle))
                         (\<lambda>(b, t, ihandle). Inr (b, payload, t, ihandle))
             else Inr (False, payload, t, ihandle))"

subsection \<open>The six classes\<close>

definition EntityIDPubSubType_new :: pubsub_type where
  "EntityIDPubSubType_new = ps_new ''EntityID'' EntityID_max_cdr_typesize EntityID_max_key_cdr_typesize False"

definition EntityIDPubSubType_serialize :: "('s, 'c) cdr_api \<Rightarrow> EntityID \<Rightarrow> representation
    \<Rightarrow> SerializedPayload \<Rightarrow> bool \<times> SerializedPayload" where
  "EntityIDPubSubType_serialize api = ps_serialize api (EntityID_serialize api)"

definition EntityIDPubSubType_deserialize :: "('s, 'c) cdr_api \<Rightarrow> ('s, EntityID) deserialize_type
    \<Rightarrow> SerializedPayload \<Rightarrow> EntityID \<Rightarrow> bool \<times> SerializedPayload \<times> EntityID" where
  "EntityIDPubSubType_deserialize api dt = ps_deserialize api (EntityID_deserialize api dt)"

definition EntityIDPubSubType_calculate_serialized_size :: "calculator_api \<Rightarrow> EntityID \<Rightarrow> representation \<Rightarrow> nat" where
  "EntityIDPubSubType_calculate_serialized_size kapi = ps_calculate_serialized_size kapi (EntityID_size kapi)"

definition EntityIDPubSubType_compute_key :: "('s, 'c) cdr_api \<Rightarrow> (8 word list \<Rightarrow> 8 word list) \<Rightarrow> EntityID \<Rightarrow> bool
    \<Rightarrow> pubsub_type \<times> handle \<Rightarrow> (bool \<times> pubsub_type \<times> handle) res" where
  "EntityIDPubSubType_compute_key api md5 =
     ps_compute_key api md5 EntityID_max_key_cdr_typesize (EntityID_serialize_key api)"

definition EntityIDPubSubType_compute_key_of_payload :: "('s, 'c) cdr_api \<Rightarrow> (8 word list \<Rightarrow> 8 word list)
    \<Rightarrow> ('s, EntityID) deserialize_type \<Rightarrow> SerializedPayload \<Rightarrow> bool
    \<Rightarrow> pubsub_type \<times> handle \<Rightarrow> (bool \<times> SerializedPayload \<times> pubsub_type \<times> handle) res" where
  "EntityIDPubSubType_compute_key_of_payload api md5 dt =
     ps_compute_key_of_payload api md5 EntityID_max_key_cdr_typesize (EntityID_serialize_key api)
       (EntityID_deserialize api dt) EntityID_new"

definition TargetPubSubType_new :: pubsub_type where
  "TargetPubSubType_new = ps_new ''Target'' Target_max_cdr_typesize Target_max_key_cdr_typesize False"

definition TargetPubSubType_serialize :: "('s, 'c) cdr_api \<Rightarrow> Target \<Rightarrow> representation
    \<Rightarrow> SerializedPayload \<Rightarrow> bool \<times> SerializedPayload" where
  "TargetPubSubType_serialize api = ps_serialize api (Target_serialize api)"

definition TargetPubSubType_deserialize :: "('s, 'c) cdr_api \<Rightarrow> ('s, Target) deserialize_type
    \<Rightarrow> SerializedPayload \<Rightarrow> Target \<Rightarrow> bool \<times> SerializedPayload \<times> Target" where
  "TargetPubSubType_deserialize api dt = ps_deserialize api (Target_deserialize api dt)"

definition TargetPubSubType_calculate_serialized_size :: "calculator_api \<Rightarrow> Target \<Rightarrow> representation \<Rightarrow> nat" where
  "TargetPubSubType_calculate_serialized_size kapi = ps_calculate_serialized_size kapi (Target_size kapi)"

definition TargetPubSubType_compute_key :: "('s, 'c) cdr_api \<Rightarrow> (8 word list \<Rightarrow> 8 word list) \<Rightarrow> Target \<Rightarrow> bool
    \<Rightarrow> pubsub_type \<times> handle \<Rightarrow> (bool \<times> pubsub_type \<times> handle) res" where
  "TargetPubSubType_compute_key api md5 =
     ps_compute_key api md5 Target_max_key_cdr_typesize (Target_serialize_key api)"

definition TargetPubSubType_compute_key_of_payload :: "('s, 'c) cdr_api \<Rightarrow> (8 word list \<Rightarrow> 8 word list)
    \<Rightarrow> ('s, Target) deserialize_type \<Rightarrow> SerializedPayload \<Rightarrow> bool
    \<Rightarrow> pubsub_type \<times> handle \<Rightarrow> (bool \<times> SerializedPayload \<times> pubsub_type \<times> handle) res" where
  "TargetPubSubType_compute_key_of_payload api md5 dt =
     ps_compute_key_of_payload api md5 Target_max_key_cdr_typesize (Target_serialize_key api)
       (Target_deserialize api dt) Target_new"

definition PositionPubSubType_new :: pubsub_type where
  "PositionPubSubType_new = ps_new ''Position'' Position_max_cdr_typesize Position_max_key_cdr_typesize False"

definition PositionPubSubType_serialize :: "('s, 'c) cdr_api \<Rightarrow> Position \<Rightarrow> representation
    \<Rightarrow> SerializedPayload \<Rightarrow> bool \<times> SerializedPayload" where
  "PositionPubSubType_serialize api = ps_serialize api (Position_serialize api)"

definition PositionPubSubType_deserialize :: "('s, 'c) cdr_api \<Rightarrow> ('s, Position) deserialize_type
    \<Rightarrow> SerializedPayload \<Rightarrow> Position \<Rightarrow> bool \<times> SerializedPayload \<times> Position" where
  "PositionPubSubType_deserialize api dt = ps_deserialize api (Position_deserialize api dt)"

definition PositionPubSubType_calculate_serialized_size :: "calculator_api \<Rightarrow> Position \<Rightarrow> representation \<Rightarrow> nat" where
  "PositionPubSubType_calculate_serialized_size kapi = ps_calculate_serialized_size kapi (Position_size kapi)"

definition PositionPubSubType_compute_key :: "('s, 'c) cdr_api \<Rightarrow> (8 word list \<Rightarrow> 8 word list) \<Rightarrow> Position \<Rightarrow> bool
    \<Rightarrow> pubsub_type \<times> handle \<Rightarrow> (bool \<times> pubsub_type \<times> handle) res" where
  "PositionPubSubType_compute_key api md5 =
     ps_compute_key api md5 Position_max_key_cdr_typesize (Position_serialize_key api)"

definition PositionPubSubType_compute_key_of_payload :: "('s, 'c) cdr_api \<Rightarrow> (8 word list \<Rightarrow> 8 word list)
    \<Rightarrow> ('s, Position) deserialize_type \<Rightarrow> SerializedPayload \<Rightarrow> bool
    \<Rightarrow> pubsub_type \<times> handle \<Rightarrow> (bool \<times> SerializedPayload \<times> pubsub_type \<times> handle) res" where
  "PositionPubSubType_compute_key_of_payload api md5 dt =
     ps_compute_key_of_payload api md5 Position_max_key_cdr_typesize (Position_serialize_key api)
       (Position_deserialize api dt) Position_new"

definition AttitudePubSubType_new :: pubsub_type where
  "AttitudePubSubType_new = ps_new ''Attitude'' Attitude_max_cdr_typesize Attitude_max_key_cdr_typesize False"

definition AttitudePubSubType_serialize :: "('s, 'c) cdr_api \<Rightarrow> Attitude \<Rightarrow> representation
    \<Rightarrow> SerializedPayload \<Rightarrow> bool \<times> SerializedPayload" where
  "AttitudePubSubType_serialize api = ps_serialize api (Attitude_serialize api)"

definition AttitudePubSubType_deserialize :: "('s, 'c) cdr_api \<Rightarrow> ('s, Attitude) deserialize_type
    \<Rightarrow> SerializedPayload \<Rightarrow> Attitude \<Rightarrow> bool \<times> SerializedPayload \<times> Attitude" where
  "AttitudePubSubType_deserialize api dt = ps_deserialize api (Attitude_deserialize api dt)"

definition AttitudePubSubType_calculate_serialized_size :: "calculator_api \<Rightarrow> Attitude \<Rightarrow> representation \<Rightarrow> nat" where
  "AttitudePubSubType_calculate_serialized_size kapi = ps_calculate_serialized_size kapi (Attitude_size kapi)"

definition AttitudePubSubType_compute_key :: "('s, 'c) cdr_api \<Rightarrow> (8 word list \<Rightarrow> 8 word list) \<Rightarrow> Attitude \<Rightarrow> bool
    \<Rightarrow> pubsub_type \<times> handle \<Rightarrow> (bool \<times> pubsub_type \<times> handle) res" where
  "AttitudePubSubType_compute_key api md5 =
     ps_compute_key api md5 Attitude_max_key_cdr_typesize (Attitude_serialize_key api)"

definition AttitudePubSubType_compute_key_of_payload :: "('s, 'c) cdr_api \<Rightarrow> (8 word list \<Rightarrow> 8 word list)
    \<Rightarrow> ('s, Attitude) deserialize_type \<Rightarrow> SerializedPayload \<Rightarrow> bool
    \<Rightarrow> pubsub_type \<times> handle \<Rightarrow> (bool \<times> SerializedPayload \<times> pubsub_type \<times> handle) res" where
  "AttitudePubSubType_compute_key_of_payload api md5 dt =
     ps_compute_key_of_payload api md5 Attitude_max_key_cdr_typesize (Attitude_serialize_key api)
       (Attitude_deserialize api dt) Attitude_new"

definition MovementAirEntityPubSubType_new :: pubsub_type where
  "MovementAirEntityPubSubType_new = ps_new ''MovementAirEntity'' MovementAirEntity_max_cdr_typesize MovementAirEntity_max_key_cdr_typesize False"

definition MovementAirEntityPubSubType_serialize :: "('s, 'c) cdr_api \<Rightarrow> MovementAirEntity \<Rightarrow> representation
    \<Rightarrow> SerializedPayload \<Rightarrow> bool \<times> SerializedPayload" where
  "MovementAirEntityPubSubType_serialize api = ps_serialize api (MovementAirEntity_serialize api)"

definition MovementAirEntityPubSubType_deserialize :: "('s, 'c) cdr_api \<Rightarrow> ('s, MovementAirEntity) deserialize_type
    \<Rightarrow> SerializedPayload \<Rightarrow> MovementAirEntity \<Rightarrow> bool \<times> SerializedPayload \<times> MovementAirEntity" where
  "MovementAirEntityPubSubType_deserialize api dt = ps_deserialize api (MovementAirEntity_deserialize api dt)"

definition MovementAirEntityPubSubType_calculate_serialized_size :: "calculator_api \<Rightarrow> MovementAirEntity \<Rightarrow> representation \<Rightarrow> nat" where
  "MovementAirEntityPubSubType_calculate_serialized_size kapi = ps_calculate_serialized_size kapi (MovementAirEntity_size kapi)"

definition MovementAirEntityPubSubType_compute_key :: "('s, 'c) cdr_api \<Rightarrow> (8 word list \<Rightarrow> 8 word list) \<Rightarrow> MovementAirEntity \<Rightarrow> bool
    \<Rightarrow> pubsub_type \<times> handle \<Rightarrow> (bool \<times> pubsub_type \<times> handle) res" where
  "MovementAirEntityPubSubType_compute_key api md5 =
     ps_compute_key api md5 MovementAirEntity_max_key_cdr_typesize (MovementAirEntity_serialize_key api)"

definition MovementAirEntityPubSubType_compute_key_of_payload :: "('s, 'c) cdr_api \<Rightarrow> (8 word list \<Rightarrow> 8 word list)
    \<Rightarrow> ('s, MovementAirEntity) deserialize_type \<Rightarrow> SerializedPayload \<Rightarrow> bool
    \<Rightarrow> pubsub_type \<times> handle \<Rightarrow> (bool \<times> SerializedPayload \<times> pubsub_type \<times> handle) res" where
  "MovementAirEntityPubSubType_compute_key_of_payload api md5 dt =
     ps_compute_key_of_payload api md5 MovementAirEntity_max_key_cdr_typesize (MovementAirEntity_serialize_key api)
       (MovementAirEntity_deserialize api dt) MovementAirEntity_new"

definition AirEntityPubSubType_new :: pubsub_type where
  "AirEntityPubSubType_new = ps_new ''AirEntity'' AirEntity_max_cdr_typesize AirEntity_max_key_cdr_typesize True"

definition AirEntityPubSubType_serialize :: "('s, 'c) cdr_api \<Rightarrow> AirEntity \<Rightarrow> representation
    \<Rightarrow> SerializedPayload \<Rightarrow> bool \<times> SerializedPayload" where
  "AirEntityPubSubType_serialize api = ps_serialize api (AirEntity_serialize api)"

definition AirEntityPubSubType_deserialize :: "('s, 'c) cdr_api \<Rightarrow> ('s, Attitude) deserialize_type \<Rightarrow> ('s, MovementAirEntity) deserialize_type
    \<Rightarrow> ('s, AirEntity) deserialize_type
    \<Rightarrow> SerializedPayload \<Rightarrow> AirEntity \<Rightarrow> bool \<times> SerializedPayload \<times> AirEntity" where
  "AirEntityPubSubType_deserialize api dt_a dt_m dt = ps_deserialize api (AirEntity_deserialize api dt_a dt_m dt)"

definition AirEntityPubSubType_calculate_serialized_size :: "calculator_api \<Rightarrow> AirEntity \<Rightarrow> representation \<Rightarrow> nat" where
  "AirEntityPubSubType_calculate_serialized_size kapi = ps_calculate_serialized_size kapi (AirEntity_size kapi)"

definition AirEntityPubSubType_compute_key :: "('s, 'c) cdr_api \<Rightarrow> (8 word list \<Rightarrow> 8 word list) \<Rightarrow> AirEntity \<Rightarrow> bool
    \<Rightarrow> pubsub_type \<times> handle \<Rightarrow> (bool \<times> pubsub_type \<times> handle) res" where
  "AirEntityPubSubType_compute_key api md5 =
     ps_compute_key api md5 AirEntity_max_key_cdr_typesize (AirEntity_serialize_key api)"

definition AirEntityPubSubType_compute_key_of_payload :: "('s, 'c) cdr_api \<Rightarrow> (8 word list \<Rightarrow> 8 word list)
    \<Rightarrow> ('s, Attitude) deserialize_type \<Rightarrow> ('s, MovementAirEntity) deserialize_type
    \<Rightarrow> ('s, AirEntity) deserialize_type \<Rightarrow> SerializedPayload \<Rightarrow> bool
    \<Rightarrow> pubsub_type \<times> handle \<Rightarrow> (bool \<times> SerializedPayload \<times> pubsub_type \<times> handle) res" where
  "AirEntityPubSubType_compute_key_of_payload api md5 dt_a dt_m dt =
     ps_compute_key_of_payload api md5 AirEntity_max_key_cdr_typesize (AirEntity_serialize_key api)
       (AirEntity_deserialize api dt_a dt_m dt) AirEntity_new"

subsection \<open>Transmission\<close>

lemma encoding_of_version: "encoding_of r = plain_encoding (version_of r)"
  by (simp add: encoding_of_def plain_encoding_def version_of_def)

text \<open>
  The contract of a type with its library: \<open>serialize\<close> encodes the values \<open>prims\<close> of an object
  that satisfies \<open>ok\<close>, and \<open>deserialize\<close>, when \<open>in_order\<close> holds of the library, makes the
  object of them again. What a type support writes it then reads back, and the key of a
  payload is the key of the object.
\<close>

locale wire_type =
  fixes api :: "('s, 'c) cdr_api"
    and ser :: "'d \<Rightarrow> 's act"
    and des :: "('s \<times> 'd) act"
    and prims :: "'d \<Rightarrow> prim list"
    and ok :: "'d \<Rightarrow> bool"
    and in_order :: bool
  assumes written: "ok a \<Longrightarrow> emits api (ser a) (prims a)"
    and read: "in_order \<Longrightarrow> ok a \<Longrightarrow> fetches api des (prims a) (\<lambda>_. a)"
begin

lemma round_trip:
  assumes transmits: "cdr_transmits api" and ordered: in_order and ok: "ok a"
    and room: "length (pl_data p) < 2 ^ 32" and w: "ps_serialize api ser a r p = (True, p')"
  shows "\<exists>p''. ps_deserialize api des p' d = (True, p'', a)"
proof -
  let ?o = "cdr_set_encoding_flag api (plain_encoding (version_of r))
    (cdr_open api (pl_data p) (cdr_default_endian api) (version_of r))"
  from w obtain s s' where s: "cdr_serialize_encapsulation api ?o = Inr s" "ser a s = Inr s'"
    and p': "pl_data p' = cdr_memory api (cdr_set_dds_cdr_options api (0, 0) s')"
      "pl_length p' = u32 (cdr_length api (cdr_set_dds_cdr_options api (0, 0) s'))"
    by (auto simp: ps_serialize_def Let_def encoding_of_version act_then_def split: sum.splits)
  have "writes api s (prims a) s'" using written[OF ok] s(2) unfolding emits_def by blast
  with transmits s(1) obtain q where
    q: "cdr_length api (cdr_set_dds_cdr_options api (0, 0) s') \<le> length (pl_data p)"
      "cdr_read_encapsulation api (cdr_open api (take (cdr_length api (cdr_set_dds_cdr_options api (0, 0) s')) (pl_data p'))
         (cdr_default_endian api) XCDRv2) = Inr q" "reads api q (prims a)"
    unfolding cdr_transmits_def Let_def p'(1) by blast
  have l: "pl_length p' = cdr_length api (cdr_set_dds_cdr_options api (0, 0) s')"
    using q(1) room by (simp add: p'(2) u32_def)
  from read[OF ordered ok] q(3) obtain q' where "des (q, d) = Inr (q', a)"
    unfolding fetches_def by (metis append_Nil2)
  with q(2) l show ?thesis by (simp add: ps_deserialize_def)
qed

lemma key_of_payload:
  assumes "cdr_transmits api" in_order "ok a" "length (pl_data p) < 2 ^ 32"
    and "ps_serialize api ser a r p = (True, p')" "ps_is_compute_key_provided t"
  shows "\<exists>p''. ps_compute_key_of_payload api md5 n skey des fresh p' force (t, h) =
    rbind (ps_compute_key api md5 n skey a force (t, h)) (\<lambda>(b, t, h). Inr (b, p'', t, h))"
proof -
  from round_trip[OF assms(1-5)] obtain p'' where "ps_deserialize api des p' fresh = (True, p'', a)" by blast
  with assms(6) show ?thesis by (intro exI[of _ p'']) (simp add: ps_compute_key_of_payload_def)
qed

end

interpretation entity_id_wire: wire_type api "EntityID_serialize api" "EntityID_deserialize api dt" EntityID_prims EntityID_ok
    "members_in_order api dt"
  by unfold_locales (rule emits_EntityID fetches_EntityID; assumption)+

interpretation target_wire: wire_type api "Target_serialize api" "Target_deserialize api dt" Target_prims Target_ok
    "members_in_order api dt"
  by unfold_locales (rule emits_Target fetches_Target; assumption)+

interpretation position_wire: wire_type api "Position_serialize api" "Position_deserialize api dt" Position_prims "\<lambda>_. True"
    "members_in_order api dt"
  by unfold_locales (rule emits_Position fetches_Position; assumption)+

interpretation attitude_wire: wire_type api "Attitude_serialize api" "Attitude_deserialize api dt" Attitude_prims "\<lambda>_. True"
    "members_in_order api dt"
  by unfold_locales (rule emits_Attitude fetches_Attitude; assumption)+

interpretation movement_air_entity_wire: wire_type api "MovementAirEntity_serialize api" "MovementAirEntity_deserialize api dt" MovementAirEntity_prims MovementAirEntity_ok
    "members_in_order api dt"
  by unfold_locales (rule emits_MovementAirEntity fetches_MovementAirEntity; assumption)+

interpretation air_entity_wire: wire_type api "AirEntity_serialize api" "AirEntity_deserialize api dt_a dt_m dt"
    AirEntity_prims AirEntity_ok
    "members_in_order api dt_a \<and> members_in_order api dt_m \<and> members_in_order api dt"
  by unfold_locales (auto intro: emits_AirEntity fetches_AirEntity)

subsection \<open>Keys\<close>

text \<open>The key of an \<open>AirEntity\<close> is its id as a big-endian \<open>int32\<close>, as CDR encodes it, and zeros.\<close>

definition be_int32 :: "int \<Rightarrow> 8 word list" where
  "be_int32 x = be_bytes 4 (nat (x mod 2 ^ 32))"

definition big_endian_int32 :: "('s, 'c) cdr_api \<Rightarrow> bool" where
  "big_endian_int32 api \<longleftrightarrow> (\<forall>buffer x. length buffer = 4 \<longrightarrow> is_i32 x \<longrightarrow>
     (\<exists>s. cdr_put_int32 api x (cdr_set_encoding_flag api PLAIN_CDR2 (cdr_open api buffer BIG_ENDIANNESS XCDRv2)) = Inr s
        \<and> cdr_memory api s = be_int32 x))"

lemma be_int32_inj:
  assumes "is_i32 x" "is_i32 y" "be_int32 x = be_int32 y"
  shows "x = y"
proof -
  have v: "be_value (be_int32 z) 0 = nat (z mod 2 ^ 32)" for z
    unfolding be_int32_def by (rule be_value_bytes) (simp add: nat_less_iff)
  have "nat (x mod 2 ^ 32) = nat (y mod 2 ^ 32)" using v[of x] v[of y] assms(3) by metis
  then have "x mod 2 ^ 32 = y mod 2 ^ 32" by (simp add: nat_eq_iff)
  then have "i32 x = i32 y" by (metis i32_mod)
  with assms(1,2) show ?thesis by (simp add: i32_id)
qed

definition key_ready :: "pubsub_type \<Rightarrow> bool" where
  "key_ready t \<longleftrightarrow> ps_is_compute_key_provided t \<and> length (ps_key_buffer t) = 16
     \<and> drop 4 (ps_key_buffer t) = replicate 12 0"

lemma key_ready_new: "key_ready AirEntityPubSubType_new"
  by (simp add: key_ready_def AirEntityPubSubType_new_def ps_new_def Let_def
    AirEntity_max_key_cdr_typesize_def)

lemma AirEntity_key:
  assumes "big_endian_int32 api" "is_i32 (ent_id a)" "key_ready t"
  shows "\<exists>t'. AirEntityPubSubType_compute_key api md5 a False (t, h) =
      Inr (True, t', be_int32 (ent_id a) @ replicate 12 0) \<and> key_ready t'"
proof -
  have "length (take 4 (ps_key_buffer t)) = 4" using assms(3) by (simp add: key_ready_def)
  with assms(1,2) obtain s where
    s: "cdr_put_int32 api (ent_id a) (cdr_set_encoding_flag api PLAIN_CDR2
          (cdr_open api (take 4 (ps_key_buffer t)) BIG_ENDIANNESS XCDRv2)) = Inr s"
      "cdr_memory api s = be_int32 (ent_id a)"
    unfolding big_endian_int32_def by blast
  have k: "AirEntity_serialize_key api a (cdr_set_encoding_flag api PLAIN_CDR2
          (cdr_open api (take 4 (ps_key_buffer t)) BIG_ENDIANNESS XCDRv2)) = Inr s"
    using s(1) by (simp add: AirEntity_serialize_key_def act_then_def)
  have "length (be_int32 (ent_id a)) = 4" by (simp add: be_int32_def)
  with assms(3) s(2) k show ?thesis
    by (simp add: AirEntityPubSubType_compute_key_def ps_compute_key_def AirEntity_max_key_cdr_typesize_def
      key_ready_def Let_def)
qed

lemma flat_big_endian: "big_endian_int32 flat_cdr"
  by (simp add: big_endian_int32_def flat_cdr_def flat_put_def be_int32_def)

text \<open>On the library without alignment a payload with room is always written.\<close>

lemma flat_serializes:
  assumes "fits (ser a) n" "4 + n \<le> length (pl_data p)"
  obtains p' where "ps_serialize flat_cdr ser a r p = (True, p')"
proof -
  let ?o = "\<lparr>fl_memory = pl_data p, fl_pos = 0, fl_version = version_of r\<rparr>"
  from assms(2) have "\<exists>s. flat_put [0, 0, 0, 0] ?o = Inr s \<and> fl_pos s \<le> 4 \<and> length (fl_memory s) = length (pl_data p)"
    using fits_put[of "[0, 0, 0, 0]" 4] by (auto simp: fits_def dest: spec[of _ ?o])
  then obtain s where s: "flat_put [0, 0, 0, 0] ?o = Inr s" "fl_pos s + n \<le> length (fl_memory s)"
    using assms(2) by auto
  with assms(1) obtain s' where "ser a s = Inr s'" unfolding fits_def by blast
  with s(1) show thesis
    by (intro that) (simp add: ps_serialize_def flat_cdr_def act_then_def Let_def)
qed

subsection \<open>Properties\<close>

text \<open>
  C39: What \<open>AirEntityPubSubType\<close> serializes it deserializes to the same value. For every
  representation and every payload with room, whatever the object read into held: when
  \<open>serialize\<close> answers true, \<open>deserialize\<close> of the payload answers true and yields an entity with
  the same bits in every member. By \<open>operator ==\<close> the two are equal exactly when no member
  is a NaN.
\<close>

theorem AirEntity_round_trip:
  assumes "cdr_transmits api" "members_in_order api dt_a" "members_in_order api dt_m" "members_in_order api dt"
    and "AirEntity_ok a" "length (pl_data p) < 2 ^ 32"
    and "AirEntityPubSubType_serialize api a r p = (True, p')"
  shows "\<exists>p'' b. AirEntityPubSubType_deserialize api dt_a dt_m dt p' d = (True, p'', b) \<and> b = a
    \<and> (AirEntity_eq b a \<longleftrightarrow> \<not> AirEntity_nan a)"
proof -
  have "members_in_order api dt_a \<and> members_in_order api dt_m \<and> members_in_order api dt" using assms(2-4) by simp
  from air_entity_wire.round_trip[OF assms(1) this assms(5,6) assms(7)[unfolded AirEntityPubSubType_serialize_def]]
  obtain p'' where "ps_deserialize api (AirEntity_deserialize api dt_a dt_m dt) p' d = (True, p'', a)" by blast
  then show ?thesis
    by (simp add: AirEntityPubSubType_deserialize_def AirEntity_eq_def AirEntity_nan_def)
qed

theorem AirEntity_round_trip_witness:
  "\<exists>p' p''. AirEntityPubSubType_serialize flat_cdr (AirEntity_new\<lparr>ent_id := - 7\<rparr>) XCDR_DATA_REPRESENTATION
        \<lparr>pl_encapsulation = CDR_LE, pl_length = 0, pl_data = replicate 140 0\<rparr> = (True, p')
    \<and> AirEntityPubSubType_deserialize flat_cdr flat_deserialize_type flat_deserialize_type
        flat_deserialize_type p' AirEntity_new = (True, p'', AirEntity_new\<lparr>ent_id := - 7\<rparr>)"
proof -
  let ?a = "AirEntity_new\<lparr>ent_id := - 7\<rparr>"
  let ?p = "\<lparr>pl_encapsulation = CDR_LE, pl_length = 0, pl_data = replicate 140 0\<rparr>"
  have a: "AirEntity_ok ?a"
    by (simp add: AirEntity_ok_def AirEntity_new_def MovementAirEntity_ok_def MovementAirEntity_new_def is_i32_def)
  have "4 + 125 \<le> length (pl_data ?p)" "length (pl_data ?p) < 2 ^ 32" by simp_all
  from flat_serializes[where ser = "AirEntity_serialize flat_cdr", OF fits_AirEntity[OF a] this(1)] obtain p' where
    p': "AirEntityPubSubType_serialize flat_cdr ?a XCDR_DATA_REPRESENTATION ?p = (True, p')"
    unfolding AirEntityPubSubType_serialize_def by blast
  from AirEntity_round_trip[OF flat_transmits flat_in_order flat_in_order flat_in_order a _ p']
  show ?thesis using p' by simp
qed

text \<open>
  The same for the five other types: what each serializes into a payload \<open>p\<close> with room it
  reads back bit by bit, whatever object it reads into.
\<close>

lemma other_types_round_trip:
  assumes "cdr_transmits api" "length (pl_data p) < 2 ^ 32"
    and "members_in_order api dte" "members_in_order api dtt" "members_in_order api dtq"
    and "members_in_order api dta" "members_in_order api dtm"
    and "EntityID_ok e" "Target_ok t" "MovementAirEntity_ok m"
    and "EntityIDPubSubType_serialize api e r p = (True, pe)"
    and "TargetPubSubType_serialize api t r p = (True, pt)"
    and "PositionPubSubType_serialize api q r p = (True, pq)"
    and "AttitudePubSubType_serialize api a r p = (True, pa)"
    and "MovementAirEntityPubSubType_serialize api m r p = (True, pm)"
  shows "(\<exists>p''. EntityIDPubSubType_deserialize api dte pe e0 = (True, p'', e))
    \<and> (\<exists>p''. TargetPubSubType_deserialize api dtt pt t0 = (True, p'', t))
    \<and> (\<exists>p''. PositionPubSubType_deserialize api dtq pq q0 = (True, p'', q))
    \<and> (\<exists>p''. AttitudePubSubType_deserialize api dta pa a0 = (True, p'', a))
    \<and> (\<exists>p''. MovementAirEntityPubSubType_deserialize api dtm pm m0 = (True, p'', m))"
  using assms(11-15)
  unfolding EntityIDPubSubType_serialize_def EntityIDPubSubType_deserialize_def
    TargetPubSubType_serialize_def TargetPubSubType_deserialize_def
    PositionPubSubType_serialize_def PositionPubSubType_deserialize_def
    AttitudePubSubType_serialize_def AttitudePubSubType_deserialize_def
    MovementAirEntityPubSubType_serialize_def MovementAirEntityPubSubType_deserialize_def
  by (intro conjI entity_id_wire.round_trip[OF assms(1,3,8,2)] target_wire.round_trip[OF assms(1,4,9,2)]
    position_wire.round_trip[OF assms(1,5) TrueI assms(2)] attitude_wire.round_trip[OF assms(1,6) TrueI assms(2)]
    movement_air_entity_wire.round_trip[OF assms(1,7,10,2)])

text \<open>
  C40: The sizes. For every value and representation, \<open>calculate_serialized_size\<close> answers the
  constant \<open>max_cdr_typesize\<close> of the type and the 4 bytes of the encapsulation, and that is no
  more than the \<open>max_serialized_type_size\<close> with which the type registers.
\<close>

theorem sizes_match_constants:
  assumes "plain_calculator kapi" "EntityID_ok e" "MovementAirEntity_ok m" "AirEntity_ok x"
  shows "EntityIDPubSubType_calculate_serialized_size kapi e r = EntityID_max_cdr_typesize + 4
    \<and> TargetPubSubType_calculate_serialized_size kapi t r = Target_max_cdr_typesize + 4
    \<and> PositionPubSubType_calculate_serialized_size kapi p r = Position_max_cdr_typesize + 4
    \<and> AttitudePubSubType_calculate_serialized_size kapi a r = Attitude_max_cdr_typesize + 4
    \<and> MovementAirEntityPubSubType_calculate_serialized_size kapi m r = MovementAirEntity_max_cdr_typesize + 4
    \<and> AirEntityPubSubType_calculate_serialized_size kapi x r = AirEntity_max_cdr_typesize + 4
    \<and> EntityID_max_cdr_typesize + 4 \<le> ps_max_serialized_type_size EntityIDPubSubType_new
    \<and> Target_max_cdr_typesize + 4 \<le> ps_max_serialized_type_size TargetPubSubType_new
    \<and> Position_max_cdr_typesize + 4 \<le> ps_max_serialized_type_size PositionPubSubType_new
    \<and> Attitude_max_cdr_typesize + 4 \<le> ps_max_serialized_type_size AttitudePubSubType_new
    \<and> MovementAirEntity_max_cdr_typesize + 4 \<le> ps_max_serialized_type_size MovementAirEntityPubSubType_new
    \<and> AirEntity_max_cdr_typesize + 4 \<le> ps_max_serialized_type_size AirEntityPubSubType_new"
proof -
  let ?c = "(ka_make kapi (version_of r))\<lparr>ka_alignment := 0\<rparr>"
  have c: "plain (ka_encoding ?c)" "ka_align64 ?c = 4 \<or> ka_align64 ?c = 8" "ka_alignment ?c = 0"
    using assms(1) by (simp_all add: plain_calculator_def)
  note s = size_at_start[OF assms(1) c]
  show ?thesis
    using s(1)[OF assms(2)] s(2-4) s(5)[OF assms(3)] s(6)[OF assms(4)]
    by (simp add: EntityIDPubSubType_calculate_serialized_size_def TargetPubSubType_calculate_serialized_size_def
      PositionPubSubType_calculate_serialized_size_def AttitudePubSubType_calculate_serialized_size_def
      MovementAirEntityPubSubType_calculate_serialized_size_def AirEntityPubSubType_calculate_serialized_size_def
      ps_calculate_serialized_size_def EntityIDPubSubType_new_def TargetPubSubType_new_def PositionPubSubType_new_def
      AttitudePubSubType_new_def MovementAirEntityPubSubType_new_def AirEntityPubSubType_new_def ps_new_def Let_def
      EntityID_max_cdr_typesize_def Target_max_cdr_typesize_def Position_max_cdr_typesize_def
      Attitude_max_cdr_typesize_def MovementAirEntity_max_cdr_typesize_def AirEntity_max_cdr_typesize_def
      u32_def cdr_alignment_def)
qed

definition plain_kapi :: calculator_api where
  "plain_kapi = \<lparr>ka_make = (\<lambda>v. \<lparr>ka_version = v, ka_encoding = plain_encoding v,
       ka_serialized_member_size = NO_SERIALIZED_MEMBER_SIZE, ka_align64 = (if v = XCDRv1 then 8 else 4),
       ka_alignment = 0\<rparr>),
     ka_begin_type = (\<lambda>e c. (0, c\<lparr>ka_encoding := e\<rparr>)), ka_end_type = (\<lambda>e c. (0, c\<lparr>ka_encoding := e\<rparr>))\<rparr>"

lemma plain_kapi: "plain_calculator plain_kapi"
proof -
  have "\<exists>m. c\<lparr>ka_encoding := e\<rparr> = c\<lparr>ka_encoding := e, ka_serialized_member_size := m\<rparr>" for c :: calculator and e
    by (rule exI[of _ "ka_serialized_member_size c"]) simp
  then show ?thesis by (simp add: plain_calculator_def plain_kapi_def)
qed

theorem sizes_match_constants_witness:
  "AirEntityPubSubType_calculate_serialized_size plain_kapi AirEntity_new XCDR2_DATA_REPRESENTATION = 137
    \<and> EntityIDPubSubType_calculate_serialized_size plain_kapi EntityID_new XCDR_DATA_REPRESENTATION = 84"
proof -
  have "EntityID_ok EntityID_new" "MovementAirEntity_ok MovementAirEntity_new" "AirEntity_ok AirEntity_new"
    by (simp_all add: EntityID_ok_def EntityID_new_def MovementAirEntity_ok_def MovementAirEntity_new_def
      AirEntity_ok_def AirEntity_new_def is_i32_def)
  from sizes_match_constants[OF plain_kapi this] show ?thesis
    by (simp add: AirEntity_max_cdr_typesize_def EntityID_max_cdr_typesize_def)
qed

text \<open>
  The instance of an \<open>AirEntity\<close>. Without \<open>force_md5\<close>, \<open>compute_key\<close> writes the id as four
  big-endian bytes and twelve zeros into the handle, whatever entities the type support keyed
  before, so two entities are samples of one instance exactly when their ids are equal.
\<close>

lemma AirEntity_instance_is_id:
  assumes "big_endian_int32 api" "is_i32 (ent_id a)" "is_i32 (ent_id b)" "key_ready t"
  shows "\<exists>t' t'' ha hb. AirEntityPubSubType_compute_key api md5 a False (t, h) = Inr (True, t', ha)
    \<and> AirEntityPubSubType_compute_key api md5 b False (t', h') = Inr (True, t'', hb)
    \<and> key_ready t'' \<and> ha = be_int32 (ent_id a) @ replicate 12 0 \<and> (ha = hb \<longleftrightarrow> ent_id a = ent_id b)"
proof -
  from AirEntity_key[OF assms(1,2,4)] obtain t' where
    a: "AirEntityPubSubType_compute_key api md5 a False (t, h) = Inr (True, t', be_int32 (ent_id a) @ replicate 12 0)"
      "key_ready t'" by blast
  from AirEntity_key[OF assms(1,3) a(2)] obtain t'' where
    b: "AirEntityPubSubType_compute_key api md5 b False (t', h') = Inr (True, t'', be_int32 (ent_id b) @ replicate 12 0)"
      "key_ready t''" by blast
  from a b be_int32_inj[OF assms(2,3)] show ?thesis by auto
qed

text \<open>
  The key of a received payload is the key of the entity that was sent: \<open>compute_key\<close> of the
  payload that \<open>serialize\<close> wrote gives the same answer, handle and key buffer as \<open>compute_key\<close>
  of the entity, with or without \<open>force_md5\<close>.
\<close>

lemma AirEntity_key_of_payload:
  assumes "cdr_transmits api" "members_in_order api dt_a" "members_in_order api dt_m" "members_in_order api dt"
    and "AirEntity_ok a" "length (pl_data p) < 2 ^ 32" "ps_is_compute_key_provided t"
    and "AirEntityPubSubType_serialize api a r p = (True, p')"
  shows "\<exists>p''. AirEntityPubSubType_compute_key_of_payload api md5 dt_a dt_m dt p' force (t, h) =
    rbind (AirEntityPubSubType_compute_key api md5 a force (t, h)) (\<lambda>(b, t, h). Inr (b, p'', t, h))"
proof -
  have "members_in_order api dt_a \<and> members_in_order api dt_m \<and> members_in_order api dt" using assms(2-4) by simp
  from air_entity_wire.key_of_payload[OF assms(1) this assms(5,6) assms(8)[unfolded AirEntityPubSubType_serialize_def] assms(7)]
  show ?thesis by (simp only: AirEntityPubSubType_compute_key_of_payload_def AirEntityPubSubType_compute_key_def)
qed

end
