(* ===== verification/ControlCdr.thy ===== *)
theory ControlCdr
  imports TypeSupport
begin

section \<open>The Fast DDS type support of TestControl\<close>

text \<open>
  \<open>src/IDLs/generated/test_control/test_controlCdrAux.ipp\<close> and \<open>test_controlPubSubTypes.cxx\<close>. The
  generator made \<open>TestControl\<close> appendable: the functions are those of the six types of \<open>inse\<close> with
  the delimited encoding in XCDR version 2, whose header the compiled \<open>begin_serialize_type\<close> and
  \<open>end_serialize_type\<close> write.
\<close>

definition delimited_encoding :: "cdr_version \<Rightarrow> cdr_encoding" where
  "delimited_encoding version = (if version = XCDRv2 then DELIMIT_CDR2 else PLAIN_CDR)"

definition TestControl_size :: "calculator_api \<Rightarrow> TestControl \<Rightarrow> size_act" where
  "TestControl_size api data c =
     (let previous_encoding = ka_encoding c;
          (calculated_size, c) = ka_begin_type api (delimited_encoding (ka_version c)) c;
          (calculated_size, c) = add_sizes
            [member_size 0 size_int32,
             member_size 1 size_bool,
             member_size 2 size_int32,
             member_size 3 size_bool,
             member_size 4 size_int32,
             member_size 5 size_int32] calculated_size c;
          (n, c) = ka_end_type api previous_encoding c
      in (calculated_size + n, c))"

definition TestControl_put_members :: "('s, 'c) cdr_api \<Rightarrow> TestControl \<Rightarrow> 's act list" where
  "TestControl_put_members api data =
    [serialize_member api 0 (cdr_put_int32 api (tc_test_id data)),
     serialize_member api 1 (cdr_put_bool api (tc_start data)),
     serialize_member api 2 (cdr_put_int32 api (tc_expected_entities data)),
     serialize_member api 3 (cdr_put_bool api (tc_loan data)),
     serialize_member api 4 (cdr_put_int32 api (tc_reserve1 data)),
     serialize_member api 5 (cdr_put_int32 api (tc_reserve2 data))]"

definition TestControl_serialize :: "('s, 'c) cdr_api \<Rightarrow> TestControl \<Rightarrow> 's act" where
  "TestControl_serialize api data s =
     (case cdr_begin_type api (delimited_encoding (cdr_get_version api s)) (cdr_state api s) s of Inl s \<Rightarrow> Inl s
      | Inr (current_state, s) \<Rightarrow>
          act_then (acts (TestControl_put_members api data)) (cdr_end_type api current_state) s)"

definition TestControl_deserialize :: "('s, 'c) cdr_api \<Rightarrow> ('s, TestControl) deserialize_type \<Rightarrow> ('s \<times> TestControl) act" where
  "TestControl_deserialize api dt = (\<lambda>(s, d). dt (delimited_encoding (cdr_get_version api s)) (switch_members
    [get_into (cdr_get_int32 api) (\<lambda>x d. d\<lparr>tc_test_id := x\<rparr>),
     get_into (cdr_get_bool api) (\<lambda>x d. d\<lparr>tc_start := x\<rparr>),
     get_into (cdr_get_int32 api) (\<lambda>x d. d\<lparr>tc_expected_entities := x\<rparr>),
     get_into (cdr_get_bool api) (\<lambda>x d. d\<lparr>tc_loan := x\<rparr>),
     get_into (cdr_get_int32 api) (\<lambda>x d. d\<lparr>tc_reserve1 := x\<rparr>),
     get_into (cdr_get_int32 api) (\<lambda>x d. d\<lparr>tc_reserve2 := x\<rparr>)]) (s, d))"

definition TestControl_serialize_key :: "('s, 'c) cdr_api \<Rightarrow> TestControl \<Rightarrow> 's act" where
  "TestControl_serialize_key api data = cdr_put_int32 api (tc_test_id data)"

definition TestControl_max_cdr_typesize :: nat where "TestControl_max_cdr_typesize = 28"
definition TestControl_max_key_cdr_typesize :: nat where "TestControl_max_key_cdr_typesize = 4"

definition TestControlPubSubType_new :: pubsub_type where
  "TestControlPubSubType_new = ps_new ''TestControl'' TestControl_max_cdr_typesize TestControl_max_key_cdr_typesize True"

definition TestControlPubSubType_serialize :: "('s, 'c) cdr_api \<Rightarrow> TestControl \<Rightarrow> representation
    \<Rightarrow> SerializedPayload \<Rightarrow> bool \<times> SerializedPayload" where
  "TestControlPubSubType_serialize api data r payload =
     (let ser = cdr_open api (pl_data payload) (cdr_default_endian api) (version_of r);
          payload = payload\<lparr>pl_encapsulation := encapsulation_of (cdr_endianness api ser)\<rparr>;
          ser = cdr_set_encoding_flag api (if r = XCDR_DATA_REPRESENTATION then PLAIN_CDR else DELIMIT_CDR2) ser
      in case act_then (cdr_serialize_encapsulation api) (TestControl_serialize api data) ser of
           Inl ser \<Rightarrow> (False, payload\<lparr>pl_data := cdr_memory api ser\<rparr>)
         | Inr ser \<Rightarrow>
             let ser = cdr_set_dds_cdr_options api (0, 0) ser
             in (True, payload\<lparr>pl_data := cdr_memory api ser, pl_length := u32 (cdr_length api ser)\<rparr>))"

definition TestControlPubSubType_deserialize :: "('s, 'c) cdr_api \<Rightarrow> ('s, TestControl) deserialize_type
    \<Rightarrow> SerializedPayload \<Rightarrow> TestControl \<Rightarrow> bool \<times> SerializedPayload \<times> TestControl" where
  "TestControlPubSubType_deserialize api dt = ps_deserialize api (TestControl_deserialize api dt)"

definition TestControlPubSubType_calculate_serialized_size :: "calculator_api \<Rightarrow> TestControl \<Rightarrow> representation \<Rightarrow> nat" where
  "TestControlPubSubType_calculate_serialized_size kapi = ps_calculate_serialized_size kapi (TestControl_size kapi)"

definition TestControlPubSubType_compute_key :: "('s, 'c) cdr_api \<Rightarrow> (8 word list \<Rightarrow> 8 word list) \<Rightarrow> TestControl \<Rightarrow> bool
    \<Rightarrow> pubsub_type \<times> handle \<Rightarrow> (bool \<times> pubsub_type \<times> handle) res" where
  "TestControlPubSubType_compute_key api md5 =
     ps_compute_key api md5 TestControl_max_key_cdr_typesize (TestControl_serialize_key api)"

definition TestControlPubSubType_compute_key_of_payload :: "('s, 'c) cdr_api \<Rightarrow> (8 word list \<Rightarrow> 8 word list)
    \<Rightarrow> ('s, TestControl) deserialize_type \<Rightarrow> SerializedPayload \<Rightarrow> bool
    \<Rightarrow> pubsub_type \<times> handle \<Rightarrow> (bool \<times> SerializedPayload \<times> pubsub_type \<times> handle) res" where
  "TestControlPubSubType_compute_key_of_payload api md5 dt =
     ps_compute_key_of_payload api md5 TestControl_max_key_cdr_typesize (TestControl_serialize_key api)
       (TestControl_deserialize api dt) TestControl_new"

end
