(* ===== verification/Interop.thy ===== *)
theory Interop
  imports OpenControl ControlCdr
begin

section \<open>What a Fast DDS node writes, an OpenDDS node reads\<close>

text \<open>
  The generated \<open>serialize\<close> of Fast DDS and the generated \<open>operator >>\<close> of OpenDDS are two
  programs written against two libraries; that they agree on an \<open>AirEntity\<close> is a property of the
  two generated files, of the code of \<open>Serializer.inl\<close>, and of one fact about the compiled
  library Fast CDR: that it lays the values out as the OMG prescribes for the representation.
\<close>

subsection \<open>The layout of the plain encodings\<close>

definition cdr_max_align :: "cdr_version \<Rightarrow> nat \<Rightarrow> nat" where
  "cdr_max_align v n = (if v = XCDRv2 then min n 4 else min n 8)"

text \<open>After the four bytes of the encapsulation the stream holds the bytes \<open>bs\<close>.\<close>

definition laid :: "('s, 'c) cdr_api \<Rightarrow> cdr_version \<Rightarrow> 8 word list \<Rightarrow> 's \<Rightarrow> bool" where
  "laid api v bs s \<longleftrightarrow> cdr_get_version api s = v \<and> 4 \<le> cdr_length api s
   \<and> cdr_length api s \<le> length (cdr_memory api s) \<and> drop 4 (take (cdr_length api s) (cdr_memory api s)) = bs"

text \<open>
  A stream opened on a buffer stays on it and holds nothing after the encapsulation; each value
  comes after its padding, over which the stream jumps and which therefore holds whatever the buffer
  held (\<open>make_alignment\<close> in \<open>Cdr.h\<close>); the beginning and the end of a type or a member in a plain
  encoding add nothing, and the options are bits of the encapsulation.
\<close>

definition cdr_lays_out :: "('s, 'c) cdr_api \<Rightarrow> bool" where
  "cdr_lays_out api \<longleftrightarrow>
   (\<forall>buffer v s. cdr_serialize_encapsulation api (cdr_set_encoding_flag api (plain_encoding v)
      (cdr_open api buffer (cdr_default_endian api) v)) = Inr s \<longrightarrow> laid api v [] s)
   \<and> (\<forall>v bs q s s'. laid api v bs s \<longrightarrow> prim_ok q \<longrightarrow> put_prim api q s = Inr s' \<longrightarrow>
        (\<exists>pad. laid api v (bs @ wire_image_with pad (cdr_max_align v) (cdr_default_endian api) (length bs) [q]) s'))
   \<and> (\<forall>v bs s c s1. laid api v bs s \<longrightarrow> cdr_begin_type api (plain_encoding v) (cdr_state api s) s = Inr (c, s1)
        \<longrightarrow> laid api v bs s1
          \<and> (\<forall>bs' s2 s3. laid api v bs' s2 \<longrightarrow> cdr_end_type api c s2 = Inr s3 \<longrightarrow> laid api v bs' s3))
   \<and> (\<forall>v bs s i c s1. laid api v bs s \<longrightarrow> cdr_begin_member api i (cdr_state api s) s = Inr (c, s1)
        \<longrightarrow> laid api v bs s1
          \<and> (\<forall>bs' s2 s3. laid api v bs' s2 \<longrightarrow> cdr_end_member api c s2 = Inr s3 \<longrightarrow> laid api v bs' s3))
   \<and> (\<forall>v bs s opts. laid api v bs s \<longrightarrow> laid api v bs (cdr_set_dds_cdr_options api opts s))"

lemma cdr_lays_outD:
  assumes "cdr_lays_out api"
  shows "cdr_serialize_encapsulation api (cdr_set_encoding_flag api (plain_encoding v)
      (cdr_open api buffer (cdr_default_endian api) v)) = Inr s \<Longrightarrow> laid api v [] s"
    and "laid api v bs s \<Longrightarrow> prim_ok q \<Longrightarrow> put_prim api q s = Inr s' \<Longrightarrow>
      \<exists>pad. laid api v (bs @ wire_image_with pad (cdr_max_align v) (cdr_default_endian api) (length bs) [q]) s'"
    and "laid api v bs s \<Longrightarrow> cdr_begin_type api (plain_encoding v) (cdr_state api s) s = Inr (c, s') \<Longrightarrow> laid api v bs s'"
    and "laid api v bs s \<Longrightarrow> cdr_begin_type api (plain_encoding v) (cdr_state api s) s = Inr (c, s')
      \<Longrightarrow> laid api v bs' s2 \<Longrightarrow> cdr_end_type api c s2 = Inr s3 \<Longrightarrow> laid api v bs' s3"
    and "laid api v bs s \<Longrightarrow> cdr_begin_member api i (cdr_state api s) s = Inr (c, s') \<Longrightarrow> laid api v bs s'"
    and "laid api v bs s \<Longrightarrow> cdr_begin_member api i (cdr_state api s) s = Inr (c, s')
      \<Longrightarrow> laid api v bs' s2 \<Longrightarrow> cdr_end_member api c s2 = Inr s3 \<Longrightarrow> laid api v bs' s3"
    and "laid api v bs s \<Longrightarrow> laid api v bs (cdr_set_dds_cdr_options api opts s)"
  using assms unfolding cdr_lays_out_def by metis+

lemma writes_laid:
  assumes "cdr_lays_out api" "writes api s qs s'" "laid api v bs s"
  shows "\<exists>pad. laid api v (bs @ wire_image_with pad (cdr_max_align v) (cdr_default_endian api) (length bs) qs) s'"
  using assms(2,3)
proof (induction arbitrary: bs rule: writes.induct)
  case (writes_none s)
  then show ?case by simp
next
  case (writes_prim q s s')
  then show ?case by (intro cdr_lays_outD(2)[OF assms(1)])
next
  case (writes_seq s qs s' rs s'')
  let ?im = "\<lambda>pad. wire_image_with pad (cdr_max_align v) (cdr_default_endian api)"
  obtain g where g: "laid api v (bs @ ?im g (length bs) qs) s'" using writes_seq.IH(1)[OF writes_seq.prems] by blast
  let ?n = "length (bs @ ?im g (length bs) qs)"
  obtain h where h: "laid api v ((bs @ ?im g (length bs) qs) @ ?im h ?n rs) s''" using writes_seq.IH(2)[OF g] by blast
  have "?im (join_pads ?n g h) (length bs) (qs @ rs) = ?im g (length bs) qs @ ?im h ?n rs"
    by (simp add: image_with_append image_join_pads)
  with h show ?case by (metis append.assoc)
next
  case (writes_member i s c s1 qs s2 s3)
  from writes_member.IH[OF cdr_lays_outD(5)[OF assms(1) writes_member.prems writes_member.hyps(1)]]
  show ?case using cdr_lays_outD(6)[OF assms(1) writes_member.prems writes_member.hyps(1) _ writes_member.hyps(3)] by blast
next
  case (writes_type s c s1 qs s2 s3)
  have b: "cdr_begin_type api (plain_encoding v) (cdr_state api s) s = Inr (c, s1)"
    using writes_type.prems writes_type.hyps(1) by (simp add: laid_def)
  from writes_type.IH[OF cdr_lays_outD(3)[OF assms(1) writes_type.prems b]]
  show ?case using cdr_lays_outD(4)[OF assms(1) writes_type.prems b _ writes_type.hyps(3)] by blast
qed

text \<open>The payload of a sample, after the four bytes of the encapsulation.\<close>

definition payload_body :: "SerializedPayload \<Rightarrow> 8 word list" where
  "payload_body p = drop 4 (take (pl_length p) (pl_data p))"

lemma payload_image:
  assumes api: "cdr_lays_out api" "emits api (ser a) qs" and ser: "ps_serialize api ser a r p = (True, p')"
    and len: "length (pl_data p') < 2 ^ 32"
  shows "\<exists>pad. payload_body p' = wire_image_with pad (cdr_max_align (version_of r)) (cdr_default_endian api) 0 qs"
proof -
  let ?o = "cdr_set_encoding_flag api (encoding_of r) (cdr_open api (pl_data p) (cdr_default_endian api) (version_of r))"
  obtain s s' where s: "cdr_serialize_encapsulation api ?o = Inr s" "ser a s = Inr s'"
    and p': "pl_data p' = cdr_memory api (cdr_set_dds_cdr_options api (0, 0) s')"
      "pl_length p' = u32 (cdr_length api (cdr_set_dds_cdr_options api (0, 0) s'))"
    using ser by (auto simp: ps_serialize_def Let_def act_then_def split: sum.splits)
  have "laid api (version_of r) [] s"
    using cdr_lays_outD(1)[OF api(1)] s(1) unfolding encoding_of_version by blast
  moreover have "writes api s qs s'" using api(2) s(2) by (simp add: emits_def)
  ultimately obtain pad where
    "laid api (version_of r) (wire_image_with pad (cdr_max_align (version_of r)) (cdr_default_endian api) 0 qs) s'"
    using writes_laid[OF api(1)] by fastforce
  from cdr_lays_outD(7)[OF api(1) this, of "(0, 0)"]
  show ?thesis using len by (intro exI[of _ pad]) (simp add: laid_def payload_body_def p' u32_def)
qed

subsection \<open>From one vendor to the other\<close>

text \<open>The encoding an OpenDDS reader uses for a representation and a byte order.\<close>

definition open_encoding :: "representation \<Rightarrow> endianness \<Rightarrow> encoding" where
  "open_encoding r e = set_kind (if r = XCDR_DATA_REPRESENTATION then KIND_XCDR1 else KIND_XCDR2)
     \<lparr>en_kind = KIND_XCDR1, en_endianness = e, en_alignment = 8, en_zero_init_padding = True,
       en_xcdr_version = XCDR_VERSION_1\<rparr>"

lemma open_encoding_image:
  "image_at (open_encoding r e) 0 qs = wire_image (cdr_max_align (version_of r)) e 0 qs"
  "image_with pad (open_encoding r e) 0 qs = wire_image_with pad (cdr_max_align (version_of r)) e 0 qs"
proof -
  have "stream_align (open_encoding r e) = cdr_max_align (version_of r)"
    by (simp add: fun_eq_iff open_encoding_def set_kind_def stream_align_def cdr_max_align_def version_of_def)
  moreover have "en_endianness (open_encoding r e) = e" by (simp add: open_encoding_def set_kind_def)
  ultimately show "image_at (open_encoding r e) 0 qs = wire_image (cdr_max_align (version_of r)) e 0 qs"
    "image_with pad (open_encoding r e) 0 qs = wire_image_with pad (cdr_max_align (version_of r)) e 0 qs"
    by (simp_all add: image_at_def image_with_def)
qed

text \<open>C6: Interoperability of the generated code of two vendors: where Fast CDR lays values out as the
  OMG prescribes, with whatever bytes as padding, an \<open>AirEntity\<close> a Fast DDS publisher has serialized, in representation 1 or 2
  and in either byte order, is read by the \<open>operator >>\<close> of OpenDDS from the payload behind the
  encapsulation, in whatever blocks it arrived, as the very same object, and nothing is left over.\<close>

theorem fast_sample_read_by_open:
  assumes "cdr_lays_out api" "AirEntity_ok a" "AirEntityPubSubType_serialize api a r p = (True, p')"
    and "length (pl_data p') < 2 ^ 32"
    and "ready_r s" "sr_pos s = 0" "sr_encoding s = open_encoding r (cdr_default_endian api)"
    and "unread s = payload_body p'" "AirEntity_shape d"
  shows "\<exists>s'. AirEntity_read (s, d) = (True, s', a) \<and> unread s' = []"
proof -
  obtain pad where "payload_body p' = wire_image_with pad (cdr_max_align (version_of r)) (cdr_default_endian api) 0 (AirEntity_prims a)"
    using payload_image[where ser = "AirEntity_serialize api", OF assms(1) emits_AirEntity[OF assms(2)] _ assms(4)] assms(3)
    by (auto simp: AirEntityPubSubType_serialize_def)
  then have u: "unread s = image_with pad (sr_encoding s) (sr_pos s) (AirEntity_prims a)"
    using assms(6-8) by (simp add: open_encoding_image)
  obtain ok s' e where r: "AirEntity_read (s, d) = (ok, s', e)" by (cases "AirEntity_read (s, d)")
  show ?thesis
    using extractsD_with[OF extracts_AirEntity[OF assms(2)] assms(5,9) r] r u by (auto simp: consumed_def)
qed

subsection \<open>Appendable types\<close>

text \<open>
  What the delimited encoding of XCDR version 2 adds: between the beginning and the end of a type
  its length comes in front of the values, as an aligned unsigned number.
\<close>

definition delimited_image :: "(nat \<Rightarrow> 8 word) \<Rightarrow> endianness \<Rightarrow> nat \<Rightarrow> prim list \<Rightarrow> 8 word list" where
  "delimited_image pad e p qs =
     (let h = (\<lambda>n. wire_image_with pad (cdr_max_align XCDRv2) e p [PUInt32 n]);
          x = wire_image_with pad (cdr_max_align XCDRv2) e (p + length (h 0)) qs
      in h (of_nat (length x)) @ x)"

definition cdr_delimits :: "('s, 'c) cdr_api \<Rightarrow> bool" where
  "cdr_delimits api \<longleftrightarrow>
   (\<forall>buffer s. cdr_serialize_encapsulation api (cdr_set_encoding_flag api DELIMIT_CDR2
      (cdr_open api buffer (cdr_default_endian api) XCDRv2)) = Inr s \<longrightarrow> laid api XCDRv2 [] s)
   \<and> (\<forall>bs s c s1 qs s2 s3. laid api XCDRv2 bs s \<longrightarrow> cdr_begin_type api DELIMIT_CDR2 (cdr_state api s) s = Inr (c, s1)
        \<longrightarrow> writes api s1 qs s2 \<longrightarrow> cdr_end_type api c s2 = Inr s3
        \<longrightarrow> (\<exists>pad. laid api XCDRv2 (bs @ delimited_image pad (cdr_default_endian api) (length bs) qs) s3))"

lemma cdr_delimitsD:
  assumes "cdr_delimits api"
  shows "cdr_serialize_encapsulation api (cdr_set_encoding_flag api DELIMIT_CDR2
      (cdr_open api buffer (cdr_default_endian api) XCDRv2)) = Inr s \<Longrightarrow> laid api XCDRv2 [] s"
    and "laid api XCDRv2 bs s \<Longrightarrow> cdr_begin_type api DELIMIT_CDR2 (cdr_state api s) s = Inr (c, s1)
      \<Longrightarrow> writes api s1 qs s2 \<Longrightarrow> cdr_end_type api c s2 = Inr s3
      \<Longrightarrow> \<exists>pad. laid api XCDRv2 (bs @ delimited_image pad (cdr_default_endian api) (length bs) qs) s3"
  using assms unfolding cdr_delimits_def by metis+

lemma TestControl_emits:
  "TestControl_ok a \<Longrightarrow> emits api (acts (TestControl_put_members api a)) (concat (TestControl_values a))"
  unfolding TestControl_values_def TestControl_ok_def TestControl_put_members_def
  by (intro emits_acts list.rel_intros emits_rules) auto

text \<open>What \<open>TestControl\<close> looks like in a representation: with the delimiter 24 in version 2.\<close>

definition TestControl_wire :: "representation \<Rightarrow> TestControl \<Rightarrow> prim list" where
  "TestControl_wire r a = concat ((if r = XCDR_DATA_REPRESENTATION then [] else [[PUInt32 24]]) @ TestControl_values a)"

lemma control_payload_image:
  assumes api: "cdr_lays_out api" "cdr_delimits api" and a: "TestControl_ok a"
    and ser: "TestControlPubSubType_serialize api a r p = (True, p')" and len: "length (pl_data p') < 2 ^ 32"
  shows "\<exists>pad. payload_body p' = wire_image_with pad (cdr_max_align (version_of r)) (cdr_default_endian api) 0 (TestControl_wire r a)"
proof -
  let ?f = "if r = XCDR_DATA_REPRESENTATION then PLAIN_CDR else DELIMIT_CDR2"
  let ?o = "cdr_set_encoding_flag api ?f (cdr_open api (pl_data p) (cdr_default_endian api) (version_of r))"
  obtain s s' where s: "cdr_serialize_encapsulation api ?o = Inr s" "TestControl_serialize api a s = Inr s'"
    and p': "pl_data p' = cdr_memory api (cdr_set_dds_cdr_options api (0, 0) s')"
      "pl_length p' = u32 (cdr_length api (cdr_set_dds_cdr_options api (0, 0) s'))"
    using ser by (auto simp: TestControlPubSubType_serialize_def Let_def act_then_def split: sum.splits)
  have f: "?f = (if r = XCDR_DATA_REPRESENTATION then plain_encoding (version_of r) else DELIMIT_CDR2)"
    by (simp add: plain_encoding_def version_of_def)
  have l: "laid api (version_of r) [] s"
    using s(1) cdr_lays_outD(1)[OF api(1), of "version_of r" "pl_data p" s] api(2)
    unfolding f cdr_delimits_def by (auto simp: version_of_def split: if_splits)
  obtain c s1 s2 where t: "cdr_begin_type api (delimited_encoding (version_of r)) (cdr_state api s) s = Inr (c, s1)"
    "writes api s1 (concat (TestControl_values a)) s2" "cdr_end_type api c s2 = Inr s'"
  proof -
    have v: "cdr_get_version api s = version_of r" using l by (simp add: laid_def)
    obtain c s1 s2 where "cdr_begin_type api (delimited_encoding (version_of r)) (cdr_state api s) s = Inr (c, s1)"
      "acts (TestControl_put_members api a) s1 = Inr s2" "cdr_end_type api c s2 = Inr s'"
      using s(2) by (auto simp: TestControl_serialize_def act_then_def v split: sum.splits)
    then show thesis using TestControl_emits[OF a, of api] by (intro that) (auto simp: emits_def)
  qed
  have "\<exists>pad. laid api (version_of r)
      (wire_image_with pad (cdr_max_align (version_of r)) (cdr_default_endian api) 0 (TestControl_wire r a)) s'"
  proof (cases "r = XCDR_DATA_REPRESENTATION")
    case True
    then have "delimited_encoding (version_of r) = plain_encoding (version_of r)"
      by (simp add: delimited_encoding_def plain_encoding_def version_of_def)
    with t(1) have b: "cdr_begin_type api (plain_encoding (version_of r)) (cdr_state api s) s = Inr (c, s1)" by simp
    from writes_laid[OF api(1) t(2) cdr_lays_outD(3)[OF api(1) l b]]
      cdr_lays_outD(4)[OF api(1) l b _ t(3)] True
    show ?thesis by (auto simp: TestControl_wire_def)
  next
    case False
    then have v: "version_of r = XCDRv2" "delimited_encoding XCDRv2 = DELIMIT_CDR2"
      by (simp_all add: delimited_encoding_def version_of_def)
    let ?al = "cdr_max_align XCDRv2" and ?e = "cdr_default_endian api"
    have al: "?al = (\<lambda>n. min n 4)" by (simp add: fun_eq_iff cdr_max_align_def)
    have h: "length (wire_image ?al ?e 0 [PUInt32 n]) = 4" for n
      using image_end[of 0 ?al ?e "[PUInt32 n]"] by (simp add: al cdr_pad_def)
    have x: "length (wire_image ?al ?e 4 (concat (TestControl_values a))) = 24"
      using image_end[of 4 ?al ?e "concat (TestControl_values a)"]
      by (simp add: al TestControl_values_def cdr_pad_def del: wire_image.simps)
    have d: "wire_image_with pad ?al ?e 0 (TestControl_wire r a) =
        wire_image_with pad ?al ?e 0 [PUInt32 24] @ wire_image_with pad ?al ?e 4 (concat (TestControl_values a))" for pad
      using False image_with_append[of pad ?al ?e 0 "[PUInt32 24]" "concat (TestControl_values a)"]
      by (simp only: TestControl_wire_def concat_append concat.simps append_Nil2 append_Nil length_image_with h if_False add_0)
    obtain pad where "laid api XCDRv2 (delimited_image pad ?e 0 (concat (TestControl_values a))) s'"
      using cdr_delimitsD(2)[OF api(2) l[unfolded v] t(1)[unfolded v] t(2,3)] by auto
    then have "laid api XCDRv2 (wire_image_with pad ?al ?e 0 (TestControl_wire r a)) s'"
      unfolding d delimited_image_def Let_def add_0 length_image_with h x by simp
    then show ?thesis unfolding v by blast
  qed
  then obtain pad where
    "laid api (version_of r) (wire_image_with pad (cdr_max_align (version_of r)) (cdr_default_endian api) 0 (TestControl_wire r a)) s'" ..
  from cdr_lays_outD(7)[OF api(1) this, of "(0, 0)"]
  show ?thesis using len by (intro exI[of _ pad]) (simp add: laid_def payload_body_def p' u32_def)
qed

text \<open>C7: The control message between the vendors: a \<open>TestControl\<close> a Fast DDS publisher has
  serialized, plain in representation 1 and delimited in representation 2, is read by the
  appendable \<open>operator >>\<close> of OpenDDS as the very same configuration, and nothing is left over.\<close>

theorem fast_control_read_by_open:
  assumes "cdr_lays_out api" "cdr_delimits api" "TestControl_ok a"
    and "TestControlPubSubType_serialize api a r p = (True, p')" "length (pl_data p') < 2 ^ 32"
    and "ready_r s" "sr_pos s = 0" "sr_encoding s = open_encoding r (cdr_default_endian api)"
    and "unread s = payload_body p'"
  shows "\<exists>s'. TestControl_read u (s, d) = (True, s', a) \<and> unread s' = []"
proof -
  let ?e = "sr_encoding s"
  obtain pad where im: "unread s = image_with pad ?e (sr_pos s) (TestControl_wire r a)"
    using control_payload_image[OF assms(1-5)] assms(7-9) by (auto simp: open_encoding_image)
  show ?thesis
  proof (cases "r = XCDR_DATA_REPRESENTATION")
    case True
    then have "en_xcdr_version ?e \<noteq> XCDR_VERSION_2" by (simp add: assms(8) open_encoding_def set_kind_def)
    moreover have "unread s = image_with pad ?e (sr_pos s) (concat (TestControl_values a)) @ []"
      using im True by (simp add: TestControl_wire_def)
    ultimately show ?thesis using read_plain_with[OF assms(6) _ assms(3)] by blast
  next
    case False
    then have v: "en_xcdr_version ?e = XCDR_VERSION_2" "stream_align ?e = (\<lambda>n. min n 4)"
      by (simp_all add: fun_eq_iff assms(8) open_encoding_def set_kind_def stream_align_def)
    from read_delimited_with[OF assms(6) v assms(3), of pad "[]" u d] im False show ?thesis
      by (auto simp: TestControl_wire_def)
  qed
qed

subsection \<open>A library that lays values out that way\<close>

text \<open>The concrete library of \<open>FlatCdr\<close> that jumps over the padding, as Fast CDR does; the second
  byte of the encapsulation is 6 for version 2.\<close>

definition xcdr_skip :: "nat \<Rightarrow> flat \<Rightarrow> flat" where
  "xcdr_skip n s = s\<lparr>fl_pos := fl_pos s + cdr_pad (cdr_max_align (fl_version s) n) (fl_pos s - 4)\<rparr>"

definition xcdr_put :: "nat \<Rightarrow> 8 word list \<Rightarrow> flat act" where
  "xcdr_put n bs s = flat_put bs (xcdr_skip n s)"

text \<open>
  A saved state is the position behind the delimiter of the type begun, 0 for none; the end of a
  type puts the number of bytes since then into the delimiter.
\<close>

definition xcdr_begin :: "cdr_encoding \<Rightarrow> nat \<Rightarrow> flat \<Rightarrow> flat + nat \<times> flat" where
  "xcdr_begin e c s = (if e = DELIMIT_CDR2 then map_sum id (\<lambda>s. (fl_pos s, s)) (xcdr_put 4 [0, 0, 0, 0] s) else Inr (c, s))"

definition xcdr_end :: "nat \<Rightarrow> flat act" where
  "xcdr_end c s = Inr (if c = 0 then s else s\<lparr>fl_memory := take (c - 4) (fl_memory s)
     @ be_bytes 4 (unat (of_nat (fl_pos s - c) :: 32 word)) @ drop c (fl_memory s)\<rparr>)"

definition xcdr_cdr :: "(flat, nat) cdr_api" where
  "xcdr_cdr = \<lparr>cdr_default_endian = BIG_ENDIANNESS,
     cdr_open = (\<lambda>m e v. \<lparr>fl_memory = m, fl_pos = 0, fl_version = v\<rparr>),
     cdr_endianness = (\<lambda>_. BIG_ENDIANNESS), cdr_get_version = fl_version,
     cdr_set_encoding_flag = (\<lambda>_ s. s), cdr_serialize_encapsulation = flat_put [0, 0, 0, 0],
     cdr_read_encapsulation = (\<lambda>s. map_sum id (\<lambda>(h, s). s\<lparr>fl_version := (if h ! 1 = 6 then XCDRv2 else XCDRv1)\<rparr>)
       (flat_get 4 id s)),
     cdr_set_dds_cdr_options = (\<lambda>_ s. s), cdr_length = fl_pos, cdr_memory = fl_memory,
     cdr_state = (\<lambda>_. 0), cdr_begin_type = xcdr_begin, cdr_end_type = xcdr_end,
     cdr_begin_member = (\<lambda>_ c s. Inr (c, s)), cdr_end_member = (\<lambda>_. Inr),
     cdr_put_int32 = (\<lambda>x. xcdr_put 4 (be_bytes 4 (nat (x mod 2 ^ 32)))),
     cdr_put_uint32 = (\<lambda>x. xcdr_put 4 (be_bytes 4 (unat x))),
     cdr_put_float = (\<lambda>x. xcdr_put 4 (be_bytes 4 (unat x))),
     cdr_put_double = (\<lambda>x. xcdr_put 8 (be_bytes 8 (unat x))),
     cdr_put_char = (\<lambda>x. flat_put [x]), cdr_put_bool = (\<lambda>x. flat_put [if x then 1 else 0]),
     cdr_put_chars = flat_put,
     cdr_get_int32 = (\<lambda>s. cdr_get_int32 flat_cdr (xcdr_skip 4 s)),
     cdr_get_uint32 = (\<lambda>s. cdr_get_uint32 flat_cdr (xcdr_skip 4 s)),
     cdr_get_float = (\<lambda>s. cdr_get_float flat_cdr (xcdr_skip 4 s)),
     cdr_get_double = (\<lambda>s. cdr_get_double flat_cdr (xcdr_skip 8 s)),
     cdr_get_char = cdr_get_char flat_cdr, cdr_get_bool = cdr_get_bool flat_cdr,
     cdr_get_chars = cdr_get_chars flat_cdr\<rparr>"

lemma xcdr_fields:
  "cdr_get_version xcdr_cdr = fl_version" "cdr_length xcdr_cdr = fl_pos"
  "cdr_memory xcdr_cdr = fl_memory" "cdr_set_dds_cdr_options xcdr_cdr = (\<lambda>_ s. s)"
  "cdr_default_endian xcdr_cdr = BIG_ENDIANNESS" "cdr_set_encoding_flag xcdr_cdr = (\<lambda>_ s. s)"
  "cdr_serialize_encapsulation xcdr_cdr = flat_put [0, 0, 0, 0]" "cdr_state xcdr_cdr = (\<lambda>_. 0)"
  "cdr_open xcdr_cdr = (\<lambda>m e v. \<lparr>fl_memory = m, fl_pos = 0, fl_version = v\<rparr>)"
  "cdr_begin_type xcdr_cdr = xcdr_begin" "cdr_end_type xcdr_cdr = xcdr_end"
  "cdr_begin_member xcdr_cdr = (\<lambda>_ c s. Inr (c, s))" "cdr_end_member xcdr_cdr = (\<lambda>_. Inr)"
  by (simp_all add: xcdr_cdr_def)

lemma xcdr_put_prim: "put_prim xcdr_cdr q s = flat_put (prim_bytes BIG_ENDIANNESS q) (xcdr_skip (prim_align q) s)"
  by (cases q) (simp_all add: xcdr_cdr_def xcdr_put_def mem_bytes_def xcdr_skip_def cdr_pad_def cdr_max_align_def)

text \<open>What the buffer holds in the padding.\<close>

definition held :: "flat \<Rightarrow> nat \<Rightarrow> 8 word" where
  "held s i = fl_memory s ! (i + 4)"

lemma held_pad: "4 \<le> fl_pos s \<Longrightarrow> fl_pos s + k \<le> length (fl_memory s) \<Longrightarrow>
    map (held s) [fl_pos s - 4..<fl_pos s - 4 + k] = take k (drop (fl_pos s) (fl_memory s))"
  by (rule nth_equalityI) (simp_all add: held_def algebra_simps)

lemma flat_put_laid:
  assumes "flat_put xs (xcdr_skip n s) = Inr s'" "4 \<le> fl_pos s"
  shows "fl_version s' = fl_version s \<and> 4 \<le> fl_pos s' \<and> fl_pos s' \<le> length (fl_memory s')
    \<and> drop 4 (take (fl_pos s') (fl_memory s')) = drop 4 (take (fl_pos s) (fl_memory s))
      @ map (held s) [fl_pos s - 4..<fl_pos s - 4 + cdr_pad (cdr_max_align (fl_version s) n) (fl_pos s - 4)] @ xs"
proof -
  let ?k = "cdr_pad (cdr_max_align (fl_version s) n) (fl_pos s - 4)"
  have "fl_pos s + ?k \<le> length (fl_memory s)"
    using assms(1) by (auto simp: flat_put_def xcdr_skip_def Let_def split: if_splits)
  note h = held_pad[OF assms(2) this]
  show ?thesis using assms unfolding h
    by (auto simp: flat_put_def xcdr_skip_def Let_def take_add split: if_splits)
qed

lemma xcdr_plain: "plain e \<Longrightarrow> xcdr_begin e c s = Inr (c, s)" "xcdr_end 0 s = Inr s"
  by (auto simp: xcdr_begin_def xcdr_end_def plain_def)

lemma xcdr_framing [fits_rules]: "flat_framing xcdr_cdr"
  by (simp add: flat_framing_def xcdr_fields xcdr_plain)

lemma xcdr_opened:
  "flat_put [0, 0, 0, 0] \<lparr>fl_memory = m, fl_pos = 0, fl_version = v\<rparr> = Inr s \<Longrightarrow> laid xcdr_cdr v [] s"
  by (auto simp: laid_def xcdr_fields flat_put_def Let_def split: if_splits)

lemma xcdr_put_laid:
  assumes "laid xcdr_cdr v bs s" "put_prim xcdr_cdr q s = Inr s'"
  shows "laid xcdr_cdr v (bs @ wire_image_with (held s) (cdr_max_align v) BIG_ENDIANNESS (length bs) [q]) s'"
proof -
  have l: "length bs = fl_pos s - 4" "4 \<le> fl_pos s" "fl_version s = v"
    using assms(1) by (auto simp: laid_def xcdr_fields)
  from flat_put_laid[OF assms(2)[unfolded xcdr_put_prim] l(2)] assms(1) show ?thesis
    by (simp add: laid_def xcdr_fields l Let_def)
qed

lemma xcdr_lays_out: "cdr_lays_out xcdr_cdr"
proof -
  have e: "plain (plain_encoding v)" for v by simp
  have p: "\<exists>pad. laid xcdr_cdr v (bs @ wire_image_with pad (cdr_max_align v) BIG_ENDIANNESS (length bs) [q]) s'"
    if "laid xcdr_cdr v bs s" "put_prim xcdr_cdr q s = Inr s'" for v bs q s s'
    using xcdr_put_laid[OF that] by blast
  show ?thesis unfolding cdr_lays_out_def xcdr_fields(5-13)
    using xcdr_opened p by (auto simp: xcdr_fields xcdr_plain(1)[OF e] xcdr_plain(2) simp del: wire_image_with.simps)
qed

lemma patched:
  assumes "take n xs = ys @ zs @ ws" "length zs = length ds" "n \<le> length xs"
  shows "take n (take (length ys) xs @ ds @ drop (length ys + length zs) xs) = ys @ ds @ ws"
proof -
  have xs: "xs = ys @ zs @ ws @ drop n xs" using assms(1) by (metis append_assoc append_take_drop_id)
  have n: "n = length ys + length zs + length ws" using arg_cong[OF assms(1), of length] assms(3) by simp
  have "take (length ys) xs = ys" "drop (length ys + length zs) xs = ws @ drop n xs"
    by (subst xs, simp)+
  then show ?thesis using assms(2) n by simp
qed

lemma xcdr_begin_delimit:
  "xcdr_begin DELIMIT_CDR2 c s = Inr (d, t) \<longleftrightarrow> xcdr_put 4 [0, 0, 0, 0] s = Inr t \<and> d = fl_pos t"
  by (cases "xcdr_put 4 [0, 0, 0, 0] s") (auto simp: xcdr_begin_def)

lemma xcdr_delimits: "cdr_delimits xcdr_cdr"
  unfolding cdr_delimits_def
proof (intro conjI allI impI)
  fix buffer s
  assume "cdr_serialize_encapsulation xcdr_cdr (cdr_set_encoding_flag xcdr_cdr DELIMIT_CDR2
    (cdr_open xcdr_cdr buffer (cdr_default_endian xcdr_cdr) XCDRv2)) = Inr s"
  then show "laid xcdr_cdr XCDRv2 [] s" by (intro xcdr_opened) (simp add: xcdr_fields)
next
  fix bs s c s1 qs s2 s3
  assume l: "laid xcdr_cdr XCDRv2 bs s"
    and b: "cdr_begin_type xcdr_cdr DELIMIT_CDR2 (cdr_state xcdr_cdr s) s = Inr (c, s1)"
    and w: "writes xcdr_cdr s1 qs s2" and e: "cdr_end_type xcdr_cdr c s2 = Inr s3"
  let ?al = "cdr_max_align XCDRv2"
  let ?k = "cdr_pad (?al 4) (length bs)"
  have h: "wire_image_with pad ?al BIG_ENDIANNESS (length bs) [PUInt32 n]
      = map pad [length bs..<length bs + ?k] @ be_bytes 4 (unat n)" for pad n
    by (simp add: Let_def mem_bytes_def)
  have be0: "be_bytes 4 0 = [0, 0, 0, 0]" by (simp add: be_bytes_4)
  have z: "put_prim xcdr_cdr (PUInt32 0) s = Inr s1" "c = fl_pos s1"
  proof -
    have "xcdr_begin DELIMIT_CDR2 0 s = Inr (c, s1)" using b by (simp only: xcdr_fields)
    then have "xcdr_put 4 [0, 0, 0, 0] s = Inr s1" "c = fl_pos s1" by (simp_all only: xcdr_begin_delimit)
    moreover have "put_prim xcdr_cdr (PUInt32 0) s = xcdr_put 4 (be_bytes 4 0) s" by (simp add: xcdr_cdr_def)
    ultimately show "put_prim xcdr_cdr (PUInt32 0) s = Inr s1" "c = fl_pos s1" unfolding be0 by simp_all
  qed
  let ?n = "length bs + (?k + 4)"
  have l0: "laid xcdr_cdr XCDRv2 (bs @ map (held s) [length bs..<length bs + ?k] @ [0, 0, 0, 0]) s1"
    using xcdr_put_laid[OF l z(1)] unfolding h by (simp add: be0)
  have n: "length (bs @ map (held s) [length bs..<length bs + ?k] @ [0, 0, 0, 0]) = ?n" by simp
  obtain g where l2': "laid xcdr_cdr XCDRv2 ((bs @ map (held s) [length bs..<length bs + ?k] @ [0, 0, 0, 0])
      @ wire_image_with g ?al BIG_ENDIANNESS ?n qs) s2"
    using writes_laid[OF xcdr_lays_out w l0] unfolding n xcdr_fields(5) by blast
  define p where "p = join_pads ?n (held s) g"
  let ?pad = "map p [length bs..<length bs + ?k]"
  let ?x = "wire_image_with p ?al BIG_ENDIANNESS (length bs + (length ?pad + 4)) qs"
  have pe: "?pad = map (held s) [length bs..<length bs + ?k]"
    unfolding p_def by (auto simp: join_pads_def)
  have xe: "?x = wire_image_with g ?al BIG_ENDIANNESS ?n qs" unfolding p_def by (simp add: image_join_pads(2))
  have l1: "laid xcdr_cdr XCDRv2 (bs @ ?pad @ [0, 0, 0, 0]) s1"
    "laid xcdr_cdr XCDRv2 ((bs @ ?pad @ [0, 0, 0, 0]) @ ?x) s2" unfolding xe unfolding pe by (rule l0, rule l2')
  have l2: "drop 4 (take (fl_pos s2) (fl_memory s2)) = (bs @ ?pad) @ [0, 0, 0, 0] @ ?x"
    "fl_pos s2 \<le> length (fl_memory s2)" "4 \<le> fl_pos s2" "fl_version s2 = XCDRv2"
    using l1(2) by (simp_all add: laid_def xcdr_fields add.assoc)
  have c: "c = 4 + length bs + length ?pad + 4"
    using l1(1) arg_cong[of _ _ length] unfolding z(2)
    by (auto simp: laid_def xcdr_fields dest!: arg_cong[of _ _ length])
  let ?ys = "take 4 (fl_memory s2) @ bs @ ?pad"
  have t: "take (fl_pos s2) (fl_memory s2) = ?ys @ [0, 0, 0, 0] @ ?x"
  proof -
    have "take (fl_pos s2) (fl_memory s2) = take 4 (take (fl_pos s2) (fl_memory s2)) @ drop 4 (take (fl_pos s2) (fl_memory s2))"
      by (rule append_take_drop_id[symmetric])
    then show ?thesis using l2(1,3) by (simp add: min_def)
  qed
  have y: "length ?ys = c - 4" using l2(2,3) by (simp add: c)
  have n: "fl_pos s2 - c = length ?x" using arg_cong[OF t, of length] l2(2,3) by (simp add: c)
  let ?d = "be_bytes 4 (unat (of_nat (length ?x) :: 32 word))"
  have m: "take (fl_pos s2) (take (c - 4) (fl_memory s2) @ ?d @ drop c (fl_memory s2)) = ?ys @ ?d @ ?x"
    using patched[OF t _ l2(2), of ?d] y by (simp add: c)
  have s3: "s3 = s2\<lparr>fl_memory := take (c - 4) (fl_memory s2) @ ?d @ drop c (fl_memory s2)\<rparr>"
    using e n by (simp add: xcdr_fields xcdr_end_def c)
  have d4: "drop 4 (?ys @ ?d @ ?x) = bs @ ?pad @ ?d @ ?x" using l2(2,3) by simp
  have di: "delimited_image p BIG_ENDIANNESS (length bs) qs = ?pad @ ?d @ ?x"
    unfolding delimited_image_def Let_def h by (simp only: length_append length_be_bytes append_assoc)
  have f: "fl_version s3 = XCDRv2" "fl_pos s3 = fl_pos s2"
    "fl_memory s3 = take (c - 4) (fl_memory s2) @ ?d @ drop c (fl_memory s2)"
    unfolding s3 by (simp_all add: l2(4))
  have le: "c \<le> length (fl_memory s2)" using arg_cong[OF t, of length] l2(2) by (simp add: c)
  then have "length (fl_memory s3) = length (fl_memory s2)" unfolding f(3) by (simp add: c)
  then have "laid xcdr_cdr XCDRv2 (bs @ delimited_image p (cdr_default_endian xcdr_cdr) (length bs) qs) s3"
    unfolding laid_def xcdr_fields di f(1,2) using l2(2,3) m d4 by (simp only: f(3))
  then show "\<exists>pad. laid xcdr_cdr XCDRv2 (bs @ delimited_image pad (cdr_default_endian xcdr_cdr) (length bs) qs) s3" by blast
qed

lemma fits_xcdr_put: "length bs = n \<Longrightarrow> fits (xcdr_put k bs) (7 + n)"
proof -
  assume n: "length bs = n"
  have "cdr_pad (cdr_max_align v k) p \<le> 7" for v p
  proof (cases "cdr_max_align v k = 0")
    case True
    then show ?thesis by (simp add: cdr_pad_def cdr_max_align_def min_def split: if_splits)
  next
    case False
    then have "cdr_pad (cdr_max_align v k) p < cdr_max_align v k" by (simp add: cdr_pad_def)
    moreover have "cdr_max_align v k \<le> 8" by (auto simp: cdr_max_align_def min_def)
    ultimately show ?thesis by linarith
  qed
  note le = this
  show ?thesis unfolding fits_def
  proof (intro allI impI)
    fix s :: flat assume "fl_pos s + (7 + n) \<le> length (fl_memory s)"
    with le[of "fl_version s" "fl_pos s - 4"] n show "\<exists>s'. xcdr_put k bs s = Inr s' \<and> fl_pos s' \<le> fl_pos s + (7 + n)
        \<and> length (fl_memory s') = length (fl_memory s)" by (simp add: xcdr_put_def xcdr_skip_def flat_put_def Let_def)
  qed
qed

lemma fits_xcdr [fits_rules]:
  "fits (cdr_put_int32 xcdr_cdr i) 11" "fits (cdr_put_float xcdr_cdr x) 11"
  "fits (cdr_put_char xcdr_cdr c) 1" "fits (cdr_put_bool xcdr_cdr b) 1" "fits (cdr_put_chars xcdr_cdr cs) (length cs)"
  using fits_eq[OF fits_xcdr_put[OF length_be_bytes[of 4]], of 11] by (simp_all add: xcdr_cdr_def fits_put)

lemma fits_xcdr_Attitude [fits_rules]: "fits (Attitude_serialize xcdr_cdr a) 33"
  unfolding Attitude_serialize_def by (rule fits_eq, (rule fits_rules list.rel_intros)+) simp

lemma fits_xcdr_MovementAirEntity [fits_rules]:
  "fits (MovementAirEntity_serialize xcdr_cdr a) (179 + length (missionName a))"
  unfolding MovementAirEntity_serialize_def by (rule fits_eq, (rule fits_rules list.rel_intros)+) simp

lemma fits_xcdr_AirEntity: "fits (AirEntity_serialize xcdr_cdr a) (247 + length (missionName (movement a)))"
  unfolding AirEntity_serialize_def by (rule fits_eq, (rule fits_rules list.rel_intros)+) simp

definition demo_payload :: SerializedPayload where
  "demo_payload = \<lparr>pl_encapsulation = CDR_LE, pl_length = 0, pl_data = replicate 4 7 @ replicate 296 9\<rparr>"

theorem fast_sample_read_by_open_witness:
  "\<exists>p' s'. AirEntityPubSubType_serialize xcdr_cdr demo_air_entity XCDR2_DATA_REPRESENTATION demo_payload = (True, p')
   \<and> AirEntity_read (demo_ser_r (open_encoding XCDR2_DATA_REPRESENTATION BIG_ENDIANNESS) (payload_body p'), AirEntity_new)
     = (True, s', demo_air_entity) \<and> unread s' = []"
proof -
  let ?r = XCDR2_DATA_REPRESENTATION
  let ?o = "\<lparr>fl_memory = pl_data demo_payload, fl_pos = 0, fl_version = XCDRv2\<rparr>"
  have m: "length (missionName (movement demo_air_entity)) = 32"
    by (simp add: demo_air_entity_def AirEntity_new_def MovementAirEntity_new_def)
  have "flat_put [0, 0, 0, 0] ?o = Inr \<lparr>fl_memory = [0, 0, 0, 0] @ replicate 296 9, fl_pos = 4, fl_version = XCDRv2\<rparr>"
    by (simp add: flat_put_def demo_payload_def)
  moreover from fits_xcdr_AirEntity[of demo_air_entity] obtain s' where
    "AirEntity_serialize xcdr_cdr demo_air_entity \<lparr>fl_memory = [0, 0, 0, 0] @ replicate 296 9, fl_pos = 4, fl_version = XCDRv2\<rparr> = Inr s'"
    "length (fl_memory s') = 300" by (auto simp: fits_def m dest: spec[of _ "\<lparr>fl_memory = [0, 0, 0, 0] @ replicate 296 9, fl_pos = 4, fl_version = XCDRv2\<rparr>"])
  ultimately obtain p' where p': "AirEntityPubSubType_serialize xcdr_cdr demo_air_entity ?r demo_payload = (True, p')"
    "length (pl_data p') = 300"
    by (simp add: AirEntityPubSubType_serialize_def ps_serialize_def act_then_def xcdr_fields version_of_def Let_def)
  have e: "encoding_ok (open_encoding ?r BIG_ENDIANNESS)"
    by (simp add: open_encoding_def set_kind_def encoding_ok_def)
  have "\<exists>s'. AirEntity_read (demo_ser_r (open_encoding ?r BIG_ENDIANNESS) (payload_body p'), AirEntity_new)
     = (True, s', demo_air_entity) \<and> unread s' = []"
    by (rule fast_sample_read_by_open[OF xcdr_lays_out demo_air_entity_ok(1) p'(1) _ demo_ready(2)[OF e] _ _ demo_unread
        demo_air_entity_ok(2)])
      (simp_all add: p'(2) xcdr_fields, simp_all add: demo_ser_r_def)
  with p'(1) show ?thesis by blast
qed

lemma fits_xcdr_begin:
  assumes "fl_pos s + 11 \<le> length (fl_memory s)"
  shows "\<exists>s'. xcdr_begin DELIMIT_CDR2 0 s = Inr (fl_pos s', s') \<and> fl_pos s' \<le> fl_pos s + 11
    \<and> length (fl_memory s') = length (fl_memory s)"
proof -
  have "fits (xcdr_put 4 [0, 0, 0, 0]) (7 + 4)" by (rule fits_xcdr_put) simp
  with assms show ?thesis unfolding fits_def xcdr_begin_delimit by auto
qed

lemma fits_xcdr_TestControl: "fits (acts (TestControl_put_members xcdr_cdr a)) 46"
  unfolding TestControl_put_members_def
  by (rule fits_eq, rule fits_acts, (rule fits_rules list.rel_intros)+) simp

theorem fast_control_read_by_open_witness:
  "\<exists>p' s'. TestControlPubSubType_serialize xcdr_cdr demo_test_control XCDR2_DATA_REPRESENTATION demo_payload = (True, p')
   \<and> TestControl_read 5 (demo_ser_r (open_encoding XCDR2_DATA_REPRESENTATION BIG_ENDIANNESS) (payload_body p'), TestControl_new)
     = (True, s', demo_test_control) \<and> unread s' = []"
proof -
  let ?r = XCDR2_DATA_REPRESENTATION
  let ?s = "\<lparr>fl_memory = [0, 0, 0, 0] @ replicate 296 9, fl_pos = 4, fl_version = XCDRv2\<rparr>"
  have "flat_put [0, 0, 0, 0] \<lparr>fl_memory = pl_data demo_payload, fl_pos = 0, fl_version = XCDRv2\<rparr> = Inr ?s"
    by (simp add: flat_put_def demo_payload_def)
  moreover obtain s1 where s1: "xcdr_begin DELIMIT_CDR2 0 ?s = Inr (fl_pos s1, s1)" "fl_pos s1 \<le> 15"
    "length (fl_memory s1) = 300" using fits_xcdr_begin[of ?s] by auto
  moreover have "fl_pos s1 + 46 \<le> length (fl_memory s1)" using s1(2,3) by simp
  with fits_xcdr_TestControl[of demo_test_control] s1(3) obtain s2 where
    s2: "acts (TestControl_put_members xcdr_cdr demo_test_control) s1 = Inr s2" "length (fl_memory s2) = 300"
    unfolding fits_def by metis
  moreover obtain s3 where s3: "xcdr_end (fl_pos s1) s2 = Inr s3" by (simp add: xcdr_end_def)
  moreover have "length (fl_memory s3) < 2 ^ 32"
    using s3 s2(2) by (auto simp: xcdr_end_def)
  ultimately obtain p' where p': "TestControlPubSubType_serialize xcdr_cdr demo_test_control ?r demo_payload = (True, p')"
    "length (pl_data p') < 2 ^ 32"
    by (simp add: TestControlPubSubType_serialize_def TestControl_serialize_def delimited_encoding_def act_then_def
      xcdr_fields version_of_def Let_def)
  have e: "encoding_ok (open_encoding ?r BIG_ENDIANNESS)"
    by (simp add: open_encoding_def set_kind_def encoding_ok_def)
  have "\<exists>s'. TestControl_read 5 (demo_ser_r (open_encoding ?r BIG_ENDIANNESS) (payload_body p'), TestControl_new)
     = (True, s', demo_test_control) \<and> unread s' = []"
    by (rule fast_control_read_by_open[OF xcdr_lays_out xcdr_delimits demo_test_control_ok p'(1) p'(2) demo_ready(2)[OF e] _ _
        demo_unread])
      (simp_all add: xcdr_fields, simp_all add: demo_ser_r_def)
  with p'(1) show ?thesis by blast
qed

end
