(* ===== verification/InteropBack.thy ===== *)
theory InteropBack
  imports Interop
begin

section \<open>What an OpenDDS node writes, a Fast DDS node reads\<close>

text \<open>
  The other direction. The encapsulation in front of a payload, which compiled code of OpenDDS
  writes, is the parameter \<open>hdr\<close>. What is assumed of Fast CDR is that a stream opened on
  that header and values laid out as the OMG prescribes for it delivers these values.
\<close>

definition cdr_reads_back :: "('s, 'c) cdr_api \<Rightarrow> 8 word list \<Rightarrow> cdr_version \<Rightarrow> endianness \<Rightarrow> bool" where
  "cdr_reads_back api hdr v e \<longleftrightarrow> (\<forall>qs. list_all prim_ok qs \<longrightarrow>
     (\<exists>s. cdr_read_encapsulation api (cdr_open api (hdr @ wire_image (cdr_max_align v) e 0 qs)
        (cdr_default_endian api) XCDRv2) = Inr s \<and> reads api s qs))"

lemma AirEntity_prims_ok: "AirEntity_ok a \<Longrightarrow> list_all prim_ok (AirEntity_prims a)"
  by (auto simp: AirEntity_ok_def MovementAirEntity_ok_def AirEntity_prims_def Attitude_prims_def
    MovementAirEntity_prims_def)

text \<open>C8: Interoperability in the other direction: where Fast CDR reads what is laid out as the OMG
  prescribes, an \<open>AirEntity\<close> an OpenDDS publisher has written, in representation 1 or 2 and in either
  byte order, into whatever blocks, is deserialized by the Fast DDS type support from the header
  and these bytes as the very same object, whatever the object read into held.\<close>

theorem open_sample_read_by_fast:
  assumes "ready_w s" "sw_pos s = 0" "sw_encoding s = open_encoding r e"
    and "AirEntity_ok a" "AirEntity_write a s = (True, s')"
    and "cdr_reads_back api hdr (version_of r) e"
    and "members_in_order api dt_a" "members_in_order api dt_m" "members_in_order api dt"
    and "pl_data p = hdr @ drop (length (sw_bytes s)) (sw_bytes s')" "pl_length p = length (pl_data p)"
  shows "\<exists>p'. AirEntityPubSubType_deserialize api dt_a dt_m dt p d = (True, p', a)"
proof -
  have "wrote (image_at (sw_encoding s) (sw_pos s) (AirEntity_prims a)) s s'"
    by (rule inserts_wrote[OF inserts_AirEntity[OF assms(4)] assms(1,5)])
  then have b: "take (pl_length p) (pl_data p) = hdr @ wire_image (cdr_max_align (version_of r)) e 0 (AirEntity_prims a)"
    using assms(2,3,10,11) by (simp add: wrote_def open_encoding_image)
  obtain t where t: "cdr_read_encapsulation api (cdr_open api (take (pl_length p) (pl_data p))
      (cdr_default_endian api) XCDRv2) = Inr t" "reads api t (AirEntity_prims a)"
    using assms(6) AirEntity_prims_ok[OF assms(4)] unfolding cdr_reads_back_def b by blast
  obtain t' where "AirEntity_deserialize api dt_a dt_m dt (t, d) = Inr (t', a)"
    using fetches_AirEntity[OF assms(7-9,4)] t(2) unfolding fetches_def by (metis append_Nil2)
  with t(1) show ?thesis by (simp add: AirEntityPubSubType_deserialize_def ps_deserialize_def)
qed

subsection \<open>The concrete library reads back what it lays out\<close>

lemma xcdr_get_prim: "get_prim xcdr_cdr q s = get_prim flat_cdr q (xcdr_skip (prim_align q) s)"
  by (cases q) (simp_all add: xcdr_cdr_def xcdr_skip_def cdr_pad_def cdr_max_align_def)

lemma flat_prim_bytes: "flat_prim q = prim_bytes BIG_ENDIANNESS q"
  by (cases q) (simp_all add: mem_bytes_def)

lemma xcdr_reads:
  assumes "list_all prim_ok qs" "4 \<le> fl_pos s"
    and "drop (fl_pos s) (fl_memory s) = wire_image (cdr_max_align (fl_version s)) BIG_ENDIANNESS (fl_pos s - 4) qs"
  shows "reads xcdr_cdr s qs"
  using assms
proof (induction qs arbitrary: s)
  case (Cons q qs)
  let ?pad = "cdr_pad (cdr_max_align (fl_version s) (prim_align q)) (fl_pos s - 4)"
  let ?t = "xcdr_skip (prim_align q) s"
  let ?u = "?t\<lparr>fl_pos := fl_pos ?t + length (flat_prim q)\<rparr>"
  let ?rest = "wire_image (cdr_max_align (fl_version s)) BIG_ENDIANNESS (fl_pos s - 4 + (?pad + length (flat_prim q))) qs"
  have d: "drop (fl_pos s) (fl_memory s) = replicate ?pad 0 @ flat_prim q @ ?rest"
    using Cons.prems(3) by (simp add: Let_def flat_prim_bytes)
  have t: "fl_memory ?t = fl_memory s" "fl_pos ?t = fl_pos s + ?pad" "fl_version ?t = fl_version s"
    by (simp_all add: xcdr_skip_def)
  have "drop (fl_pos ?t) (fl_memory ?t) = drop ?pad (drop (fl_pos s) (fl_memory s))"
    by (simp add: t add.commute)
  then have dt: "drop (fl_pos ?t) (fl_memory ?t) = flat_prim q @ ?rest" by (simp add: d)
  have g: "get_prim xcdr_cdr q s = Inr (q, ?u)"
    unfolding xcdr_get_prim using Cons.prems(1) by (intro flat_get_prim[OF _ dt]) simp
  have "drop (fl_pos ?u) (fl_memory ?u) = drop (length (flat_prim q)) (drop (fl_pos ?t) (fl_memory ?t))"
    by (simp add: add.commute)
  then have "drop (fl_pos ?u) (fl_memory ?u) = ?rest" by (simp add: dt)
  moreover have "fl_pos s - 4 + (?pad + length (flat_prim q)) = fl_pos ?u - 4" using Cons.prems(2) by (simp add: t)
  ultimately have "reads xcdr_cdr ?u qs" using Cons.prems(1,2) by (intro Cons.IH) (simp_all add: t)
  moreover have "0 < length (flat_prim q)" using Cons.prems(1) by (intro flat_prim_nonempty) simp
  ultimately show ?case using g by (simp add: xcdr_fields t)
qed simp

lemma xcdr_reads_back:
  "cdr_reads_back xcdr_cdr [0, 0, 0, 0] XCDRv1 BIG_ENDIANNESS" "cdr_reads_back xcdr_cdr [0, 6, 0, 0] XCDRv2 BIG_ENDIANNESS"
proof -
  have "cdr_read_encapsulation xcdr_cdr (cdr_open xcdr_cdr ([a, b, c, d] @ xs) e XCDRv2) =
      Inr \<lparr>fl_memory = [a, b, c, d] @ xs, fl_pos = 4, fl_version = (if b = 6 then XCDRv2 else XCDRv1)\<rparr>" for a b c d xs e
    by (simp add: xcdr_cdr_def flat_get_def)
  then show "cdr_reads_back xcdr_cdr [0, 0, 0, 0] XCDRv1 BIG_ENDIANNESS" "cdr_reads_back xcdr_cdr [0, 6, 0, 0] XCDRv2 BIG_ENDIANNESS"
    unfolding cdr_reads_back_def by (auto intro!: xcdr_reads)
qed

theorem open_sample_read_by_fast_witness:
  "\<exists>bs p'. AirEntity_write demo_air_entity (demo_ser_w (open_encoding XCDR2_DATA_REPRESENTATION BIG_ENDIANNESS))
      = (True, bs)
   \<and> AirEntityPubSubType_deserialize xcdr_cdr flat_deserialize_type flat_deserialize_type flat_deserialize_type
      \<lparr>pl_encapsulation = CDR_LE, pl_length = 4 + length (sw_bytes bs), pl_data = [0, 6, 0, 0] @ sw_bytes bs\<rparr> AirEntity_new
      = (True, p', demo_air_entity)"
proof -
  let ?e = "open_encoding XCDR2_DATA_REPRESENTATION BIG_ENDIANNESS"
  let ?s = "demo_ser_w ?e"
  have e: "encoding_ok ?e" by (simp add: open_encoding_def set_kind_def encoding_ok_def)
  have s: "sw_pos ?s = 0" "sw_encoding ?s = ?e" "room ?s = 140" "sw_bytes ?s = []"
    by (simp_all add: demo_ser_w_def room_def)
  have "fst (AirEntity_write demo_air_entity ?s)"
    using inserts_AirEntity[OF demo_air_entity_ok(1)] demo_ready(1)[OF e] image_AirEntity_length[OF e demo_air_entity_ok(1)]
    by (auto simp: inserts_def Let_def s)
  then obtain s' where w: "AirEntity_write demo_air_entity ?s = (True, s')"
    by (cases "AirEntity_write demo_air_entity ?s") simp
  have v: "version_of XCDR2_DATA_REPRESENTATION = XCDRv2" by (simp add: version_of_def)
  let ?p = "\<lparr>pl_encapsulation = CDR_LE, pl_length = 4 + length (sw_bytes s'), pl_data = [0, 6, 0, 0] @ sw_bytes s'\<rparr>"
  have "pl_data ?p = [0, 6, 0, 0] @ drop (length (sw_bytes ?s)) (sw_bytes s')" "pl_length ?p = length (pl_data ?p)"
    by (simp_all add: s)
  from open_sample_read_by_fast[OF demo_ready(1)[OF e] s(1,2) demo_air_entity_ok(1) w _ flat_in_order flat_in_order flat_in_order this,
      unfolded v, OF xcdr_reads_back(2), of AirEntity_new] w
  show ?thesis by blast
qed

end
