(* ===== verification/CycloneStream.thy ===== *)
theory CycloneStream
  imports OpenReader
begin

unbundle bit_operations_syntax

section \<open>The streams of the Cyclone C++ library\<close>

text \<open>
  \<open>org/eclipse/cyclonedds/core/cdr/\<close>: \<open>entity_properties.hpp\<close> (the description of a type, a
  vector of entities linked into a tree) and \<open>cdr_stream.hpp\<close> (the base class of the streams
  and the functions that read, write and measure a primitive value), as far as the generated
  types use them. A pointer to an entity is its index in the vector.

  The bodies that are compiled into the library (\<open>align\<close>, \<open>bytes_available\<close>, \<open>reset\<close>,
  \<open>set_buffer\<close>, the virtual functions but those that \<open>cdr_stream\<close> defines in the header, \<open>finish\<close>,
  \<open>append_struct_contents\<close>, \<open>add_key_endpoint\<close>) are the parameter \<open>cyclone_lib\<close>.
\<close>

subsection \<open>Entities\<close>

datatype extensibility = ext_final | ext_appendable | ext_mutable
datatype bit_bound = bb_unset | bb_8_bits | bb_16_bits | bb_32_bits | bb_64_bits
datatype key_endpoint = KeyEndpoint "(nat \<times> key_endpoint) list"

definition get_bit_bound :: "nat \<Rightarrow> bit_bound" where
  "get_bit_bound sizeof_T = (if sizeof_T = 1 then bb_8_bits else if sizeof_T = 2 then bb_16_bits
     else if sizeof_T = 4 then bb_32_bits else if sizeof_T = 8 then bb_64_bits else bb_unset)"

record entity_properties =
  ep_e_ext :: extensibility
  ep_p_ext :: extensibility
  ep_m_id :: nat
  ep_depth :: nat
  ep_must_understand :: bool
  ep_xtypes_necessary :: bool
  ep_implementation_extension :: bool
  ep_ignore :: bool
  ep_is_optional :: bool
  ep_is_key :: bool
  ep_is_present :: bool
  ep_e_bb :: bit_bound
  ep_next_on_level :: "nat option"
  ep_prev_on_level :: "nat option"
  ep_parent :: "nat option"
  ep_first_member :: "nat option"

type_synonym propvec = "entity_properties list"

definition entity_properties_new :: "nat \<Rightarrow> nat \<Rightarrow> bool \<Rightarrow> bit_bound \<Rightarrow> extensibility \<Rightarrow> bool \<Rightarrow> entity_properties" where
  "entity_properties_new dep m_id is_optional bb ext must_understand =
     \<lparr>ep_e_ext = ext, ep_p_ext = ext_final, ep_m_id = m_id, ep_depth = dep,
      ep_must_understand = must_understand, ep_xtypes_necessary = (ext \<noteq> ext_final \<or> is_optional),
      ep_implementation_extension = False, ep_ignore = False, ep_is_optional = is_optional,
      ep_is_key = False, ep_is_present = False, ep_e_bb = bb,
      ep_next_on_level = None, ep_prev_on_level = None, ep_parent = None, ep_first_member = None\<rparr>"

subsection \<open>Streams\<close>

datatype stream_kind = basic_cdr_stream | xcdr_v1_stream | xcdr_v2_stream
datatype stream_mode = mode_unset | mode_read | mode_write | mode_move | mode_max

text \<open>
  \<open>cs_buffer\<close> is the memory from \<open>m_buffer\<close> on, \<open>m_buffer_size\<close> bytes of it; a null pointer has
  none. The members from \<open>cs_status\<close> on are used by the compiled code only.
\<close>

record cdr_stream =
  cs_kind :: stream_kind
  cs_endianness :: endianness
  cs_swap :: bool
  cs_position :: nat
  cs_max_alignment :: nat
  cs_current_alignment :: nat
  cs_buffer :: "8 word list"
  cs_mode :: stream_mode
  cs_key :: bool
  cs_status :: "64 word"
  cs_fault_mask :: "64 word"
  cs_buffer_end :: "nat list"
  cs_e_off :: "32 word list"
  cs_e_sz :: "32 word list"
  cs_consecutives :: "(bool \<times> bool) list"
  cs_delimiters :: "nat list"

definition SIZE_MAX :: nat where
  "SIZE_MAX = 2 ^ 64 - 1"

record cyclone_lib =
  cl_native :: endianness
  cl_align :: "nat \<Rightarrow> bool \<Rightarrow> cdr_stream \<Rightarrow> bool \<times> cdr_stream"
  cl_bytes_available :: "nat \<Rightarrow> bool \<Rightarrow> cdr_stream \<Rightarrow> bool \<times> cdr_stream"
  cl_reset :: "cdr_stream \<Rightarrow> cdr_stream"
  cl_set_buffer :: "8 word list \<Rightarrow> cdr_stream \<Rightarrow> cdr_stream"
  cl_start_struct :: "nat \<Rightarrow> cdr_stream \<times> propvec \<Rightarrow> bool \<times> cdr_stream \<times> propvec"
  cl_finish_struct :: "nat \<Rightarrow> cdr_stream \<times> propvec \<Rightarrow> bool \<times> cdr_stream \<times> propvec"
  cl_first_entity :: "nat \<Rightarrow> cdr_stream \<times> propvec \<Rightarrow> nat option \<times> cdr_stream \<times> propvec"
  cl_next_entity :: "nat \<Rightarrow> cdr_stream \<times> propvec \<Rightarrow> nat option \<times> cdr_stream \<times> propvec"
  cl_start_member :: "nat \<Rightarrow> bool \<Rightarrow> cdr_stream \<times> propvec \<Rightarrow> bool \<times> cdr_stream \<times> propvec"
  cl_finish_member :: "nat \<Rightarrow> bool \<Rightarrow> cdr_stream \<times> propvec \<Rightarrow> bool \<times> cdr_stream \<times> propvec"
  cl_start_consecutive :: "bool \<Rightarrow> bool \<Rightarrow> cdr_stream \<Rightarrow> bool \<times> cdr_stream"
  cl_finish_consecutive :: "cdr_stream \<Rightarrow> bool \<times> cdr_stream"
  cl_finish :: "propvec \<Rightarrow> key_endpoint \<Rightarrow> propvec"
  cl_append_struct_contents :: "propvec \<Rightarrow> propvec \<Rightarrow> propvec"
  cl_add_key_endpoint :: "nat list \<Rightarrow> key_endpoint \<Rightarrow> key_endpoint"

text \<open>The constructors: \<open>basic_cdr_stream\<close> and \<open>xcdr_v1_stream\<close> align to 8 bytes at most, \<open>xcdr_v2_stream\<close> to 4.\<close>

definition cdr_stream_new :: "cyclone_lib \<Rightarrow> stream_kind \<Rightarrow> endianness \<Rightarrow> cdr_stream" where
  "cdr_stream_new lib kind end =
     \<lparr>cs_kind = kind, cs_endianness = end, cs_swap = (cl_native lib \<noteq> end), cs_position = 0,
      cs_max_alignment = (if kind = xcdr_v2_stream then 4 else 8), cs_current_alignment = 1,
      cs_buffer = [], cs_mode = mode_unset, cs_key = False, cs_status = 0, cs_fault_mask = NOT 0,
      cs_buffer_end = [], cs_e_off = [], cs_e_sz = [], cs_consecutives = [], cs_delimiters = []\<rparr>"

definition incr_position :: "nat \<Rightarrow> cdr_stream \<Rightarrow> cdr_stream" where
  "incr_position incr_by s = (if cs_position s \<noteq> SIZE_MAX
     then s\<lparr>cs_position := (cs_position s + incr_by) mod 2 ^ 64\<rparr> else s)"

definition set_mode :: "cyclone_lib \<Rightarrow> stream_mode \<Rightarrow> bool \<Rightarrow> cdr_stream \<Rightarrow> cdr_stream" where
  "set_mode lib mode key s = cl_reset lib (s\<lparr>cs_mode := mode, cs_key := key\<rparr>)"

text \<open>
  A command of a generated function: it works on the stream, on the description of the type and
  on the object; \<open>None\<close> says that it does not return. \<open>cyc_all\<close> gives up at the first that
  answers \<open>false\<close>.
\<close>

type_synonym 'd strm = "cdr_stream \<times> propvec \<times> 'd"
type_synonym 'd cyc = "'d strm \<Rightarrow> (bool \<times> 'd strm) option"

fun cyc_all :: "'d cyc list \<Rightarrow> 'd cyc" where
  "cyc_all [] x = Some (True, x)"
| "cyc_all (f # fs) x = Option.bind (f x) (\<lambda>(ok, y). if ok then cyc_all fs y else Some (False, y))"

definition on_props :: "(cdr_stream \<times> propvec \<Rightarrow> bool \<times> cdr_stream \<times> propvec) \<Rightarrow> 'd cyc" where
  "on_props f = (\<lambda>(s, ps, d). case f (s, ps) of (ok, s, ps) \<Rightarrow> Some (ok, s, ps, d))"

definition on_stream :: "(cdr_stream \<Rightarrow> bool \<times> cdr_stream) \<Rightarrow> 'd cyc" where
  "on_stream f = (\<lambda>(s, ps, d). case f s of (ok, s) \<Rightarrow> Some (ok, s, ps, d))"

text \<open>The virtual functions that \<open>cdr_stream\<close> defines and \<open>basic_cdr_stream\<close> inherits.\<close>

definition start_member :: "cyclone_lib \<Rightarrow> nat \<Rightarrow> bool \<Rightarrow> cdr_stream \<times> propvec \<Rightarrow> bool \<times> cdr_stream \<times> propvec" where
  "start_member lib prop is_set = (\<lambda>(s, ps). if cs_kind s = basic_cdr_stream
     then (True, s, ps[prop := (ps ! prop)\<lparr>ep_is_present := is_set\<rparr>])
     else cl_start_member lib prop is_set (s, ps))"

definition finish_member :: "cyclone_lib \<Rightarrow> nat \<Rightarrow> bool \<Rightarrow> cdr_stream \<times> propvec \<Rightarrow> bool \<times> cdr_stream \<times> propvec" where
  "finish_member lib prop is_set = (\<lambda>(s, ps). if cs_kind s = basic_cdr_stream
     then (True, s, ps) else cl_finish_member lib prop is_set (s, ps))"

definition start_consecutive :: "cyclone_lib \<Rightarrow> bool \<Rightarrow> bool \<Rightarrow> cdr_stream \<Rightarrow> bool \<times> cdr_stream" where
  "start_consecutive lib is_array primitive s = (if cs_kind s = xcdr_v2_stream
     then cl_start_consecutive lib is_array primitive s else (True, s))"

definition finish_consecutive :: "cyclone_lib \<Rightarrow> cdr_stream \<Rightarrow> bool \<times> cdr_stream" where
  "finish_consecutive lib s = (if cs_kind s = xcdr_v2_stream then cl_finish_consecutive lib s else (True, s))"

subsection \<open>Byte swapping\<close>

definition byte_swap_4 :: "32 word \<Rightarrow> 32 word" where
  "byte_swap_4 u = (let u = push_bit 16 (u AND 0x0000FFFF) OR drop_bit 16 (u AND 0xFFFF0000)
     in push_bit 8 (u AND 0x00FF00FF) OR drop_bit 8 (u AND 0xFF00FF00))"

definition byte_swap_mem_4 :: "endianness \<Rightarrow> 8 word list \<Rightarrow> 8 word list" where
  "byte_swap_mem_4 native bs = mem_bytes native 4 (unat (byte_swap_4 (of_nat (mem_value native bs))))"

text \<open>\<open>byte_swap\<close> of a value in memory, chosen by its size; 8 bytes are swapped as two halves.\<close>

definition byte_swap :: "endianness \<Rightarrow> 8 word list \<Rightarrow> 8 word list" where
  "byte_swap native bs = (if length bs = 8
     then byte_swap_mem_4 native (drop 4 bs) @ byte_swap_mem_4 native (take 4 bs)
     else if length bs = 4 then byte_swap_mem_4 native bs else bs)"

subsection \<open>Primitive values\<close>

text \<open>
  \<open>read\<close>, \<open>write\<close>, \<open>move\<close> and \<open>max\<close> of \<open>N\<close> values of an arithmetic type: \<open>prim_align q\<close> is its
  \<open>sizeof(T)\<close> and \<open>prim_bytes native q\<close> what it, or the array, is in memory. \<open>N\<close> is 1
  whenever \<open>sizeof(T)\<close> is not 1: the only arrays are arrays of \<open>char\<close>.
\<close>

definition cdr_write :: "cyclone_lib \<Rightarrow> prim \<Rightarrow> cdr_stream \<Rightarrow> bool \<times> cdr_stream" where
  "cdr_write lib q s = (if cs_position s = SIZE_MAX then (False, s)
     else case cl_align lib (prim_align q) True s of (ok, s) \<Rightarrow> if \<not> ok then (False, s)
     else let from = prim_bytes (cl_native lib) q in
       case cl_bytes_available lib (length from) False s of (ok, s) \<Rightarrow> if \<not> ok then (False, s)
     else let to = (if 1 < prim_align q \<and> cs_swap s then byte_swap (cl_native lib) from else from)
       in (True, incr_position (length from) (s\<lparr>cs_buffer := put_at (cs_position s) to (cs_buffer s)\<rparr>)))"

definition cdr_move :: "cyclone_lib \<Rightarrow> prim \<Rightarrow> cdr_stream \<Rightarrow> bool \<times> cdr_stream" where
  "cdr_move lib q s = (if cs_position s = SIZE_MAX then (True, s)
     else case cl_align lib (prim_align q) False s of (ok, s) \<Rightarrow> if \<not> ok then (False, s)
     else (True, incr_position (length (prim_bytes (cl_native lib) q)) s))"

definition cdr_max :: "cyclone_lib \<Rightarrow> prim \<Rightarrow> cdr_stream \<Rightarrow> bool \<times> cdr_stream" where
  "cdr_max lib q s = cdr_move lib q s"

definition cdr_read :: "cyclone_lib \<Rightarrow> nat \<Rightarrow> nat \<Rightarrow> cdr_stream \<Rightarrow> 8 word list option \<times> cdr_stream" where
  "cdr_read lib sizeof_T N s = (if cs_position s = SIZE_MAX then (None, s)
     else case cl_align lib sizeof_T False s of (ok, s) \<Rightarrow> if \<not> ok then (None, s)
     else case cl_bytes_available lib (sizeof_T * N) False s of (ok, s) \<Rightarrow> if \<not> ok then (None, s)
     else let from = take (sizeof_T * N) (drop (cs_position s) (cs_buffer s));
         to = (if 1 < sizeof_T \<and> cs_swap s then byte_swap (cl_native lib) from else from)
       in (Some to, incr_position (sizeof_T * N) s))"

text \<open>The value that ends up in the variable read into, and the variable in the object.\<close>

definition read_value :: "cyclone_lib \<Rightarrow> nat \<Rightarrow> nat \<Rightarrow> (8 word list \<Rightarrow> 'd \<Rightarrow> 'd) \<Rightarrow> 'd cyc" where
  "read_value lib sizeof_T N store = (\<lambda>(s, ps, d). case cdr_read lib sizeof_T N s of
     (None, s) \<Rightarrow> Some (False, s, ps, d) | (Some bs, s) \<Rightarrow> Some (True, s, ps, store bs d))"

definition read_int32 :: "cyclone_lib \<Rightarrow> (int \<Rightarrow> 'd \<Rightarrow> 'd) \<Rightarrow> 'd cyc" where
  "read_int32 lib store = read_value lib 4 1 (\<lambda>bs. store (i32 (int (mem_value (cl_native lib) bs))))"

definition read_uint32 :: "cyclone_lib \<Rightarrow> (32 word \<Rightarrow> 'd \<Rightarrow> 'd) \<Rightarrow> 'd cyc" where
  "read_uint32 lib store = read_value lib 4 1 (\<lambda>bs. store (of_nat (mem_value (cl_native lib) bs)))"

definition read_float :: "cyclone_lib \<Rightarrow> (float_bits \<Rightarrow> 'd \<Rightarrow> 'd) \<Rightarrow> 'd cyc" where
  "read_float lib store = read_value lib 4 1 (\<lambda>bs. store (of_nat (mem_value (cl_native lib) bs)))"

definition read_double :: "cyclone_lib \<Rightarrow> (double_bits \<Rightarrow> 'd \<Rightarrow> 'd) \<Rightarrow> 'd cyc" where
  "read_double lib store = read_value lib 8 1 (\<lambda>bs. store (of_nat (mem_value (cl_native lib) bs)))"

definition read_one_char :: "cyclone_lib \<Rightarrow> (c_char \<Rightarrow> 'd \<Rightarrow> 'd) \<Rightarrow> 'd cyc" where
  "read_one_char lib store = read_value lib 1 1 (\<lambda>bs. store (hd bs))"

text \<open>A byte other than 0 and 1 is no value of a \<open>bool\<close>; it counts as true.\<close>

definition read_bool :: "cyclone_lib \<Rightarrow> (bool \<Rightarrow> 'd \<Rightarrow> 'd) \<Rightarrow> 'd cyc" where
  "read_bool lib store = read_value lib 1 1 (\<lambda>bs. store (hd bs \<noteq> 0))"

definition read_chars :: "cyclone_lib \<Rightarrow> nat \<Rightarrow> (c_char list \<Rightarrow> 'd \<Rightarrow> 'd) \<Rightarrow> 'd cyc" where
  "read_chars lib N store = read_value lib 1 N store"

subsection \<open>The generated functions\<close>

text \<open>
  What the generated \<open>write\<close>, \<open>read\<close>, \<open>move\<close> and \<open>max\<close> of a type have in common: a member
  between \<open>start_member\<close> and \<open>finish_member\<close>, an array of \<open>char\<close> between \<open>start_consecutive\<close> and
  \<open>finish_consecutive\<close>, the \<open>switch\<close> over \<open>prop->m_id\<close> (\<open>cases\<close> holds the branches 0, 1, \<open>\<dots>\<close>),
  and the loop over the entities between \<open>start_struct\<close> and \<open>finish_struct\<close>. Whether the loop
  ends depends on \<open>next_entity\<close>.
\<close>

definition cyc_member :: "cyclone_lib \<Rightarrow> (nat \<Rightarrow> 'd cyc) \<Rightarrow> nat \<Rightarrow> 'd cyc" where
  "cyc_member lib body prop = cyc_all
    [on_props (start_member lib prop True), body prop, on_props (finish_member lib prop True)]"

definition cyc_array :: "cyclone_lib \<Rightarrow> 'd cyc \<Rightarrow> 'd cyc" where
  "cyc_array lib body = cyc_all
    [on_stream (start_consecutive lib True True), body, on_stream (finish_consecutive lib)]"

definition cyc_switch :: "(nat \<Rightarrow> 'd cyc) list \<Rightarrow> nat \<Rightarrow> 'd cyc" where
  "cyc_switch cases prop = (\<lambda>(s, ps, d). let m = ep_m_id (ps ! prop) in
     if m < length cases then (cases ! m) prop (s, ps, d) else Some (True, s, ps, d))"

definition cyc_next :: "(cdr_stream \<times> propvec \<Rightarrow> nat option \<times> cdr_stream \<times> propvec) \<Rightarrow> 'd strm \<Rightarrow> nat option \<times> 'd strm" where
  "cyc_next f = (\<lambda>(s, ps, d). case f (s, ps) of (prop, s, ps) \<Rightarrow> (prop, s, ps, d))"

partial_function (option) entity_loop :: "cyclone_lib \<Rightarrow> (nat \<Rightarrow> 'd cyc) \<Rightarrow> nat option \<Rightarrow> 'd strm \<Rightarrow> (bool \<times> 'd strm) option" where
  "entity_loop lib body prop x = (case prop of None \<Rightarrow> Some (True, x)
     | Some p \<Rightarrow> Option.bind (body p x) (\<lambda>r. if \<not> fst r then Some (False, snd r)
         else entity_loop lib body (fst (cyc_next (cl_next_entity lib p) (snd r))) (snd (cyc_next (cl_next_entity lib p) (snd r)))))"

definition cyc_struct :: "cyclone_lib \<Rightarrow> (nat \<Rightarrow> 'd cyc) list \<Rightarrow> nat \<Rightarrow> 'd cyc" where
  "cyc_struct lib cases props = cyc_all
    [on_props (cl_start_struct lib props),
     (\<lambda>x. case cyc_next (cl_first_entity lib props) x of (prop, x) \<Rightarrow> entity_loop lib (cyc_switch cases) prop x),
     on_props (cl_finish_struct lib props)]"

end
