(* ===== verification/CycloneLaws.thy ===== *)
theory CycloneLaws
  imports CycloneStream
begin

section \<open>What the streams of the Cyclone C++ library do\<close>

subsection \<open>Swapping reverses the bytes\<close>

lemma be_bytes_word: "be_bytes 4 (unat (w :: 32 word)) = [ucast (drop_bit 24 w), ucast (drop_bit 16 w), ucast (drop_bit 8 w), ucast w]"
proof -
  have e: "be_bytes 4 x = [of_nat (x div 256 div 256 div 256 mod 256), of_nat (x div 256 div 256 mod 256),
      of_nat (x div 256 mod 256), of_nat (x mod 256)]" for x
  proof -
    have "(4 :: nat) = Suc (Suc (Suc (Suc 0)))" by simp
    then show ?thesis by (simp only: be_bytes.simps append.simps)
  qed
  have "of_nat (unat w div n mod 256) = (ucast (drop_bit k w) :: 8 word)" if "n = 2 ^ k" for n k
    using that by (simp add: word_unat_eq_iff unat_of_nat unsigned_ucast_eq unat_drop_bit_eq drop_bit_eq_div[where 'a = nat] take_bit_eq_mod)
  from this[of "256 * 256 * 256" 24] this[of "256 * 256" 16] this[of 256 8] this[of 1 0]
  show ?thesis unfolding e by (simp add: div_mult2_eq[symmetric])
qed

lemma byte_swap_4_bytes:
  "(ucast (drop_bit 24 (byte_swap_4 w)) :: 8 word) = ucast w"
  "(ucast (drop_bit 16 (byte_swap_4 w)) :: 8 word) = ucast (drop_bit 8 w)"
  "(ucast (drop_bit 8 (byte_swap_4 w)) :: 8 word) = ucast (drop_bit 16 w)"
  "(ucast (byte_swap_4 w) :: 8 word) = ucast (drop_bit 24 w)"
  unfolding byte_swap_4_def Let_def
  by (rule bit_word_eqI; simp add: bit_simps; auto simp: less_Suc_eq numeral_eq_Suc)+

lemma be_bytes_of_value: "be_bytes (length bs) (be_value bs 0) = bs \<and> be_value bs 0 < 256 ^ length bs"
proof (induction bs rule: rev_induct)
  case (snoc b bs)
  have "unat b < 256" using unsigned_less[of b] by simp
  moreover have "256 * be_value bs 0 + unat b < 256 * 256 ^ length bs"
  proof -
    have "be_value bs 0 + 1 \<le> 256 ^ length bs" using snoc by simp
    then have "256 * (be_value bs 0 + 1) \<le> 256 * 256 ^ length bs" by (rule mult_le_mono2)
    with \<open>unat b < 256\<close> show ?thesis by simp
  qed
  ultimately show ?case using snoc by (simp add: be_value_append)
qed simp

lemma be_bytes_value: "length bs = 4 \<Longrightarrow> be_bytes 4 (unat (of_nat (be_value bs 0) :: 32 word)) = bs"
proof -
  assume l: "length bs = 4"
  then have "be_value bs 0 < 2 ^ LENGTH(32)" using be_bytes_of_value[of bs] by simp
  then have "unat (of_nat (be_value bs 0) :: 32 word) = be_value bs 0" by (simp only: unat_of_nat mod_less)
  with l show ?thesis using be_bytes_of_value[of bs] by simp
qed

lemma byte_swap_mem_4_rev: "length bs = 4 \<Longrightarrow> byte_swap_mem_4 native bs = rev bs"
proof -
  assume l: "length bs = 4"
  have r: "be_bytes 4 (unat (byte_swap_4 w)) = rev (be_bytes 4 (unat w))" for w
    by (simp add: be_bytes_word byte_swap_4_bytes)
  have "be_bytes 4 (unat (of_nat (be_value bs 0) :: 32 word)) = bs"
    "be_bytes 4 (unat (of_nat (be_value (rev bs) 0) :: 32 word)) = rev bs"
    using l by (simp_all add: be_bytes_value)
  then show ?thesis by (cases native) (simp_all add: byte_swap_mem_4_def mem_bytes_def mem_value_def r)
qed

lemma byte_swap_rev: "length bs \<in> {1, 4, 8} \<Longrightarrow> byte_swap native bs = rev bs"
proof -
  assume l: "length bs \<in> {1, 4, 8}"
  then consider "length bs = 1" | "length bs = 4" | "length bs = 8" by auto
  then show ?thesis
  proof cases
    case 1
    then obtain b where "bs = [b]" by (auto simp: length_Suc_conv)
    then show ?thesis by (simp add: byte_swap_def)
  next
    case 2
    then show ?thesis by (simp add: byte_swap_def byte_swap_mem_4_rev)
  next
    case 3
    then have "rev (drop 4 bs) @ rev (take 4 bs) = rev bs" by (metis append_take_drop_id rev_append)
    with 3 show ?thesis by (simp add: byte_swap_def byte_swap_mem_4_rev)
  qed
qed

subsection \<open>What the compiled part promises\<close>

text \<open>
  Two states of a stream that agree in everything but the members of the compiled code; a stream
  that only measures; a position the stream is aligned at. The documented behaviour is stated
  for positions below \<open>2 ^ 62\<close>, far above any buffer and far below the sentinel \<open>SIZE_MAX\<close>.
\<close>

definition like :: "cdr_stream \<Rightarrow> cdr_stream \<Rightarrow> bool" where
  "like s t \<longleftrightarrow> cs_kind s = cs_kind t \<and> cs_endianness s = cs_endianness t \<and> cs_swap s = cs_swap t
   \<and> cs_position s = cs_position t \<and> cs_max_alignment s = cs_max_alignment t
   \<and> cs_current_alignment s = cs_current_alignment t \<and> cs_buffer s = cs_buffer t
   \<and> cs_mode s = cs_mode t \<and> cs_key s = cs_key t"

definition measuring :: "cdr_stream \<Rightarrow> bool" where
  "measuring s \<longleftrightarrow> cs_mode s = mode_move \<or> cs_mode s = mode_max"

definition aligned :: "cdr_stream \<Rightarrow> bool" where
  "aligned s \<longleftrightarrow> cs_current_alignment s dvd cs_position s \<and> cs_position s < 2 ^ 62"

text \<open>
  \<open>align\<close> moves the cursor to the next multiple of the alignment, at most the maximal one, when
  a buffer that is read or written has the bytes for it, and zeroes them on request.
  \<open>bytes_available\<close> compares with the end of the buffer. \<open>reset\<close> and \<open>set_buffer\<close> go back to the
  first byte.
\<close>

definition cursor_ok :: "cyclone_lib \<Rightarrow> bool" where
  "cursor_ok lib \<longleftrightarrow>
   (\<forall>n z s. n \<in> {1, 4, 8} \<longrightarrow> aligned s \<longrightarrow> (z \<longrightarrow> \<not> measuring s) \<longrightarrow>
     (let k = cdr_pad (min n (cs_max_alignment s)) (cs_position s) in
       if measuring s \<or> cs_position s + k \<le> length (cs_buffer s)
       then \<exists>t. cl_align lib n z s = (True, t)
         \<and> like t (s\<lparr>cs_position := cs_position s + k, cs_current_alignment := min n (cs_max_alignment s),
             cs_buffer := (if z then put_at (cs_position s) (replicate k 0) (cs_buffer s) else cs_buffer s)\<rparr>)
       else \<not> fst (cl_align lib n z s)))
   \<and> (\<forall>n s. cs_position s < 2 ^ 62 \<longrightarrow> \<not> measuring s \<longrightarrow>
       (if cs_position s + n \<le> length (cs_buffer s)
        then \<exists>t. cl_bytes_available lib n False s = (True, t) \<and> like t s
        else \<not> fst (cl_bytes_available lib n False s)))
   \<and> (\<forall>s. \<exists>al. like (cl_reset lib s) (s\<lparr>cs_position := 0, cs_current_alignment := al\<rparr>))
   \<and> (\<forall>bs s. \<exists>al. like (cl_set_buffer lib bs s) (s\<lparr>cs_position := 0, cs_current_alignment := al, cs_buffer := bs\<rparr>))"

text \<open>An entity but for the mark that it was seen; a description of final types, nothing optional.\<close>

definition skel :: "propvec \<Rightarrow> propvec" where
  "skel ps = map (\<lambda>e. e\<lparr>ep_is_present := False\<rparr>) ps"

definition plain_props :: "propvec \<Rightarrow> bool" where
  "plain_props ps \<longleftrightarrow> (\<forall>e \<in> set ps. ep_e_ext e = ext_final \<and> \<not> ep_is_optional e)"

text \<open>The entities one meets from a pointer along the links of a level, up to the null pointer.\<close>

fun linked :: "propvec \<Rightarrow> nat option \<Rightarrow> nat list \<Rightarrow> bool" where
  "linked ps p [] \<longleftrightarrow> p = None"
| "linked ps p (i # js) \<longleftrightarrow> p = Some i \<and> i < length ps \<and> linked ps (ep_next_on_level (ps ! i)) js"

definition first_of :: "nat list \<Rightarrow> nat option" where
  "first_of js = (case js of [] \<Rightarrow> None | j # _ \<Rightarrow> Some j)"

definition wanted :: "bool \<Rightarrow> propvec \<Rightarrow> nat list \<Rightarrow> nat list" where
  "wanted key ps js = filter (\<lambda>j. key \<longrightarrow> ep_is_key (ps ! j)) js"

text \<open>
  For such a description no stream puts headers around a structure, a member or an array of
  primitive values, and the members of a level are visited along its links, in a key stream
  those that are part of the key. A structure is complete when no member that has to be
  understood is missing.
\<close>

definition quiet :: "cdr_stream \<times> propvec \<Rightarrow> bool \<times> cdr_stream \<times> propvec \<Rightarrow> bool" where
  "quiet x r \<longleftrightarrow> fst r \<and> like (fst (snd r)) (fst x) \<and> skel (snd (snd r)) = skel (snd x)"

definition plain_ok :: "cyclone_lib \<Rightarrow> bool" where
  "plain_ok lib \<longleftrightarrow> (\<forall>s ps p. plain_props ps \<longrightarrow> p < length ps \<longrightarrow>
     quiet (s, ps) (cl_start_struct lib p (s, ps))
   \<and> (\<forall>js. linked ps (ep_first_member (ps ! p)) js \<longrightarrow> (\<forall>j \<in> set js. \<not> ep_must_understand (ps ! j)) \<longrightarrow>
        quiet (s, ps) (cl_finish_struct lib p (s, ps)))
   \<and> quiet (s, ps) (cl_start_member lib p True (s, ps)) \<and> quiet (s, ps) (cl_finish_member lib p True (s, ps))
   \<and> (\<forall>js. linked ps (ep_first_member (ps ! p)) js \<longrightarrow>
        fst (cl_first_entity lib p (s, ps)) = first_of (wanted (cs_key s) ps js)
        \<and> quiet (s, ps) (True, snd (cl_first_entity lib p (s, ps))))
   \<and> (\<forall>js. linked ps (ep_next_on_level (ps ! p)) js \<longrightarrow>
        fst (cl_next_entity lib p (s, ps)) = first_of (wanted (cs_key s) ps js)
        \<and> quiet (s, ps) (True, snd (cl_next_entity lib p (s, ps)))))
   \<and> (\<forall>s. fst (cl_start_consecutive lib True True s) \<and> like (snd (cl_start_consecutive lib True True s)) s
      \<and> fst (cl_finish_consecutive lib s) \<and> like (snd (cl_finish_consecutive lib s)) s)"

text \<open>
  \<open>finish\<close> links the entities by their depth and marks the members named by the key; what an
  entity is it keeps. \<open>append_struct_contents\<close> adds the members of a type below the last entity.
\<close>

definition ep_core :: "entity_properties \<Rightarrow> nat \<times> nat \<times> extensibility \<times> bool \<times> bool" where
  "ep_core e = (ep_depth e, ep_m_id e, ep_e_ext e, ep_must_understand e, ep_is_optional e)"

definition first_at :: "nat list \<Rightarrow> nat \<Rightarrow> nat option" where
  "first_at ds i = (if Suc i < length ds \<and> ds ! Suc i = Suc (ds ! i) then Some (Suc i) else None)"

definition next_at :: "nat list \<Rightarrow> nat \<Rightarrow> nat option" where
  "next_at ds i = (case find (\<lambda>j. ds ! j \<le> ds ! i) [Suc i..<length ds] of
     None \<Rightarrow> None | Some j \<Rightarrow> if ds ! j = ds ! i then Some j else None)"

definition links_ok :: "propvec \<Rightarrow> bool" where
  "links_ok ps \<longleftrightarrow> (let ds = map ep_depth ps in \<forall>i < length ps.
     ep_first_member (ps ! i) = first_at ds i \<and> ep_next_on_level (ps ! i) = next_at ds i)"

definition tree_ok :: "cyclone_lib \<Rightarrow> bool" where
  "tree_ok lib \<longleftrightarrow>
   (\<forall>ps keys. map ep_core (cl_finish lib ps keys) = map ep_core ps \<and> links_ok (cl_finish lib ps keys))
   \<and> (\<forall>ps m. \<forall>e \<in> set (cl_finish lib ps (cl_add_key_endpoint lib [m] (KeyEndpoint []))).
        ep_depth e = 1 \<longrightarrow> (ep_is_key e \<longleftrightarrow> ep_m_id e = m))
   \<and> (\<forall>ps qs. ps \<noteq> [] \<longrightarrow> map ep_core (cl_append_struct_contents lib ps qs) = map ep_core ps
        @ map (\<lambda>(dep, r). (dep + ep_depth (last ps), r)) (tl (map ep_core qs)))"

definition cyclone_ok :: "cyclone_lib \<Rightarrow> bool" where
  "cyclone_ok lib \<longleftrightarrow> cursor_ok lib \<and> plain_ok lib \<and> tree_ok lib"

end
