(* ===== verification/CycloneWire.thy ===== *)
theory CycloneWire
  imports CycloneLaws OpenTypes
begin

section \<open>What a generated function of Cyclone does to a stream\<close>

text \<open>
  \<open>does lib m k L f qs g\<close>: on a stream in mode \<open>m\<close>, for the whole object or the key (\<open>k\<close>), and a
  description that is \<open>L\<close> but for the marks of what was seen, the command \<open>f\<close> returns and keeps it so. It answers
  true when there is room for the image of the values \<open>qs\<close>, false otherwise; the stream is then
  behind that image, which a writing stream holds, and the object is changed by \<open>g\<close>, on a reading
  stream under the condition that the stream carries the image.
\<close>

definition stream_image :: "cdr_stream \<Rightarrow> prim list \<Rightarrow> 8 word list" where
  "stream_image s = wire_image (\<lambda>n. min n (cs_max_alignment s)) (cs_endianness s) (cs_position s)"

definition stream_ok :: "cyclone_lib \<Rightarrow> cdr_stream \<Rightarrow> bool" where
  "stream_ok lib s \<longleftrightarrow> aligned s \<and> cs_swap s = (cl_native lib \<noteq> cs_endianness s)
   \<and> (cs_max_alignment s = 4 \<or> cs_max_alignment s = 8)
   \<and> (\<not> measuring s \<longrightarrow> cs_position s \<le> length (cs_buffer s) \<and> length (cs_buffer s) < 2 ^ 61)"

definition advanced :: "8 word list \<Rightarrow> cdr_stream \<Rightarrow> cdr_stream \<Rightarrow> bool" where
  "advanced xs s t \<longleftrightarrow> aligned t \<and> like t (s\<lparr>cs_position := cs_position s + length xs,
     cs_current_alignment := cs_current_alignment t,
     cs_buffer := (if cs_mode s = mode_write then put_at (cs_position s) xs (cs_buffer s) else cs_buffer s)\<rparr>)"

definition has_room :: "cdr_stream \<Rightarrow> nat \<Rightarrow> bool" where
  "has_room s n \<longleftrightarrow> measuring s \<or> cs_position s + n \<le> length (cs_buffer s)"

definition carries :: "cdr_stream \<Rightarrow> 8 word list \<Rightarrow> bool" where
  "carries s xs \<longleftrightarrow> cs_mode s = mode_read \<longrightarrow> take (length xs) (drop (cs_position s) (cs_buffer s)) = xs"

abbreviation outcome :: "propvec \<Rightarrow> cdr_stream \<Rightarrow> prim list \<Rightarrow> ('d \<Rightarrow> 'd) \<Rightarrow> 'd \<Rightarrow> (bool \<times> 'd strm) option \<Rightarrow> bool" where
  "outcome L s qs g d r \<equiv> \<exists>ok t ps' d'. r = Some (ok, t, ps', d') \<and> skel ps' = L
     \<and> (if has_room s (length (stream_image s qs)) then ok \<and> advanced (stream_image s qs) s t
          \<and> (carries s (stream_image s qs) \<longrightarrow> d' = g d) else \<not> ok)"

definition does :: "cyclone_lib \<Rightarrow> stream_mode \<Rightarrow> bool \<Rightarrow> propvec \<Rightarrow> 'd cyc \<Rightarrow> prim list \<Rightarrow> ('d \<Rightarrow> 'd) \<Rightarrow> bool" where
  "does lib m k L f qs g \<longleftrightarrow> (\<forall>s ps d. stream_ok lib s \<longrightarrow> cs_mode s = m \<longrightarrow> cs_key s = k \<longrightarrow> skel ps = L
     \<longrightarrow> (measuring s \<longrightarrow> cs_position s + length (stream_image s qs) < 2 ^ 62)
     \<longrightarrow> outcome L s qs g d (f (s, ps, d)))"

lemma doesI:
  assumes "\<And>s ps d. stream_ok lib s \<Longrightarrow> cs_mode s = m \<Longrightarrow> cs_key s = k \<Longrightarrow> skel ps = L
      \<Longrightarrow> (measuring s \<longrightarrow> cs_position s + length (stream_image s qs) < 2 ^ 62)
      \<Longrightarrow> outcome L s qs g d (f (s, ps, d))"
  shows "does lib m k L f qs g"
  using assms unfolding does_def by blast

lemma doesE:
  assumes "does lib m k L f qs g" "stream_ok lib s" "cs_mode s = m" "cs_key s = k" "skel ps = L"
    and "measuring s \<longrightarrow> cs_position s + length (stream_image s qs) < 2 ^ 62"
  obtains (good) t ps' d' where "f (s, ps, d) = Some (True, t, ps', d')" "has_room s (length (stream_image s qs))"
      "advanced (stream_image s qs) s t" "skel ps' = L" "carries s (stream_image s qs) \<Longrightarrow> d' = g d"
  | (full) t ps' d' where "f (s, ps, d) = Some (False, t, ps', d')" "\<not> has_room s (length (stream_image s qs))" "skel ps' = L"
proof -
  from assms(1)[unfolded does_def, rule_format, OF assms(2-5) assms(6)[rule_format], of d]
  show thesis using that by (auto split: if_splits)
qed

named_theorems does_rules "what a command does to a stream"

subsection \<open>Sequences\<close>

lemma does_cong:
  assumes "\<And>s ps d. skel ps = L \<Longrightarrow> f (s, ps, d) = h (s, ps, d)" "does lib m k L h qs g"
  shows "does lib m k L f qs g"
proof (rule doesI)
  fix s ps and d :: 'a
  assume s: "stream_ok lib s" "cs_mode s = m" "cs_key s = k" "skel ps = L"
    and lim: "measuring s \<longrightarrow> cs_position s + length (stream_image s qs) < 2 ^ 62"
  show "outcome L s qs g d (f (s, ps, d))"
    unfolding assms(1)[OF s(4)] by (rule assms(2)[unfolded does_def, rule_format, OF s lim[rule_format]])
qed

lemma put_at_put_at: "put_at (i + length xs) ys (put_at i xs b) = put_at i (xs @ ys) b"
  if "i + length xs \<le> length b"
  using that by (simp add: put_at_def drop_drop ac_simps)

lemma length_put_at_le: "i + length xs \<le> length b \<Longrightarrow> length (put_at i xs b) = length b"
  by (rule length_put_at)

lemma not_measuring: "cs_mode s = mode_write \<Longrightarrow> \<not> measuring s" "cs_mode s = mode_read \<Longrightarrow> \<not> measuring s"
  by (simp_all add: measuring_def)

lemma advanced_ok:
  assumes "advanced xs s t" "stream_ok lib s" "has_room s (length xs)"
  shows "stream_ok lib t" "cs_mode t = cs_mode s" "measuring t = measuring s" "cs_key t = cs_key s"
    "cs_position t = cs_position s + length xs" "cs_max_alignment t = cs_max_alignment s"
    "cs_endianness t = cs_endianness s" "length (cs_buffer t) = length (cs_buffer s)"
    "has_room t n \<longleftrightarrow> has_room s (length xs + n)"
  using assms not_measuring(1)[of s]
  by (auto simp: advanced_def like_def stream_ok_def has_room_def measuring_def length_put_at_le)

lemma advanced_trans:
  assumes "advanced xs s t" "advanced ys t u" "has_room s (length xs)"
  shows "advanced (xs @ ys) s u"
  using assms not_measuring(1)[of s] by (auto simp: advanced_def like_def has_room_def put_at_put_at add.assoc)

lemma advanced_like: "like t s \<Longrightarrow> aligned s \<Longrightarrow> advanced [] s t"
  by (auto simp: advanced_def like_def aligned_def put_at_def)

lemma carries_append:
  assumes "carries s (xs @ ys)" "advanced xs s t"
  shows "carries s xs" "carries t ys"
proof -
  have "take (length xs) (take (length xs + length ys) zs) = take (length xs) zs"
    "drop (length xs) (take (length xs + length ys) zs) = take (length ys) (drop (length xs) zs)" for zs :: "8 word list"
    by (simp_all add: drop_take)
  then have "take (length xs) zs = xs \<and> take (length ys) (drop (length xs) zs) = ys"
    if "take (length xs + length ys) zs = xs @ ys" for zs using that by (metis append_eq_conv_conj)
  from this[of "drop (cs_position s) (cs_buffer s)"] have "take (length xs + length ys) (drop (cs_position s) (cs_buffer s)) = xs @ ys \<Longrightarrow>
      take (length xs) (drop (cs_position s) (cs_buffer s)) = xs
      \<and> take (length ys) (drop (cs_position s + length xs) (cs_buffer s)) = ys"
    by (simp add: add.commute)
  moreover have "cs_mode t = cs_mode s" "cs_position t = cs_position s + length xs"
    "cs_mode s = mode_read \<Longrightarrow> cs_buffer t = cs_buffer s"
    using assms(2) by (simp_all add: advanced_def like_def)
  ultimately show "carries s xs" "carries t ys" using assms(1) by (simp_all add: carries_def)
qed

lemma has_room_0 [simp]: "stream_ok lib s \<Longrightarrow> has_room s 0"
  by (auto simp: stream_ok_def has_room_def)

lemma has_room_le: "has_room s n \<Longrightarrow> m \<le> n \<Longrightarrow> has_room s m"
  by (auto simp: has_room_def)

lemma image_split:
  assumes "advanced (stream_image s qs) s t"
  shows "stream_image s (qs @ rs) = stream_image s qs @ stream_image t rs"
  using assms by (simp add: stream_image_def image_append advanced_def like_def)

lemma does_then:
  assumes f: "does lib m k L f qs g" and h: "does lib m k L h rs g'"
  shows "does lib m k L (\<lambda>x. Option.bind (f x) (\<lambda>(ok, y). if ok then h y else Some (False, y))) (qs @ rs) (\<lambda>d. g' (g d))"
proof (rule doesI)
  fix s ps and d :: 'a
  let ?h = "\<lambda>x. Option.bind (f x) (\<lambda>(ok, y). if ok then h y else Some (False, y))"
  assume s: "stream_ok lib s" "cs_mode s = m" "cs_key s = k" "skel ps = L"
    and lim: "measuring s \<longrightarrow> cs_position s + length (stream_image s (qs @ rs)) < 2 ^ 62"
  have le: "length (stream_image s (qs @ rs)) = length (stream_image s qs)
      + length (wire_image (\<lambda>n. min n (cs_max_alignment s)) (cs_endianness s) (cs_position s + length (stream_image s qs)) rs)"
    by (simp add: stream_image_def image_append)
  then have "measuring s \<longrightarrow> cs_position s + length (stream_image s qs) < 2 ^ 62" using lim by auto
  from f s this show "outcome L s (qs @ rs) (\<lambda>d. g' (g d)) d (?h (s, ps, d))"
  proof (cases rule: doesE[where d = d])
    case (good t ps' d')
    note t = advanced_ok[OF good(3) s(1) good(2)]
    note im = image_split[OF good(3), of rs]
    note c = carries_append[OF _ good(3), of "stream_image t rs"]
    have m: "cs_mode t = m" "cs_key t = k" using t s by simp_all
    have "measuring t \<longrightarrow> cs_position t + length (stream_image t rs) < 2 ^ 62" using lim im t by (simp add: add.assoc)
    from h t(1) m good(4) this show ?thesis
    proof (cases rule: doesE[where d = d'])
      case (good u ps'' d'')
      then show ?thesis using \<open>f (s, ps, d) = _\<close> advanced_trans[OF \<open>advanced (stream_image s qs) s t\<close> good(3)]
          \<open>has_room s (length (stream_image s qs))\<close> t(9) im c \<open>carries s (stream_image s qs) \<Longrightarrow> d' = g d\<close> by auto
    next
      case (full u ps'' d'')
      then show ?thesis using \<open>f (s, ps, d) = _\<close> t(9) im by auto
    qed
  next
    case (full t ps' d')
    moreover have "\<not> has_room s (length (stream_image s (qs @ rs)))"
      using full(2) has_room_le le by auto
    ultimately show ?thesis by auto
  qed
qed

lemma does_none [does_rules]: "does lib m k L (cyc_all []) [] (\<lambda>d. d)"
  by (rule doesI) (auto simp: stream_image_def advanced_like like_def stream_ok_def has_room_def)

lemma does_all:
  "does lib m k L f qs g \<Longrightarrow> does lib m k L (cyc_all fs) rs g' \<Longrightarrow> does lib m k L (cyc_all (f # fs)) (qs @ rs) (\<lambda>d. g' (g d))"
proof -
  assume "does lib m k L f qs g" "does lib m k L (cyc_all fs) rs g'"
  from does_then[OF this] show ?thesis by (rule does_cong[rotated]) simp
qed

text \<open>Commands that put or take nothing.\<close>

lemma does_quiet_props:
  assumes "\<And>s ps. skel ps = L \<Longrightarrow> quiet (s, ps) (f (s, ps))"
  shows "does lib m k L (on_props f) [] (\<lambda>d. d)"
proof (rule doesI)
  fix s ps and d :: 'a
  assume s: "stream_ok lib s" "skel ps = L"
  obtain ok t ps' where f: "f (s, ps) = (ok, t, ps')" by (cases "f (s, ps)")
  have "ok" "like t s" "skel ps' = L" using assms[OF s(2), of s] s(2) by (simp_all add: f quiet_def)
  then show "outcome L s [] (\<lambda>d. d) d (on_props f (s, ps, d))"
    using s(1) by (auto simp: on_props_def f stream_image_def advanced_like stream_ok_def has_room_def)
qed

lemma does_quiet_stream:
  assumes "\<And>s. fst (f s) \<and> like (snd (f s)) s"
  shows "does lib m k L (on_stream f) [] (\<lambda>d. d)"
proof (rule doesI)
  fix s ps and d :: 'a
  assume s: "stream_ok lib s" "skel ps = L"
  obtain ok t where f: "f s = (ok, t)" by (cases "f s")
  with assms[of s] s show "outcome L s [] (\<lambda>d. d) d (on_stream f (s, ps, d))"
    by (auto simp: on_stream_def stream_image_def advanced_like stream_ok_def has_room_def)
qed

text \<open>A command after a quiet look at the description: what it would have done before it.\<close>

lemma does_after_quiet:
  assumes f: "does lib m k L f qs g" and q: "skel ps = L" "quiet (s, ps) (True, t, ps')"
    and s: "stream_ok lib s" "cs_mode s = m" "cs_key s = k"
    and lim: "measuring s \<longrightarrow> cs_position s + length (stream_image s qs) < 2 ^ 62"
  shows "outcome L s qs g d (f (t, ps', d))"
proof -
  have l: "like t s" "skel ps' = L" using q by (simp_all add: quiet_def)
  have t: "stream_ok lib t" "cs_mode t = m" "cs_key t = k" "stream_image t qs = stream_image s qs"
    "has_room t = has_room s" "cs_position t = cs_position s" "measuring t = measuring s"
    "\<And>u xs. advanced xs t u = advanced xs s u" "\<And>xs. carries t xs = carries s xs"
    using l(1) s by (auto simp: like_def stream_ok_def aligned_def measuring_def stream_image_def has_room_def
      advanced_def carries_def)
  show ?thesis by (rule f[unfolded does_def, rule_format, OF t(1-3) l(2), of d, unfolded t(4-9), OF lim[rule_format]])
qed

subsection \<open>Primitive values\<close>

lemma pad_dvd: "0 < a \<Longrightarrow> a dvd p + cdr_pad a (p :: nat)"
proof -
  assume a: "0 < a"
  have "p + (a - 1) - (p + (a - 1)) mod a = (p + (a - 1)) div a * a" by (rule minus_mod_eq_div_mult)
  then show ?thesis unfolding round_up_pad[OF a, of p, symmetric] by simp
qed

lemma pad_less: "0 < a \<Longrightarrow> cdr_pad a (p :: nat) < a"
  by (simp add: cdr_pad_def)

lemma prim_size: "prim_align q \<in> {1, 4, 8}" "prim_align q \<noteq> 1 \<Longrightarrow> length (prim_bytes e q) = prim_align q"
  "prim_align q dvd length (prim_bytes e q)"
  by (cases q; simp)+

lemma swapped_prim_bytes:
  "(if 1 < prim_align q \<and> native \<noteq> e then byte_swap native (prim_bytes native q) else prim_bytes native q) = prim_bytes e q"
proof (cases "1 < prim_align q")
  case True
  then have "byte_swap native (prim_bytes native q) = rev (prim_bytes native q)"
    using prim_size(1)[of q] by (intro byte_swap_rev) (auto simp: prim_size(2))
  moreover have "(if e \<noteq> native then rev (prim_bytes native q) else prim_bytes native q) = prim_bytes e q"
    using True by (cases q; cases e; cases native) (simp_all add: mem_bytes_def)
  ultimately show ?thesis using True by auto
next
  case False
  then show ?thesis by (cases q) simp_all
qed

lemma align_to:
  assumes lib: "cyclone_ok lib" and s: "stream_ok lib s" and n: "n \<in> {1, 4, 8}" and z: "z \<longrightarrow> \<not> measuring s"
  defines "k \<equiv> cdr_pad (min n (cs_max_alignment s)) (cs_position s)"
  obtains (good) t where "cl_align lib n z s = (True, t)" "has_room s k"
      "like t (s\<lparr>cs_position := cs_position s + k, cs_current_alignment := min n (cs_max_alignment s),
             cs_buffer := (if z then put_at (cs_position s) (replicate k 0) (cs_buffer s) else cs_buffer s)\<rparr>)"
  | (full) t where "cl_align lib n z s = (False, t)" "\<not> has_room s k"
proof -
  have c: "\<forall>n z s. n \<in> {1, 4, 8} \<longrightarrow> aligned s \<longrightarrow> (z \<longrightarrow> \<not> measuring s) \<longrightarrow>
     (let k = cdr_pad (min n (cs_max_alignment s)) (cs_position s) in
       if measuring s \<or> cs_position s + k \<le> length (cs_buffer s)
       then \<exists>t. cl_align lib n z s = (True, t)
         \<and> like t (s\<lparr>cs_position := cs_position s + k, cs_current_alignment := min n (cs_max_alignment s),
             cs_buffer := (if z then put_at (cs_position s) (replicate k 0) (cs_buffer s) else cs_buffer s)\<rparr>)
       else \<not> fst (cl_align lib n z s))"
    using lib unfolding cyclone_ok_def cursor_ok_def by blast
  have "aligned s" using s by (simp add: stream_ok_def)
  then have "if measuring s \<or> cs_position s + k \<le> length (cs_buffer s)
       then \<exists>t. cl_align lib n z s = (True, t)
         \<and> like t (s\<lparr>cs_position := cs_position s + k, cs_current_alignment := min n (cs_max_alignment s),
             cs_buffer := (if z then put_at (cs_position s) (replicate k 0) (cs_buffer s) else cs_buffer s)\<rparr>)
       else \<not> fst (cl_align lib n z s)"
    using spec[OF spec[OF spec[OF c, of n], of z], of s] n z unfolding Let_def k_def by blast
  with that show ?thesis unfolding has_room_def by (cases "cl_align lib n z s") (auto split: if_splits)
qed

lemma available:
  assumes lib: "cyclone_ok lib" and s: "cs_position s < 2 ^ 62" "\<not> measuring s"
  obtains (good) t where "cl_bytes_available lib n False s = (True, t)" "cs_position s + n \<le> length (cs_buffer s)" "like t s"
  | (full) t where "cl_bytes_available lib n False s = (False, t)" "\<not> cs_position s + n \<le> length (cs_buffer s)"
proof -
  have "if cs_position s + n \<le> length (cs_buffer s)
        then \<exists>t. cl_bytes_available lib n False s = (True, t) \<and> like t s
        else \<not> fst (cl_bytes_available lib n False s)"
    using lib s unfolding cyclone_ok_def cursor_ok_def by blast
  with that show ?thesis by (cases "cl_bytes_available lib n False s") (auto split: if_splits)
qed

lemma small_position: "stream_ok lib s \<Longrightarrow> cs_position s \<noteq> SIZE_MAX"
  by (auto simp: stream_ok_def aligned_def SIZE_MAX_def)

lemma image_one: "stream_image s [q] = replicate (cdr_pad (min (prim_align q) (cs_max_alignment s)) (cs_position s)) 0
    @ prim_bytes (cs_endianness s) q"
  by (simp add: stream_image_def)

lemma min_align_dvd: "stream_ok lib s \<Longrightarrow> min (prim_align q) (cs_max_alignment s) dvd length (prim_bytes e q)"
  "stream_ok lib s \<Longrightarrow> 0 < min (prim_align q) (cs_max_alignment s)"
  by (cases q; auto simp: stream_ok_def min_def)+

lemma does_move:
  assumes lib: "cyclone_ok lib" and m: "m = mode_move \<or> m = mode_max"
  shows "does lib m k L (on_stream (cdr_move lib q)) [q] (\<lambda>d. d)"
proof (rule doesI)
  fix s ps and d :: 'a
  assume s: "stream_ok lib s" "cs_mode s = m" "skel ps = L"
    and lim: "measuring s \<longrightarrow> cs_position s + length (stream_image s [q]) < 2 ^ 62"
  have z: "False \<longrightarrow> \<not> measuring s" and me: "measuring s" and w: "cs_mode s \<noteq> mode_write"
    using m s(2) by (auto simp: measuring_def)
  let ?k = "cdr_pad (min (prim_align q) (cs_max_alignment s)) (cs_position s)"
  show "outcome L s [q] (\<lambda>d. d) d (on_stream (cdr_move lib q) (s, ps, d))"
    using lib s(1) prim_size(1)[of q] z
  proof (cases rule: align_to)
    case (good t)
    let ?n = "length (prim_bytes (cl_native lib) q)"
    have n: "?n = length (prim_bytes (cs_endianness s) q)" by (cases q) simp_all
    let ?u = "incr_position ?n t"
    have p: "cs_position t = cs_position s + ?k" "cs_current_alignment t = min (prim_align q) (cs_max_alignment s)"
      using good(3) by (simp_all add: like_def)
    have l: "length (stream_image s [q]) = ?k + ?n" by (simp add: image_one n)
    have u: "?u = t\<lparr>cs_position := cs_position t + ?n\<rparr>"
      using lim me l p by (simp add: incr_position_def SIZE_MAX_def)
    have "min (prim_align q) (cs_max_alignment s) dvd cs_position s + ?k + ?n"
      by (rule dvd_add[OF pad_dvd[OF min_align_dvd(2)[OF s(1)]] min_align_dvd(1)[OF s(1)]])
    then have "advanced (stream_image s [q]) s ?u"
      using good(3) w me lim l unfolding u by (auto simp: advanced_def like_def aligned_def p)
    then show ?thesis using good(1) me s(3) small_position[OF s(1)]
      by (auto simp: on_stream_def cdr_move_def has_room_def)
  next
    case (full t)
    then show ?thesis using me by (simp add: has_room_def)
  qed
qed

lemma does_measure:
  "cyclone_ok lib \<Longrightarrow> does lib mode_move k L (on_stream (cdr_move lib q)) [q] (\<lambda>d. d)"
  "cyclone_ok lib \<Longrightarrow> does lib mode_max k L (on_stream (cdr_max lib q)) [q] (\<lambda>d. d)"
  using does_move[of lib mode_move] does_move[of lib mode_max] by (simp_all add: cdr_max_def[abs_def])

lemma does_write:
  assumes lib: "cyclone_ok lib"
  shows "does lib mode_write k L (on_stream (cdr_write lib q)) [q] (\<lambda>d. d)"
proof (rule doesI)
  fix s ps and d :: 'a
  assume s: "stream_ok lib s" "cs_mode s = mode_write" "skel ps = L"
  then have z: "True \<longrightarrow> \<not> measuring s" and nm: "\<not> measuring s" by (simp_all add: measuring_def)
  let ?k = "cdr_pad (min (prim_align q) (cs_max_alignment s)) (cs_position s)"
  let ?bs = "prim_bytes (cl_native lib) q"
  have n: "length ?bs = length (prim_bytes (cs_endianness s) q)" by (cases q) simp_all
  have l: "length (stream_image s [q]) = ?k + length ?bs" by (simp add: image_one n)
  have b: "cs_position s \<le> length (cs_buffer s)" "length (cs_buffer s) < 2 ^ 61" using s nm by (simp_all add: stream_ok_def)
  show "outcome L s [q] (\<lambda>d. d) d (on_stream (cdr_write lib q) (s, ps, d))"
    using lib s(1) prim_size(1)[of q] z
  proof (cases rule: align_to)
    case (good t)
    have t: "cs_position t = cs_position s + ?k" "\<not> measuring t" "length (cs_buffer t) = length (cs_buffer s)"
      using good(2,3) nm by (auto simp: like_def measuring_def has_room_def length_put_at_le)
    have "cs_position t < 2 ^ 62" using good(2) nm b by (simp add: t has_room_def)
    from lib this t(2) show ?thesis
    proof (cases rule: available[where n = "length ?bs"])
      case (good u)
      let ?bs' = "if 1 < prim_align q \<and> cs_swap u then byte_swap (cl_native lib) ?bs else ?bs"
      let ?v = "incr_position (length ?bs) (u\<lparr>cs_buffer := put_at (cs_position u) ?bs' (cs_buffer u)\<rparr>)"
      have u: "cs_swap u = (cl_native lib \<noteq> cs_endianness s)" "cs_position u = cs_position s + ?k"
        "cs_current_alignment u = min (prim_align q) (cs_max_alignment s)"
        "cs_buffer u = put_at (cs_position s) (replicate ?k 0) (cs_buffer s)"
        using good(3) \<open>like t _\<close> s(1) by (simp_all add: like_def stream_ok_def)
      have bs': "?bs' = prim_bytes (cs_endianness s) q" unfolding u(1) by (rule swapped_prim_bytes)
      have r: "cs_position s + (?k + length ?bs) \<le> length (cs_buffer s)" using good(2) t by simp
      have v: "?v = u\<lparr>cs_position := cs_position s + (?k + length ?bs),
          cs_buffer := put_at (cs_position s) (stream_image s [q]) (cs_buffer s)\<rparr>"
        using r b put_at_put_at[of "cs_position s" "replicate ?k 0" "cs_buffer s" "prim_bytes (cs_endianness s) q"]
        unfolding bs' u(2,4) by (simp add: incr_position_def SIZE_MAX_def image_one u add.assoc)
      have "min (prim_align q) (cs_max_alignment s) dvd cs_position s + ?k + length ?bs"
        by (rule dvd_add[OF pad_dvd[OF min_align_dvd(2)[OF s(1)]] min_align_dvd(1)[OF s(1)]])
      then have "advanced (stream_image s [q]) s ?v"
        using good(3) \<open>like t _\<close> s(2) l r b unfolding v by (auto simp: advanced_def like_def aligned_def u add.assoc)
      moreover have "cdr_write lib q s = (True, ?v)"
        using \<open>cl_align lib _ True s = _\<close> good(1) small_position[OF s(1)] by (simp add: cdr_write_def Let_def)
      ultimately show ?thesis using r l s(3) by (auto simp: on_stream_def has_room_def)
    next
      case (full u)
      then have "cdr_write lib q s = (False, u)"
        using \<open>cl_align lib _ True s = _\<close> small_position[OF s(1)] by (simp add: cdr_write_def Let_def)
      moreover have "\<not> has_room s (length (stream_image s [q]))" using full(2) t nm by (simp add: l has_room_def)
      ultimately show ?thesis using s(3) by (simp add: on_stream_def) blast
    qed
  next
    case (full t)
    then have "cdr_write lib q s = (False, t)" using small_position[OF s(1)] by (simp add: cdr_write_def)
    moreover have "\<not> has_room s (length (stream_image s [q]))" using full(2) has_room_le l by (metis le_add1)
    ultimately show ?thesis using s(3) by (simp add: on_stream_def) blast
  qed
qed

subsection \<open>Structures\<close>

lemma skel_facts:
  "length (skel ps) = length ps" "i < length ps \<Longrightarrow> ep_m_id (skel ps ! i) = ep_m_id (ps ! i)"
  "i < length ps \<Longrightarrow> ep_is_key (skel ps ! i) = ep_is_key (ps ! i)"
  "i < length ps \<Longrightarrow> ep_first_member (skel ps ! i) = ep_first_member (ps ! i)"
  "i < length ps \<Longrightarrow> ep_next_on_level (skel ps ! i) = ep_next_on_level (ps ! i)"
  "i < length ps \<Longrightarrow> ep_must_understand (skel ps ! i) = ep_must_understand (ps ! i)"
  "plain_props (skel ps) = plain_props ps"
  by (simp_all add: skel_def plain_props_def)

lemma linked_skel: "linked (skel ps) p js = linked ps p js"
  by (induction js arbitrary: p) (simp_all add: skel_facts(1,5) cong: conj_cong)

lemma linked_range: "linked ps p js \<Longrightarrow> j \<in> set js \<Longrightarrow> j < length ps"
  by (induction js arbitrary: p) auto

lemma wanted_skel: "linked ps p js \<Longrightarrow> wanted k (skel ps) js = wanted k ps js"
  unfolding wanted_def by (rule filter_cong) (auto simp: skel_facts dest: linked_range)

lemma linked_next: "linked ps p (xs @ j # js) \<Longrightarrow> j < length ps \<and> linked ps (ep_next_on_level (ps ! j)) js"
  by (induction xs arbitrary: p) auto

lemma quiet_trans: "quiet x (True, y) \<Longrightarrow> quiet y r \<Longrightarrow> quiet x r"
  by (cases x; cases y) (auto simp: quiet_def like_def)

text \<open>The level of a structure: its entity, the members behind the links, what the library does there.\<close>

definition level :: "propvec \<Rightarrow> nat \<Rightarrow> nat list \<Rightarrow> bool" where
  "level L p js \<longleftrightarrow> plain_props L \<and> p < length L \<and> linked L (ep_first_member (L ! p)) js
   \<and> (\<forall>j \<in> set js. \<not> ep_must_understand (L ! j))"

lemma level_quiet:
  assumes lib: "cyclone_ok lib" and l: "level (skel ps) p js"
  shows "quiet (s, ps) (cl_start_struct lib p (s, ps))" "quiet (s, ps) (cl_finish_struct lib p (s, ps))"
    "fst (cl_first_entity lib p (s, ps)) = first_of (wanted (cs_key s) (skel ps) js)"
    "quiet (s, ps) (True, snd (cl_first_entity lib p (s, ps)))"
proof -
  have p: "plain_props ps" "p < length ps" using l by (simp_all add: level_def skel_facts)
  have j: "linked ps (ep_first_member (ps ! p)) js" using l p by (simp add: level_def skel_facts linked_skel)
  have m: "\<forall>j \<in> set js. \<not> ep_must_understand (ps ! j)"
    using l linked_range[OF j] by (simp add: level_def skel_facts)
  have "plain_ok lib" using lib by (simp add: cyclone_ok_def)
  from this[unfolded plain_ok_def, THEN conjunct1, rule_format, OF p] j m wanted_skel[OF j]
  show "quiet (s, ps) (cl_start_struct lib p (s, ps))" "quiet (s, ps) (cl_finish_struct lib p (s, ps))"
    "fst (cl_first_entity lib p (s, ps)) = first_of (wanted (cs_key s) (skel ps) js)"
    "quiet (s, ps) (True, snd (cl_first_entity lib p (s, ps)))" by auto
qed

lemma member_quiet:
  assumes lib: "cyclone_ok lib" and l: "plain_props L" "skel ps = L" "j < length L"
  shows "quiet (s, ps) (start_member lib j True (s, ps))" "quiet (s, ps) (finish_member lib j True (s, ps))"
    "linked L (ep_next_on_level (L ! j)) js \<Longrightarrow> fst (cl_next_entity lib j (s, ps)) = first_of (wanted (cs_key s) L js)"
    "linked L (ep_next_on_level (L ! j)) js \<Longrightarrow> quiet (s, ps) (True, snd (cl_next_entity lib j (s, ps)))"
proof -
  have p: "plain_props ps" "j < length ps" using l by (auto simp: skel_facts)
  have "plain_ok lib" using lib by (simp add: cyclone_ok_def)
  note q = this[unfolded plain_ok_def, THEN conjunct1, rule_format, OF p]
  have "skel (ps[j := (ps ! j)\<lparr>ep_is_present := True\<rparr>]) = skel ps"
    using p(2) by (intro nth_equalityI) (auto simp: skel_def nth_list_update)
  then show "quiet (s, ps) (start_member lib j True (s, ps))" "quiet (s, ps) (finish_member lib j True (s, ps))"
    using q by (auto simp: start_member_def finish_member_def quiet_def like_def)
  assume n: "linked L (ep_next_on_level (L ! j)) js"
  then have "linked ps (ep_next_on_level (ps ! j)) js" using l(2) p(2) by (auto simp: skel_facts linked_skel)
  with q wanted_skel[OF this] show "fst (cl_next_entity lib j (s, ps)) = first_of (wanted (cs_key s) L js)"
    "quiet (s, ps) (True, snd (cl_next_entity lib j (s, ps)))" by (auto simp: l(2)[symmetric])
qed

lemma consecutive_quiet:
  assumes "cyclone_ok lib"
  shows "fst (start_consecutive lib True True s) \<and> like (snd (start_consecutive lib True True s)) s"
    "fst (finish_consecutive lib s) \<and> like (snd (finish_consecutive lib s)) s"
  using assms by (auto simp: cyclone_ok_def plain_ok_def start_consecutive_def finish_consecutive_def like_def)

lemma does_array [does_rules]:
  assumes "cyclone_ok lib" "does lib m k L f qs g"
  shows "does lib m k L (cyc_array lib f) qs g"
proof -
  have "does lib m k L (cyc_array lib f) ([] @ qs @ [] @ []) (\<lambda>d. g d)" unfolding cyc_array_def
    by (intro does_all does_none does_quiet_stream consecutive_quiet assms)
  then show ?thesis by simp
qed

lemma does_member:
  assumes "cyclone_ok lib" "does lib m k L (f j) qs g" "plain_props L" "j < length L"
  shows "does lib m k L (cyc_member lib f j) qs g"
proof -
  have "does lib m k L (cyc_member lib f j) ([] @ qs @ [] @ []) (\<lambda>d. g d)" unfolding cyc_member_def
    by (intro does_all does_none assms(2) does_quiet_props[OF member_quiet(1)[OF assms(1,3) _ assms(4)]]
      does_quiet_props[OF member_quiet(2)[OF assms(1,3) _ assms(4)]])
  then show ?thesis by simp
qed

text \<open>The loop over the members of a level, and the structure.\<close>

lemma first_of_Cons: "first_of (j # js) = Some j" "first_of [] = None"
  by (simp_all add: first_of_def)

text \<open>What is wanted of a level is its first wanted member and what is wanted after it.\<close>

lemma wanted_split:
  assumes "linked L p (xs @ js)" "wanted k L js = j # ws"
  obtains ys zs where "linked L p ((xs @ ys) @ j # zs)" "wanted k L zs = ws" "js = ys @ j # zs"
proof -
  from assms(2) obtain ys zs where "js = ys @ j # zs" "filter (\<lambda>j. k \<longrightarrow> ep_is_key (L ! j)) zs = ws"
    unfolding wanted_def filter_eq_Cons_iff by blast
  with assms(1) that[of ys zs] show thesis by (simp add: wanted_def)
qed

lemma does_next:
  assumes lib: "cyclone_ok lib" and L: "plain_props L" "linked L p (xs @ j # zs)"
    and rest: "does lib m k L (entity_loop lib sw (first_of (wanted k L zs))) rs g"
  shows "does lib m k L (\<lambda>y. entity_loop lib sw (fst (cyc_next (cl_next_entity lib j) y)) (snd (cyc_next (cl_next_entity lib j) y))) rs g"
proof (rule doesI)
  fix s ps and d :: 'a
  assume s: "stream_ok lib s" "cs_mode s = m" "cs_key s = k" and L': "skel ps = L"
    and lim: "measuring s \<longrightarrow> cs_position s + length (stream_image s rs) < 2 ^ 62"
  note j = linked_next[OF L(2)]
  note q = member_quiet(3,4)[OF lib L(1) L' conjunct1[OF j] conjunct2[OF j], of s]
  obtain t ps' where t: "cl_next_entity lib j (s, ps) = (first_of (wanted k L zs), t, ps')"
    using q(1) s(3) by (cases "cl_next_entity lib j (s, ps)") auto
  have "quiet (s, ps) (True, t, ps')" using q(2) by (simp add: t)
  from does_after_quiet[OF rest L' this s lim, of d]
  show "outcome L s rs g d (entity_loop lib sw (fst (cyc_next (cl_next_entity lib j) (s, ps, d)))
      (snd (cyc_next (cl_next_entity lib j) (s, ps, d))))"
    by (simp only: cyc_next_def t prod.case fst_conv snd_conv)
qed

lemma entity_loop_Some: "entity_loop lib sw (Some j) = (\<lambda>x. Option.bind (sw j x) (\<lambda>(ok, y). if ok
    then entity_loop lib sw (fst (cyc_next (cl_next_entity lib j) y)) (snd (cyc_next (cl_next_entity lib j) y))
    else Some (False, y)))"
proof (rule ext)
  fix x
  show "entity_loop lib sw (Some j) x = Option.bind (sw j x) (\<lambda>(ok, y). if ok
    then entity_loop lib sw (fst (cyc_next (cl_next_entity lib j) y)) (snd (cyc_next (cl_next_entity lib j) y))
    else Some (False, y))"
    by (subst entity_loop.simps) (cases "sw j x"; simp add: case_prod_unfold)
qed

lemma does_loop:
  assumes lib: "cyclone_ok lib" and L: "plain_props L"
    and body: "\<And>j. j \<in> set (wanted k L js) \<Longrightarrow> does lib m k L (sw j) (qs j) (g j)"
  shows "linked L p (xs @ js) \<Longrightarrow> does lib m k L (entity_loop lib sw (first_of (wanted k L js)))
    (concat (map qs (wanted k L js))) (apply_all (map g (wanted k L js)))"
  using body
proof (induction "wanted k L js" arbitrary: js xs)
  case Nil
  then show ?case using does_none[of lib m k L]
    by (simp add: first_of_def entity_loop.simps does_def)
next
  case (Cons j ws)
  from wanted_split[OF Cons.prems(1) Cons.hyps(2)[symmetric]] obtain ys zs where
    z: "linked L p ((xs @ ys) @ j # zs)" "wanted k L zs = ws" "js = ys @ j # zs" .
  have "linked L p ((xs @ ys @ [j]) @ zs)" using z(1) by simp
  moreover have "does lib m k L (sw i) (qs i) (g i)" if "i \<in> set (wanted k L zs)" for i
    using Cons.prems(2)[of i] that Cons.hyps(2) z(2) by (metis list.set_intros(2))
  ultimately have "does lib m k L (entity_loop lib sw (first_of (wanted k L zs))) (concat (map qs (wanted k L zs)))
      (apply_all (map g (wanted k L zs)))" by (rule Cons.hyps(1)[OF z(2)[symmetric]])
  from does_next[OF lib L z(1) this] z(2)
  have n: "does lib m k L (\<lambda>y. entity_loop lib sw (fst (cyc_next (cl_next_entity lib j) y))
      (snd (cyc_next (cl_next_entity lib j) y))) (concat (map qs ws)) (apply_all (map g ws))" by simp
  have b: "does lib m k L (sw j) (qs j) (g j)" using Cons.prems(2) Cons.hyps(2) by (metis list.set_intros(1))
  have "(\<lambda>d. apply_all (map g ws) (g j d)) = apply_all (map g (j # ws))" by (rule ext) simp
  with does_then[OF b n] show ?case unfolding Cons.hyps(2)[symmetric]
    by (simp only: first_of_Cons entity_loop_Some list.map concat.simps)
qed

lemma does_struct:
  assumes lib: "cyclone_ok lib" and l: "level L p js" and ids: "map (\<lambda>j. ep_m_id (L ! j)) js = [0..<length cases]"
    and body: "\<And>j. j \<in> set (wanted k L js) \<Longrightarrow> does lib m k L ((cases ! ep_m_id (L ! j)) j) (qs ! ep_m_id (L ! j)) (g ! ep_m_id (L ! j))"
  shows "does lib m k L (cyc_struct lib cases p) (concat (map (\<lambda>j. qs ! ep_m_id (L ! j)) (wanted k L js)))
    (apply_all (map (\<lambda>j. g ! ep_m_id (L ! j)) (wanted k L js)))"
proof -
  have L: "plain_props L" "linked L (ep_first_member (L ! p)) ([] @ js)" using l by (simp_all add: level_def)
  have sw: "does lib m k L (cyc_switch cases j) (qs ! ep_m_id (L ! j)) (g ! ep_m_id (L ! j))"
    if j': "j \<in> set (wanted k L js)" for j
  proof -
    have j: "j \<in> set js" using j' by (simp add: wanted_def)
    then have "j < length L" using linked_range[OF L(2)] by simp
    moreover have "ep_m_id (L ! j) < length cases"
      using arg_cong[OF ids, of set] j by (auto simp: set_eq_iff)
    ultimately have "cyc_switch cases j (s, ps, d) = (cases ! ep_m_id (L ! j)) j (s, ps, d)" if "skel ps = L" for s ps and d :: 'a
      using that by (auto simp: cyc_switch_def skel_facts Let_def)
    from does_cong[OF this body[OF j']] show ?thesis by simp
  qed
  let ?qs = "concat (map (\<lambda>j. qs ! ep_m_id (L ! j)) (wanted k L js))"
  let ?g = "apply_all (map (\<lambda>j. g ! ep_m_id (L ! j)) (wanted k L js))"
  let ?f = "\<lambda>x. case cyc_next (cl_first_entity lib p) x of (prop, x) \<Rightarrow> entity_loop lib (cyc_switch cases) prop x"
  have loop: "does lib m k L (entity_loop lib (cyc_switch cases) (first_of (wanted k L js))) ?qs ?g"
    by (rule does_loop[where qs = "\<lambda>j. qs ! ep_m_id (L ! j)", OF lib L(1) _ L(2)]) (rule sw)
  have "does lib m k L ?f ?qs ?g"
  proof (rule doesI)
    fix s ps and d :: 'a
    assume s: "stream_ok lib s" "cs_mode s = m" "cs_key s = k" and L': "skel ps = L"
      and lim: "measuring s \<longrightarrow> cs_position s + length (stream_image s ?qs) < 2 ^ 62"
    note q = level_quiet(3,4)[OF lib, of ps p js s, unfolded L', OF l]
    obtain t ps' where t: "cl_first_entity lib p (s, ps) = (first_of (wanted k L js), t, ps')"
      using q(1) s(3) by (cases "cl_first_entity lib p (s, ps)") auto
    have "quiet (s, ps) (True, t, ps')" using q(2) by (simp add: t)
    from does_after_quiet[OF loop L' this s lim, of d]
    show "outcome L s ?qs ?g d (?f (s, ps, d))"
      by (simp only: cyc_next_def t prod.case)
  qed
  then have "does lib m k L (cyc_struct lib cases p) ([] @ ?qs @ [] @ []) (\<lambda>d. ?g d)"
    unfolding cyc_struct_def using level_quiet(1,2)[OF lib] l
    by (intro does_all does_none does_quiet_props) auto
  then show ?thesis by simp
qed

subsection \<open>Reading\<close>

lemma unswapped_bytes:
  "(if 1 < prim_align q \<and> native \<noteq> e then byte_swap native (prim_bytes e q) else prim_bytes e q) = prim_bytes native q"
proof (cases "1 < prim_align q")
  case True
  then have "byte_swap native (prim_bytes e q) = rev (prim_bytes e q)"
    using prim_size(1)[of q] by (intro byte_swap_rev) (auto simp: prim_size(2))
  moreover have "(if e \<noteq> native then rev (prim_bytes e q) else prim_bytes e q) = prim_bytes native q"
    using True by (cases q; cases e; cases native) (simp_all add: mem_bytes_def)
  ultimately show ?thesis using True by auto
next
  case False
  then show ?thesis by (cases q) simp_all
qed

lemma does_read_value:
  assumes lib: "cyclone_ok lib" and q: "prim_align q = n" "\<And>e. length (prim_bytes e q) = n * N"
    and g: "store (prim_bytes (cl_native lib) q) = g"
  shows "does lib mode_read k L (read_value lib n N store) [q] g"
proof (rule doesI)
  fix s ps and d :: 'a
  assume s: "stream_ok lib s" "cs_mode s = mode_read" "skel ps = L"
  then have z: "False \<longrightarrow> \<not> measuring s" and nm: "\<not> measuring s" by (simp_all add: measuring_def)
  let ?k = "cdr_pad (min n (cs_max_alignment s)) (cs_position s)"
  have l: "length (stream_image s [q]) = ?k + n * N" by (simp add: image_one q)
  have n: "n \<in> {1, 4, 8}" using prim_size(1)[of q] q(1) by simp
  have b: "cs_position s \<le> length (cs_buffer s)" "length (cs_buffer s) < 2 ^ 61" using s nm by (simp_all add: stream_ok_def)
  show "outcome L s [q] g d (read_value lib n N store (s, ps, d))"
    using lib s(1) n z
  proof (cases rule: align_to)
    case (good t)
    have t: "cs_position t = cs_position s + ?k" "\<not> measuring t" "cs_buffer t = cs_buffer s"
      using good(2,3) nm by (auto simp: like_def measuring_def)
    have "cs_position t < 2 ^ 62" using good(2) nm b by (simp add: t has_room_def)
    from lib this t(2) show ?thesis
    proof (cases rule: available[where n = "n * N"])
      case (good u)
      let ?from = "take (n * N) (drop (cs_position u) (cs_buffer u))"
      let ?to = "if 1 < n \<and> cs_swap u then byte_swap (cl_native lib) ?from else ?from"
      let ?v = "incr_position (n * N) u"
      have u: "cs_swap u = (cl_native lib \<noteq> cs_endianness s)" "cs_position u = cs_position s + ?k"
        "cs_current_alignment u = min n (cs_max_alignment s)" "cs_buffer u = cs_buffer s"
        using good(3) \<open>like t _\<close> s(1) by (simp_all add: like_def stream_ok_def)
      have r: "cs_position s + (?k + n * N) \<le> length (cs_buffer s)" using good(2) t by simp
      have v: "?v = u\<lparr>cs_position := cs_position s + (?k + n * N)\<rparr>"
        using r b by (simp add: incr_position_def SIZE_MAX_def u add.assoc)
      have "min n (cs_max_alignment s) dvd cs_position s + ?k + n * N"
        using min_align_dvd[OF s(1), of q] pad_dvd[of "min n (cs_max_alignment s)" "cs_position s"] q by (auto intro: dvd_add)
      then have ad: "advanced (stream_image s [q]) s ?v"
        using good(3) \<open>like t _\<close> s(2) l r b unfolding v by (auto simp: advanced_def like_def aligned_def u add.assoc)
      have "?to = prim_bytes (cl_native lib) q" if c: "carries s (stream_image s [q])"
      proof -
        have "take (?k + n * N) (drop (cs_position s) (cs_buffer s)) = stream_image s [q]"
          using c s(2) by (simp add: carries_def l)
        then have "drop ?k (take (?k + n * N) (drop (cs_position s) (cs_buffer s))) = prim_bytes (cs_endianness s) q"
          by (simp add: image_one q(1))
        then have fr: "?from = prim_bytes (cs_endianness s) q" by (simp add: drop_take u add.commute)
        show ?thesis using unswapped_bytes[of q "cl_native lib" "cs_endianness s"] unfolding fr q(1) u(1) .
      qed
      moreover have "read_value lib n N store (s, ps, d) = Some (True, ?v, ps, store ?to d)"
        using \<open>cl_align lib _ False s = _\<close> good(1) small_position[OF s(1)] by (simp add: read_value_def cdr_read_def Let_def)
      ultimately show ?thesis using r l s(3) ad g by (auto simp: has_room_def)
    next
      case (full u)
      then have "read_value lib n N store (s, ps, d) = Some (False, u, ps, d)"
        using \<open>cl_align lib _ False s = _\<close> small_position[OF s(1)] by (simp add: read_value_def cdr_read_def Let_def)
      moreover have "\<not> has_room s (length (stream_image s [q]))" using full(2) t nm by (simp add: l has_room_def)
      ultimately show ?thesis using s(3) by simp blast
    qed
  next
    case (full t)
    then have "read_value lib n N store (s, ps, d) = Some (False, t, ps, d)"
      using small_position[OF s(1)] by (simp add: read_value_def cdr_read_def)
    moreover have "\<not> has_room s (length (stream_image s [q]))" using full(2) has_room_le l by (metis le_add1)
    ultimately show ?thesis using s(3) by simp blast
  qed
qed

lemma does_read [does_rules]:
  assumes "cyclone_ok lib"
  shows "is_i32 i \<Longrightarrow> does lib mode_read k L (read_int32 lib si) [PInt32 i] (si i)"
    "does lib mode_read k L (read_uint32 lib su) [PUInt32 u] (su u)"
    "does lib mode_read k L (read_float lib su) [PFloat u] (su u)"
    "does lib mode_read k L (read_double lib sd) [PDouble v] (sd v)"
    "does lib mode_read k L (read_one_char lib sc) [PChar c] (sc c)"
    "does lib mode_read k L (read_bool lib sb) [PBool b] (sb b)"
    "length cs = N \<Longrightarrow> does lib mode_read k L (read_chars lib N ss) [PChars cs] (ss cs)"
proof -
  have u: "unat u < 256 ^ 4" "unat v < 256 ^ 8"
    using unsigned_less[of u] unsigned_less[of v] by simp_all
  have i: "nat (i mod 2 ^ 32) < 256 ^ 4" by (simp add: nat_less_iff)
  show "is_i32 i \<Longrightarrow> does lib mode_read k L (read_int32 lib si) [PInt32 i] (si i)"
    using i unfolding read_int32_def
    by (intro does_read_value[OF assms]) (simp_all add: mem_value_bytes i32_mod[simplified] i32_id)
  show "does lib mode_read k L (read_uint32 lib su) [PUInt32 u] (su u)"
    "does lib mode_read k L (read_float lib su) [PFloat u] (su u)"
    "does lib mode_read k L (read_double lib sd) [PDouble v] (sd v)"
    "does lib mode_read k L (read_one_char lib sc) [PChar c] (sc c)"
    "does lib mode_read k L (read_bool lib sb) [PBool b] (sb b)"
    "length cs = N \<Longrightarrow> does lib mode_read k L (read_chars lib N ss) [PChars cs] (ss cs)"
    using u unfolding read_uint32_def read_float_def read_double_def read_one_char_def read_bool_def read_chars_def
    by (intro does_read_value[OF assms]; simp add: mem_value_bytes)+
qed

subsection \<open>The branches of a type\<close>

inductive branches :: "cyclone_lib \<Rightarrow> stream_mode \<Rightarrow> bool \<Rightarrow> propvec \<Rightarrow> nat list \<Rightarrow> nat
    \<Rightarrow> (nat \<Rightarrow> 'd cyc) list \<Rightarrow> prim list list \<Rightarrow> ('d \<Rightarrow> 'd) list \<Rightarrow> bool" for lib m k L js where
  no_branch: "branches lib m k L js i [] [] []"
| branch: "(\<And>j. j \<in> set js \<Longrightarrow> ep_m_id (L ! j) = i \<Longrightarrow> does lib m k L (f j) qs g)
    \<Longrightarrow> branches lib m k L js (Suc i) fs qss gs \<Longrightarrow> branches lib m k L js i (f # fs) (qs # qss) (g # gs)"

lemma branches_nth:
  assumes "branches lib m k L js i fs qss gs"
  shows "length qss = length fs" "length gs = length fs"
    "n < length fs \<Longrightarrow> j \<in> set js \<Longrightarrow> ep_m_id (L ! j) = i + n \<Longrightarrow> does lib m k L ((fs ! n) j) (qss ! n) (gs ! n)"
  using assms by (induction arbitrary: n rule: branches.induct) (auto simp: nth_Cons' not_less_eq split: nat.splits)

lemma map_nth_ids: "map h js = [0..<length xs] \<Longrightarrow> map (\<lambda>j. xs ! h j) js = xs"
  by (metis (no_types, lifting) map_map comp_apply map_cong map_nth)

lemma does_object:
  assumes lib: "cyclone_ok lib" and l: "level L p js" "map (\<lambda>j. ep_m_id (L ! j)) js = [0..<length fs]"
    and b: "branches lib m False L js 0 fs qss gs"
  shows "does lib m False L (cyc_struct lib fs p) (concat qss) (apply_all gs)"
proof -
  note n = branches_nth[OF b]
  have "does lib m False L (cyc_struct lib fs p) (concat (map (\<lambda>j. qss ! ep_m_id (L ! j)) (wanted False L js)))
      (apply_all (map (\<lambda>j. gs ! ep_m_id (L ! j)) (wanted False L js)))"
  proof (rule does_struct[OF lib l])
    fix j assume "j \<in> set (wanted False L js)"
    then have "j \<in> set js" by (simp add: wanted_def)
    moreover from this have "ep_m_id (L ! j) < length fs"
      using arg_cong[OF l(2), of set] by (auto simp: set_eq_iff)
    ultimately show "does lib m False L ((fs ! ep_m_id (L ! j)) j) (qss ! ep_m_id (L ! j)) (gs ! ep_m_id (L ! j))"
      by (intro n(3)) simp_all
  qed
  then show ?thesis using map_nth_ids[of _ js qss] map_nth_ids[of _ js gs] l(2) n(1,2)
    by (simp add: wanted_def)
qed

lemma does_key:
  assumes lib: "cyclone_ok lib" and l: "level L p js" "map (\<lambda>j. ep_m_id (L ! j)) js = [0..<n]" "length fs = n"
    and k: "wanted True L js = [j]" "ep_m_id (L ! j) = i" "i < length fs" and b: "does lib m True L ((fs ! i) j) qs g"
  shows "does lib m True L (cyc_struct lib fs p) qs g"
proof -
  have "does lib m True L (cyc_struct lib fs p) (concat (map (\<lambda>j. replicate (length fs) qs ! ep_m_id (L ! j)) (wanted True L js)))
      (apply_all (map (\<lambda>j. replicate (length fs) g ! ep_m_id (L ! j)) (wanted True L js)))"
    by (rule does_struct[OF lib l(1) l(2)[folded l(3)]]) (simp add: k b)
  moreover have "apply_all [g] = g" by (rule ext) simp
  ultimately show ?thesis using k by simp
qed

end
