(* ===== verification/CycloneTypes.thy ===== *)
theory CycloneTypes
  imports CycloneWire
begin

section \<open>The types of the IDL in Cyclone DDS\<close>

text \<open>
  \<open>src/IDLs_cyclone/generated/inse/inse.cpp\<close>: \<open>get_type_props\<close> of the six types, and of \<open>TestControl\<close> in
  \<open>test_control/test_control.cpp\<close>, each with a description it builds at the first call and keeps (\<open>cyc_statics\<close>; the variables are
  \<open>thread_local\<close>, so a thread sees its own). \<open>inse.hpp\<close> and \<open>test_control.hpp\<close>: \<open>write\<close>, \<open>read\<close>, \<open>move\<close> and \<open>max\<close>
  of each type. \<open>write\<close>, \<open>move\<close> and \<open>max\<close> of a type have the same branches with another function for
  the primitive values, which is the argument \<open>op\<close>.
\<close>

subsection \<open>Descriptions\<close>

record cyc_statics =
  props_EntityID :: "propvec option"
  props_Target :: "propvec option"
  props_Position :: "propvec option"
  props_Attitude :: "propvec option"
  props_MovementAirEntity :: "propvec option"
  props_AirEntity :: "propvec option"
  props_TestControl :: "propvec option"

definition cyc_statics_new :: cyc_statics where
  "cyc_statics_new = \<lparr>props_EntityID = None,
     props_Target = None,
     props_Position = None,
     props_Attitude = None,
     props_MovementAirEntity = None,
     props_AirEntity = None,
     props_TestControl = None\<rparr>"

definition props_once :: "(cyc_statics \<Rightarrow> propvec option) \<Rightarrow> (propvec \<Rightarrow> cyc_statics \<Rightarrow> cyc_statics)
    \<Rightarrow> (cyc_statics \<Rightarrow> propvec \<times> cyc_statics) \<Rightarrow> cyc_statics \<Rightarrow> propvec \<times> cyc_statics" where
  "props_once get put build S = (case get S of
     Some props \<Rightarrow> let props = map (\<lambda>e. e\<lparr>ep_is_present := False\<rparr>) props in (props, put props S)
   | None \<Rightarrow> case build S of (props, S) \<Rightarrow> (props, put props S))"

definition root_entity :: entity_properties where
  "root_entity = entity_properties_new 0 0 False bb_unset ext_final True"

definition member_entity :: "nat \<Rightarrow> bit_bound \<Rightarrow> entity_properties" where
  "member_entity m_id bb = entity_properties_new 1 m_id False bb ext_final False"

text \<open>The root and the members 0, 1, \<open>\<dots>\<close> of a type whose members are primitive.\<close>

definition struct_entities :: "nat list \<Rightarrow> propvec" where
  "struct_entities szs = root_entity # map2 member_entity [0..<length szs] (map get_bit_bound szs)"

definition get_type_props_EntityID :: "cyclone_lib \<Rightarrow> cyc_statics \<Rightarrow> propvec \<times> cyc_statics" where
  "get_type_props_EntityID lib = props_once props_EntityID (\<lambda>ps S. S\<lparr>props_EntityID := Some ps\<rparr>)
     (\<lambda>S. (cl_finish lib (struct_entities [4, 4, 1, 1, 4, 4, 4, 1, 4, 1, 1, 1, 1, 8]) (KeyEndpoint []), S))"

definition get_type_props_Target :: "cyclone_lib \<Rightarrow> cyc_statics \<Rightarrow> propvec \<times> cyc_statics" where
  "get_type_props_Target lib = props_once props_Target (\<lambda>ps S. S\<lparr>props_Target := Some ps\<rparr>)
     (\<lambda>S. (cl_finish lib (struct_entities [4]) (KeyEndpoint []), S))"

definition get_type_props_Position :: "cyclone_lib \<Rightarrow> cyc_statics \<Rightarrow> propvec \<times> cyc_statics" where
  "get_type_props_Position lib = props_once props_Position (\<lambda>ps S. S\<lparr>props_Position := Some ps\<rparr>)
     (\<lambda>S. (cl_finish lib (struct_entities [8, 8, 4, 4, 4]) (KeyEndpoint []), S))"

definition get_type_props_Attitude :: "cyclone_lib \<Rightarrow> cyc_statics \<Rightarrow> propvec \<times> cyc_statics" where
  "get_type_props_Attitude lib = props_once props_Attitude (\<lambda>ps S. S\<lparr>props_Attitude := Some ps\<rparr>)
     (\<lambda>S. (cl_finish lib (struct_entities [4, 4, 4]) (KeyEndpoint []), S))"

definition get_type_props_MovementAirEntity :: "cyclone_lib \<Rightarrow> cyc_statics \<Rightarrow> propvec \<times> cyc_statics" where
  "get_type_props_MovementAirEntity lib = props_once props_MovementAirEntity (\<lambda>ps S. S\<lparr>props_MovementAirEntity := Some ps\<rparr>)
     (\<lambda>S. (cl_finish lib (struct_entities [4, 4, 4, 4, 4, 1, 1, 1, 4, 4, 4, 4, 4, 4, 4, 4, 1, 4, 4, 4]) (KeyEndpoint []), S))"

definition get_type_props_AirEntity :: "cyclone_lib \<Rightarrow> cyc_statics \<Rightarrow> propvec \<times> cyc_statics" where
  "get_type_props_AirEntity lib = props_once props_AirEntity (\<lambda>ps S. S\<lparr>props_AirEntity := Some ps\<rparr>)
     (\<lambda>S. let props = [root_entity, member_entity 0 (get_bit_bound 4), member_entity 1 bb_unset] in
       case get_type_props_Attitude lib S of (a, S) \<Rightarrow>
       let props = cl_append_struct_contents lib props a @ [member_entity 2 bb_unset] in
       case get_type_props_MovementAirEntity lib S of (mv, S) \<Rightarrow>
       let props = cl_append_struct_contents lib props mv @ [member_entity 3 (get_bit_bound 1),
          member_entity 4 (get_bit_bound 4), member_entity 5 (get_bit_bound 4), member_entity 6 (get_bit_bound 1)] in
       (cl_finish lib props (cl_add_key_endpoint lib [0] (KeyEndpoint [])), S))"

definition get_type_props_TestControl :: "cyclone_lib \<Rightarrow> cyc_statics \<Rightarrow> propvec \<times> cyc_statics" where
  "get_type_props_TestControl lib = props_once props_TestControl (\<lambda>ps S. S\<lparr>props_TestControl := Some ps\<rparr>)
     (\<lambda>S. (cl_finish lib (struct_entities [4, 1, 4, 1, 4, 4]) (cl_add_key_endpoint lib [0] (KeyEndpoint [])), S))"

subsection \<open>Writing and measuring\<close>

type_synonym prim_op = "prim \<Rightarrow> cdr_stream \<Rightarrow> bool \<times> cdr_stream"

definition EntityID_visit :: "cyclone_lib \<Rightarrow> prim_op \<Rightarrow> EntityID \<Rightarrow> nat \<Rightarrow> unit cyc" where
  "EntityID_visit lib op inst = cyc_struct lib
    [cyc_member lib (\<lambda>_. on_stream (op (PInt32 (eid_id inst)))),
     cyc_member lib (\<lambda>_. on_stream (op (PInt32 (eid_creatorID inst)))),
     cyc_member lib (\<lambda>_. cyc_array lib (on_stream (op (PChars (eid_entityName inst))))),
     cyc_member lib (\<lambda>_. cyc_array lib (on_stream (op (PChars (eid_modelName inst))))),
     cyc_member lib (\<lambda>_. on_stream (op (PInt32 (eid_visualID inst)))),
     cyc_member lib (\<lambda>_. on_stream (op (PInt32 (eid_visualModel inst)))),
     cyc_member lib (\<lambda>_. on_stream (op (PInt32 (eid_visualDetail inst)))),
     cyc_member lib (\<lambda>_. on_stream (op (PChar (eid_active inst)))),
     cyc_member lib (\<lambda>_. on_stream (op (PUInt32 (eid_delayedActivationTime inst)))),
     cyc_member lib (\<lambda>_. on_stream (op (PChar (eid_manned inst)))),
     cyc_member lib (\<lambda>_. on_stream (op (PChar (eid_remote inst)))),
     cyc_member lib (\<lambda>_. on_stream (op (PChar (eid_entityType inst)))),
     cyc_member lib (\<lambda>_. on_stream (op (PChar (eid_side inst)))),
     cyc_member lib (\<lambda>_. on_stream (op (PDouble (eid_weight inst))))]"

definition Target_visit :: "cyclone_lib \<Rightarrow> prim_op \<Rightarrow> Target \<Rightarrow> nat \<Rightarrow> unit cyc" where
  "Target_visit lib op inst = cyc_struct lib
    [cyc_member lib (\<lambda>_. on_stream (op (PInt32 (tgt_entity_id inst))))]"

definition Position_visit :: "cyclone_lib \<Rightarrow> prim_op \<Rightarrow> Position \<Rightarrow> nat \<Rightarrow> unit cyc" where
  "Position_visit lib op inst = cyc_struct lib
    [cyc_member lib (\<lambda>_. on_stream (op (PDouble (pos_latitude inst)))),
     cyc_member lib (\<lambda>_. on_stream (op (PDouble (pos_longitude inst)))),
     cyc_member lib (\<lambda>_. on_stream (op (PFloat (pos_altitude inst)))),
     cyc_member lib (\<lambda>_. on_stream (op (PFloat (pos_altitudeAGL inst)))),
     cyc_member lib (\<lambda>_. on_stream (op (PFloat (pos_altitude_target inst))))]"

definition Attitude_visit :: "cyclone_lib \<Rightarrow> prim_op \<Rightarrow> Attitude \<Rightarrow> nat \<Rightarrow> unit cyc" where
  "Attitude_visit lib op inst = cyc_struct lib
    [cyc_member lib (\<lambda>_. on_stream (op (PFloat (pitch inst)))),
     cyc_member lib (\<lambda>_. on_stream (op (PFloat (yaw inst)))),
     cyc_member lib (\<lambda>_. on_stream (op (PFloat (roll inst))))]"

definition MovementAirEntity_visit :: "cyclone_lib \<Rightarrow> prim_op \<Rightarrow> MovementAirEntity \<Rightarrow> nat \<Rightarrow> unit cyc" where
  "MovementAirEntity_visit lib op inst = cyc_struct lib
    [cyc_member lib (\<lambda>_. on_stream (op (PFloat (speed inst)))),
     cyc_member lib (\<lambda>_. on_stream (op (PFloat (speed_target inst)))),
     cyc_member lib (\<lambda>_. on_stream (op (PFloat (geographicHeading inst)))),
     cyc_member lib (\<lambda>_. on_stream (op (PFloat (geographicHeading_target inst)))),
     cyc_member lib (\<lambda>_. on_stream (op (PFloat (magneticHeading inst)))),
     cyc_member lib (\<lambda>_. on_stream (op (PChar (tmllf inst)))),
     cyc_member lib (\<lambda>_. on_stream (op (PChar (onGround inst)))),
     cyc_member lib (\<lambda>_. cyc_array lib (on_stream (op (PChars (missionName inst))))),
     cyc_member lib (\<lambda>_. on_stream (op (PFloat (indicatedSpeed inst)))),
     cyc_member lib (\<lambda>_. on_stream (op (PFloat (indicatedSpeed_target inst)))),
     cyc_member lib (\<lambda>_. on_stream (op (PFloat (loadFactor inst)))),
     cyc_member lib (\<lambda>_. on_stream (op (PFloat (verticalSpeed inst)))),
     cyc_member lib (\<lambda>_. on_stream (op (PFloat (verticalSpeed_target inst)))),
     cyc_member lib (\<lambda>_. on_stream (op (PFloat (groundSpeed inst)))),
     cyc_member lib (\<lambda>_. on_stream (op (PFloat (groundSpeed_target inst)))),
     cyc_member lib (\<lambda>_. on_stream (op (PFloat (throttle inst)))),
     cyc_member lib (\<lambda>_. on_stream (op (PBool (infiniteFuel inst)))),
     cyc_member lib (\<lambda>_. on_stream (op (PFloat (initialFuel inst)))),
     cyc_member lib (\<lambda>_. on_stream (op (PFloat (currentFuel inst)))),
     cyc_member lib (\<lambda>_. on_stream (op (PFloat (fuelConsumption inst))))]"

definition AirEntity_visit :: "cyclone_lib \<Rightarrow> prim_op \<Rightarrow> AirEntity \<Rightarrow> nat \<Rightarrow> unit cyc" where
  "AirEntity_visit lib op inst = cyc_struct lib
    [cyc_member lib (\<lambda>_. on_stream (op (PInt32 (ent_id inst)))),
     cyc_member lib (Attitude_visit lib op (entity_attitude inst)),
     cyc_member lib (MovementAirEntity_visit lib op (movement inst)),
     cyc_member lib (\<lambda>_. on_stream (op (PChar (commsActive inst)))),
     cyc_member lib (\<lambda>_. on_stream (op (PInt32 (formationID inst)))),
     cyc_member lib (\<lambda>_. on_stream (op (PInt32 (posInt_inseoFormation inst)))),
     cyc_member lib (\<lambda>_. on_stream (op (PChar (isAutomaticTraffic inst))))]"

definition TestControl_visit :: "cyclone_lib \<Rightarrow> prim_op \<Rightarrow> TestControl \<Rightarrow> nat \<Rightarrow> unit cyc" where
  "TestControl_visit lib op inst = cyc_struct lib
    [cyc_member lib (\<lambda>_. on_stream (op (PInt32 (tc_test_id inst)))),
     cyc_member lib (\<lambda>_. on_stream (op (PBool (tc_start inst)))),
     cyc_member lib (\<lambda>_. on_stream (op (PInt32 (tc_expected_entities inst)))),
     cyc_member lib (\<lambda>_. on_stream (op (PBool (tc_loan inst)))),
     cyc_member lib (\<lambda>_. on_stream (op (PInt32 (tc_reserve1 inst)))),
     cyc_member lib (\<lambda>_. on_stream (op (PInt32 (tc_reserve2 inst))))]"

definition cyc_write_EntityID :: "cyclone_lib \<Rightarrow> EntityID \<Rightarrow> nat \<Rightarrow> unit cyc" where
  "cyc_write_EntityID lib = EntityID_visit lib (cdr_write lib)"

definition cyc_write_Target :: "cyclone_lib \<Rightarrow> Target \<Rightarrow> nat \<Rightarrow> unit cyc" where
  "cyc_write_Target lib = Target_visit lib (cdr_write lib)"

definition cyc_write_Position :: "cyclone_lib \<Rightarrow> Position \<Rightarrow> nat \<Rightarrow> unit cyc" where
  "cyc_write_Position lib = Position_visit lib (cdr_write lib)"

definition cyc_write_Attitude :: "cyclone_lib \<Rightarrow> Attitude \<Rightarrow> nat \<Rightarrow> unit cyc" where
  "cyc_write_Attitude lib = Attitude_visit lib (cdr_write lib)"

definition cyc_write_MovementAirEntity :: "cyclone_lib \<Rightarrow> MovementAirEntity \<Rightarrow> nat \<Rightarrow> unit cyc" where
  "cyc_write_MovementAirEntity lib = MovementAirEntity_visit lib (cdr_write lib)"

definition cyc_write_AirEntity :: "cyclone_lib \<Rightarrow> AirEntity \<Rightarrow> nat \<Rightarrow> unit cyc" where
  "cyc_write_AirEntity lib = AirEntity_visit lib (cdr_write lib)"

definition cyc_write_TestControl :: "cyclone_lib \<Rightarrow> TestControl \<Rightarrow> nat \<Rightarrow> unit cyc" where
  "cyc_write_TestControl lib = TestControl_visit lib (cdr_write lib)"

definition cyc_move_EntityID :: "cyclone_lib \<Rightarrow> EntityID \<Rightarrow> nat \<Rightarrow> unit cyc" where
  "cyc_move_EntityID lib = EntityID_visit lib (cdr_move lib)"

definition cyc_move_Target :: "cyclone_lib \<Rightarrow> Target \<Rightarrow> nat \<Rightarrow> unit cyc" where
  "cyc_move_Target lib = Target_visit lib (cdr_move lib)"

definition cyc_move_Position :: "cyclone_lib \<Rightarrow> Position \<Rightarrow> nat \<Rightarrow> unit cyc" where
  "cyc_move_Position lib = Position_visit lib (cdr_move lib)"

definition cyc_move_Attitude :: "cyclone_lib \<Rightarrow> Attitude \<Rightarrow> nat \<Rightarrow> unit cyc" where
  "cyc_move_Attitude lib = Attitude_visit lib (cdr_move lib)"

definition cyc_move_MovementAirEntity :: "cyclone_lib \<Rightarrow> MovementAirEntity \<Rightarrow> nat \<Rightarrow> unit cyc" where
  "cyc_move_MovementAirEntity lib = MovementAirEntity_visit lib (cdr_move lib)"

definition cyc_move_AirEntity :: "cyclone_lib \<Rightarrow> AirEntity \<Rightarrow> nat \<Rightarrow> unit cyc" where
  "cyc_move_AirEntity lib = AirEntity_visit lib (cdr_move lib)"

definition cyc_move_TestControl :: "cyclone_lib \<Rightarrow> TestControl \<Rightarrow> nat \<Rightarrow> unit cyc" where
  "cyc_move_TestControl lib = TestControl_visit lib (cdr_move lib)"

definition cyc_max_EntityID :: "cyclone_lib \<Rightarrow> EntityID \<Rightarrow> nat \<Rightarrow> unit cyc" where
  "cyc_max_EntityID lib = EntityID_visit lib (cdr_max lib)"

definition cyc_max_Target :: "cyclone_lib \<Rightarrow> Target \<Rightarrow> nat \<Rightarrow> unit cyc" where
  "cyc_max_Target lib = Target_visit lib (cdr_max lib)"

definition cyc_max_Position :: "cyclone_lib \<Rightarrow> Position \<Rightarrow> nat \<Rightarrow> unit cyc" where
  "cyc_max_Position lib = Position_visit lib (cdr_max lib)"

definition cyc_max_Attitude :: "cyclone_lib \<Rightarrow> Attitude \<Rightarrow> nat \<Rightarrow> unit cyc" where
  "cyc_max_Attitude lib = Attitude_visit lib (cdr_max lib)"

definition cyc_max_MovementAirEntity :: "cyclone_lib \<Rightarrow> MovementAirEntity \<Rightarrow> nat \<Rightarrow> unit cyc" where
  "cyc_max_MovementAirEntity lib = MovementAirEntity_visit lib (cdr_max lib)"

definition cyc_max_AirEntity :: "cyclone_lib \<Rightarrow> AirEntity \<Rightarrow> nat \<Rightarrow> unit cyc" where
  "cyc_max_AirEntity lib = AirEntity_visit lib (cdr_max lib)"

definition cyc_max_TestControl :: "cyclone_lib \<Rightarrow> TestControl \<Rightarrow> nat \<Rightarrow> unit cyc" where
  "cyc_max_TestControl lib = TestControl_visit lib (cdr_max lib)"

subsection \<open>Reading\<close>

text \<open>A member that is a structure is read in place.\<close>

definition read_nested :: "(nat \<Rightarrow> 'v cyc) \<Rightarrow> ('d \<Rightarrow> 'v) \<Rightarrow> ('v \<Rightarrow> 'd \<Rightarrow> 'd) \<Rightarrow> nat \<Rightarrow> 'd cyc" where
  "read_nested f field store prop = (\<lambda>(s, ps, d). Option.bind (f prop (s, ps, field d))
     (\<lambda>(ok, s, ps, v). Some (ok, s, ps, store v d)))"

definition cyc_read_EntityID :: "cyclone_lib \<Rightarrow> nat \<Rightarrow> EntityID cyc" where
  "cyc_read_EntityID lib = cyc_struct lib
    [cyc_member lib (\<lambda>_. read_int32 lib (\<lambda>v d. d\<lparr>eid_id := v\<rparr>)),
     cyc_member lib (\<lambda>_. read_int32 lib (\<lambda>v d. d\<lparr>eid_creatorID := v\<rparr>)),
     cyc_member lib (\<lambda>_. cyc_array lib (read_chars lib 20 (\<lambda>v d. d\<lparr>eid_entityName := v\<rparr>))),
     cyc_member lib (\<lambda>_. cyc_array lib (read_chars lib 20 (\<lambda>v d. d\<lparr>eid_modelName := v\<rparr>))),
     cyc_member lib (\<lambda>_. read_int32 lib (\<lambda>v d. d\<lparr>eid_visualID := v\<rparr>)),
     cyc_member lib (\<lambda>_. read_int32 lib (\<lambda>v d. d\<lparr>eid_visualModel := v\<rparr>)),
     cyc_member lib (\<lambda>_. read_int32 lib (\<lambda>v d. d\<lparr>eid_visualDetail := v\<rparr>)),
     cyc_member lib (\<lambda>_. read_one_char lib (\<lambda>v d. d\<lparr>eid_active := v\<rparr>)),
     cyc_member lib (\<lambda>_. read_uint32 lib (\<lambda>v d. d\<lparr>eid_delayedActivationTime := v\<rparr>)),
     cyc_member lib (\<lambda>_. read_one_char lib (\<lambda>v d. d\<lparr>eid_manned := v\<rparr>)),
     cyc_member lib (\<lambda>_. read_one_char lib (\<lambda>v d. d\<lparr>eid_remote := v\<rparr>)),
     cyc_member lib (\<lambda>_. read_one_char lib (\<lambda>v d. d\<lparr>eid_entityType := v\<rparr>)),
     cyc_member lib (\<lambda>_. read_one_char lib (\<lambda>v d. d\<lparr>eid_side := v\<rparr>)),
     cyc_member lib (\<lambda>_. read_double lib (\<lambda>v d. d\<lparr>eid_weight := v\<rparr>))]"

definition cyc_read_Target :: "cyclone_lib \<Rightarrow> nat \<Rightarrow> Target cyc" where
  "cyc_read_Target lib = cyc_struct lib
    [cyc_member lib (\<lambda>_. read_int32 lib (\<lambda>v d. d\<lparr>tgt_entity_id := v\<rparr>))]"

definition cyc_read_Position :: "cyclone_lib \<Rightarrow> nat \<Rightarrow> Position cyc" where
  "cyc_read_Position lib = cyc_struct lib
    [cyc_member lib (\<lambda>_. read_double lib (\<lambda>v d. d\<lparr>pos_latitude := v\<rparr>)),
     cyc_member lib (\<lambda>_. read_double lib (\<lambda>v d. d\<lparr>pos_longitude := v\<rparr>)),
     cyc_member lib (\<lambda>_. read_float lib (\<lambda>v d. d\<lparr>pos_altitude := v\<rparr>)),
     cyc_member lib (\<lambda>_. read_float lib (\<lambda>v d. d\<lparr>pos_altitudeAGL := v\<rparr>)),
     cyc_member lib (\<lambda>_. read_float lib (\<lambda>v d. d\<lparr>pos_altitude_target := v\<rparr>))]"

definition cyc_read_Attitude :: "cyclone_lib \<Rightarrow> nat \<Rightarrow> Attitude cyc" where
  "cyc_read_Attitude lib = cyc_struct lib
    [cyc_member lib (\<lambda>_. read_float lib (\<lambda>v d. d\<lparr>pitch := v\<rparr>)),
     cyc_member lib (\<lambda>_. read_float lib (\<lambda>v d. d\<lparr>yaw := v\<rparr>)),
     cyc_member lib (\<lambda>_. read_float lib (\<lambda>v d. d\<lparr>roll := v\<rparr>))]"

definition cyc_read_MovementAirEntity :: "cyclone_lib \<Rightarrow> nat \<Rightarrow> MovementAirEntity cyc" where
  "cyc_read_MovementAirEntity lib = cyc_struct lib
    [cyc_member lib (\<lambda>_. read_float lib (\<lambda>v d. d\<lparr>speed := v\<rparr>)),
     cyc_member lib (\<lambda>_. read_float lib (\<lambda>v d. d\<lparr>speed_target := v\<rparr>)),
     cyc_member lib (\<lambda>_. read_float lib (\<lambda>v d. d\<lparr>geographicHeading := v\<rparr>)),
     cyc_member lib (\<lambda>_. read_float lib (\<lambda>v d. d\<lparr>geographicHeading_target := v\<rparr>)),
     cyc_member lib (\<lambda>_. read_float lib (\<lambda>v d. d\<lparr>magneticHeading := v\<rparr>)),
     cyc_member lib (\<lambda>_. read_one_char lib (\<lambda>v d. d\<lparr>tmllf := v\<rparr>)),
     cyc_member lib (\<lambda>_. read_one_char lib (\<lambda>v d. d\<lparr>onGround := v\<rparr>)),
     cyc_member lib (\<lambda>_. cyc_array lib (read_chars lib 32 (\<lambda>v d. d\<lparr>missionName := v\<rparr>))),
     cyc_member lib (\<lambda>_. read_float lib (\<lambda>v d. d\<lparr>indicatedSpeed := v\<rparr>)),
     cyc_member lib (\<lambda>_. read_float lib (\<lambda>v d. d\<lparr>indicatedSpeed_target := v\<rparr>)),
     cyc_member lib (\<lambda>_. read_float lib (\<lambda>v d. d\<lparr>loadFactor := v\<rparr>)),
     cyc_member lib (\<lambda>_. read_float lib (\<lambda>v d. d\<lparr>verticalSpeed := v\<rparr>)),
     cyc_member lib (\<lambda>_. read_float lib (\<lambda>v d. d\<lparr>verticalSpeed_target := v\<rparr>)),
     cyc_member lib (\<lambda>_. read_float lib (\<lambda>v d. d\<lparr>groundSpeed := v\<rparr>)),
     cyc_member lib (\<lambda>_. read_float lib (\<lambda>v d. d\<lparr>groundSpeed_target := v\<rparr>)),
     cyc_member lib (\<lambda>_. read_float lib (\<lambda>v d. d\<lparr>throttle := v\<rparr>)),
     cyc_member lib (\<lambda>_. read_bool lib (\<lambda>v d. d\<lparr>infiniteFuel := v\<rparr>)),
     cyc_member lib (\<lambda>_. read_float lib (\<lambda>v d. d\<lparr>initialFuel := v\<rparr>)),
     cyc_member lib (\<lambda>_. read_float lib (\<lambda>v d. d\<lparr>currentFuel := v\<rparr>)),
     cyc_member lib (\<lambda>_. read_float lib (\<lambda>v d. d\<lparr>fuelConsumption := v\<rparr>))]"

definition cyc_read_AirEntity :: "cyclone_lib \<Rightarrow> nat \<Rightarrow> AirEntity cyc" where
  "cyc_read_AirEntity lib = cyc_struct lib
    [cyc_member lib (\<lambda>_. read_int32 lib (\<lambda>v d. d\<lparr>ent_id := v\<rparr>)),
     cyc_member lib (read_nested (cyc_read_Attitude lib) entity_attitude (\<lambda>v d. d\<lparr>entity_attitude := v\<rparr>)),
     cyc_member lib (read_nested (cyc_read_MovementAirEntity lib) movement (\<lambda>v d. d\<lparr>movement := v\<rparr>)),
     cyc_member lib (\<lambda>_. read_one_char lib (\<lambda>v d. d\<lparr>commsActive := v\<rparr>)),
     cyc_member lib (\<lambda>_. read_int32 lib (\<lambda>v d. d\<lparr>formationID := v\<rparr>)),
     cyc_member lib (\<lambda>_. read_int32 lib (\<lambda>v d. d\<lparr>posInt_inseoFormation := v\<rparr>)),
     cyc_member lib (\<lambda>_. read_one_char lib (\<lambda>v d. d\<lparr>isAutomaticTraffic := v\<rparr>))]"

definition cyc_read_TestControl :: "cyclone_lib \<Rightarrow> nat \<Rightarrow> TestControl cyc" where
  "cyc_read_TestControl lib = cyc_struct lib
    [cyc_member lib (\<lambda>_. read_int32 lib (\<lambda>v d. d\<lparr>tc_test_id := v\<rparr>)),
     cyc_member lib (\<lambda>_. read_bool lib (\<lambda>v d. d\<lparr>tc_start := v\<rparr>)),
     cyc_member lib (\<lambda>_. read_int32 lib (\<lambda>v d. d\<lparr>tc_expected_entities := v\<rparr>)),
     cyc_member lib (\<lambda>_. read_bool lib (\<lambda>v d. d\<lparr>tc_loan := v\<rparr>)),
     cyc_member lib (\<lambda>_. read_int32 lib (\<lambda>v d. d\<lparr>tc_reserve1 := v\<rparr>)),
     cyc_member lib (\<lambda>_. read_int32 lib (\<lambda>v d. d\<lparr>tc_reserve2 := v\<rparr>))]"

subsection \<open>As topics\<close>

text \<open>
  The overloads with \<open>as_key\<close>: they fetch the description, set the mode of the stream, which
  resets it, and start at the root.
\<close>

definition on_topic :: "(cyclone_lib \<Rightarrow> cyc_statics \<Rightarrow> propvec \<times> cyc_statics) \<Rightarrow> (propvec \<Rightarrow> cyc_statics \<Rightarrow> cyc_statics)
    \<Rightarrow> cyclone_lib \<Rightarrow> stream_mode \<Rightarrow> (nat \<Rightarrow> 'd cyc) \<Rightarrow> bool \<Rightarrow> cyc_statics \<times> cdr_stream \<times> 'd
    \<Rightarrow> (bool \<times> cyc_statics \<times> cdr_stream \<times> 'd) option" where
  "on_topic get_props put lib mode f as_key = (\<lambda>(S, s, d). case get_props lib S of (props, S) \<Rightarrow>
     Option.bind (f 0 (set_mode lib mode as_key s, props, d)) (\<lambda>(ok, s, props, d). Some (ok, put props S, s, d)))"

definition visit_topic :: "(cyclone_lib \<Rightarrow> cyc_statics \<Rightarrow> propvec \<times> cyc_statics) \<Rightarrow> (propvec \<Rightarrow> cyc_statics \<Rightarrow> cyc_statics)
    \<Rightarrow> cyclone_lib \<Rightarrow> stream_mode \<Rightarrow> (nat \<Rightarrow> unit cyc) \<Rightarrow> bool \<Rightarrow> cyc_statics \<times> cdr_stream
    \<Rightarrow> (bool \<times> cyc_statics \<times> cdr_stream) option" where
  "visit_topic get_props put lib mode f as_key = (\<lambda>(S, s). Option.bind (on_topic get_props put lib mode f as_key (S, s, ()))
     (\<lambda>(ok, S, s, _). Some (ok, S, s)))"

definition topic_write_EntityID :: "cyclone_lib \<Rightarrow> EntityID \<Rightarrow> bool \<Rightarrow> cyc_statics \<times> cdr_stream
    \<Rightarrow> (bool \<times> cyc_statics \<times> cdr_stream) option" where
  "topic_write_EntityID lib x = visit_topic get_type_props_EntityID (\<lambda>ps S. S\<lparr>props_EntityID := Some ps\<rparr>) lib
     mode_write (cyc_write_EntityID lib x)"

definition topic_move_EntityID :: "cyclone_lib \<Rightarrow> EntityID \<Rightarrow> bool \<Rightarrow> cyc_statics \<times> cdr_stream
    \<Rightarrow> (bool \<times> cyc_statics \<times> cdr_stream) option" where
  "topic_move_EntityID lib x = visit_topic get_type_props_EntityID (\<lambda>ps S. S\<lparr>props_EntityID := Some ps\<rparr>) lib
     mode_move (cyc_move_EntityID lib x)"

definition topic_max_EntityID :: "cyclone_lib \<Rightarrow> EntityID \<Rightarrow> bool \<Rightarrow> cyc_statics \<times> cdr_stream
    \<Rightarrow> (bool \<times> cyc_statics \<times> cdr_stream) option" where
  "topic_max_EntityID lib x = visit_topic get_type_props_EntityID (\<lambda>ps S. S\<lparr>props_EntityID := Some ps\<rparr>) lib
     mode_max (cyc_max_EntityID lib x)"

definition topic_read_EntityID :: "cyclone_lib \<Rightarrow> bool \<Rightarrow> cyc_statics \<times> cdr_stream \<times> EntityID
    \<Rightarrow> (bool \<times> cyc_statics \<times> cdr_stream \<times> EntityID) option" where
  "topic_read_EntityID lib = on_topic get_type_props_EntityID (\<lambda>ps S. S\<lparr>props_EntityID := Some ps\<rparr>) lib
     mode_read (cyc_read_EntityID lib)"

definition topic_write_Target :: "cyclone_lib \<Rightarrow> Target \<Rightarrow> bool \<Rightarrow> cyc_statics \<times> cdr_stream
    \<Rightarrow> (bool \<times> cyc_statics \<times> cdr_stream) option" where
  "topic_write_Target lib x = visit_topic get_type_props_Target (\<lambda>ps S. S\<lparr>props_Target := Some ps\<rparr>) lib
     mode_write (cyc_write_Target lib x)"

definition topic_move_Target :: "cyclone_lib \<Rightarrow> Target \<Rightarrow> bool \<Rightarrow> cyc_statics \<times> cdr_stream
    \<Rightarrow> (bool \<times> cyc_statics \<times> cdr_stream) option" where
  "topic_move_Target lib x = visit_topic get_type_props_Target (\<lambda>ps S. S\<lparr>props_Target := Some ps\<rparr>) lib
     mode_move (cyc_move_Target lib x)"

definition topic_max_Target :: "cyclone_lib \<Rightarrow> Target \<Rightarrow> bool \<Rightarrow> cyc_statics \<times> cdr_stream
    \<Rightarrow> (bool \<times> cyc_statics \<times> cdr_stream) option" where
  "topic_max_Target lib x = visit_topic get_type_props_Target (\<lambda>ps S. S\<lparr>props_Target := Some ps\<rparr>) lib
     mode_max (cyc_max_Target lib x)"

definition topic_read_Target :: "cyclone_lib \<Rightarrow> bool \<Rightarrow> cyc_statics \<times> cdr_stream \<times> Target
    \<Rightarrow> (bool \<times> cyc_statics \<times> cdr_stream \<times> Target) option" where
  "topic_read_Target lib = on_topic get_type_props_Target (\<lambda>ps S. S\<lparr>props_Target := Some ps\<rparr>) lib
     mode_read (cyc_read_Target lib)"

definition topic_write_Position :: "cyclone_lib \<Rightarrow> Position \<Rightarrow> bool \<Rightarrow> cyc_statics \<times> cdr_stream
    \<Rightarrow> (bool \<times> cyc_statics \<times> cdr_stream) option" where
  "topic_write_Position lib x = visit_topic get_type_props_Position (\<lambda>ps S. S\<lparr>props_Position := Some ps\<rparr>) lib
     mode_write (cyc_write_Position lib x)"

definition topic_move_Position :: "cyclone_lib \<Rightarrow> Position \<Rightarrow> bool \<Rightarrow> cyc_statics \<times> cdr_stream
    \<Rightarrow> (bool \<times> cyc_statics \<times> cdr_stream) option" where
  "topic_move_Position lib x = visit_topic get_type_props_Position (\<lambda>ps S. S\<lparr>props_Position := Some ps\<rparr>) lib
     mode_move (cyc_move_Position lib x)"

definition topic_max_Position :: "cyclone_lib \<Rightarrow> Position \<Rightarrow> bool \<Rightarrow> cyc_statics \<times> cdr_stream
    \<Rightarrow> (bool \<times> cyc_statics \<times> cdr_stream) option" where
  "topic_max_Position lib x = visit_topic get_type_props_Position (\<lambda>ps S. S\<lparr>props_Position := Some ps\<rparr>) lib
     mode_max (cyc_max_Position lib x)"

definition topic_read_Position :: "cyclone_lib \<Rightarrow> bool \<Rightarrow> cyc_statics \<times> cdr_stream \<times> Position
    \<Rightarrow> (bool \<times> cyc_statics \<times> cdr_stream \<times> Position) option" where
  "topic_read_Position lib = on_topic get_type_props_Position (\<lambda>ps S. S\<lparr>props_Position := Some ps\<rparr>) lib
     mode_read (cyc_read_Position lib)"

definition topic_write_Attitude :: "cyclone_lib \<Rightarrow> Attitude \<Rightarrow> bool \<Rightarrow> cyc_statics \<times> cdr_stream
    \<Rightarrow> (bool \<times> cyc_statics \<times> cdr_stream) option" where
  "topic_write_Attitude lib x = visit_topic get_type_props_Attitude (\<lambda>ps S. S\<lparr>props_Attitude := Some ps\<rparr>) lib
     mode_write (cyc_write_Attitude lib x)"

definition topic_move_Attitude :: "cyclone_lib \<Rightarrow> Attitude \<Rightarrow> bool \<Rightarrow> cyc_statics \<times> cdr_stream
    \<Rightarrow> (bool \<times> cyc_statics \<times> cdr_stream) option" where
  "topic_move_Attitude lib x = visit_topic get_type_props_Attitude (\<lambda>ps S. S\<lparr>props_Attitude := Some ps\<rparr>) lib
     mode_move (cyc_move_Attitude lib x)"

definition topic_max_Attitude :: "cyclone_lib \<Rightarrow> Attitude \<Rightarrow> bool \<Rightarrow> cyc_statics \<times> cdr_stream
    \<Rightarrow> (bool \<times> cyc_statics \<times> cdr_stream) option" where
  "topic_max_Attitude lib x = visit_topic get_type_props_Attitude (\<lambda>ps S. S\<lparr>props_Attitude := Some ps\<rparr>) lib
     mode_max (cyc_max_Attitude lib x)"

definition topic_read_Attitude :: "cyclone_lib \<Rightarrow> bool \<Rightarrow> cyc_statics \<times> cdr_stream \<times> Attitude
    \<Rightarrow> (bool \<times> cyc_statics \<times> cdr_stream \<times> Attitude) option" where
  "topic_read_Attitude lib = on_topic get_type_props_Attitude (\<lambda>ps S. S\<lparr>props_Attitude := Some ps\<rparr>) lib
     mode_read (cyc_read_Attitude lib)"

definition topic_write_MovementAirEntity :: "cyclone_lib \<Rightarrow> MovementAirEntity \<Rightarrow> bool \<Rightarrow> cyc_statics \<times> cdr_stream
    \<Rightarrow> (bool \<times> cyc_statics \<times> cdr_stream) option" where
  "topic_write_MovementAirEntity lib x = visit_topic get_type_props_MovementAirEntity (\<lambda>ps S. S\<lparr>props_MovementAirEntity := Some ps\<rparr>) lib
     mode_write (cyc_write_MovementAirEntity lib x)"

definition topic_move_MovementAirEntity :: "cyclone_lib \<Rightarrow> MovementAirEntity \<Rightarrow> bool \<Rightarrow> cyc_statics \<times> cdr_stream
    \<Rightarrow> (bool \<times> cyc_statics \<times> cdr_stream) option" where
  "topic_move_MovementAirEntity lib x = visit_topic get_type_props_MovementAirEntity (\<lambda>ps S. S\<lparr>props_MovementAirEntity := Some ps\<rparr>) lib
     mode_move (cyc_move_MovementAirEntity lib x)"

definition topic_max_MovementAirEntity :: "cyclone_lib \<Rightarrow> MovementAirEntity \<Rightarrow> bool \<Rightarrow> cyc_statics \<times> cdr_stream
    \<Rightarrow> (bool \<times> cyc_statics \<times> cdr_stream) option" where
  "topic_max_MovementAirEntity lib x = visit_topic get_type_props_MovementAirEntity (\<lambda>ps S. S\<lparr>props_MovementAirEntity := Some ps\<rparr>) lib
     mode_max (cyc_max_MovementAirEntity lib x)"

definition topic_read_MovementAirEntity :: "cyclone_lib \<Rightarrow> bool \<Rightarrow> cyc_statics \<times> cdr_stream \<times> MovementAirEntity
    \<Rightarrow> (bool \<times> cyc_statics \<times> cdr_stream \<times> MovementAirEntity) option" where
  "topic_read_MovementAirEntity lib = on_topic get_type_props_MovementAirEntity (\<lambda>ps S. S\<lparr>props_MovementAirEntity := Some ps\<rparr>) lib
     mode_read (cyc_read_MovementAirEntity lib)"

definition topic_write_AirEntity :: "cyclone_lib \<Rightarrow> AirEntity \<Rightarrow> bool \<Rightarrow> cyc_statics \<times> cdr_stream
    \<Rightarrow> (bool \<times> cyc_statics \<times> cdr_stream) option" where
  "topic_write_AirEntity lib x = visit_topic get_type_props_AirEntity (\<lambda>ps S. S\<lparr>props_AirEntity := Some ps\<rparr>) lib
     mode_write (cyc_write_AirEntity lib x)"

definition topic_move_AirEntity :: "cyclone_lib \<Rightarrow> AirEntity \<Rightarrow> bool \<Rightarrow> cyc_statics \<times> cdr_stream
    \<Rightarrow> (bool \<times> cyc_statics \<times> cdr_stream) option" where
  "topic_move_AirEntity lib x = visit_topic get_type_props_AirEntity (\<lambda>ps S. S\<lparr>props_AirEntity := Some ps\<rparr>) lib
     mode_move (cyc_move_AirEntity lib x)"

definition topic_max_AirEntity :: "cyclone_lib \<Rightarrow> AirEntity \<Rightarrow> bool \<Rightarrow> cyc_statics \<times> cdr_stream
    \<Rightarrow> (bool \<times> cyc_statics \<times> cdr_stream) option" where
  "topic_max_AirEntity lib x = visit_topic get_type_props_AirEntity (\<lambda>ps S. S\<lparr>props_AirEntity := Some ps\<rparr>) lib
     mode_max (cyc_max_AirEntity lib x)"

definition topic_read_AirEntity :: "cyclone_lib \<Rightarrow> bool \<Rightarrow> cyc_statics \<times> cdr_stream \<times> AirEntity
    \<Rightarrow> (bool \<times> cyc_statics \<times> cdr_stream \<times> AirEntity) option" where
  "topic_read_AirEntity lib = on_topic get_type_props_AirEntity (\<lambda>ps S. S\<lparr>props_AirEntity := Some ps\<rparr>) lib
     mode_read (cyc_read_AirEntity lib)"

definition topic_write_TestControl :: "cyclone_lib \<Rightarrow> TestControl \<Rightarrow> bool \<Rightarrow> cyc_statics \<times> cdr_stream
    \<Rightarrow> (bool \<times> cyc_statics \<times> cdr_stream) option" where
  "topic_write_TestControl lib x = visit_topic get_type_props_TestControl (\<lambda>ps S. S\<lparr>props_TestControl := Some ps\<rparr>) lib
     mode_write (cyc_write_TestControl lib x)"

definition topic_move_TestControl :: "cyclone_lib \<Rightarrow> TestControl \<Rightarrow> bool \<Rightarrow> cyc_statics \<times> cdr_stream
    \<Rightarrow> (bool \<times> cyc_statics \<times> cdr_stream) option" where
  "topic_move_TestControl lib x = visit_topic get_type_props_TestControl (\<lambda>ps S. S\<lparr>props_TestControl := Some ps\<rparr>) lib
     mode_move (cyc_move_TestControl lib x)"

definition topic_max_TestControl :: "cyclone_lib \<Rightarrow> TestControl \<Rightarrow> bool \<Rightarrow> cyc_statics \<times> cdr_stream
    \<Rightarrow> (bool \<times> cyc_statics \<times> cdr_stream) option" where
  "topic_max_TestControl lib x = visit_topic get_type_props_TestControl (\<lambda>ps S. S\<lparr>props_TestControl := Some ps\<rparr>) lib
     mode_max (cyc_max_TestControl lib x)"

definition topic_read_TestControl :: "cyclone_lib \<Rightarrow> bool \<Rightarrow> cyc_statics \<times> cdr_stream \<times> TestControl
    \<Rightarrow> (bool \<times> cyc_statics \<times> cdr_stream \<times> TestControl) option" where
  "topic_read_TestControl lib = on_topic get_type_props_TestControl (\<lambda>ps S. S\<lparr>props_TestControl := Some ps\<rparr>) lib
     mode_read (cyc_read_TestControl lib)"

subsection \<open>The shape of the descriptions\<close>

text \<open>The members of a level computed from the depths.\<close>

fun linked_at :: "nat list \<Rightarrow> nat option \<Rightarrow> nat list \<Rightarrow> bool" where
  "linked_at ds p [] \<longleftrightarrow> p = None"
| "linked_at ds p (j # js) \<longleftrightarrow> p = Some j \<and> j < length ds \<and> linked_at ds (next_at ds j) js"

type_synonym core = "nat \<times> nat \<times> extensibility \<times> bool \<times> bool"

definition tree_of :: "core list \<Rightarrow> propvec \<Rightarrow> bool" where
  "tree_of cs ps \<longleftrightarrow> map ep_core ps = cs \<and> links_ok ps"

definition level_at :: "core list \<Rightarrow> nat \<Rightarrow> nat list \<Rightarrow> bool" where
  "level_at cs p js \<longleftrightarrow> list_all (\<lambda>(dep, m_id, ext, must, opt). ext = ext_final \<and> \<not> opt) cs \<and> p < length cs
   \<and> linked_at (map fst cs) (first_at (map fst cs) p) js
   \<and> list_all (\<lambda>j. case cs ! j of (dep, m_id, ext, must, opt) \<Rightarrow> \<not> must) js"

definition core_ids :: "core list \<Rightarrow> nat list \<Rightarrow> nat list" where
  "core_ids cs js = map (\<lambda>j. fst (snd (cs ! j))) js"

lemma linked_at_linked:
  assumes "links_ok ps" "ds = map ep_depth ps"
  shows "linked_at ds p js \<Longrightarrow> linked ps p js"
  using assms by (induction js arbitrary: p) (auto simp: links_ok_def Let_def)

lemma linked_at_range: "linked_at ds p js \<Longrightarrow> j \<in> set js \<Longrightarrow> j < length ds"
  by (induction js arbitrary: p) auto

lemma tree_core:
  assumes "tree_of cs ps" "j < length cs"
  shows "cs ! j = ep_core (ps ! j)" "j < length ps"
  using assms by (auto simp: tree_of_def)

lemma tree_skel: "tree_of cs ps \<Longrightarrow> tree_of cs (skel ps)"
  by (simp add: tree_of_def links_ok_def skel_def ep_core_def[abs_def] comp_def Let_def)

lemma tree_level:
  assumes "tree_of cs ps" "level_at cs p js"
  shows "level ps p js" "map (\<lambda>j. ep_m_id (ps ! j)) js = core_ids cs js"
proof -
  have ds: "map fst cs = map ep_depth ps" using assms(1) by (auto simp: tree_of_def ep_core_def)
  have p: "p < length ps" using assms by (auto simp: tree_of_def level_at_def)
  have "ep_first_member (ps ! p) = first_at (map fst cs) p"
    using assms(1) p by (simp add: tree_of_def links_ok_def ds Let_def)
  then have l: "linked ps (ep_first_member (ps ! p)) js"
    using assms linked_at_linked[of ps "map fst cs"] by (simp add: tree_of_def level_at_def ds)
  have c: "cs ! j = ep_core (ps ! j)" if "j \<in> set js" for j
    using that assms linked_at_range[of "map fst cs"] by (intro tree_core) (auto simp: level_at_def)
  have "plain_props ps"
    using assms by (auto simp: tree_of_def level_at_def plain_props_def ep_core_def list_all_iff)
  moreover have "\<forall>j \<in> set js. \<not> ep_must_understand (ps ! j)"
    using assms(2) c by (auto simp: level_at_def list_all_iff ep_core_def)
  ultimately show "level ps p js" using l p by (simp add: level_def)
  show "map (\<lambda>j. ep_m_id (ps ! j)) js = core_ids cs js" using c by (simp add: core_ids_def ep_core_def)
qed

text \<open>What the six descriptions are.\<close>

definition flat_cores :: "nat \<Rightarrow> core list" where
  "flat_cores n = (0, 0, ext_final, True, False) # map (\<lambda>i. (1, i, ext_final, False, False)) [0..<n]"

definition AirEntity_cores :: "core list" where
  "AirEntity_cores = (0, 0, ext_final, True, False) # map (\<lambda>(dep, i). (dep, i, ext_final, False, False))
     ([(1, 0), (1, 1)] @ map (Pair 2) [0..<3] @ [(1, 2)] @ map (Pair 2) [0..<20] @ [(1, 3), (1, 4), (1, 5), (1, 6)])"

definition keyed :: "nat \<Rightarrow> propvec \<Rightarrow> bool" where
  "keyed m ps \<longleftrightarrow> (\<forall>e \<in> set ps. ep_depth e = 1 \<longrightarrow> (ep_is_key e \<longleftrightarrow> ep_m_id e = m))"

lemma flat_levels:
  "level_at (flat_cores 14) 0 [1, 2, 3, 4, 5, 6, 7, 8, 9, 10, 11, 12, 13, 14]" "level_at (flat_cores 1) 0 [1]"
  "level_at (flat_cores 5) 0 [1, 2, 3, 4, 5]" "level_at (flat_cores 6) 0 [1, 2, 3, 4, 5, 6]" "level_at (flat_cores 3) 0 [1, 2, 3]"
  "level_at (flat_cores 20) 0 [1, 2, 3, 4, 5, 6, 7, 8, 9, 10, 11, 12, 13, 14, 15, 16, 17, 18, 19, 20]"
  by code_simp+

lemma AirEntity_levels:
  "level_at AirEntity_cores 0 [1, 2, 6, 27, 28, 29, 30]" "level_at AirEntity_cores 2 [3, 4, 5]"
  "level_at AirEntity_cores 6 [7, 8, 9, 10, 11, 12, 13, 14, 15, 16, 17, 18, 19, 20, 21, 22, 23, 24, 25, 26]"
  by code_simp+

lemma flat_ids:
  "core_ids (flat_cores 14) [1, 2, 3, 4, 5, 6, 7, 8, 9, 10, 11, 12, 13, 14] = [0..<14]" "core_ids (flat_cores 1) [1] = [0..<1]"
  "core_ids (flat_cores 5) [1, 2, 3, 4, 5] = [0..<5]" "core_ids (flat_cores 6) [1, 2, 3, 4, 5, 6] = [0..<6]" "core_ids (flat_cores 3) [1, 2, 3] = [0..<3]"
  "core_ids (flat_cores 20) [1, 2, 3, 4, 5, 6, 7, 8, 9, 10, 11, 12, 13, 14, 15, 16, 17, 18, 19, 20] = [0..<20]"
  by code_simp+

lemma AirEntity_ids:
  "core_ids AirEntity_cores [1, 2, 6, 27, 28, 29, 30] = [0..<7]" "core_ids AirEntity_cores [3, 4, 5] = [0..<3]"
  "core_ids AirEntity_cores [7, 8, 9, 10, 11, 12, 13, 14, 15, 16, 17, 18, 19, 20, 21, 22, 23, 24, 25, 26] = [0..<20]"
  by code_simp+

subsection \<open>The descriptions are always these\<close>

definition statics_ok :: "cyc_statics \<Rightarrow> bool" where
  "statics_ok S \<longleftrightarrow> pred_option (tree_of (flat_cores 14)) (props_EntityID S)
   \<and> pred_option (tree_of (flat_cores 1)) (props_Target S) \<and> pred_option (tree_of (flat_cores 5)) (props_Position S)
   \<and> pred_option (tree_of (flat_cores 3)) (props_Attitude S)
   \<and> pred_option (tree_of (flat_cores 20)) (props_MovementAirEntity S)
   \<and> pred_option (\<lambda>ps. tree_of AirEntity_cores ps \<and> keyed 0 ps) (props_AirEntity S)
   \<and> pred_option (\<lambda>ps. tree_of (flat_cores 6) ps \<and> keyed 0 ps) (props_TestControl S)"

lemma statics_new: "statics_ok cyc_statics_new"
  by (simp add: statics_ok_def cyc_statics_new_def)

lemma keyed_skel: "keyed m ps \<Longrightarrow> keyed m (skel ps)"
  by (simp add: keyed_def skel_def)

lemma core_entities: "ep_core root_entity = (0, 0, ext_final, True, False)"
  "ep_core (member_entity i bb) = (1, i, ext_final, False, False)"
  "ep_depth root_entity = 0" "ep_depth (member_entity i bb) = 1"
  by (simp_all add: ep_core_def root_entity_def member_entity_def entity_properties_new_def)

lemma props_once_ok:
  assumes "props_once get put build S = (ps, S')" "\<And>ps. get S = Some ps \<Longrightarrow> P ps"
    and "\<And>ps. P ps \<Longrightarrow> P (skel ps)" "\<And>ps S'. get S = None \<Longrightarrow> build S = (ps, S') \<Longrightarrow> P ps"
  shows "P ps"
  using assms by (auto simp: props_once_def Let_def skel_def split: option.splits prod.splits)

lemma props_once_statics:
  assumes "props_once get put build S = (ps, S')"
  shows "S' = put ps S \<or> (\<exists>S1. build S = (ps, S1) \<and> S' = put ps S1)"
  using assms by (auto simp: props_once_def Let_def split: option.splits prod.splits)

lemma finished:
  assumes "cyclone_ok lib" "map ep_core ps = cs"
  shows "tree_of cs (cl_finish lib ps keys)"
  using assms by (simp add: cyclone_ok_def tree_ok_def tree_of_def)

lemma struct_cores: "map ep_core (struct_entities szs) = flat_cores (length szs)"
  by (auto simp: struct_entities_def flat_cores_def core_entities intro!: nth_equalityI)

lemma flat_props:
  assumes lib: "cyclone_ok lib" and n: "length szs = n" and S: "pred_option (tree_of (flat_cores n)) (get S)"
    and o: "props_once get put (\<lambda>S. (cl_finish lib (struct_entities szs) (KeyEndpoint []), S)) S = (ps, S')"
  shows "tree_of (flat_cores n) ps" "S' = put ps S"
proof -
  show "tree_of (flat_cores n) ps"
    by (rule props_once_ok[OF o]) (use S in \<open>auto intro: tree_skel finished[OF lib struct_cores[of szs, unfolded n]]\<close>)
  show "S' = put ps S" using props_once_statics[OF o] by auto
qed

lemma Attitude_props_ok:
  assumes "cyclone_ok lib" "statics_ok S" "get_type_props_Attitude lib S = (ps, S')"
  shows "tree_of (flat_cores 3) ps" "statics_ok S'"
proof -
  have "pred_option (tree_of (flat_cores 3)) (props_Attitude S)" using assms(2) by (simp add: statics_ok_def)
  note f = flat_props[OF assms(1) _ this assms(3)[unfolded get_type_props_Attitude_def]]
  from f(1) show "tree_of (flat_cores 3) ps" by simp
  with f(2) assms(2) show "statics_ok S'" by (simp add: statics_ok_def)
qed

lemma MovementAirEntity_props_ok:
  assumes "cyclone_ok lib" "statics_ok S" "get_type_props_MovementAirEntity lib S = (ps, S')"
  shows "tree_of (flat_cores 20) ps" "statics_ok S'"
proof -
  have "pred_option (tree_of (flat_cores 20)) (props_MovementAirEntity S)" using assms(2) by (simp add: statics_ok_def)
  note f = flat_props[OF assms(1) _ this assms(3)[unfolded get_type_props_MovementAirEntity_def]]
  from f(1) show "tree_of (flat_cores 20) ps" by simp
  with f(2) assms(2) show "statics_ok S'" by (simp add: statics_ok_def)
qed

lemma flat_append:
  assumes "cyclone_ok lib" "ps \<noteq> []" "ep_depth (last ps) = 1" "tree_of (flat_cores n) qs"
  shows "map ep_core (cl_append_struct_contents lib ps qs) = map ep_core ps
    @ map (\<lambda>(dep, i). (dep, i, ext_final, False, False)) (map (Pair 2) [0..<n])"
  using assms by (simp add: cyclone_ok_def tree_ok_def tree_of_def flat_cores_def comp_def)

lemma AirEntity_props_ok:
  assumes lib: "cyclone_ok lib" and S: "statics_ok S" and o: "get_type_props_AirEntity lib S = (ps, S')"
  shows "tree_of AirEntity_cores ps" "keyed 0 ps" "statics_ok S'"
proof -
  note o' = o[unfolded get_type_props_AirEntity_def]
  let ?build = "\<lambda>S. let props = [root_entity, member_entity 0 (get_bit_bound 4), member_entity 1 bb_unset] in
       case get_type_props_Attitude lib S of (a, S) \<Rightarrow>
       let props = cl_append_struct_contents lib props a @ [member_entity 2 bb_unset] in
       case get_type_props_MovementAirEntity lib S of (mv, S) \<Rightarrow>
       let props = cl_append_struct_contents lib props mv @ [member_entity 3 (get_bit_bound 1),
          member_entity 4 (get_bit_bound 4), member_entity 5 (get_bit_bound 4), member_entity 6 (get_bit_bound 1)] in
       (cl_finish lib props (cl_add_key_endpoint lib [0] (KeyEndpoint [])), S)"
  have b: "tree_of AirEntity_cores ps \<and> keyed 0 ps \<and> statics_ok S'" if b: "?build S = (ps, S')" for ps S'
  proof -
    obtain a S1 mv S2 where n: "get_type_props_Attitude lib S = (a, S1)" "get_type_props_MovementAirEntity lib S1 = (mv, S2)"
      by fastforce
    note a = Attitude_props_ok[OF lib S n(1)]
    note mv = MovementAirEntity_props_ok[OF lib a(2) n(2)]
    let ?p1 = "[root_entity, member_entity 0 (get_bit_bound 4), member_entity 1 bb_unset]"
    let ?p2 = "cl_append_struct_contents lib ?p1 a @ [member_entity 2 bb_unset]"
    let ?p3 = "cl_append_struct_contents lib ?p2 mv @ [member_entity 3 (get_bit_bound 1),
          member_entity 4 (get_bit_bound 4), member_entity 5 (get_bit_bound 4), member_entity 6 (get_bit_bound 1)]"
    have "map ep_core ?p3 = AirEntity_cores"
      using flat_append[OF lib, of ?p1 3 a] flat_append[OF lib, of ?p2 20 mv] a(1) mv(1)
      by (simp add: core_entities AirEntity_cores_def del: upt_conv_Cons)
    from finished[OF lib this, of "cl_add_key_endpoint lib [0] (KeyEndpoint [])"]
    have "tree_of AirEntity_cores ps" "ps = cl_finish lib ?p3 (cl_add_key_endpoint lib [0] (KeyEndpoint []))"
      "S' = S2" using b by (auto simp: n)
    then show ?thesis using lib mv(2) by (auto simp: cyclone_ok_def tree_ok_def keyed_def)
  qed
  have "tree_of AirEntity_cores ps \<and> keyed 0 ps"
    by (rule props_once_ok[OF o'])
      (use S b in \<open>auto simp: statics_ok_def intro: tree_skel keyed_skel\<close>)
  then show t: "tree_of AirEntity_cores ps" "keyed 0 ps" by simp_all
  show "statics_ok S'" using props_once_statics[OF o'] S t b by (auto simp: statics_ok_def)
qed

lemma TestControl_props_ok:
  assumes lib: "cyclone_ok lib" and S: "statics_ok S" and o: "get_type_props_TestControl lib S = (ps, S')"
  shows "tree_of (flat_cores 6) ps" "keyed 0 ps" "statics_ok S'"
proof -
  note o' = o[unfolded get_type_props_TestControl_def]
  let ?ps = "cl_finish lib (struct_entities [4, 1, 4, 1, 4, 4]) (cl_add_key_endpoint lib [0] (KeyEndpoint []))"
  have "length [4, 1, 4, 1, 4, 4 :: nat] = 6" by simp
  then have "map ep_core (struct_entities [4, 1, 4, 1, 4, 4]) = flat_cores 6" by (simp only: struct_cores)
  then have t: "tree_of (flat_cores 6) ?ps" by (rule finished[OF lib])
  have "keyed 0 ?ps" using lib unfolding cyclone_ok_def tree_ok_def keyed_def by blast
  with t have b: "tree_of (flat_cores 6) ?ps \<and> keyed 0 ?ps" by blast
  have "tree_of (flat_cores 6) ps \<and> keyed 0 ps"
    by (rule props_once_ok[OF o']) (use S b in \<open>auto simp: statics_ok_def intro: tree_skel keyed_skel\<close>)
  then show t: "tree_of (flat_cores 6) ps" "keyed 0 ps" by simp_all
  show "statics_ok S'" using props_once_statics[OF o'] S t by (auto simp: statics_ok_def)
qed

end
