(* ===== verification/CycloneSample.thy ===== *)
theory CycloneSample
  imports CycloneTypes
begin

section \<open>Samples of Cyclone DDS\<close>

text \<open>
  \<open>org/eclipse/cyclonedds/topic/datatopic.hpp\<close> and \<open>TopicTraits.hpp\<close>: how the C++ binding
  turns an object of a topic type into the bytes of a sample and back, and what it puts into the
  key. The templates over the type \<open>T\<close> take what \<open>TopicTraits<T>\<close> and the generated overloads say
  of it as an argument, the template argument \<open>S\<close>, a class of stream, is a \<open>stream_kind\<close>.

  A call whose result is \<open>None\<close> does not return: it loops, fails an \<open>assert\<close>, goes through a null
  pointer or reads behind its buffer. A function that answers false in the code, or a null pointer, gives a value.
\<close>

subsection \<open>Topic types\<close>

record 'd topic_traits =
  tt_getExtensibility :: extensibility
  tt_allowableEncodings :: "32 word"
  tt_isKeyless :: bool
  tt_isSelfContained :: bool
  tt_new :: 'd
  tt_write :: "'d \<Rightarrow> bool \<Rightarrow> cyc_statics \<times> cdr_stream \<Rightarrow> (bool \<times> cyc_statics \<times> cdr_stream) option"
  tt_move :: "'d \<Rightarrow> bool \<Rightarrow> cyc_statics \<times> cdr_stream \<Rightarrow> (bool \<times> cyc_statics \<times> cdr_stream) option"
  tt_max :: "'d \<Rightarrow> bool \<Rightarrow> cyc_statics \<times> cdr_stream \<Rightarrow> (bool \<times> cyc_statics \<times> cdr_stream) option"
  tt_read :: "bool \<Rightarrow> cyc_statics \<times> cdr_stream \<times> 'd \<Rightarrow> (bool \<times> cyc_statics \<times> cdr_stream \<times> 'd) option"

definition EntityID_topic :: "cyclone_lib \<Rightarrow> EntityID topic_traits" where
  "EntityID_topic lib = \<lparr>tt_getExtensibility = ext_final, tt_allowableEncodings = 0xFFFFFFFF, tt_isKeyless = True,
     tt_isSelfContained = True, tt_new = EntityID_new, tt_write = topic_write_EntityID lib, tt_move = topic_move_EntityID lib,
     tt_max = topic_max_EntityID lib, tt_read = topic_read_EntityID lib\<rparr>"

definition Target_topic :: "cyclone_lib \<Rightarrow> Target topic_traits" where
  "Target_topic lib = \<lparr>tt_getExtensibility = ext_final, tt_allowableEncodings = 0xFFFFFFFF, tt_isKeyless = True,
     tt_isSelfContained = True, tt_new = Target_new, tt_write = topic_write_Target lib, tt_move = topic_move_Target lib,
     tt_max = topic_max_Target lib, tt_read = topic_read_Target lib\<rparr>"

definition Position_topic :: "cyclone_lib \<Rightarrow> Position topic_traits" where
  "Position_topic lib = \<lparr>tt_getExtensibility = ext_final, tt_allowableEncodings = 0xFFFFFFFF, tt_isKeyless = True,
     tt_isSelfContained = True, tt_new = Position_new, tt_write = topic_write_Position lib, tt_move = topic_move_Position lib,
     tt_max = topic_max_Position lib, tt_read = topic_read_Position lib\<rparr>"

definition Attitude_topic :: "cyclone_lib \<Rightarrow> Attitude topic_traits" where
  "Attitude_topic lib = \<lparr>tt_getExtensibility = ext_final, tt_allowableEncodings = 0xFFFFFFFF, tt_isKeyless = True,
     tt_isSelfContained = True, tt_new = Attitude_new, tt_write = topic_write_Attitude lib, tt_move = topic_move_Attitude lib,
     tt_max = topic_max_Attitude lib, tt_read = topic_read_Attitude lib\<rparr>"

definition MovementAirEntity_topic :: "cyclone_lib \<Rightarrow> MovementAirEntity topic_traits" where
  "MovementAirEntity_topic lib = \<lparr>tt_getExtensibility = ext_final, tt_allowableEncodings = 0xFFFFFFFF, tt_isKeyless = True,
     tt_isSelfContained = True, tt_new = MovementAirEntity_new, tt_write = topic_write_MovementAirEntity lib, tt_move = topic_move_MovementAirEntity lib,
     tt_max = topic_max_MovementAirEntity lib, tt_read = topic_read_MovementAirEntity lib\<rparr>"

definition AirEntity_topic :: "cyclone_lib \<Rightarrow> AirEntity topic_traits" where
  "AirEntity_topic lib = \<lparr>tt_getExtensibility = ext_final, tt_allowableEncodings = 0xFFFFFFFF, tt_isKeyless = False,
     tt_isSelfContained = True, tt_new = AirEntity_new, tt_write = topic_write_AirEntity lib, tt_move = topic_move_AirEntity lib,
     tt_max = topic_max_AirEntity lib, tt_read = topic_read_AirEntity lib\<rparr>"

definition TestControl_topic :: "cyclone_lib \<Rightarrow> TestControl topic_traits" where
  "TestControl_topic lib = \<lparr>tt_getExtensibility = ext_final, tt_allowableEncodings = 0xFFFFFFFF, tt_isKeyless = False,
     tt_isSelfContained = True, tt_new = TestControl_new, tt_write = topic_write_TestControl lib, tt_move = topic_move_TestControl lib,
     tt_max = topic_max_TestControl lib, tt_read = topic_read_TestControl lib\<rparr>"

text \<open>The streams a type is written with: \<open>getSerType\<close>, and \<open>deriveSertype\<close> for a data representation.\<close>

definition DDS_DATA_REPRESENTATION_FLAG_XCDR1 :: "32 word" where
  "DDS_DATA_REPRESENTATION_FLAG_XCDR1 = push_bit 0 1"

definition DDS_DATA_REPRESENTATION_FLAG_XCDR2 :: "32 word" where
  "DDS_DATA_REPRESENTATION_FLAG_XCDR2 = push_bit 2 1"

definition getSerType :: "'d topic_traits \<Rightarrow> 32 word \<Rightarrow> stream_kind option" where
  "getSerType T kinds = (if kinds AND tt_allowableEncodings T AND DDS_DATA_REPRESENTATION_FLAG_XCDR1 \<noteq> 0 then Some basic_cdr_stream
     else if kinds AND tt_allowableEncodings T AND DDS_DATA_REPRESENTATION_FLAG_XCDR2 \<noteq> 0 then Some xcdr_v2_stream
     else None)"

definition deriveSertype :: "'d topic_traits \<Rightarrow> int \<Rightarrow> stream_kind option" where
  "deriveSertype T data_representation =
     (if data_representation = 0 then getSerType T DDS_DATA_REPRESENTATION_FLAG_XCDR1
      else if data_representation = 2 then getSerType T DDS_DATA_REPRESENTATION_FLAG_XCDR2 else None)"

subsection \<open>Memory of a thread\<close>

text \<open>
  The \<open>thread_local\<close> variables: the descriptions of the types, the size \<open>get_serialized_fixed_size\<close>
  has computed for a class of stream with or without key, and the function \<open>to_key\<close> has chosen.
\<close>

datatype key_function = simple_key | complex_key

record cyc_thread =
  th_props :: cyc_statics
  th_sizes :: "stream_kind \<Rightarrow> bool \<Rightarrow> nat option"
  th_fptr :: "key_function option"

definition cyc_thread_new :: cyc_thread where
  "cyc_thread_new = \<lparr>th_props = cyc_statics_new, th_sizes = (\<lambda>_ _. None), th_fptr = None\<rparr>"

text \<open>
  Compiled: the two key functions, which get the buffer and overwrite the hash, and MD5. \<open>tl_copyin\<close>
  is what \<open>serdata_from_ser_copyin_fragchain\<close> stores at the cursor, \<open>tl_fresh\<close> the bytes that new
  memory happens to hold.
\<close>

record 'f topic_lib =
  tl_simple_key :: "8 word list \<Rightarrow> 8 word list \<Rightarrow> bool \<times> 8 word list"
  tl_complex_key :: "8 word list \<Rightarrow> 8 word list \<Rightarrow> bool \<times> 8 word list"
  tl_md5 :: "8 word list \<Rightarrow> 8 word list"
  tl_copyin :: "'f \<Rightarrow> nat \<Rightarrow> 8 word list"
  tl_fresh :: "nat \<Rightarrow> 8 word"

definition call_key :: "'f topic_lib \<Rightarrow> key_function \<Rightarrow> 8 word list \<Rightarrow> 8 word list \<Rightarrow> bool \<times> 8 word list" where
  "call_key H f = (case f of simple_key \<Rightarrow> tl_simple_key H | complex_key \<Rightarrow> tl_complex_key H)"

subsection \<open>Sizes\<close>

definition get_serialized_fixed_size :: "cyclone_lib \<Rightarrow> 'd topic_traits \<Rightarrow> stream_kind \<Rightarrow> bool \<Rightarrow> 'd \<Rightarrow> cyc_thread
    \<Rightarrow> (nat option \<times> cyc_thread) option" where
  "get_serialized_fixed_size lib T S K sample th = (case th_sizes th S K of
     Some sz \<Rightarrow> Some (Some sz, th)
   | None \<Rightarrow> Option.bind (tt_move T sample K (th_props th, cdr_stream_new lib S (cl_native lib)))
       (\<lambda>(ok, P, str). let th = th\<lparr>th_props := P\<rparr> in if \<not> ok then Some (None, th)
          else Some (Some (cs_position str), th\<lparr>th_sizes := (th_sizes th)(S := (th_sizes th S)(K := Some (cs_position str)))\<rparr>)))"

definition get_serialized_size :: "cyclone_lib \<Rightarrow> 'd topic_traits \<Rightarrow> stream_kind \<Rightarrow> 'd \<Rightarrow> bool \<Rightarrow> cyc_thread
    \<Rightarrow> (nat option \<times> cyc_thread) option" where
  "get_serialized_size lib T S sample as_key th = (if tt_isSelfContained T
     then get_serialized_fixed_size lib T S as_key sample th
     else Option.bind (tt_move T sample as_key (th_props th, cdr_stream_new lib S (cl_native lib)))
       (\<lambda>(ok, P, str). Some (if ok then Some (cs_position str) else None, th\<lparr>th_props := P\<rparr>)))"

subsection \<open>The key\<close>

definition key_padding :: "nat \<Rightarrow> nat" where
  "key_padding sz = (if sz < 16 then (16 - sz mod 16) mod 16 else 0)"

definition choose_fptr :: "cyclone_lib \<Rightarrow> 'd topic_traits \<Rightarrow> 'd \<Rightarrow> cdr_stream \<Rightarrow> cyc_thread
    \<Rightarrow> (key_function \<times> cyc_thread) option" where
  "choose_fptr lib T tokey str th = (case th_fptr th of Some f \<Rightarrow> Some (f, th)
   | None \<Rightarrow> Option.bind (tt_max T tokey True (th_props th, str)) (\<lambda>(_, P, str).
       let f = (if cs_position str \<le> 16 then simple_key else complex_key)
       in Some (f, th\<lparr>th_props := P, th_fptr := Some f\<rparr>)))"

definition to_key :: "cyclone_lib \<Rightarrow> 'f topic_lib \<Rightarrow> 'd topic_traits \<Rightarrow> 'd \<Rightarrow> 8 word list \<Rightarrow> cyc_thread
    \<Rightarrow> ((bool \<times> 8 word list) \<times> cyc_thread) option" where
  "to_key lib H T tokey hash th = (if tt_isKeyless T then Some ((True, replicate 16 0), th)
     else Option.bind (get_serialized_size lib T basic_cdr_stream tokey True th) (\<lambda>(r, th). case r of None \<Rightarrow> None
       | Some sz \<Rightarrow> let buffer = replicate (sz + key_padding sz) 0;
           str = cl_set_buffer lib (take sz buffer) (cdr_stream_new lib basic_cdr_stream BIG_ENDIANNESS)
         in Option.bind (tt_write T tokey True (th_props th, str)) (\<lambda>(ok, P, str). if \<not> ok then None
            else let buffer = put_at 0 (cs_buffer str) buffer
            in Option.bind (choose_fptr lib T tokey str (th\<lparr>th_props := P\<rparr>)) (\<lambda>(f, th).
              Some (call_key H f buffer hash, th)))))"

subsection \<open>The header\<close>

definition CDR_HEADER_SIZE :: nat where "CDR_HEADER_SIZE = 4"
definition HDR_BO_LITTLE :: "8 word" where "HDR_BO_LITTLE = 0x01"
definition HDR_PLAIN_CDR :: "8 word" where "HDR_PLAIN_CDR = 0x00"
definition HDR_PL_CDR :: "8 word" where "HDR_PL_CDR = 0x02"
definition HDR_PLAIN_CDR2 :: "8 word" where "HDR_PLAIN_CDR2 = 0x06"
definition HDR_D_CDR :: "8 word" where "HDR_D_CDR = 0x08"
definition HDR_PL_CDR2 :: "8 word" where "HDR_PL_CDR2 = 0x0A"

lemmas header_bytes = HDR_BO_LITTLE_def HDR_PLAIN_CDR_def HDR_PL_CDR_def HDR_PLAIN_CDR2_def HDR_D_CDR_def HDR_PL_CDR2_def

datatype encoding_version = basic_cdr | xml | xcdr_v1 | xcdr_v2

text \<open>The three overloads of \<open>write_header\<close>; the one of \<open>basic_cdr_stream\<close> asserts a final type.\<close>

definition write_header_byte :: "'d topic_traits \<Rightarrow> stream_kind \<Rightarrow> 8 word option" where
  "write_header_byte T S = (case S of
     basic_cdr_stream \<Rightarrow> if tt_getExtensibility T = ext_final then Some HDR_PLAIN_CDR else None
   | xcdr_v2_stream \<Rightarrow> Some (case tt_getExtensibility T of ext_final \<Rightarrow> HDR_PLAIN_CDR2 | ext_appendable \<Rightarrow> HDR_D_CDR | ext_mutable \<Rightarrow> HDR_PL_CDR2)
   | xcdr_v1_stream \<Rightarrow> Some (case tt_getExtensibility T of ext_final \<Rightarrow> HDR_PLAIN_CDR | ext_appendable \<Rightarrow> HDR_PLAIN_CDR | ext_mutable \<Rightarrow> HDR_PL_CDR))"

definition write_header :: "cyclone_lib \<Rightarrow> 'd topic_traits \<Rightarrow> stream_kind \<Rightarrow> 8 word list \<Rightarrow> 8 word list option" where
  "write_header lib T S buffer = map_option (\<lambda>b.
     put_at 0 [0, if cl_native lib = LITTLE_ENDIANNESS then b OR HDR_BO_LITTLE else b, 0, 0] buffer) (write_header_byte T S)"

definition finish_header :: "8 word list \<Rightarrow> nat \<Rightarrow> 8 word list" where
  "finish_header buffer bytes_written = buffer[3 := of_nat (4 mod (4 - bytes_written mod 4))]"

definition read_header :: "'d topic_traits \<Rightarrow> 8 word list \<Rightarrow> (encoding_version \<times> endianness) option" where
  "read_header T buffer = (let b = buffer ! 1;
     end = (if b AND HDR_BO_LITTLE \<noteq> 0 then LITTLE_ENDIANNESS else BIG_ENDIANNESS);
     field = b AND NOT HDR_BO_LITTLE
   in map_option (\<lambda>ver. (ver, end)) (case tt_getExtensibility T of
       ext_final \<Rightarrow> if field = HDR_PLAIN_CDR
         then Some (if tt_allowableEncodings T AND DDS_DATA_REPRESENTATION_FLAG_XCDR1 \<noteq> 0 then basic_cdr else xcdr_v1)
         else if field = HDR_PLAIN_CDR2 then Some xcdr_v2 else None
     | ext_appendable \<Rightarrow> if field = HDR_PL_CDR then Some xcdr_v1 else if field = HDR_D_CDR then Some xcdr_v2 else None
     | ext_mutable \<Rightarrow> if field = HDR_PL_CDR then Some xcdr_v1 else if field = HDR_PL_CDR2 then Some xcdr_v2 else None))"

subsection \<open>From an object to the bytes of a sample and back\<close>

definition serialize_into :: "cyclone_lib \<Rightarrow> 'd topic_traits \<Rightarrow> stream_kind \<Rightarrow> 8 word list option \<Rightarrow> nat \<Rightarrow> 'd \<Rightarrow> bool
    \<Rightarrow> cyc_thread \<Rightarrow> ((bool \<times> 8 word list option) \<times> cyc_thread) option" where
  "serialize_into lib T S buffer buf_sz sample as_key th = (case buffer of None \<Rightarrow> Some ((False, None), th)
   | Some buffer \<Rightarrow> if buf_sz < CDR_HEADER_SIZE then None
     else let str = cl_set_buffer lib (take (buf_sz - CDR_HEADER_SIZE) (drop CDR_HEADER_SIZE buffer))
            (cdr_stream_new lib S (cl_native lib))
       in Option.bind (write_header lib T S buffer) (\<lambda>buffer.
          Option.bind (tt_write T sample as_key (th_props th, str)) (\<lambda>(ok, P, str).
            let buffer = put_at CDR_HEADER_SIZE (cs_buffer str) buffer; th = th\<lparr>th_props := P\<rparr> in
            Some ((ok, Some (if ok then finish_header buffer buf_sz else buffer)), th))))"

datatype ddsi_serdata_kind = SDK_EMPTY | SDK_KEY | SDK_DATA

definition stream_of :: "encoding_version \<Rightarrow> stream_kind option" where
  "stream_of ver = (case ver of basic_cdr \<Rightarrow> Some basic_cdr_stream | xcdr_v1 \<Rightarrow> Some xcdr_v1_stream
     | xcdr_v2 \<Rightarrow> Some xcdr_v2_stream | xml \<Rightarrow> None)"

definition deserialize_sample_from_buffer :: "cyclone_lib \<Rightarrow> 'd topic_traits \<Rightarrow> 8 word list option \<Rightarrow> nat \<Rightarrow> 'd
    \<Rightarrow> ddsi_serdata_kind \<Rightarrow> cyc_thread \<Rightarrow> ((bool \<times> 'd) \<times> cyc_thread) option" where
  "deserialize_sample_from_buffer lib T buffer buf_sz sample data_kind th = (case buffer of
     None \<Rightarrow> Some ((False, sample), th)
   | Some buffer \<Rightarrow> if data_kind = SDK_EMPTY \<or> buf_sz < CDR_HEADER_SIZE then None else (case read_header T buffer of
       None \<Rightarrow> Some ((False, sample), th)
     | Some (ver, end) \<Rightarrow> (case stream_of ver of None \<Rightarrow> Some ((False, sample), th)
       | Some S \<Rightarrow> let str = cl_set_buffer lib (take (buf_sz - CDR_HEADER_SIZE) (drop CDR_HEADER_SIZE buffer))
              (cdr_stream_new lib S end)
           in Option.bind (tt_read T (data_kind = SDK_KEY) (th_props th, str, sample))
              (\<lambda>(ok, P, str, sample). Some ((ok, sample), th\<lparr>th_props := P\<rparr>)))))"

subsection \<open>Serialized samples\<close>

text \<open>
  \<open>ddscxx_serdata<T>\<close>, with the members of \<open>ddsi_serdata\<close> it uses: the kind, the hash and the type,
  of which only \<open>serdata_basehash\<close> is used. One thread works on a sample at a time.
\<close>

record 'd ddscxx_serdata =
  sd_type :: "32 word option"
  sd_kind :: ddsi_serdata_kind
  sd_hash :: "32 word"
  sd_size :: nat
  sd_data :: "8 word list option"
  sd_key :: "8 word list"
  sd_key_md5_hashed :: bool
  sd_t :: "'d option"
  sd_hash_populated :: bool

definition ddscxx_serdata_new :: "32 word option \<Rightarrow> ddsi_serdata_kind \<Rightarrow> 'd ddscxx_serdata" where
  "ddscxx_serdata_new type kind = \<lparr>sd_type = type, sd_kind = kind, sd_hash = 0, sd_size = 0, sd_data = None,
     sd_key = replicate 16 0, sd_key_md5_hashed = False, sd_t = None, sd_hash_populated = False\<rparr>"

definition serdata_resize :: "(nat \<Rightarrow> 8 word) \<Rightarrow> nat \<Rightarrow> 'd ddscxx_serdata \<Rightarrow> 'd ddscxx_serdata" where
  "serdata_resize fresh requested_size d = (if requested_size = 0 then d\<lparr>sd_size := 0, sd_data := None\<rparr>
     else let n_pad_bytes = (2 ^ 64 - requested_size) mod 4
       in d\<lparr>sd_data := Some (map fresh [0..<requested_size] @ replicate n_pad_bytes 0), sd_size := requested_size + n_pad_bytes\<rparr>)"

definition serdata_setT :: "'d \<Rightarrow> 'd ddscxx_serdata \<Rightarrow> 'd ddscxx_serdata" where
  "serdata_setT toset d = d\<lparr>sd_t := Some toset\<rparr>"

definition deserialize_and_update_sample :: "cyclone_lib \<Rightarrow> 'd topic_traits \<Rightarrow> 'd ddscxx_serdata \<Rightarrow> cyc_thread
    \<Rightarrow> ('d option \<times> 'd ddscxx_serdata \<times> cyc_thread) option" where
  "deserialize_and_update_sample lib T d th = Option.bind
     (deserialize_sample_from_buffer lib T (sd_data d) (sd_size d) (tt_new T) (sd_kind d) th)
     (\<lambda>((ok, t), th). let t = (if ok then Some t else None) in Some (t, d\<lparr>sd_t := t\<rparr>, th))"

definition serdata_getT :: "cyclone_lib \<Rightarrow> 'd topic_traits \<Rightarrow> 'd ddscxx_serdata \<Rightarrow> cyc_thread
    \<Rightarrow> ('d option \<times> 'd ddscxx_serdata \<times> cyc_thread) option" where
  "serdata_getT lib T d th = (case sd_t d of Some t \<Rightarrow> Some (Some t, d, th) | None \<Rightarrow> deserialize_and_update_sample lib T d th)"

definition set_key :: "cyclone_lib \<Rightarrow> 'f topic_lib \<Rightarrow> 'd topic_traits \<Rightarrow> 'd \<Rightarrow> 'd ddscxx_serdata \<Rightarrow> cyc_thread
    \<Rightarrow> ('d ddscxx_serdata \<times> cyc_thread) option" where
  "set_key lib H T t d th = Option.bind (to_key lib H T t (sd_key d) th) (\<lambda>((md5, key), th).
     Some (d\<lparr>sd_key := key, sd_key_md5_hashed := md5\<rparr>, th))"

definition populate_hash :: "cyclone_lib \<Rightarrow> 'f topic_lib \<Rightarrow> 'd topic_traits \<Rightarrow> 'd ddscxx_serdata \<Rightarrow> cyc_thread
    \<Rightarrow> ('d ddscxx_serdata \<times> cyc_thread) option" where
  "populate_hash lib H T d th = (if sd_hash_populated d then Some (d, th)
     else Option.bind (serdata_getT lib T d th) (\<lambda>(t, d, th). case t of None \<Rightarrow> None | Some t \<Rightarrow>
       Option.bind (set_key lib H T t d th) (\<lambda>(d, th).
         let bytes = (if sd_key_md5_hashed d then sd_key d else tl_md5 H (sd_key d));
             h = of_nat (mem_value (cl_native lib) (take 4 bytes))
         in map_option (\<lambda>base. (d\<lparr>sd_hash := h XOR base, sd_hash_populated := True\<rparr>, th)) (sd_type d))))"

text \<open>The operations of a serialized sample; a null pointer as result is \<open>None\<close> inside.\<close>

definition serdata_eqkey :: "'d ddscxx_serdata \<Rightarrow> 'd ddscxx_serdata \<Rightarrow> bool" where
  "serdata_eqkey a b \<longleftrightarrow> sd_key a = sd_key b"

definition serdata_size :: "'d ddscxx_serdata \<Rightarrow> 32 word" where
  "serdata_size d = of_nat (sd_size d)"

definition accept_sample :: "cyclone_lib \<Rightarrow> 'f topic_lib \<Rightarrow> 'd topic_traits \<Rightarrow> 'd ddscxx_serdata \<Rightarrow> cyc_thread
    \<Rightarrow> ('d ddscxx_serdata option \<times> cyc_thread) option" where
  "accept_sample lib H T d th = Option.bind (serdata_getT lib T d th) (\<lambda>(t, d, th). case t of
     None \<Rightarrow> Some (None, th)
   | Some t \<Rightarrow> Option.bind (set_key lib H T t d th) (\<lambda>(d, th).
       Option.bind (populate_hash lib H T d th) (\<lambda>(d, th). Some (Some d, th))))"

definition serdata_from_ser :: "cyclone_lib \<Rightarrow> 'f topic_lib \<Rightarrow> 'd topic_traits \<Rightarrow> 32 word option \<Rightarrow> ddsi_serdata_kind
    \<Rightarrow> 'f \<Rightarrow> nat \<Rightarrow> cyc_thread \<Rightarrow> ('d ddscxx_serdata option \<times> cyc_thread) option" where
  "serdata_from_ser lib H T type kind fragchain sz th =
     (let d = serdata_resize (tl_fresh H) sz (ddscxx_serdata_new type kind)
      in accept_sample lib H T (d\<lparr>sd_data := map_option (put_at 0 (tl_copyin H fragchain sz)) (sd_data d)\<rparr>) th)"

fun copy_iov :: "8 word list list \<Rightarrow> nat \<Rightarrow> nat \<Rightarrow> 8 word list \<Rightarrow> 8 word list" where
  "copy_iov [] off sz data = data"
| "copy_iov (v # iov) off sz data = (if off < sz
     then let n_bytes = (if sz < length v + off then sz - off else length v)
       in copy_iov iov (off + n_bytes) sz (put_at off (take n_bytes v) data)
     else data)"

definition serdata_from_ser_iov :: "cyclone_lib \<Rightarrow> 'f topic_lib \<Rightarrow> 'd topic_traits \<Rightarrow> 32 word option \<Rightarrow> ddsi_serdata_kind
    \<Rightarrow> 8 word list list \<Rightarrow> nat \<Rightarrow> cyc_thread \<Rightarrow> ('d ddscxx_serdata option \<times> cyc_thread) option" where
  "serdata_from_ser_iov lib H T type kind iov sz th =
     (let d = serdata_resize (tl_fresh H) sz (ddscxx_serdata_new type kind)
      in accept_sample lib H T (d\<lparr>sd_data := map_option (copy_iov iov 0 sz) (sd_data d)\<rparr>) th)"

definition serdata_from_keyhash :: "32 word option \<Rightarrow> 8 word list \<Rightarrow> 'd ddscxx_serdata option" where
  "serdata_from_keyhash type keyhash = None"

text \<open>What \<open>serdata_from_sample\<close> and \<open>serdata_to_untyped\<close> share: the bytes of an object.\<close>

definition serialize_sample :: "cyclone_lib \<Rightarrow> 'f topic_lib \<Rightarrow> 'd topic_traits \<Rightarrow> stream_kind \<Rightarrow> 'd \<Rightarrow> bool
    \<Rightarrow> 'd ddscxx_serdata \<Rightarrow> cyc_thread \<Rightarrow> ('d ddscxx_serdata option \<times> cyc_thread) option" where
  "serialize_sample lib H T S msg as_key d th = Option.bind (get_serialized_size lib T S msg as_key th) (\<lambda>(r, th).
     case r of None \<Rightarrow> Some (None, th)
     | Some sz \<Rightarrow> let sz = sz + CDR_HEADER_SIZE; d = serdata_resize (tl_fresh H) sz d in
         Option.bind (serialize_into lib T S (sd_data d) sz msg as_key th) (\<lambda>((ok, data), th).
           Some (if ok then Some (d\<lparr>sd_data := data\<rparr>) else None, th)))"

definition serdata_from_sample :: "cyclone_lib \<Rightarrow> 'f topic_lib \<Rightarrow> 'd topic_traits \<Rightarrow> stream_kind \<Rightarrow> 32 word option
    \<Rightarrow> ddsi_serdata_kind \<Rightarrow> 'd \<Rightarrow> cyc_thread \<Rightarrow> ('d ddscxx_serdata option \<times> cyc_thread) option" where
  "serdata_from_sample lib H T S typecmn kind msg th = (if kind = SDK_EMPTY then None
     else Option.bind (serialize_sample lib H T S msg (kind = SDK_KEY) (ddscxx_serdata_new typecmn kind) th) (\<lambda>(r, th).
       case r of None \<Rightarrow> Some (None, th)
       | Some d \<Rightarrow> Option.bind (set_key lib H T msg d th) (\<lambda>(d, th).
           Option.bind (populate_hash lib H T (serdata_setT msg d) th) (\<lambda>(d, th). Some (Some d, th)))))"

definition serdata_to_ser :: "'d ddscxx_serdata \<Rightarrow> nat \<Rightarrow> nat \<Rightarrow> 8 word list option" where
  "serdata_to_ser d off sz = map_option (\<lambda>data. take sz (drop off data)) (sd_data d)"

definition serdata_to_sample :: "cyclone_lib \<Rightarrow> 'd topic_traits \<Rightarrow> 'd ddscxx_serdata \<Rightarrow> 'd \<Rightarrow> cyc_thread
    \<Rightarrow> ((bool \<times> 'd) \<times> 'd ddscxx_serdata \<times> cyc_thread) option" where
  "serdata_to_sample lib T d sample th = Option.bind (serdata_getT lib T d th) (\<lambda>(t, d, th).
     Some (case t of None \<Rightarrow> (False, sample) | Some t \<Rightarrow> (True, t), d, th))"

definition serdata_to_untyped :: "cyclone_lib \<Rightarrow> 'f topic_lib \<Rightarrow> 'd topic_traits \<Rightarrow> stream_kind \<Rightarrow> 'd ddscxx_serdata
    \<Rightarrow> cyc_thread \<Rightarrow> ('d ddscxx_serdata option \<times> 'd ddscxx_serdata \<times> cyc_thread) option" where
  "serdata_to_untyped lib H T S d th = Option.bind (serdata_getT lib T d th) (\<lambda>(t, d, th). case t of
     None \<Rightarrow> Some (None, d, th)
   | Some t \<Rightarrow> Option.bind (serialize_sample lib H T S t True (ddscxx_serdata_new None SDK_KEY) th) (\<lambda>(r, th).
       case r of None \<Rightarrow> Some (None, d, th)
       | Some d1 \<Rightarrow> Option.bind (set_key lib H T t d1 th) (\<lambda>(d1, th). Some (Some (d1\<lparr>sd_hash := sd_hash d\<rparr>), d, th))))"

definition serdata_untyped_to_sample :: "cyclone_lib \<Rightarrow> 'd topic_traits \<Rightarrow> 'd ddscxx_serdata \<Rightarrow> 'd \<Rightarrow> cyc_thread
    \<Rightarrow> ((bool \<times> 'd) \<times> cyc_thread) option" where
  "serdata_untyped_to_sample lib T d sample th =
     deserialize_sample_from_buffer lib T (sd_data d) (sd_size d) sample SDK_KEY th"

definition serdata_get_keyhash :: "'f topic_lib \<Rightarrow> 'd ddscxx_serdata \<Rightarrow> bool \<Rightarrow> 8 word list" where
  "serdata_get_keyhash H d force_md5 = (if force_md5 \<and> \<not> sd_key_md5_hashed d then tl_md5 H (sd_key d) else sd_key d)"

subsection \<open>The type\<close>

definition sertype_get_serialized_size :: "cyclone_lib \<Rightarrow> 'd topic_traits \<Rightarrow> stream_kind \<Rightarrow> 'd \<Rightarrow> cyc_thread
    \<Rightarrow> (nat \<times> cyc_thread) option" where
  "sertype_get_serialized_size lib T S msg th = Option.bind (get_serialized_size lib T S msg False th) (\<lambda>(r, th).
     Some (case r of None \<Rightarrow> SIZE_MAX | Some sz \<Rightarrow> sz + CDR_HEADER_SIZE, th))"

definition sertype_serialize_into :: "cyclone_lib \<Rightarrow> 'd topic_traits \<Rightarrow> stream_kind \<Rightarrow> 'd \<Rightarrow> 8 word list option \<Rightarrow> nat
    \<Rightarrow> cyc_thread \<Rightarrow> ((bool \<times> 8 word list option) \<times> cyc_thread) option" where
  "sertype_serialize_into lib T S msg dst_buffer sz = serialize_into lib T S dst_buffer sz msg False"

end
