(* ===== verification/CycloneVisit.thy ===== *)
theory CycloneVisit
  imports CycloneTypes OpenControl
begin

section \<open>What the functions of the types do\<close>

text \<open>
  Each function of a type puts, takes or measures the image of the members in their order
  (\<open>does\<close>), at whatever position of the description the type is, and in a key stream of an
  \<open>AirEntity\<close> the image of the id alone; \<open>topicE\<close> says what the overloads with \<open>as_key\<close> make of it.
\<close>

subsection \<open>Writing and measuring\<close>

lemma does_unit: "does lib m k L f qs (g :: unit \<Rightarrow> unit) \<Longrightarrow> does lib m k L f qs g'"
proof -
  assume d: "does lib m k L f qs g"
  have "g = g'" by (rule ext) simp
  with d show ?thesis by (simp only:)
qed

text \<open>A function on primitive values that is right for the mode of the stream.\<close>

definition right_op :: "cyclone_lib \<Rightarrow> stream_mode \<Rightarrow> prim_op \<Rightarrow> bool" where
  "right_op lib m op \<longleftrightarrow> (\<forall>k L q. does lib m k L (on_stream (op q)) [q] (\<lambda>d :: unit. d))"

lemma right_ops: "cyclone_ok lib \<Longrightarrow> right_op lib mode_write (cdr_write lib)"
  "cyclone_ok lib \<Longrightarrow> right_op lib mode_move (cdr_move lib)" "cyclone_ok lib \<Longrightarrow> right_op lib mode_max (cdr_max lib)"
  unfolding right_op_def by (intro allI does_write does_measure; assumption)+

lemma level_members: "level L p js \<Longrightarrow> plain_props L" "level L p js \<Longrightarrow> j \<in> set js \<Longrightarrow> j < length L"
  by (auto simp: level_def dest: linked_range)

lemma visit_object:
  assumes "cyclone_ok lib" "level L p js" "map (\<lambda>j. ep_m_id (L ! j)) js = [0..<n]" "length fs = n"
    and "branches lib m False L js 0 fs qss gs"
  shows "does lib m False L (cyc_struct lib fs p) (concat qss) (\<lambda>d :: unit. d)"
  by (rule does_unit, rule does_object[OF assms(1,2) _ assms(5)]) (simp only: assms(3,4))

lemma does_op: "right_op lib m op \<Longrightarrow> does lib m k L (on_stream (op q)) [q] (\<lambda>d :: unit. d)"
  unfolding right_op_def by blast

lemma does_EntityID_visit:
  assumes lib: "cyclone_ok lib" and op: "right_op lib m op"
    and l: "level L p js" "map (\<lambda>j. ep_m_id (L ! j)) js = [0..<14]"
  shows "does lib m False L (EntityID_visit lib op a p) (EntityID_prims a) (\<lambda>d. d)"
  unfolding EntityID_visit_def EntityID_prims_def
  by (rule visit_object[OF lib l]) (simp, (rule branch no_branch does_member[OF lib _ level_members(1)[OF l(1)]]
    does_array[OF lib] does_op[OF op] level_members(2)[OF l(1)] | assumption)+)

lemma does_Target_visit:
  assumes lib: "cyclone_ok lib" and op: "right_op lib m op"
    and l: "level L p js" "map (\<lambda>j. ep_m_id (L ! j)) js = [0..<1]"
  shows "does lib m False L (Target_visit lib op a p) (Target_prims a) (\<lambda>d. d)"
  unfolding Target_visit_def Target_prims_def
  by (rule visit_object[OF lib l]) (simp, (rule branch no_branch does_member[OF lib _ level_members(1)[OF l(1)]]
    does_array[OF lib] does_op[OF op] level_members(2)[OF l(1)] | assumption)+)

lemma does_Position_visit:
  assumes lib: "cyclone_ok lib" and op: "right_op lib m op"
    and l: "level L p js" "map (\<lambda>j. ep_m_id (L ! j)) js = [0..<5]"
  shows "does lib m False L (Position_visit lib op a p) (Position_prims a) (\<lambda>d. d)"
  unfolding Position_visit_def Position_prims_def
  by (rule visit_object[OF lib l]) (simp, (rule branch no_branch does_member[OF lib _ level_members(1)[OF l(1)]]
    does_array[OF lib] does_op[OF op] level_members(2)[OF l(1)] | assumption)+)

lemma does_Attitude_visit:
  assumes lib: "cyclone_ok lib" and op: "right_op lib m op"
    and l: "level L p js" "map (\<lambda>j. ep_m_id (L ! j)) js = [0..<3]"
  shows "does lib m False L (Attitude_visit lib op a p) (Attitude_prims a) (\<lambda>d. d)"
  unfolding Attitude_visit_def Attitude_prims_def
  by (rule visit_object[OF lib l]) (simp, (rule branch no_branch does_member[OF lib _ level_members(1)[OF l(1)]]
    does_array[OF lib] does_op[OF op] level_members(2)[OF l(1)] | assumption)+)

lemma does_MovementAirEntity_visit:
  assumes lib: "cyclone_ok lib" and op: "right_op lib m op"
    and l: "level L p js" "map (\<lambda>j. ep_m_id (L ! j)) js = [0..<20]"
  shows "does lib m False L (MovementAirEntity_visit lib op a p) (MovementAirEntity_prims a) (\<lambda>d. d)"
  unfolding MovementAirEntity_visit_def MovementAirEntity_prims_def
  by (rule visit_object[OF lib l]) (simp, (rule branch no_branch does_member[OF lib _ level_members(1)[OF l(1)]]
    does_array[OF lib] does_op[OF op] level_members(2)[OF l(1)] | assumption)+)

text \<open>The members of an \<open>AirEntity\<close> and the entities that stand for them.\<close>

lemma AirEntity_tree:
  assumes "tree_of AirEntity_cores L"
  shows "level L 0 [1, 2, 6, 27, 28, 29, 30]" "map (\<lambda>j. ep_m_id (L ! j)) [1, 2, 6, 27, 28, 29, 30] = [0..<7]"
    "j \<in> set [1, 2, 6, 27, 28, 29, 30] \<Longrightarrow> ep_m_id (L ! j) = Suc 0 \<Longrightarrow> level L j [3, 4, 5] \<and> map (\<lambda>j. ep_m_id (L ! j)) [3, 4, 5] = [0..<3]"
    "j \<in> set [1, 2, 6, 27, 28, 29, 30] \<Longrightarrow> ep_m_id (L ! j) = Suc (Suc 0) \<Longrightarrow>
      level L j [7, 8, 9, 10, 11, 12, 13, 14, 15, 16, 17, 18, 19, 20, 21, 22, 23, 24, 25, 26]
      \<and> map (\<lambda>j. ep_m_id (L ! j)) [7, 8, 9, 10, 11, 12, 13, 14, 15, 16, 17, 18, 19, 20, 21, 22, 23, 24, 25, 26] = [0..<20]"
proof -
  note l = tree_level[OF assms AirEntity_levels(1), unfolded AirEntity_ids]
    tree_level[OF assms AirEntity_levels(2), unfolded AirEntity_ids]
    tree_level[OF assms AirEntity_levels(3), unfolded AirEntity_ids]
  show "level L 0 [1, 2, 6, 27, 28, 29, 30]" "map (\<lambda>j. ep_m_id (L ! j)) [1, 2, 6, 27, 28, 29, 30] = [0..<7]" by (rule l)+
  have "[0..<7] = [0, 1, 2, 3, 4, 5, 6 :: nat]" by code_simp
  with l(2) have i: "ep_m_id (L ! 1) = 0" "ep_m_id (L ! 2) = 1" "ep_m_id (L ! 6) = 2" "ep_m_id (L ! 27) = 3"
    "ep_m_id (L ! 28) = 4" "ep_m_id (L ! 29) = 5" "ep_m_id (L ! 30) = 6" by simp_all
  assume j: "j \<in> set [1, 2, 6, 27, 28, 29, 30]"
  show "ep_m_id (L ! j) = Suc 0 \<Longrightarrow> level L j [3, 4, 5] \<and> map (\<lambda>j. ep_m_id (L ! j)) [3, 4, 5] = [0..<3]"
  proof -
    assume "ep_m_id (L ! j) = Suc 0"
    with j i have "j = 2" by auto
    with l(3,4) show ?thesis by simp
  qed
  show "ep_m_id (L ! j) = Suc (Suc 0) \<Longrightarrow>
      level L j [7, 8, 9, 10, 11, 12, 13, 14, 15, 16, 17, 18, 19, 20, 21, 22, 23, 24, 25, 26]
      \<and> map (\<lambda>j. ep_m_id (L ! j)) [7, 8, 9, 10, 11, 12, 13, 14, 15, 16, 17, 18, 19, 20, 21, 22, 23, 24, 25, 26] = [0..<20]"
  proof -
    assume "ep_m_id (L ! j) = Suc (Suc 0)"
    with j i have "j = 6" by auto
    with l(5,6) show ?thesis by (simp only:)
  qed
qed

lemma keyed_wanted:
  assumes "tree_of cs L" "keyed i L" "list_all (\<lambda>j. j < length cs \<and> fst (cs ! j) = 1) js"
  shows "wanted True L js = filter (\<lambda>j. ep_m_id (L ! j) = i) js"
  unfolding wanted_def
proof (rule filter_cong[OF refl])
  fix j assume "j \<in> set js"
  with assms(3) have j: "j < length cs" "fst (cs ! j) = 1" by (simp_all add: list_all_iff)
  note c = tree_core[OF assms(1) j(1)]
  have "ep_depth (L ! j) = 1" using j(2) by (simp add: c ep_core_def)
  moreover have "L ! j \<in> set L" using c(2) by simp
  ultimately show "(True \<longrightarrow> ep_is_key (L ! j)) = (ep_m_id (L ! j) = i)" using assms(2) unfolding keyed_def by blast
qed

lemma AirEntity_key_wanted:
  assumes "tree_of AirEntity_cores L" "keyed 0 L"
  shows "wanted True L [1, 2, 6, 27, 28, 29, 30] = [1]" "ep_m_id (L ! 1) = 0"
proof -
  have "[0..<7] = [0, 1, 2, 3, 4, 5, 6 :: nat]" by code_simp
  with AirEntity_tree(2)[OF assms(1)] have i: "ep_m_id (L ! 1) = 0" "ep_m_id (L ! 2) = 1" "ep_m_id (L ! 6) = 2"
    "ep_m_id (L ! 27) = 3" "ep_m_id (L ! 28) = 4" "ep_m_id (L ! 29) = 5" "ep_m_id (L ! 30) = 6" by simp_all
  have "list_all (\<lambda>j. j < length AirEntity_cores \<and> fst (AirEntity_cores ! j) = 1) [1, 2, 6, 27, 28, 29, 30]" by code_simp
  from keyed_wanted[OF assms this] show "wanted True L [1, 2, 6, 27, 28, 29, 30] = [1]" using i by simp
  show "ep_m_id (L ! 1) = 0" by (rule i)
qed

lemma TestControl_tree:
  assumes "tree_of (flat_cores 6) L"
  shows "level L 0 [1, 2, 3, 4, 5, 6]" "map (\<lambda>j. ep_m_id (L ! j)) [1, 2, 3, 4, 5, 6] = [0..<6]"
    "keyed 0 L \<Longrightarrow> wanted True L [1, 2, 3, 4, 5, 6] = [1]" "ep_m_id (L ! 1) = 0"
proof -
  note l = tree_level[OF assms flat_levels(4), unfolded flat_ids]
  show "level L 0 [1, 2, 3, 4, 5, 6]" "map (\<lambda>j. ep_m_id (L ! j)) [1, 2, 3, 4, 5, 6] = [0..<6]" by (rule l)+
  have "[0..<6] = [0, 1, 2, 3, 4, 5 :: nat]" by code_simp
  with l(2) have i: "ep_m_id (L ! 1) = 0" "ep_m_id (L ! 2) = 1" "ep_m_id (L ! 3) = 2" "ep_m_id (L ! 4) = 3"
    "ep_m_id (L ! 5) = 4" "ep_m_id (L ! 6) = 5" by simp_all
  have "list_all (\<lambda>j. j < length (flat_cores 6) \<and> fst (flat_cores 6 ! j) = 1) [1, 2, 3, 4, 5, 6]" by code_simp
  from keyed_wanted[OF assms _ this] show "keyed 0 L \<Longrightarrow> wanted True L [1, 2, 3, 4, 5, 6] = [1]" using i by simp
  show "ep_m_id (L ! 1) = 0" by (rule i)
qed

lemma does_AirEntity_visit:
  assumes lib: "cyclone_ok lib" and op: "right_op lib m op" and t: "tree_of AirEntity_cores L"
  shows "does lib m False L (AirEntity_visit lib op a 0) (AirEntity_prims a) (\<lambda>d. d)"
proof -
  note l = AirEntity_tree(1)[OF t]
  note n1 = AirEntity_tree(3)[OF t]
  note n2 = AirEntity_tree(4)[OF t]
  show ?thesis unfolding AirEntity_visit_def AirEntity_prims_def
    by (rule visit_object[OF lib l AirEntity_tree(2)[OF t]]) (simp, (rule branch no_branch does_member[OF lib _ level_members(1)[OF l]]
      does_op[OF op] level_members(2)[OF l] does_Attitude_visit[OF lib op conjunct1[OF n1] conjunct2[OF n1]]
      does_MovementAirEntity_visit[OF lib op conjunct1[OF n2] conjunct2[OF n2]] | assumption)+)
qed

lemma does_AirEntity_key:
  assumes lib: "cyclone_ok lib" and op: "right_op lib m op" and t: "tree_of AirEntity_cores L" "keyed 0 L"
  shows "does lib m True L (AirEntity_visit lib op a 0) [PInt32 (ent_id a)] (\<lambda>d. d)"
proof -
  note l = AirEntity_tree(1,2)[OF t(1)]
  have "(1 :: nat) < length L" by (rule level_members(2)[OF l(1)]) simp
  from does_member[OF lib does_op[OF op] level_members(1)[OF l(1)] this] show ?thesis
    unfolding AirEntity_visit_def
    by (intro does_key[OF lib l _ AirEntity_key_wanted[OF t]]) simp_all
qed

lemma does_TestControl_visit:
  assumes lib: "cyclone_ok lib" and op: "right_op lib m op" and t: "tree_of (flat_cores 6) L"
  shows "does lib m False L (TestControl_visit lib op a 0) (concat (TestControl_values a)) (\<lambda>d. d)"
proof -
  note l = TestControl_tree(1,2)[OF t]
  show ?thesis unfolding TestControl_visit_def TestControl_values_def
    by (rule visit_object[OF lib l]) (simp, (rule branch no_branch does_member[OF lib _ level_members(1)[OF l(1)]]
      does_op[OF op] level_members(2)[OF l(1)] | assumption)+)
qed

lemma does_TestControl_key:
  assumes lib: "cyclone_ok lib" and op: "right_op lib m op" and t: "tree_of (flat_cores 6) L" "keyed 0 L"
  shows "does lib m True L (TestControl_visit lib op a 0) [PInt32 (tc_test_id a)] (\<lambda>d. d)"
proof -
  note l = TestControl_tree(1,2)[OF t(1)]
  have "(1 :: nat) < length L" by (rule level_members(2)[OF l(1)]) simp
  from does_member[OF lib does_op[OF op] level_members(1)[OF l(1)] this] show ?thesis
    unfolding TestControl_visit_def
    by (intro does_key[OF lib l _ TestControl_tree(3)[OF t] TestControl_tree(4)[OF t(1)]]) simp_all
qed

text \<open>Reading.\<close>

lemma does_read_nested:
  assumes "does lib m k L (f j) qs (\<lambda>_. v)"
  shows "does lib m k L (read_nested f field store j) qs (store v)"
proof (rule doesI)
  fix s ps d
  assume s: "stream_ok lib s" "cs_mode s = m" "cs_key s = k" "skel ps = L"
    "measuring s \<longrightarrow> cs_position s + length (stream_image s qs) < 2 ^ 62"
  from assms s show "outcome L s qs (store v) d (read_nested f field store j (s, ps, d))"
    by (cases rule: doesE[where d = "field d"]) (auto simp: read_nested_def)
qed

lemma read_object:
  assumes "cyclone_ok lib" "level L p js" "map (\<lambda>j. ep_m_id (L ! j)) js = [0..<n]" "length fs = n"
    and "branches lib m False L js 0 fs qss gs" "\<And>d. apply_all gs d = a"
  shows "does lib m False L (cyc_struct lib fs p) (concat qss) (\<lambda>_. a)"
proof -
  have "apply_all gs = (\<lambda>_. a)" by (rule ext) (rule assms(6))
  moreover have "does lib m False L (cyc_struct lib fs p) (concat qss) (apply_all gs)"
    by (rule does_object[OF assms(1,2) _ assms(5)]) (simp only: assms(3,4))
  ultimately show ?thesis by (simp only:)
qed

lemma does_read_EntityID:
  assumes lib: "cyclone_ok lib" and l: "level L p js" "map (\<lambda>j. ep_m_id (L ! j)) js = [0..<14]" and ok: "EntityID_ok a"
  shows "does lib mode_read False L (cyc_read_EntityID lib p) (EntityID_prims a) (\<lambda>_. a)"
  unfolding cyc_read_EntityID_def EntityID_prims_def
  by (insert ok[unfolded EntityID_ok_def], rule read_object[OF lib l], simp, (rule branch no_branch does_member[OF lib _ level_members(1)[OF l(1)]]
    does_array[OF lib] does_read[OF lib] level_members(2)[OF l(1)] | assumption | (simp; fail))+)

lemma does_read_Target:
  assumes lib: "cyclone_ok lib" and l: "level L p js" "map (\<lambda>j. ep_m_id (L ! j)) js = [0..<1]" and ok: "Target_ok a"
  shows "does lib mode_read False L (cyc_read_Target lib p) (Target_prims a) (\<lambda>_. a)"
  unfolding cyc_read_Target_def Target_prims_def
  by (insert ok[unfolded Target_ok_def], rule read_object[OF lib l], simp, (rule branch no_branch does_member[OF lib _ level_members(1)[OF l(1)]]
    does_array[OF lib] does_read[OF lib] level_members(2)[OF l(1)] | assumption | (simp; fail))+)

lemma does_read_Position:
  assumes lib: "cyclone_ok lib" and l: "level L p js" "map (\<lambda>j. ep_m_id (L ! j)) js = [0..<5]"
  shows "does lib mode_read False L (cyc_read_Position lib p) (Position_prims a) (\<lambda>_. a)"
  unfolding cyc_read_Position_def Position_prims_def
  by (rule read_object[OF lib l], simp, (rule branch no_branch does_member[OF lib _ level_members(1)[OF l(1)]]
    does_array[OF lib] does_read[OF lib] level_members(2)[OF l(1)] | assumption | (simp; fail))+)

lemma does_read_Attitude:
  assumes lib: "cyclone_ok lib" and l: "level L p js" "map (\<lambda>j. ep_m_id (L ! j)) js = [0..<3]"
  shows "does lib mode_read False L (cyc_read_Attitude lib p) (Attitude_prims a) (\<lambda>_. a)"
  unfolding cyc_read_Attitude_def Attitude_prims_def
  by (rule read_object[OF lib l], simp, (rule branch no_branch does_member[OF lib _ level_members(1)[OF l(1)]]
    does_array[OF lib] does_read[OF lib] level_members(2)[OF l(1)] | assumption | (simp; fail))+)

lemma does_read_MovementAirEntity:
  assumes lib: "cyclone_ok lib" and l: "level L p js" "map (\<lambda>j. ep_m_id (L ! j)) js = [0..<20]" and ok: "MovementAirEntity_ok a"
  shows "does lib mode_read False L (cyc_read_MovementAirEntity lib p) (MovementAirEntity_prims a) (\<lambda>_. a)"
  unfolding cyc_read_MovementAirEntity_def MovementAirEntity_prims_def
  by (insert ok[unfolded MovementAirEntity_ok_def], rule read_object[OF lib l], simp, (rule branch no_branch does_member[OF lib _ level_members(1)[OF l(1)]]
    does_array[OF lib] does_read[OF lib] level_members(2)[OF l(1)] | assumption | (simp; fail))+)

lemma does_read_AirEntity:
  assumes lib: "cyclone_ok lib" and t: "tree_of AirEntity_cores L" and ok: "AirEntity_ok a"
  shows "does lib mode_read False L (cyc_read_AirEntity lib 0) (AirEntity_prims a) (\<lambda>_. a)"
proof -
  note l = AirEntity_tree(1)[OF t]
  note n1 = AirEntity_tree(3)[OF t]
  note n2 = AirEntity_tree(4)[OF t]
  have "MovementAirEntity_ok (movement a)" "is_i32 (ent_id a)" "is_i32 (formationID a)" "is_i32 (posInt_inseoFormation a)"
    using ok by (simp_all add: AirEntity_ok_def)
  then show ?thesis unfolding cyc_read_AirEntity_def AirEntity_prims_def
    by (intro read_object[OF lib l AirEntity_tree(2)[OF t]]) (simp, (rule branch no_branch does_member[OF lib _ level_members(1)[OF l]]
      does_read[OF lib] level_members(2)[OF l] does_read_nested does_read_Attitude[OF lib conjunct1[OF n1] conjunct2[OF n1]]
      does_read_MovementAirEntity[OF lib conjunct1[OF n2] conjunct2[OF n2]] | assumption | (simp; fail))+)
qed

lemma does_read_AirEntity_key:
  assumes lib: "cyclone_ok lib" and t: "tree_of AirEntity_cores L" "keyed 0 L" and i: "is_i32 i"
  shows "does lib mode_read True L (cyc_read_AirEntity lib 0) [PInt32 i] (\<lambda>d. d\<lparr>ent_id := i\<rparr>)"
proof -
  note l = AirEntity_tree(1,2)[OF t(1)]
  have "(1 :: nat) < length L" by (rule level_members(2)[OF l(1)]) simp
  from does_member[OF lib does_read(1)[OF lib i, of True L "\<lambda>v d. d\<lparr>ent_id := v\<rparr>"] level_members(1)[OF l(1)] this] show ?thesis
    unfolding cyc_read_AirEntity_def
    by (intro does_key[OF lib l _ AirEntity_key_wanted[OF t]]) simp_all
qed

lemma does_read_TestControl:
  assumes lib: "cyclone_ok lib" and t: "tree_of (flat_cores 6) L" and ok: "TestControl_ok a"
  shows "does lib mode_read False L (cyc_read_TestControl lib 0) (concat (TestControl_values a)) (\<lambda>_. a)"
proof -
  note l = TestControl_tree(1,2)[OF t]
  show ?thesis unfolding cyc_read_TestControl_def TestControl_values_def
    by (insert ok[unfolded TestControl_ok_def], rule read_object[OF lib l], simp, (rule branch no_branch
      does_member[OF lib _ level_members(1)[OF l(1)]] does_read[OF lib] level_members(2)[OF l(1)] | assumption | (simp; fail))+)
qed

lemma does_read_TestControl_key:
  assumes lib: "cyclone_ok lib" and t: "tree_of (flat_cores 6) L" "keyed 0 L" and i: "is_i32 i"
  shows "does lib mode_read True L (cyc_read_TestControl lib 0) [PInt32 i] (\<lambda>d. d\<lparr>tc_test_id := i\<rparr>)"
proof -
  note l = TestControl_tree(1,2)[OF t(1)]
  have "(1 :: nat) < length L" by (rule level_members(2)[OF l(1)]) simp
  from does_member[OF lib does_read(1)[OF lib i, of True L "\<lambda>v d. d\<lparr>tc_test_id := v\<rparr>"] level_members(1)[OF l(1)] this] show ?thesis
    unfolding cyc_read_TestControl_def
    by (intro does_key[OF lib l _ TestControl_tree(3)[OF t] TestControl_tree(4)[OF t(1)]]) simp_all
qed

subsection \<open>As topics\<close>

text \<open>
  A stream that knows whether it has to swap; the image from the first byte; the modes that
  take no notice of the end of the buffer.
\<close>

definition tuned :: "cyclone_lib \<Rightarrow> cdr_stream \<Rightarrow> bool" where
  "tuned lib s \<longleftrightarrow> cs_swap s = (cl_native lib \<noteq> cs_endianness s) \<and> (cs_max_alignment s = 4 \<or> cs_max_alignment s = 8)"

definition topic_image :: "cdr_stream \<Rightarrow> prim list \<Rightarrow> 8 word list" where
  "topic_image s = wire_image (\<lambda>n. min n (cs_max_alignment s)) (cs_endianness s) 0"

definition measures :: "stream_mode \<Rightarrow> bool" where
  "measures m \<longleftrightarrow> m = mode_move \<or> m = mode_max"

lemma set_mode_ok:
  assumes "cyclone_ok lib" "tuned lib s" "measures m \<or> length (cs_buffer s) < 2 ^ 61"
  shows "stream_ok lib (set_mode lib m k s)" "cs_mode (set_mode lib m k s) = m" "cs_key (set_mode lib m k s) = k"
    "cs_position (set_mode lib m k s) = 0" "cs_buffer (set_mode lib m k s) = cs_buffer s"
    "stream_image (set_mode lib m k s) = topic_image s" "measuring (set_mode lib m k s) = measures m"
    "cs_max_alignment (set_mode lib m k s) = cs_max_alignment s" "cs_endianness (set_mode lib m k s) = cs_endianness s"
    "cs_swap (set_mode lib m k s) = cs_swap s"
proof -
  let ?s = "s\<lparr>cs_mode := m, cs_key := k\<rparr>"
  have "\<exists>al. like (cl_reset lib ?s) (?s\<lparr>cs_position := 0, cs_current_alignment := al\<rparr>)"
    using assms(1) unfolding cyclone_ok_def cursor_ok_def by blast
  then obtain al where r: "like (set_mode lib m k s) (?s\<lparr>cs_position := 0, cs_current_alignment := al\<rparr>)"
    unfolding set_mode_def by blast
  then show f: "cs_mode (set_mode lib m k s) = m" "cs_key (set_mode lib m k s) = k" "cs_position (set_mode lib m k s) = 0"
    "cs_buffer (set_mode lib m k s) = cs_buffer s" "cs_max_alignment (set_mode lib m k s) = cs_max_alignment s"
    "cs_endianness (set_mode lib m k s) = cs_endianness s" "cs_swap (set_mode lib m k s) = cs_swap s"
    by (simp_all add: like_def)
  then show "stream_image (set_mode lib m k s) = topic_image s" "measuring (set_mode lib m k s) = measures m"
    by (simp_all add: stream_image_def topic_image_def measuring_def measures_def)
  then show "stream_ok lib (set_mode lib m k s)"
    using assms(2,3) by (auto simp: stream_ok_def aligned_def tuned_def f)
qed

lemma topicE:
  assumes lib: "cyclone_ok lib" "tuned lib s" "get_props lib S = (ps, S1)" "does lib m k (skel ps) (f 0) qs g"
    and len: "length (topic_image s qs) < 2 ^ 61" "measures m \<or> length (cs_buffer s) < 2 ^ 61"
  obtains (good) ps' t d' where "on_topic get_props put lib m f k (S, s, d) = Some (True, put ps' S1, t, d')"
      "skel ps' = skel ps" "measures m \<or> length (topic_image s qs) \<le> length (cs_buffer s)"
      "tuned lib t" "cs_position t = length (topic_image s qs)"
      "cs_buffer t = (if m = mode_write then put_at 0 (topic_image s qs) (cs_buffer s) else cs_buffer s)"
      "cs_endianness t = cs_endianness s" "cs_max_alignment t = cs_max_alignment s"
      "m = mode_read \<longrightarrow> take (length (topic_image s qs)) (cs_buffer s) = topic_image s qs \<Longrightarrow> d' = g d"
  | (full) ps' t d' where "on_topic get_props put lib m f k (S, s, d) = Some (False, put ps' S1, t, d')"
      "skel ps' = skel ps" "\<not> (measures m \<or> length (topic_image s qs) \<le> length (cs_buffer s))"
proof -
  define u where "u = set_mode lib m k s"
  note s = set_mode_ok[OF lib(1,2) len(2), of k, folded u_def]
  have "measuring u \<longrightarrow> cs_position u + length (stream_image u qs) < 2 ^ 62"
    using len(1) by (simp add: s)
  from lib(4) s(1-3) refl[of "skel ps"] this show thesis
  proof (cases rule: doesE[where d = d])
    case (good t ps' d')
    have o: "on_topic get_props put lib m f k (S, s, d) = Some (True, put ps' S1, t, d')"
      by (simp add: on_topic_def assms(3) u_def[symmetric] good(1))
    note t = advanced_ok[OF good(3) s(1) good(2)]
    have "cs_swap t = cs_swap s" using good(3) by (simp add: advanced_def like_def s)
    then have "tuned lib t" using assms(2) t by (simp add: tuned_def s)
    moreover have "cs_buffer t = (if m = mode_write then put_at 0 (topic_image s qs) (cs_buffer s) else cs_buffer s)"
      using good(3) by (simp add: advanced_def like_def s)
    moreover have "measures m \<or> length (topic_image s qs) \<le> length (cs_buffer s)"
      using good(2) by (simp add: has_room_def s)
    moreover have "d' = g d" if "m = mode_read \<longrightarrow> take (length (topic_image s qs)) (cs_buffer s) = topic_image s qs"
      by (rule good(5)) (use that in \<open>simp add: carries_def s\<close>)
    ultimately show thesis using t s by (intro that(1)[OF o good(4)]) simp_all
  next
    case (full t ps' d')
    have "on_topic get_props put lib m f k (S, s, d) = Some (False, put ps' S1, t, d')"
      by (simp add: on_topic_def assms(3) u_def[symmetric] full(1))
    moreover have "\<not> (measures m \<or> length (topic_image s qs) \<le> length (cs_buffer s))"
      using full(2) by (simp add: has_room_def s)
    ultimately show thesis by (rule that(2)[OF _ full(3)])
  qed
qed

subsection \<open>Whole calls\<close>

text \<open>
  What the overloads of a topic type with a key keep: the descriptions stay as they are but for the
  marks. \<open>ok\<close> holds of the descriptions, \<open>sz\<close> is the size of the image.
\<close>

lemma visit_topic_ok:
  assumes "cyclone_ok lib" "tuned lib s" "get_props lib S = (ps, S1)" "does lib m k (skel ps) (f 0) qs (\<lambda>d. d)"
    and sz: "length (topic_image s qs) = sz" "sz < 2 ^ 31" and m: "measures m \<or> length (cs_buffer s) < 2 ^ 61"
    and P: "\<And>ps'. skel ps' = skel ps \<Longrightarrow> P (put ps' S1)"
  shows "\<exists>S' t. visit_topic get_props put lib m f k (S, s) = Some (measures m \<or> sz \<le> length (cs_buffer s), S', t) \<and> P S'
    \<and> (measures m \<or> sz \<le> length (cs_buffer s) \<longrightarrow> tuned lib t \<and> cs_position t = sz
        \<and> cs_buffer t = (if m = mode_write then put_at 0 (topic_image s qs) (cs_buffer s) else cs_buffer s))"
proof -
  have len: "length (topic_image s qs) < 2 ^ 61" using sz by simp
  show ?thesis
    by (rule topicE[where get_props = get_props and f = f and d = "()" and put = put, OF assms(1-4) len m])
      (use P in \<open>simp_all add: visit_topic_def sz(1)\<close>)
qed

lemma read_topic_ok:
  assumes "cyclone_ok lib" "tuned lib s" "get_props lib S = (ps, S1)" "length (cs_buffer s) < 2 ^ 61"
    and f: "\<And>a. ok a \<Longrightarrow> does lib mode_read k (skel ps) (f 0) (qs a) (g a)" and some: "ok a0"
    and sz: "\<And>a. ok a \<Longrightarrow> length (topic_image s (qs a)) = sz" "sz < 2 ^ 31"
    and P: "\<And>ps'. skel ps' = skel ps \<Longrightarrow> P (put ps' S1)"
  shows "\<exists>S' t d'. on_topic get_props put lib mode_read f k (S, s, d) = Some (sz \<le> length (cs_buffer s), S', t, d') \<and> P S'
    \<and> (\<forall>a. ok a \<longrightarrow> take sz (cs_buffer s) = topic_image s (qs a) \<longrightarrow> d' = g a d)"
proof -
  let ?r = "on_topic get_props put lib mode_read f k (S, s, d)"
  have one: "\<exists>S' t d'. ?r = Some (sz \<le> length (cs_buffer s), S', t, d') \<and> P S'
      \<and> (take sz (cs_buffer s) = topic_image s (qs a) \<longrightarrow> d' = g a d)" if a: "ok a" for a
  proof -
    have len: "length (topic_image s (qs a)) < 2 ^ 61" using sz(1)[OF a] sz(2) by simp
    have m: "measures mode_read \<or> length (cs_buffer s) < 2 ^ 61" using assms(4) by simp
    show ?thesis
      by (rule topicE[where get_props = get_props and f = f and d = d and put = put, OF assms(1-3) f[OF a] len m])
        (use P in \<open>auto simp: sz(1)[OF a] measures_def\<close>)
  qed
  obtain S' t d' where r: "?r = Some (sz \<le> length (cs_buffer s), S', t, d')" "P S'" using one[OF some] by blast
  have "d' = g a d" if "ok a" "take sz (cs_buffer s) = topic_image s (qs a)" for a
    using one[OF that(1)] that(2) r(1) by auto
  with r show ?thesis by blast
qed

lemma tree_of_skel: "skel ps' = skel ps \<Longrightarrow> tree_of cs ps \<Longrightarrow> tree_of cs ps'"
proof -
  have t: "tree_of cs (skel qs) = tree_of cs qs" for qs
    by (simp add: tree_of_def links_ok_def skel_def ep_core_def[abs_def] comp_def Let_def)
  then show "skel ps' = skel ps \<Longrightarrow> tree_of cs ps \<Longrightarrow> tree_of cs ps'" by metis
qed

lemma keyed_of_skel: "skel ps' = skel ps \<Longrightarrow> keyed m ps \<Longrightarrow> keyed m ps'"
proof -
  have t: "keyed m (skel qs) = keyed m qs" for qs by (simp add: keyed_def skel_def)
  then show "skel ps' = skel ps \<Longrightarrow> keyed m ps \<Longrightarrow> keyed m ps'" by metis
qed

end
