(* ===== verification/CycloneTopic.thy ===== *)
theory CycloneTopic
  imports CycloneSample CycloneVisit
begin

section \<open>What the templates make of a topic type\<close>

text \<open>
  The interface between the templates of \<open>datatopic.hpp\<close> and the generated code of a topic type
  is a locale: the generated overloads put, measure and take the image of the values \<open>prims k a\<close>,
  for the whole object or the key (\<open>k\<close>), \<open>sz k\<close> bytes in whatever stream. The templates then keep
  the promises of a sample, proved once inside the locale; the interpretation is in \<open>CycloneAir\<close>.
\<close>

subsection \<open>Streams just opened\<close>

definition kind_align :: "stream_kind \<Rightarrow> nat" where
  "kind_align S = (if S = xcdr_v2_stream then 4 else 8)"

lemma kind_align: "kind_align S = 4 \<or> kind_align S = 8"
  by (simp add: kind_align_def)

lemma stream_new: "tuned lib (cdr_stream_new lib S e)" "cs_max_alignment (cdr_stream_new lib S e) = kind_align S"
  "cs_endianness (cdr_stream_new lib S e) = e"
  by (simp_all add: tuned_def cdr_stream_new_def kind_align_def)

lemma set_buffer_new:
  assumes "cyclone_ok lib"
  shows "tuned lib (cl_set_buffer lib bs (cdr_stream_new lib S e))" "cs_buffer (cl_set_buffer lib bs (cdr_stream_new lib S e)) = bs"
    "cs_max_alignment (cl_set_buffer lib bs (cdr_stream_new lib S e)) = kind_align S"
    "cs_endianness (cl_set_buffer lib bs (cdr_stream_new lib S e)) = e"
proof -
  let ?s = "cdr_stream_new lib S e"
  have "\<exists>al. like (cl_set_buffer lib bs ?s) (?s\<lparr>cs_position := 0, cs_current_alignment := al, cs_buffer := bs\<rparr>)"
    using assms unfolding cyclone_ok_def cursor_ok_def by blast
  then show "tuned lib (cl_set_buffer lib bs ?s)" "cs_buffer (cl_set_buffer lib bs ?s) = bs"
    "cs_max_alignment (cl_set_buffer lib bs ?s) = kind_align S" "cs_endianness (cl_set_buffer lib bs ?s) = e"
    using stream_new[of lib S e] by (auto simp: like_def tuned_def)
qed

definition kind_image :: "stream_kind \<Rightarrow> endianness \<Rightarrow> prim list \<Rightarrow> 8 word list" where
  "kind_image S e = wire_image (\<lambda>n. min n (kind_align S)) e 0"

text \<open>What a thread remembers is right; the key fits into the hash.\<close>

definition thread_ok :: "(cyc_statics \<Rightarrow> bool) \<Rightarrow> (bool \<Rightarrow> nat) \<Rightarrow> cyc_thread \<Rightarrow> bool" where
  "thread_ok P sz th \<longleftrightarrow> P (th_props th) \<and> (\<forall>S K n. th_sizes th S K = Some n \<longrightarrow> n = sz K)
   \<and> th_fptr th \<noteq> Some complex_key"

lemma thread_props: "thread_ok P sz th \<Longrightarrow> P S \<Longrightarrow> thread_ok P sz (th\<lparr>th_props := S\<rparr>)"
  by (simp add: thread_ok_def)

subsection \<open>The header and the layout of a sample\<close>

definition pad_count :: "nat \<Rightarrow> 8 word" where
  "pad_count n = of_nat (4 mod (4 - n mod 4))"

definition sample_header :: "stream_kind \<Rightarrow> endianness \<Rightarrow> nat \<Rightarrow> 8 word list" where
  "sample_header S e n = (let b = (if S = xcdr_v2_stream then HDR_PLAIN_CDR2 else HDR_PLAIN_CDR) in
     [0, if e = LITTLE_ENDIANNESS then b OR HDR_BO_LITTLE else b, 0, pad_count n])"

definition sample_bytes :: "stream_kind \<Rightarrow> endianness \<Rightarrow> prim list \<Rightarrow> 8 word list" where
  "sample_bytes S e qs = (let n = 4 + length (kind_image S e qs) in
     sample_header S e n @ kind_image S e qs @ replicate ((2 ^ 64 - n) mod 4) 0)"

text \<open>The version a header stands for; a final type in the first one is read by the basic stream.\<close>

definition header_version :: "'d topic_traits \<Rightarrow> stream_kind \<Rightarrow> encoding_version" where
  "header_version T S = (if S = xcdr_v2_stream then xcdr_v2
     else if tt_getExtensibility T = ext_final \<and> tt_allowableEncodings T AND DDS_DATA_REPRESENTATION_FLAG_XCDR1 \<noteq> 0
     then basic_cdr else xcdr_v1)"

lemma header_read_back:
  assumes "write_header lib T S buffer = Some buffer'"
  shows "read_header T buffer' = (if S = xcdr_v1_stream \<and> tt_getExtensibility T = ext_appendable then None
    else Some (header_version T S, cl_native lib))"
proof -
  obtain b where b: "write_header_byte T S = Some b"
    and b': "buffer' ! 1 = (if cl_native lib = LITTLE_ENDIANNESS then b OR HDR_BO_LITTLE else b)"
    using assms by (auto simp: write_header_def put_at_def)
  show ?thesis using b unfolding read_header_def Let_def b'
    by (cases S; cases "tt_getExtensibility T"; cases "cl_native lib")
      (auto simp: write_header_byte_def header_version_def header_bytes split: if_splits)
qed

lemma sample_header_read:
  assumes "tt_getExtensibility T = ext_final" "tt_allowableEncodings T = 0xFFFFFFFF"
  shows "read_header T (sample_header S e n @ xs) = Some (header_version T S, e)"
    "\<exists>S'. stream_of (header_version T S) = Some S' \<and> kind_align S' = kind_align S"
  using assms by (cases S; cases e; simp add: sample_header_def read_header_def Let_def header_version_def header_bytes
    DDS_DATA_REPRESENTATION_FLAG_XCDR1_def stream_of_def kind_align_def)+

lemma kind_image_cong: "kind_align S = kind_align S' \<Longrightarrow> kind_image S = kind_image S'"
  by (simp add: fun_eq_iff kind_image_def)

lemma put_at_header: "length h = 4 \<Longrightarrow> put_at 4 xs (put_at 0 h b) = h @ xs @ drop (4 + length xs) b"
  by (simp add: put_at_def add.commute)

text \<open>The bytes that arrived in pieces.\<close>

lemma copy_iov_concat:
  "off \<le> n \<Longrightarrow> n \<le> length data \<Longrightarrow> n - off \<le> length (concat iov) \<Longrightarrow>
     copy_iov iov off n data = take off data @ take (n - off) (concat iov) @ drop n data"
proof (induction iov arbitrary: off data)
  case (Cons v iov)
  show ?case
  proof (cases "off < n")
    case True
    let ?k = "if n < length v + off then n - off else length v"
    let ?data = "put_at off (take ?k v) data"
    have k: "?k \<le> length v" "off + ?k \<le> n" "n - (off + ?k) \<le> length (concat iov)" using Cons.prems True by auto
    have l: "length ?data = length data" using k Cons.prems by (simp add: put_at_def)
    have "copy_iov iov (off + ?k) n ?data = take (off + ?k) ?data @ take (n - (off + ?k)) (concat iov) @ drop n ?data"
      using Cons.prems(2) k by (intro Cons.IH) (simp_all add: l)
    moreover have "take (off + ?k) ?data = take off data @ take ?k v" "drop n ?data = drop n data"
      using k Cons.prems by (simp_all add: put_at_def)
    moreover have "take ?k v @ take (n - (off + ?k)) (concat iov) = take (n - off) (v @ concat iov)"
      using True by auto
    ultimately show ?thesis using True by (simp add: Let_def)
  qed (use Cons.prems in simp)
qed simp

text \<open>The promise of \<open>simple_key\<close>: a key of 16 bytes, filled up with zeros, is copied into the hash as it is.\<close>

definition copies_key :: "'f topic_lib \<Rightarrow> bool" where
  "copies_key H \<longleftrightarrow> (\<forall>bs h. length bs = 16 \<longrightarrow> snd (tl_simple_key H bs h) = bs)"

subsection \<open>The contract\<close>

locale streamed_topic =
  fixes T :: "cyclone_lib \<Rightarrow> 'd topic_traits" and P :: "cyc_statics \<Rightarrow> bool" and ok :: "'d \<Rightarrow> bool"
    and prims :: "bool \<Rightarrow> 'd \<Rightarrow> prim list" and got :: "bool \<Rightarrow> 'd \<Rightarrow> 'd \<Rightarrow> 'd" and sz :: "bool \<Rightarrow> nat"
  assumes traits: "tt_getExtensibility (T lib) = ext_final" "tt_allowableEncodings (T lib) = 0xFFFFFFFF" "\<not> tt_isKeyless (T lib)" "tt_isSelfContained (T lib)"
    and default: "ok (tt_new (T lib))"
    and same_key: "ok a \<Longrightarrow> ok d \<Longrightarrow> ok (got k a d) \<and> prims True (got k a d) = prims True a" "got False a d = a"
    and small: "sz k < 2 ^ 31" "0 < sz True" "sz True \<le> 16"
    and size: "ok a \<Longrightarrow> al = 4 \<or> al = 8 \<Longrightarrow> length (wire_image (\<lambda>n. min n al) e 0 (prims k a)) = sz k"
    and written: "cyclone_ok lib \<Longrightarrow> P S \<Longrightarrow> tuned lib s \<Longrightarrow> ok a \<Longrightarrow> length (cs_buffer s) < 2 ^ 61 \<Longrightarrow>
      \<exists>S' t. tt_write (T lib) a k (S, s) = Some (sz k \<le> length (cs_buffer s), S', t) \<and> P S' \<and> (sz k \<le> length (cs_buffer s)
        \<longrightarrow> tuned lib t \<and> cs_buffer t = put_at 0 (topic_image s (prims k a)) (cs_buffer s))"
    and moved: "cyclone_ok lib \<Longrightarrow> P S \<Longrightarrow> tuned lib s \<Longrightarrow> ok a \<Longrightarrow> \<exists>S' t. tt_move (T lib) a k (S, s) = Some (True, S', t) \<and> P S' \<and> cs_position t = sz k"
    and maxed: "cyclone_ok lib \<Longrightarrow> P S \<Longrightarrow> tuned lib s \<Longrightarrow> ok a \<Longrightarrow> \<exists>S' t. tt_max (T lib) a k (S, s) = Some (True, S', t) \<and> P S' \<and> cs_position t = sz k"
    and taken: "cyclone_ok lib \<Longrightarrow> P S \<Longrightarrow> tuned lib s \<Longrightarrow> length (cs_buffer s) < 2 ^ 61 \<Longrightarrow>
      \<exists>S' t d'. tt_read (T lib) k (S, s, d) = Some (sz k \<le> length (cs_buffer s), S', t, d') \<and> P S'
        \<and> (\<forall>a. ok a \<longrightarrow> take (sz k) (cs_buffer s) = topic_image s (prims k a) \<longrightarrow> d' = got k a d)"
begin

lemma topic_size:
  assumes lib: "cyclone_ok lib"
    and "thread_ok P sz th" "ok a"
  shows "\<exists>th'. get_serialized_size lib (T lib) S a k th = Some (Some (sz k), th') \<and> thread_ok P sz th'"
proof (cases "th_sizes th S k")
  case None
  obtain S' t where m: "tt_move (T lib) a k (th_props th, cdr_stream_new lib S (cl_native lib)) = Some (True, S', t)" "P S'" "cs_position t = sz k"
    using moved[OF lib _ stream_new(1) assms(3)] assms(2) unfolding thread_ok_def by metis
  then show ?thesis using None assms(2) traits(4)
    by (auto simp: get_serialized_size_def get_serialized_fixed_size_def thread_ok_def)
next
  case (Some n)
  then show ?thesis using assms(2) traits(4)
    by (auto simp: get_serialized_size_def get_serialized_fixed_size_def thread_ok_def)
qed

text \<open>The key: the image in big-endian order, filled up with zeros.\<close>

definition key_bytes :: "'d \<Rightarrow> 8 word list" where
  "key_bytes a = kind_image basic_cdr_stream BIG_ENDIANNESS (prims True a) @ replicate (16 - sz True) 0"

lemma topic_fptr:
  assumes lib: "cyclone_ok lib"
    and "thread_ok P sz th" "ok a" "tuned lib s"
  shows "\<exists>th'. choose_fptr lib (T lib) a s th = Some (simple_key, th') \<and> thread_ok P sz th'"
proof (cases "th_fptr th")
  case None
  obtain S' t where m: "tt_max (T lib) a True (th_props th, s) = Some (True, S', t)" "P S'" "cs_position t = sz True"
    using maxed[OF lib _ assms(4,3)] assms(2) unfolding thread_ok_def by metis
  then show ?thesis using None assms(2) small(3) by (simp add: choose_fptr_def thread_ok_def)
next
  case (Some f)
  then show ?thesis using assms(2) by (cases f) (simp_all add: choose_fptr_def thread_ok_def)
qed

lemma topic_key:
  assumes lib: "cyclone_ok lib"
    and "thread_ok P sz th" "ok a"
  shows "\<exists>th'. to_key lib H (T lib) a hash th = Some (tl_simple_key H (key_bytes a) hash, th') \<and> thread_ok P sz th'"
proof -
  obtain th1 where g: "get_serialized_size lib (T lib) basic_cdr_stream a True th = Some (Some (sz True), th1)" "thread_ok P sz th1"
    using topic_size[OF assms] by blast
  let ?buffer = "replicate (sz True + key_padding (sz True)) (0 :: 8 word)"
  define s where "s = cl_set_buffer lib (take (sz True) ?buffer) (cdr_stream_new lib basic_cdr_stream BIG_ENDIANNESS)"
  note s = set_buffer_new[OF lib, of "take (sz True) ?buffer" basic_cdr_stream BIG_ENDIANNESS, folded s_def]
  have n: "sz True + key_padding (sz True) = 16" using small(2,3) by (auto simp: key_padding_def)
  have im: "topic_image s (prims True a) = kind_image basic_cdr_stream BIG_ENDIANNESS (prims True a)"
    by (simp add: topic_image_def kind_image_def s)
  have l: "length (kind_image basic_cdr_stream BIG_ENDIANNESS (prims True a)) = sz True"
    unfolding kind_image_def by (rule size[OF assms(3) kind_align])
  have b: "length (cs_buffer s) = sz True" by (simp add: s(2))
  then have "length (cs_buffer s) < 2 ^ 61" using small(1)[of True] by simp
  from written[OF lib _ s(1) assms(3) this, of "th_props th1" True] g(2) obtain S' t where
    w: "tt_write (T lib) a True (th_props th1, s) = Some (True, S', t)" "P S'" "tuned lib t"
      "cs_buffer t = put_at 0 (kind_image basic_cdr_stream BIG_ENDIANNESS (prims True a)) (cs_buffer s)"
    unfolding im b thread_ok_def by auto
  have "cs_buffer t = kind_image basic_cdr_stream BIG_ENDIANNESS (prims True a)"
    using w(4) l b by (simp add: put_at_def)
  then have k: "put_at 0 (cs_buffer t) ?buffer = key_bytes a" using l n by (simp add: put_at_def key_bytes_def)
  obtain th2 where f: "choose_fptr lib (T lib) a t (th1\<lparr>th_props := S'\<rparr>) = Some (simple_key, th2)" "thread_ok P sz th2"
    using topic_fptr[OF lib thread_props[OF g(2) w(2)] assms(3) w(3)] by blast
  show ?thesis using traits(3) f k
    by (simp add: to_key_def g(1) Let_def s_def[symmetric] w(1) call_key_def del: take_replicate)
qed

subsection \<open>The bytes of a sample\<close>

lemma image_size: "ok a \<Longrightarrow> length (kind_image S e (prims k a)) = sz k"
  unfolding kind_image_def by (rule size[OF _ kind_align])

lemma topic_serialize:
  assumes lib: "cyclone_ok lib"
    and th: "thread_ok P sz th" and a: "ok a" and n: "4 \<le> n" "n \<le> length buffer" "n < 2 ^ 61"
  shows "\<exists>buffer' th'. serialize_into lib (T lib) S (Some buffer) n a k th = Some ((4 + sz k \<le> n, Some buffer'), th')
    \<and> thread_ok P sz th' \<and> (4 + sz k \<le> n \<longrightarrow>
      buffer' = sample_header S (cl_native lib) n @ kind_image S (cl_native lib) (prims k a) @ drop (4 + sz k) buffer)"
proof -
  define bs where "bs = take (n - 4) (drop 4 buffer)"
  define s where "s = cl_set_buffer lib bs (cdr_stream_new lib S (cl_native lib))"
  note s = set_buffer_new[OF lib, of bs S "cl_native lib", folded s_def]
  have l: "length bs = n - 4" using n by (simp add: bs_def)
  have im: "topic_image s (prims k a) = kind_image S (cl_native lib) (prims k a)"
    by (simp add: topic_image_def kind_image_def s)
  let ?im = "kind_image S (cl_native lib) (prims k a)"
  let ?b = "if S = xcdr_v2_stream then HDR_PLAIN_CDR2 else HDR_PLAIN_CDR"
  let ?h = "[0, if cl_native lib = LITTLE_ENDIANNESS then ?b OR HDR_BO_LITTLE else ?b, 0, 0]"
  have h: "write_header lib (T lib) S buffer = Some (put_at 0 ?h buffer)"
    using traits(1) by (cases S) (simp_all add: write_header_def write_header_byte_def)
  have "length (cs_buffer s) < 2 ^ 61" using l n by (simp add: s(2))
  from written[OF lib _ s(1) a this, of "th_props th" k] th obtain S' t where
    w: "tt_write (T lib) a k (th_props th, s) = Some (sz k \<le> n - 4, S', t)" "P S'"
      "sz k \<le> n - 4 \<Longrightarrow> cs_buffer t = put_at 0 ?im bs"
    unfolding im s(2) l thread_ok_def by auto
  have r: "serialize_into lib (T lib) S (Some buffer) n a k th = Some ((sz k \<le> n - 4, Some
      (let buffer = put_at 4 (cs_buffer t) (put_at 0 ?h buffer) in if sz k \<le> n - 4 then finish_header buffer n else buffer)),
      th\<lparr>th_props := S'\<rparr>)"
    using n(1) w(1) h by (simp add: serialize_into_def CDR_HEADER_SIZE_def Let_def bs_def[symmetric] s_def[symmetric])
  moreover have "finish_header (put_at 4 (cs_buffer t) (put_at 0 ?h buffer)) n = sample_header S (cl_native lib) n @ ?im @ drop (4 + sz k) buffer"
    if "4 + sz k \<le> n"
  proof -
    have "cs_buffer t = ?im @ drop (sz k) bs" using w(3) that l image_size[OF a] by (simp add: put_at_def)
    moreover have "drop (sz k) bs @ drop n buffer = drop (4 + sz k) buffer"
    proof -
      have "drop (sz k) bs = take (n - 4 - sz k) (drop (4 + sz k) buffer)" by (simp add: bs_def drop_take add.commute)
      moreover have "drop n buffer = drop (n - 4 - sz k) (drop (4 + sz k) buffer)" using that by simp
      ultimately show ?thesis by (simp only: append_take_drop_id)
    qed
    moreover have "put_at 4 (cs_buffer t) (put_at 0 ?h buffer) = ?h @ cs_buffer t @ drop n buffer"
    proof -
      have "4 + length (cs_buffer t) = n" using calculation(1) that n l image_size[OF a] by simp
      then show ?thesis using put_at_header[of ?h "cs_buffer t" buffer] by simp
    qed
    ultimately show ?thesis by (simp add: finish_header_def sample_header_def pad_count_def)
  qed
  ultimately show ?thesis using thread_props[OF th w(2)] n(1) by (auto simp: Let_def)
qed

lemma topic_deserialize:
  assumes lib: "cyclone_ok lib"
    and th: "thread_ok P sz th" and n: "n \<le> length buffer" "4 \<le> n" "n < 2 ^ 61" and kind: "kind \<noteq> SDK_EMPTY"
    and h: "read_header (T lib) buffer = Some (ver, e)" "stream_of ver = Some S"
  shows "\<exists>d' th'. deserialize_sample_from_buffer lib (T lib) (Some buffer) n d kind th
      = Some ((sz (kind = SDK_KEY) \<le> n - 4, d'), th') \<and> thread_ok P sz th'
    \<and> (\<forall>a. ok a \<longrightarrow> take (sz (kind = SDK_KEY)) (take (n - 4) (drop 4 buffer))
        = kind_image S e (prims (kind = SDK_KEY) a) \<longrightarrow> d' = got (kind = SDK_KEY) a d)"
proof -
  let ?k = "kind = SDK_KEY"
  define bs where "bs = take (n - 4) (drop 4 buffer)"
  define s where "s = cl_set_buffer lib bs (cdr_stream_new lib S e)"
  note s = set_buffer_new[OF lib, of bs S e, folded s_def]
  have l: "length bs = n - 4" using n by (simp add: bs_def)
  have im: "topic_image s = kind_image S e" by (simp add: fun_eq_iff topic_image_def kind_image_def s)
  have "length (cs_buffer s) < 2 ^ 61" using l n by (simp add: s(2))
  from taken[OF lib _ s(1) this, of "th_props th" ?k d] th obtain S' t d' where
    r: "tt_read (T lib) ?k (th_props th, s, d) = Some (sz ?k \<le> n - 4, S', t, d')" "P S'"
      "\<forall>a. ok a \<longrightarrow> take (sz ?k) bs = kind_image S e (prims ?k a) \<longrightarrow> d' = got ?k a d"
    unfolding im s(2) l thread_ok_def by auto
  then have "deserialize_sample_from_buffer lib (T lib) (Some buffer) n d kind th = Some ((sz ?k \<le> n - 4, d'), th\<lparr>th_props := S'\<rparr>)"
    using h kind n(2) by (simp add: deserialize_sample_from_buffer_def CDR_HEADER_SIZE_def bs_def[symmetric] s_def[symmetric])
  with thread_props[OF th r(2)] r(3) show ?thesis unfolding bs_def by blast
qed

subsection \<open>Samples\<close>

lemma key_length: "ok a \<Longrightarrow> length (key_bytes a) = 16"
  using small(3) by (simp add: key_bytes_def image_size)

lemma topic_set_key:
  assumes lib: "cyclone_ok lib"
    and "copies_key H" "thread_ok P sz th" "ok a"
  shows "\<exists>m th'. set_key lib H (T lib) a d th = Some (d\<lparr>sd_key := key_bytes a, sd_key_md5_hashed := m\<rparr>, th') \<and> thread_ok P sz th'"
proof -
  obtain th' where t: "to_key lib H (T lib) a (sd_key d) th = Some (tl_simple_key H (key_bytes a) (sd_key d), th')" "thread_ok P sz th'"
    using topic_key[OF lib assms(3,4)] by blast
  obtain m where "tl_simple_key H (key_bytes a) (sd_key d) = (m, key_bytes a)"
    using assms(2) key_length[OF assms(4)] unfolding copies_key_def by (metis prod.collapse)
  with t have "set_key lib H (T lib) a d th = Some (d\<lparr>sd_key := key_bytes a, sd_key_md5_hashed := m\<rparr>, th')"
    by (simp add: set_key_def)
  with t(2) show ?thesis by blast
qed

lemma topic_populate:
  assumes lib: "cyclone_ok lib"
    and "copies_key H" "thread_ok P sz th" "ok a" "sd_t d = Some a" "sd_type d = Some base" "\<not> sd_hash_populated d"
  shows "\<exists>m h th'. populate_hash lib H (T lib) d th = Some (d\<lparr>sd_key := key_bytes a, sd_key_md5_hashed := m, sd_hash := h,
    sd_hash_populated := True\<rparr>, th') \<and> thread_ok P sz th'"
proof -
  obtain m th' where "set_key lib H (T lib) a d th = Some (d\<lparr>sd_key := key_bytes a, sd_key_md5_hashed := m\<rparr>, th')" "thread_ok P sz th'"
    using topic_set_key[OF lib assms(2-4)] by blast
  then show ?thesis using assms(5-7) by (auto simp: populate_hash_def serdata_getT_def Let_def)
qed

lemma topic_serialize_sample:
  assumes lib: "cyclone_ok lib"
    and th: "thread_ok P sz th" and a: "ok a"
  shows "\<exists>th'. serialize_sample lib H (T lib) S a k d th = Some (Some (d\<lparr>sd_size := length (sample_bytes S (cl_native lib) (prims k a)),
    sd_data := Some (sample_bytes S (cl_native lib) (prims k a))\<rparr>), th') \<and> thread_ok P sz th'"
proof -
  obtain th1 where g: "get_serialized_size lib (T lib) S a k th = Some (Some (sz k), th1)" "thread_ok P sz th1"
    using topic_size[OF lib th a] by blast
  let ?n = "4 + sz k" and ?pad = "replicate ((2 ^ 64 - (4 + sz k)) mod 4) (0 :: 8 word)"
  let ?buffer = "map (tl_fresh H) [0..<?n] @ ?pad"
  have "4 \<le> ?n" "?n \<le> length ?buffer" "?n < 2 ^ 61" using small(1)[of k] by simp_all
  from topic_serialize[OF lib g(2) a this, of S k] obtain th2 where
    w: "serialize_into lib (T lib) S (Some ?buffer) ?n a k th1 = Some ((True, Some (sample_header S (cl_native lib) ?n
        @ kind_image S (cl_native lib) (prims k a) @ ?pad)), th2)" "thread_ok P sz th2" by auto
  have b: "sample_bytes S (cl_native lib) (prims k a) = sample_header S (cl_native lib) ?n
      @ kind_image S (cl_native lib) (prims k a) @ ?pad"
    by (simp only: sample_bytes_def image_size[OF a] Let_def)
  have "length (sample_bytes S (cl_native lib) (prims k a)) = ?n + (2 ^ 64 - ?n) mod 4"
    unfolding b by (simp add: image_size[OF a] sample_header_def Let_def)
  then show ?thesis using g(1) w b
    by (simp add: serialize_sample_def serdata_resize_def Let_def CDR_HEADER_SIZE_def add.commute)
qed

lemma topic_from_sample:
  fixes S :: stream_kind
  assumes lib: "cyclone_ok lib"
    and H: "copies_key H" and th: "thread_ok P sz th" and a: "ok a" and kind: "kind \<noteq> SDK_EMPTY"
  defines "bs \<equiv> sample_bytes S (cl_native lib) (prims (kind = SDK_KEY) a)"
  shows "\<exists>h m th'. serdata_from_sample lib H (T lib) S (Some base) kind a th = Some (Some \<lparr>sd_type = Some base, sd_kind = kind,
      sd_hash = h, sd_size = length bs, sd_data = Some bs, sd_key = key_bytes a, sd_key_md5_hashed = m, sd_t = Some a,
      sd_hash_populated = True\<rparr>, th') \<and> thread_ok P sz th'"
proof -
  let ?d = "(ddscxx_serdata_new (Some base) kind)\<lparr>sd_size := length bs, sd_data := Some bs\<rparr>"
  obtain th1 where s: "serialize_sample lib H (T lib) S a (kind = SDK_KEY) (ddscxx_serdata_new (Some base) kind) th = Some (Some ?d, th1)"
    "thread_ok P sz th1" using topic_serialize_sample[OF lib th a] unfolding bs_def by blast
  obtain m th2 where k: "set_key lib H (T lib) a ?d th1 = Some (?d\<lparr>sd_key := key_bytes a, sd_key_md5_hashed := m\<rparr>, th2)" "thread_ok P sz th2"
    using topic_set_key[OF lib H s(2) a] by blast
  let ?d2 = "serdata_setT a (?d\<lparr>sd_key := key_bytes a, sd_key_md5_hashed := m\<rparr>)"
  obtain m' h th3 where "populate_hash lib H (T lib) ?d2 th2 = Some (?d2\<lparr>sd_key := key_bytes a, sd_key_md5_hashed := m', sd_hash := h,
      sd_hash_populated := True\<rparr>, th3)" "thread_ok P sz th3"
    using topic_populate[OF lib H k(2) a, of ?d2 base] by (auto simp: serdata_setT_def ddscxx_serdata_new_def)
  then show ?thesis using kind s(1) k(1)
    by (auto simp: serdata_from_sample_def serdata_setT_def ddscxx_serdata_new_def)
qed

lemma topic_accept:
  assumes lib: "cyclone_ok lib"
    and H: "copies_key H" and th: "thread_ok P sz th" and a: "ok a" and kind: "sd_kind d \<noteq> SDK_EMPTY"
    and d: "sd_t d = None" "sd_type d = Some base" "\<not> sd_hash_populated d" "sd_data d = Some data" "sd_size d = length data"
      "length data < 2 ^ 61"
    and h: "read_header (T lib) data = Some (ver, e)" "stream_of ver = Some S" "sz (sd_kind d = SDK_KEY) + 4 \<le> length data"
    and im: "take (sz (sd_kind d = SDK_KEY)) (drop 4 data) = kind_image S e (prims (sd_kind d = SDK_KEY) a)"
  shows "\<exists>h m th'. accept_sample lib H (T lib) d th = Some (Some (d\<lparr>sd_t := Some (got (sd_kind d = SDK_KEY) a (tt_new (T lib))),
      sd_key := key_bytes a, sd_key_md5_hashed := m, sd_hash := h, sd_hash_populated := True\<rparr>), th') \<and> thread_ok P sz th'"
proof -
  let ?k = "sd_kind d = SDK_KEY" and ?t = "got (sd_kind d = SDK_KEY) a (tt_new (T lib))"
  have t: "ok ?t" "key_bytes ?t = key_bytes a" using same_key(1)[OF a default, of ?k] by (simp_all add: key_bytes_def)
  have "take (sz ?k) (take (length data - 4) (drop 4 data)) = kind_image S e (prims ?k a)" using im by simp
  with topic_deserialize[OF lib th order.refl _ d(6) kind h(1,2), of "tt_new (T lib)"] a h(3) obtain th1 where
    r: "deserialize_sample_from_buffer lib (T lib) (Some data) (length data) (tt_new (T lib)) (sd_kind d) th = Some ((True, ?t), th1)" "thread_ok P sz th1"
    by auto
  then have g: "serdata_getT lib (T lib) d th = Some (Some ?t, d\<lparr>sd_t := Some ?t\<rparr>, th1)"
    using d by (simp add: serdata_getT_def deserialize_and_update_sample_def Let_def)
  let ?d1 = "d\<lparr>sd_t := Some ?t\<rparr>"
  obtain m th2 where k: "set_key lib H (T lib) ?t ?d1 th1 = Some (?d1\<lparr>sd_key := key_bytes a, sd_key_md5_hashed := m\<rparr>, th2)" "thread_ok P sz th2"
    using topic_set_key[OF lib H r(2) t(1)] unfolding t(2) by blast
  let ?d2 = "?d1\<lparr>sd_key := key_bytes a, sd_key_md5_hashed := m\<rparr>"
  obtain m' h th3 where "populate_hash lib H (T lib) ?d2 th2 = Some (?d2\<lparr>sd_key := key_bytes a, sd_key_md5_hashed := m', sd_hash := h,
      sd_hash_populated := True\<rparr>, th3)" "thread_ok P sz th3"
    using topic_populate[OF lib H k(2) t(1), of ?d2 base] d unfolding t(2) by auto
  then show ?thesis using g k(1) by (auto simp: accept_sample_def)
qed

lemma sample_bytes_parts:
  assumes "ok a"
  shows "sample_bytes S e (prims k a) = sample_header S e (4 + sz k) @ kind_image S e (prims k a)
      @ replicate ((2 ^ 64 - (4 + sz k)) mod 4) 0"
    "length (sample_bytes S e (prims k a)) = 4 + sz k + (2 ^ 64 - (4 + sz k)) mod 4"
proof -
  show "sample_bytes S e (prims k a) = sample_header S e (4 + sz k) @ kind_image S e (prims k a)
      @ replicate ((2 ^ 64 - (4 + sz k)) mod 4) 0"
    by (simp only: sample_bytes_def image_size[OF assms] Let_def)
  then show "length (sample_bytes S e (prims k a)) = 4 + sz k + (2 ^ 64 - (4 + sz k)) mod 4"
    by (simp add: image_size[OF assms] sample_header_def Let_def)
qed

text \<open>Any end of a sample with nothing but zeros behind the image will do.\<close>

lemma topic_from_iov:
  assumes lib: "cyclone_ok lib"
    and H: "copies_key H" and th: "thread_ok P sz th" and a: "ok a" and kind: "kind \<noteq> SDK_EMPTY"
    and iov: "concat iov = take n (sample_bytes S e (prims (kind = SDK_KEY) a))"
    and n: "4 + sz (kind = SDK_KEY) \<le> n" "n \<le> length (sample_bytes S e (prims (kind = SDK_KEY) a))"
  shows "\<exists>d th'. serdata_from_ser_iov lib H (T lib) (Some base) kind iov n th = Some (Some d, th') \<and> thread_ok P sz th'
    \<and> sd_t d = Some (got (kind = SDK_KEY) a (tt_new (T lib))) \<and> sd_key d = key_bytes a"
proof -
  let ?k = "kind = SDK_KEY"
  let ?B = "sample_bytes S e (prims ?k a)" and ?im = "kind_image S e (prims ?k a)" and ?h = "sample_header S e (4 + sz ?k)"
  note B = sample_bytes_parts[OF a, of S e ?k]
  let ?z = "replicate ((2 ^ 64 - n) mod 4) (0 :: 8 word)"
  define data where "data = copy_iov iov 0 n (map (tl_fresh H) [0..<n] @ ?z)"
  have "length (concat iov) = n" using iov n by simp
  then have data: "data = take n ?B @ ?z" unfolding data_def by (subst copy_iov_concat) (simp_all add: iov)
  have h4: "length ?h = 4" by (simp add: sample_header_def Let_def)
  have tk: "take n ?B = ?h @ take (n - 4) (?im @ replicate ((2 ^ 64 - (4 + sz ?k)) mod 4) 0)"
    using n(1) h4 unfolding B(1) by simp
  then have d4: "data = ?h @ take (n - 4) (?im @ replicate ((2 ^ 64 - (4 + sz ?k)) mod 4) 0) @ ?z" by (simp add: data)
  have l: "length data = n + (2 ^ 64 - n) mod 4" using n by (simp add: data)
  have "(2 ^ 64 - (4 + sz ?k)) mod 4 < 4" "(2 ^ 64 - n) mod 4 < 4" by simp_all
  then have lt: "length data < 2 ^ 61" using n(2) B(2) small(1)[of ?k] unfolding l by simp
  note r = sample_header_read(1)[OF traits(1,2)[of lib], of S e "4 + sz ?k"] sample_header_read(2)[OF traits(1,2)[of lib], of S]
  obtain S' where S': "stream_of (header_version (T lib) S) = Some S'" "kind_image S' = kind_image S"
    using r(2) kind_image_cong by blast
  have im: "take (sz ?k) (drop 4 data) = kind_image S' e (prims ?k a)"
    using n(1) h4 image_size[OF a, of S e ?k] unfolding d4 S'(2) by simp
  let ?d = "(ddscxx_serdata_new (Some base) kind)\<lparr>sd_size := length data, sd_data := Some data\<rparr>"
  have "n \<noteq> 0" using n(1) by simp
  then have f: "serdata_from_ser_iov lib H (T lib) (Some base) kind iov n th = accept_sample lib H (T lib) ?d th"
    unfolding l by (simp add: serdata_from_ser_iov_def serdata_resize_def Let_def data_def)
  have "read_header (T lib) data = Some (header_version (T lib) S, e)" unfolding d4 by (rule r(1))
  then show ?thesis unfolding f
    using topic_accept[OF lib H th a, of ?d base data "header_version (T lib) S" e S'] S'(1) kind lt im n(1) l
    by (fastforce simp: ddscxx_serdata_new_def)
qed

lemma topic_untyped:
  assumes lib: "cyclone_ok lib"
    and H: "copies_key H" and th: "thread_ok P sz th" and a: "ok a" and d: "sd_t d = Some a"
  shows "\<exists>d1 th'. serdata_to_untyped lib H (T lib) S d th = Some (Some d1, d, th') \<and> thread_ok P sz th'
    \<and> sd_data d1 = Some (sample_bytes S (cl_native lib) (prims True a)) \<and> sd_size d1 = length (sample_bytes S (cl_native lib) (prims True a))
    \<and> sd_key d1 = key_bytes a \<and> sd_hash d1 = sd_hash d \<and> sd_type d1 = None \<and> sd_kind d1 = SDK_KEY"
proof -
  let ?B = "sample_bytes S (cl_native lib) (prims True a)"
  let ?d = "(ddscxx_serdata_new None SDK_KEY)\<lparr>sd_size := length ?B, sd_data := Some ?B\<rparr>"
  obtain th1 where s: "serialize_sample lib H (T lib) S a True (ddscxx_serdata_new None SDK_KEY) th = Some (Some ?d, th1)"
    "thread_ok P sz th1" using topic_serialize_sample[OF lib th a] by blast
  obtain m th2 where k: "set_key lib H (T lib) a ?d th1 = Some (?d\<lparr>sd_key := key_bytes a, sd_key_md5_hashed := m\<rparr>, th2)" "thread_ok P sz th2"
    using topic_set_key[OF lib H s(2) a] by blast
  then show ?thesis using s(1) d by (simp add: serdata_to_untyped_def serdata_getT_def ddscxx_serdata_new_def)
qed

lemma topic_untyped_to_sample:
  assumes lib: "cyclone_ok lib"
    and th: "thread_ok P sz th" and a: "ok a"
    and d: "sd_data d = Some (sample_bytes S e (prims True a))" "sd_size d = length (sample_bytes S e (prims True a))"
  shows "\<exists>th'. serdata_untyped_to_sample lib (T lib) d x th = Some ((True, got True a x), th') \<and> thread_ok P sz th'"
proof -
  let ?B = "sample_bytes S e (prims True a)" and ?h = "sample_header S e (4 + sz True)"
  note B = sample_bytes_parts[OF a, of S e True]
  have h4: "length ?h = 4" by (simp add: sample_header_def Let_def)
  note r = sample_header_read(1)[OF traits(1,2)[of lib], of S e "4 + sz True"] sample_header_read(2)[OF traits(1,2)[of lib], of S]
  obtain S' where S': "stream_of (header_version (T lib) S) = Some S'" "kind_image S' = kind_image S"
    using r(2) kind_image_cong by blast
  have "(2 ^ 64 - (4 + sz True)) mod 4 < 4" by simp
  then have lt: "length ?B < 2 ^ 61" using small(1)[of True] unfolding B(2) by simp
  have h: "read_header (T lib) ?B = Some (header_version (T lib) S, e)" unfolding B(1) by (rule r(1))
  have "take (sz True) (take (length ?B - 4) (drop 4 ?B)) = kind_image S' e (prims True a)"
    using h4 image_size[OF a, of S e True] unfolding B(2) S'(2) by (simp add: B(1))
  with topic_deserialize[OF lib th order.refl _ lt _ h S'(1), of SDK_KEY x] a
  show ?thesis unfolding serdata_untyped_to_sample_def d by (auto simp: B(2))
qed

end

end
