(* ===== verification/CycloneDemo.thy ===== *)
theory CycloneDemo
  imports CycloneLaws
begin

section \<open>A library that keeps the promises\<close>

text \<open>
  One concrete choice of the compiled part, on a machine of byte order \<open>e\<close>, which shows that
  \<open>cyclone_ok\<close> can hold. The walk over a level may not end on links that form a cycle.
\<close>

definition demo_cl_align :: "nat \<Rightarrow> bool \<Rightarrow> cdr_stream \<Rightarrow> bool \<times> cdr_stream" where
  "demo_cl_align n z s = (let k = cdr_pad (min n (cs_max_alignment s)) (cs_position s) in
     if measuring s \<or> cs_position s + k \<le> length (cs_buffer s)
     then (True, s\<lparr>cs_position := cs_position s + k, cs_current_alignment := min n (cs_max_alignment s),
       cs_buffer := (if z then put_at (cs_position s) (replicate k 0) (cs_buffer s) else cs_buffer s)\<rparr>)
     else (False, s))"

partial_function (option) demo_seek :: "bool \<Rightarrow> propvec \<Rightarrow> nat option \<Rightarrow> nat option option" where
  "demo_seek key ps p = (case p of None \<Rightarrow> Some None
     | Some i \<Rightarrow> if key \<and> \<not> ep_is_key (ps ! i) then demo_seek key ps (ep_next_on_level (ps ! i)) else Some (Some i))"

definition demo_walk :: "(entity_properties \<Rightarrow> nat option) \<Rightarrow> nat \<Rightarrow> cdr_stream \<times> propvec \<Rightarrow> nat option \<times> cdr_stream \<times> propvec" where
  "demo_walk start p = (\<lambda>(s, ps). ((case demo_seek (cs_key s) ps (start (ps ! p)) of None \<Rightarrow> None | Some q \<Rightarrow> q), s, ps))"

fun demo_add_key :: "nat list \<Rightarrow> key_endpoint \<Rightarrow> key_endpoint" where
  "demo_add_key [] k = k"
| "demo_add_key (m # ms) (KeyEndpoint xs) = KeyEndpoint (xs @ [(m, demo_add_key ms (KeyEndpoint []))])"

fun endpoint_ids :: "key_endpoint \<Rightarrow> nat list" where
  "endpoint_ids (KeyEndpoint xs) = map fst xs"

definition demo_finish :: "propvec \<Rightarrow> key_endpoint \<Rightarrow> propvec" where
  "demo_finish ps keys = (let ds = map ep_depth ps in map (\<lambda>i. (ps ! i)\<lparr>ep_first_member := first_at ds i,
     ep_next_on_level := next_at ds i, ep_is_key := (ep_depth (ps ! i) = 1 \<and> ep_m_id (ps ! i) \<in> set (endpoint_ids keys))\<rparr>)
     [0..<length ps])"

definition demo_cyclone_lib :: "endianness \<Rightarrow> cyclone_lib" where
  "demo_cyclone_lib e = \<lparr>cl_native = e, cl_align = demo_cl_align,
     cl_bytes_available = (\<lambda>n peek s. (cs_position s + n \<le> length (cs_buffer s), s)),
     cl_reset = (\<lambda>s. s\<lparr>cs_position := 0, cs_current_alignment := 1\<rparr>),
     cl_set_buffer = (\<lambda>bs s. s\<lparr>cs_position := 0, cs_current_alignment := 1, cs_buffer := bs\<rparr>),
     cl_start_struct = (\<lambda>p x. (True, x)), cl_finish_struct = (\<lambda>p x. (True, x)),
     cl_first_entity = demo_walk ep_first_member, cl_next_entity = demo_walk ep_next_on_level,
     cl_start_member = (\<lambda>p b x. (True, x)), cl_finish_member = (\<lambda>p b x. (True, x)),
     cl_start_consecutive = (\<lambda>a b s. (True, s)), cl_finish_consecutive = Pair True,
     cl_finish = demo_finish,
     cl_append_struct_contents = (\<lambda>ps qs. ps @ map (\<lambda>e. e\<lparr>ep_depth := ep_depth (last ps) + ep_depth e\<rparr>) (tl qs)),
     cl_add_key_endpoint = demo_add_key\<rparr>"

lemma like_refl: "like s s"
  by (simp add: like_def)

lemma demo_cursor: "cursor_ok (demo_cyclone_lib e)"
  unfolding cursor_ok_def demo_cyclone_lib_def by (auto simp: demo_cl_align_def Let_def like_refl intro!: exI[of _ 1])

lemma demo_seek_linked: "linked ps p js \<Longrightarrow> demo_seek key ps p = Some (first_of (wanted key ps js))"
proof (induction js arbitrary: p)
  case Nil
  then show ?case by (simp add: demo_seek.simps first_of_def wanted_def)
next
  case (Cons j js)
  then show ?case by (subst demo_seek.simps) (auto simp: first_of_def wanted_def)
qed

lemma demo_plain: "plain_ok (demo_cyclone_lib e)"
  unfolding plain_ok_def demo_cyclone_lib_def
  by (auto simp: demo_walk_def demo_seek_linked quiet_def like_refl)

lemma demo_tree: "tree_ok (demo_cyclone_lib e)"
proof -
  have c: "map ep_core (demo_finish ps keys) = map ep_core ps" for ps keys
    by (rule nth_equalityI) (simp_all add: demo_finish_def Let_def ep_core_def)
  have d: "map ep_depth (demo_finish ps keys) = map ep_depth ps" for ps keys
    by (rule nth_equalityI) (simp_all add: demo_finish_def Let_def)
  have "links_ok (demo_finish ps keys)" for ps keys
    unfolding links_ok_def d Let_def by (simp add: demo_finish_def Let_def)
  moreover have "map ep_core (ps @ map (\<lambda>e. e\<lparr>ep_depth := ep_depth (last ps) + ep_depth e\<rparr>) (tl qs))
      = map ep_core ps @ map (\<lambda>(dep, r). (dep + ep_depth (last ps), r)) (tl (map ep_core qs))" for ps qs
    by (simp add: map_tl[symmetric] ep_core_def add.commute)
  ultimately show ?thesis using c unfolding tree_ok_def demo_cyclone_lib_def
    by (auto simp: demo_finish_def Let_def)
qed

lemma demo_cyclone_ok: "cyclone_ok (demo_cyclone_lib e)"
  by (simp add: cyclone_ok_def demo_cursor demo_plain demo_tree)

end
