(* ===== verification/CycloneAir.thy ===== *)
theory CycloneAir
  imports CycloneTopic CycloneDemo Interop
begin

section \<open>Samples of an AirEntity\<close>

subsection \<open>The generated code keeps the contract\<close>

definition air_prims :: "bool \<Rightarrow> AirEntity \<Rightarrow> prim list" where
  "air_prims k a = (if k then [PInt32 (ent_id a)] else AirEntity_prims a)"

definition air_got :: "bool \<Rightarrow> AirEntity \<Rightarrow> AirEntity \<Rightarrow> AirEntity" where
  "air_got k a d = (if k then d\<lparr>ent_id := ent_id a\<rparr> else a)"

definition air_size :: "bool \<Rightarrow> nat" where
  "air_size k = (if k then 4 else 133)"

lemma AirEntity_new_ok: "AirEntity_ok AirEntity_new"
  by (simp add: MovementAirEntity_ok_def MovementAirEntity_new_def AirEntity_ok_def AirEntity_new_def is_i32_def)

lemma air_image_size:
  assumes "AirEntity_ok a" "al = 4 \<or> al = 8"
  shows "length (wire_image (\<lambda>n. min n al) e 0 (air_prims k a)) = air_size k"
proof -
  have m: "length (missionName (movement a)) = 32"
    using assms(1) by (simp add: AirEntity_ok_def MovementAirEntity_ok_def)
  have "fold (prim_end (\<lambda>n. min n al)) (air_prims k a) 0 = air_size k"
    using assms(2) by (cases k; elim disjE) (simp_all add: air_prims_def air_size_def AirEntity_prims_def Attitude_prims_def
      MovementAirEntity_prims_def m cdr_pad_def)
  then show ?thesis using image_end[of 0 "\<lambda>n. min n al" e "air_prims k a"] by (simp only: add_0)
qed

lemma air_statics:
  assumes "cyclone_ok lib" "statics_ok S" "get_type_props_AirEntity lib S = (ps, S1)" "skel ps' = skel ps"
  shows "statics_ok (S1\<lparr>props_AirEntity := Some ps'\<rparr>)"
  using AirEntity_props_ok[OF assms(1-3)] tree_of_skel[OF assms(4)] keyed_of_skel[OF assms(4)]
  by (simp add: statics_ok_def)

lemma air_does_visit:
  assumes "cyclone_ok lib" "right_op lib m op" "tree_of AirEntity_cores L" "keyed 0 L"
  shows "does lib m k L (AirEntity_visit lib op a 0) (air_prims k a) (\<lambda>d. d)"
  using does_AirEntity_visit[OF assms(1-3)] does_AirEntity_key[OF assms] by (cases k) (simp_all add: air_prims_def)

lemma air_does_read:
  assumes "cyclone_ok lib" "tree_of AirEntity_cores L" "keyed 0 L" "AirEntity_ok a"
  shows "does lib mode_read k L (cyc_read_AirEntity lib 0) (air_prims k a) (air_got k a)"
proof -
  have "is_i32 (ent_id a)" using assms(4) by (simp add: AirEntity_ok_def)
  with does_read_AirEntity[OF assms(1,2,4)] does_read_AirEntity_key[OF assms(1-3)] show ?thesis
    by (cases k) (simp_all add: air_prims_def air_got_def[abs_def])
qed

lemma air_topic_size: "tuned lib s \<Longrightarrow> AirEntity_ok a \<Longrightarrow> length (topic_image s (air_prims k a)) = air_size k"
  unfolding topic_image_def tuned_def by (rule air_image_size) simp_all

lemma air_visit:
  assumes lib: "cyclone_ok lib" "right_op lib m op" and S: "statics_ok S" and s: "tuned lib s" and a: "AirEntity_ok a"
    and m: "measures m \<or> length (cs_buffer s) < 2 ^ 61"
  shows "\<exists>S' t. visit_topic get_type_props_AirEntity (\<lambda>ps S. S\<lparr>props_AirEntity := Some ps\<rparr>) lib m (AirEntity_visit lib op a) k (S, s)
      = Some (measures m \<or> air_size k \<le> length (cs_buffer s), S', t) \<and> statics_ok S'
    \<and> (measures m \<or> air_size k \<le> length (cs_buffer s) \<longrightarrow> tuned lib t \<and> cs_position t = air_size k
        \<and> cs_buffer t = (if m = mode_write then put_at 0 (topic_image s (air_prims k a)) (cs_buffer s) else cs_buffer s))"
proof -
  obtain ps S1 where p: "get_type_props_AirEntity lib S = (ps, S1)" by (cases "get_type_props_AirEntity lib S")
  note ps = AirEntity_props_ok[OF lib(1) S p]
  have d: "does lib m k (skel ps) (AirEntity_visit lib op a 0) (air_prims k a) (\<lambda>d. d)"
    by (rule air_does_visit[OF lib tree_skel[OF ps(1)] keyed_skel[OF ps(2)]])
  show ?thesis
    by (rule visit_topic_ok[where get_props = get_type_props_AirEntity and f = "AirEntity_visit lib op a" and P = statics_ok
          and put = "\<lambda>ps S. S\<lparr>props_AirEntity := Some ps\<rparr>", OF lib(1) s p d air_topic_size[OF s a] _ m air_statics[OF lib(1) S p]])
      (simp_all add: air_size_def)
qed

lemma air_read:
  assumes lib: "cyclone_ok lib" and S: "statics_ok S" and s: "tuned lib s" and n: "length (cs_buffer s) < 2 ^ 61"
  shows "\<exists>S' t d'. topic_read_AirEntity lib k (S, s, d) = Some (air_size k \<le> length (cs_buffer s), S', t, d') \<and> statics_ok S'
    \<and> (\<forall>a. AirEntity_ok a \<longrightarrow> take (air_size k) (cs_buffer s) = topic_image s (air_prims k a) \<longrightarrow> d' = air_got k a d)"
proof -
  obtain ps S1 where p: "get_type_props_AirEntity lib S = (ps, S1)" by (cases "get_type_props_AirEntity lib S")
  note ps = AirEntity_props_ok[OF lib S p]
  note d = air_does_read[OF lib tree_skel[OF ps(1)] keyed_skel[OF ps(2)], of _ k]
  show ?thesis unfolding topic_read_AirEntity_def
    by (rule read_topic_ok[where get_props = get_type_props_AirEntity and f = "cyc_read_AirEntity lib" and P = statics_ok
          and put = "\<lambda>ps S. S\<lparr>props_AirEntity := Some ps\<rparr>" and ok = AirEntity_ok and qs = "air_prims k" and g = "air_got k", OF lib s p n d AirEntity_new_ok air_topic_size[OF s] _ air_statics[OF lib S p]])
      (simp_all add: air_size_def)
qed

interpretation air: streamed_topic AirEntity_topic statics_ok AirEntity_ok air_prims air_got air_size
proof
  show "\<exists>S' t. tt_write (AirEntity_topic lib) a k (S, s) = Some (air_size k \<le> length (cs_buffer s), S', t) \<and> statics_ok S'
      \<and> (air_size k \<le> length (cs_buffer s) \<longrightarrow> tuned lib t \<and> cs_buffer t = put_at 0 (topic_image s (air_prims k a)) (cs_buffer s))"
    if "cyclone_ok lib" "statics_ok S" "tuned lib s" "AirEntity_ok a" "length (cs_buffer s) < 2 ^ 61" for lib S s a k
    using air_visit[OF that(1) right_ops(1)[OF that(1)] that(2-4), of k] that(5)
    by (auto simp: AirEntity_topic_def topic_write_AirEntity_def cyc_write_AirEntity_def measures_def)
  show "\<exists>S' t. tt_move (AirEntity_topic lib) a k (S, s) = Some (True, S', t) \<and> statics_ok S' \<and> cs_position t = air_size k"
    if "cyclone_ok lib" "statics_ok S" "tuned lib s" "AirEntity_ok a" for lib S s a k
    using air_visit[OF that(1) right_ops(2)[OF that(1)] that(2-4), of k]
    by (auto simp: AirEntity_topic_def topic_move_AirEntity_def cyc_move_AirEntity_def measures_def)
  show "\<exists>S' t. tt_max (AirEntity_topic lib) a k (S, s) = Some (True, S', t) \<and> statics_ok S' \<and> cs_position t = air_size k"
    if "cyclone_ok lib" "statics_ok S" "tuned lib s" "AirEntity_ok a" for lib S s a k
    using air_visit[OF that(1) right_ops(3)[OF that(1)] that(2-4), of k]
    by (auto simp: AirEntity_topic_def topic_max_AirEntity_def cyc_max_AirEntity_def measures_def)
  show "\<exists>S' t d'. tt_read (AirEntity_topic lib) k (S, s, d) = Some (air_size k \<le> length (cs_buffer s), S', t, d') \<and> statics_ok S'
      \<and> (\<forall>a. AirEntity_ok a \<longrightarrow> take (air_size k) (cs_buffer s) = topic_image s (air_prims k a) \<longrightarrow> d' = air_got k a d)"
    if "cyclone_ok lib" "statics_ok S" "tuned lib s" "length (cs_buffer s) < 2 ^ 61" for lib S s k d
    using air_read[OF that, of k d] by (simp add: AirEntity_topic_def)
  show "length (wire_image (\<lambda>n. min n al) e 0 (air_prims k a)) = air_size k" if "AirEntity_ok a" "al = 4 \<or> al = 8" for a al e k
    by (rule air_image_size[OF that])
  show "AirEntity_ok (tt_new (AirEntity_topic lib))" for lib by (simp add: AirEntity_topic_def AirEntity_new_ok)
qed (simp_all add: AirEntity_topic_def air_got_def air_prims_def air_size_def AirEntity_ok_def)

subsection \<open>Samples\<close>

lemma air_key_bytes: "air.key_bytes a = be_int32 (ent_id a) @ replicate 12 0"
  by (simp add: air.key_bytes_def air_size_def air_prims_def kind_image_def be_int32_def mem_bytes_def cdr_pad_def)

lemma air_thread_new: "thread_ok statics_ok air_size cyc_thread_new"
  by (simp add: thread_ok_def cyc_thread_new_def statics_new)

lemma air_bytes_size:
  assumes "AirEntity_ok a"
  shows "length (sample_bytes S e (air_prims False a)) = 140" "length (sample_bytes S e (air_prims True a)) = 8"
  using air.sample_bytes_parts(2)[OF assms, of S e] by (simp_all add: air_size_def)

text \<open>
  C16: A sample of an AirEntity in Cyclone DDS. \<open>serdata_from_sample\<close> always succeeds on a well-formed
  entity and gives 140 bytes: 4 of header, 133 of values, 3 of padding. Handed over in whatever
  pieces, with or without the padding, \<open>serdata_from_ser_iov\<close> accepts them on a machine of
  whatever byte order, for every class of stream, and \<open>serdata_to_sample\<close> gives the same entity
  back, bit for bit, of the same instance.
\<close>

theorem cyclone_sample_roundtrip:
  assumes "cyclone_ok lib" "copies_key H" "thread_ok statics_ok air_size th"
    and "cyclone_ok lib'" "copies_key H'" "thread_ok statics_ok air_size th'"
    and "AirEntity_ok a" "137 \<le> n" "n \<le> 140"
  shows "\<exists>d th1. serdata_from_sample lib H (AirEntity_topic lib) S (Some base) SDK_DATA a th = Some (Some d, th1)
    \<and> serdata_size d = 140
    \<and> (serdata_to_ser d 0 n = Some (concat iov) \<longrightarrow> (\<exists>d' th2.
         serdata_from_ser_iov lib' H' (AirEntity_topic lib') (Some base') SDK_DATA iov n th' = Some (Some d', th2)
       \<and> serdata_to_sample lib' (AirEntity_topic lib') d' x th2 = Some ((True, a), d', th2) \<and> serdata_eqkey d d'))"
proof -
  let ?B = "sample_bytes S (cl_native lib) (air_prims False a)"
  note l = air_bytes_size(1)[OF assms(7), of S "cl_native lib"]
  have k: "SDK_DATA \<noteq> SDK_EMPTY" by simp
  obtain h m th1 where d: "serdata_from_sample lib H (AirEntity_topic lib) S (Some base) SDK_DATA a th = Some (Some
      \<lparr>sd_type = Some base, sd_kind = SDK_DATA, sd_hash = h, sd_size = 140, sd_data = Some ?B, sd_key = air.key_bytes a,
       sd_key_md5_hashed = m, sd_t = Some a, sd_hash_populated = True\<rparr>, th1)"
    using air.topic_from_sample[OF assms(1-3,7) k, of S base] by (auto simp: l)
  have "\<exists>d' th2. serdata_from_ser_iov lib' H' (AirEntity_topic lib') (Some base') SDK_DATA iov n th' = Some (Some d', th2)
      \<and> sd_t d' = Some a \<and> sd_key d' = air.key_bytes a" if "concat iov = take n ?B"
    using air.topic_from_iov[OF assms(4-7) k, of iov n S "cl_native lib" base'] that assms(8,9) l
    by (auto simp: air_size_def air_got_def)
  then show ?thesis using d
    by (fastforce simp: serdata_size_def serdata_to_ser_def serdata_to_sample_def serdata_getT_def serdata_eqkey_def)
qed

definition demo_topic_lib :: "8 word list topic_lib" where
  "demo_topic_lib = \<lparr>tl_simple_key = (\<lambda>bs h. (True, bs)), tl_complex_key = (\<lambda>bs h. (True, h)), tl_md5 = id,
     tl_copyin = (\<lambda>bs n. take n bs), tl_fresh = (\<lambda>_. 170)\<rparr>"

lemma demo_copies_key: "copies_key demo_topic_lib"
  by (simp add: copies_key_def demo_topic_lib_def)

text \<open>From a machine of little-endian order to one of big-endian order, in one piece.\<close>

lemmas demo_air_nodes = demo_cyclone_ok[of LITTLE_ENDIANNESS] demo_copies_key air_thread_new
  demo_cyclone_ok[of BIG_ENDIANNESS] demo_copies_key air_thread_new demo_air_entity_ok(1)

theorem cyclone_sample_roundtrip_witness:
  "\<exists>d bs d' th1 th2. serdata_from_sample (demo_cyclone_lib LITTLE_ENDIANNESS) demo_topic_lib (AirEntity_topic (demo_cyclone_lib LITTLE_ENDIANNESS))
      basic_cdr_stream (Some 7) SDK_DATA demo_air_entity cyc_thread_new = Some (Some d, th1)
    \<and> serdata_to_ser d 0 140 = Some bs \<and> length bs = 140
    \<and> serdata_from_ser_iov (demo_cyclone_lib BIG_ENDIANNESS) demo_topic_lib (AirEntity_topic (demo_cyclone_lib BIG_ENDIANNESS)) (Some 9) SDK_DATA
        [bs] 140 cyc_thread_new = Some (Some d', th2)
    \<and> serdata_to_sample (demo_cyclone_lib BIG_ENDIANNESS) (AirEntity_topic (demo_cyclone_lib BIG_ENDIANNESS)) d' AirEntity_new th2
        = Some ((True, demo_air_entity), d', th2)"
proof -
  let ?l = "demo_cyclone_lib LITTLE_ENDIANNESS"
  have n: "(137 :: nat) \<le> 140" "(140 :: nat) \<le> 140" by simp_all
  have k: "SDK_DATA \<noteq> SDK_EMPTY" by simp
  let ?B = "sample_bytes basic_cdr_stream (cl_native ?l) (air_prims False demo_air_entity)"
  obtain d th1 where d: "serdata_from_sample ?l demo_topic_lib (AirEntity_topic ?l) basic_cdr_stream (Some 7) SDK_DATA
      demo_air_entity cyc_thread_new = Some (Some d, th1)" "sd_data d = Some ?B"
    using air.topic_from_sample[OF demo_air_nodes(1-3,7) k, of basic_cdr_stream 7] by auto
  have b: "serdata_to_ser d 0 140 = Some ?B" "length ?B = 140"
    using air_bytes_size(1)[OF demo_air_nodes(7)] by (simp_all add: serdata_to_ser_def d(2))
  from cyclone_sample_roundtrip[OF demo_air_nodes n, of basic_cdr_stream 7 "[?B]" 9 AirEntity_new] d(1) b
  show ?thesis by simp blast
qed

text \<open>
  C17: The instance of an AirEntity is its id. For every sample, of data or of a key, and every class
  of stream \<open>to_key\<close> puts the id as four big-endian bytes and twelve zeros into the key, which is
  also the key hash \<open>serdata_get_keyhash\<close> answers; so two samples, made on machines of whatever
  byte orders, have equal keys exactly when the ids are equal.
\<close>

theorem cyclone_instance_is_id:
  assumes "cyclone_ok lib" "copies_key H" "thread_ok statics_ok air_size th" "AirEntity_ok a"
    and "cyclone_ok lib'" "copies_key H'" "thread_ok statics_ok air_size th'" "AirEntity_ok b"
    and "kind \<noteq> SDK_EMPTY" "kind' \<noteq> SDK_EMPTY"
  shows "\<exists>d d' th1 th2. serdata_from_sample lib H (AirEntity_topic lib) S (Some base) kind a th = Some (Some d, th1)
    \<and> serdata_from_sample lib' H' (AirEntity_topic lib') S' (Some base') kind' b th' = Some (Some d', th2)
    \<and> serdata_get_keyhash H d False = be_int32 (ent_id a) @ replicate 12 0
    \<and> (serdata_eqkey d d' \<longleftrightarrow> ent_id a = ent_id b)"
proof -
  have "is_i32 (ent_id a)" "is_i32 (ent_id b)" using assms(4,8) by (simp_all add: AirEntity_ok_def)
  with air.topic_from_sample[OF assms(1-4,9), of S base] air.topic_from_sample[OF assms(5-8,10), of S' base'] be_int32_inj
  show ?thesis by (fastforce simp: serdata_get_keyhash_def serdata_eqkey_def air_key_bytes)
qed

theorem cyclone_instance_is_id_witness:
  "\<exists>d d' th1 th2. serdata_from_sample (demo_cyclone_lib LITTLE_ENDIANNESS) demo_topic_lib (AirEntity_topic (demo_cyclone_lib LITTLE_ENDIANNESS))
      basic_cdr_stream (Some 7) SDK_DATA demo_air_entity cyc_thread_new = Some (Some d, th1)
    \<and> serdata_from_sample (demo_cyclone_lib BIG_ENDIANNESS) demo_topic_lib (AirEntity_topic (demo_cyclone_lib BIG_ENDIANNESS))
      xcdr_v2_stream (Some 9) SDK_KEY (AirEntity_new\<lparr>ent_id := 258\<rparr>) cyc_thread_new = Some (Some d', th2)
    \<and> serdata_get_keyhash demo_topic_lib d False = be_int32 (ent_id demo_air_entity) @ replicate 12 0
    \<and> (serdata_eqkey d d' \<longleftrightarrow> ent_id demo_air_entity = 258)"
proof -
  have "AirEntity_ok (AirEntity_new\<lparr>ent_id := 258\<rparr>)" using AirEntity_new_ok by (simp add: AirEntity_ok_def is_i32_def)
  from cyclone_instance_is_id[OF demo_air_nodes(1-3,7,4-6) this, of SDK_DATA SDK_KEY] show ?thesis by simp
qed

text \<open>
  \<open>serdata_to_untyped\<close> keeps of a sample its key and its hash, in 8 bytes, and drops everything
  else; \<open>serdata_untyped_to_sample\<close>, also on another machine, sets the id of the object it is given
  and leaves all its other members as they were.
\<close>

lemma cyclone_untyped_roundtrip:
  assumes "cyclone_ok lib" "copies_key H" "thread_ok statics_ok air_size th" "AirEntity_ok a" "sd_t d = Some a"
    and "cyclone_ok lib'" "thread_ok statics_ok air_size th'"
  shows "\<exists>d1 th1 th2. serdata_to_untyped lib H (AirEntity_topic lib) S d th = Some (Some d1, d, th1)
    \<and> serdata_size d1 = 8 \<and> sd_key d1 = be_int32 (ent_id a) @ replicate 12 0 \<and> sd_hash d1 = sd_hash d
    \<and> serdata_untyped_to_sample lib' (AirEntity_topic lib') d1 x th' = Some ((True, x\<lparr>ent_id := ent_id a\<rparr>), th2)"
proof -
  obtain d1 th1 where d1: "serdata_to_untyped lib H (AirEntity_topic lib) S d th = Some (Some d1, d, th1)"
      "sd_data d1 = Some (sample_bytes S (cl_native lib) (air_prims True a))"
      "sd_size d1 = length (sample_bytes S (cl_native lib) (air_prims True a))"
      "sd_key d1 = air.key_bytes a" "sd_hash d1 = sd_hash d"
    using air.topic_untyped[OF assms(1-5), of S] by blast
  from air.topic_untyped_to_sample[OF assms(6,7,4) d1(2,3), of x] d1 air_bytes_size(2)[OF assms(4)]
  show ?thesis by (auto simp: serdata_size_def air_key_bytes air_got_def)
qed

text \<open>
  C18: Whatever the bytes, if there are at least the 4 of a header, reading a sample of an AirEntity
  returns, and it answers true exactly when there are 137 bytes and the header names plain CDR of version 1 or 2, in either byte order. A
  sample that is too short, or written as appendable or mutable, is refused, and the state of the
  thread stays good for the next one.
\<close>

theorem cyclone_sample_truncated:
  assumes "cyclone_ok lib" "thread_ok statics_ok air_size th" "4 \<le> length buffer" "length buffer < 2 ^ 61"
  shows "\<exists>d' th'. deserialize_sample_from_buffer lib (AirEntity_topic lib) (Some buffer) (length buffer) d SDK_DATA th
      = Some ((137 \<le> length buffer \<and> buffer ! 1 AND NOT 1 \<in> {0, 6}, d'), th') \<and> thread_ok statics_ok air_size th'"
proof (cases "read_header (AirEntity_topic lib) buffer")
  case None
  then have "buffer ! 1 AND NOT 1 \<notin> {0, 6}"
    by (auto simp: read_header_def Let_def AirEntity_topic_def header_bytes split: if_splits)
  then show ?thesis using None assms(2,3) by (simp add: deserialize_sample_from_buffer_def CDR_HEADER_SIZE_def)
next
  case (Some r)
  obtain ver e where r: "r = (ver, e)" by (cases r)
  have "buffer ! 1 AND NOT 1 \<in> {0, 6}"
    using Some by (auto simp: read_header_def Let_def AirEntity_topic_def header_bytes split: if_splits)
  moreover obtain S where "stream_of ver = Some S"
    using Some by (auto simp: r read_header_def Let_def AirEntity_topic_def stream_of_def split: if_splits)
  moreover have "(133 \<le> length buffer - 4) = (137 \<le> length buffer)" by auto
  ultimately show ?thesis
    using air.topic_deserialize[OF assms(1,2) order.refl assms(3,4) _ Some[unfolded r], of SDK_DATA S d]
    by (auto simp: air_size_def)
qed

theorem cyclone_sample_truncated_witness:
  "\<exists>d d' th th'. deserialize_sample_from_buffer (demo_cyclone_lib LITTLE_ENDIANNESS) (AirEntity_topic (demo_cyclone_lib LITTLE_ENDIANNESS))
      (Some (replicate 136 0)) 136 AirEntity_new SDK_DATA cyc_thread_new = Some ((False, d), th)
    \<and> deserialize_sample_from_buffer (demo_cyclone_lib LITTLE_ENDIANNESS) (AirEntity_topic (demo_cyclone_lib LITTLE_ENDIANNESS))
      (Some (replicate 140 0)) 140 AirEntity_new SDK_DATA th = Some ((True, d'), th')"
proof -
  let ?l = "demo_cyclone_lib LITTLE_ENDIANNESS"
  obtain d th where d: "deserialize_sample_from_buffer ?l (AirEntity_topic ?l) (Some (replicate 136 0)) 136 AirEntity_new SDK_DATA
      cyc_thread_new = Some ((False, d), th)" "thread_ok statics_ok air_size th"
    using cyclone_sample_truncated[OF demo_air_nodes(1,3), of "replicate 136 0" AirEntity_new] by auto
  moreover obtain d' th' where "deserialize_sample_from_buffer ?l (AirEntity_topic ?l) (Some (replicate 140 0)) 140 AirEntity_new SDK_DATA
      th = Some ((True, d'), th')"
    using cyclone_sample_truncated[OF demo_air_nodes(1) d(2), of "replicate 140 0" AirEntity_new] by auto
  ultimately show ?thesis by blast
qed

text \<open>
  C19: The size is exact. \<open>sertype_get_serialized_size\<close> answers 137 for every AirEntity and every class
  of stream, and \<open>sertype_serialize_into\<close> into a buffer that has the bytes of a header answers true
  exactly when it has 137, and writes nothing behind them.
\<close>

theorem cyclone_size_exact:
  assumes "cyclone_ok lib" "thread_ok statics_ok air_size th" "AirEntity_ok a"
    and "4 \<le> length buffer" "length buffer < 2 ^ 61"
  shows "\<exists>th1 buffer' th2. sertype_get_serialized_size lib (AirEntity_topic lib) S a th = Some (137, th1)
    \<and> sertype_serialize_into lib (AirEntity_topic lib) S a (Some buffer) (length buffer) th1
      = Some ((137 \<le> length buffer, Some buffer'), th2)
    \<and> (137 \<le> length buffer \<longrightarrow> length buffer' = length buffer \<and> drop 137 buffer' = drop 137 buffer)"
proof -
  obtain th1 where g: "get_serialized_size lib (AirEntity_topic lib) S a False th = Some (Some 133, th1)" "thread_ok statics_ok air_size th1"
    using air.topic_size[OF assms(1-3), of S False] by (auto simp: air_size_def)
  from air.topic_serialize[OF assms(1) g(2) assms(3,4) order.refl assms(5), of S False] obtain buffer' th2 where
    w: "serialize_into lib (AirEntity_topic lib) S (Some buffer) (length buffer) a False th1
        = Some ((137 \<le> length buffer, Some buffer'), th2)"
      "137 \<le> length buffer \<Longrightarrow> buffer' = sample_header S (cl_native lib) (length buffer)
        @ kind_image S (cl_native lib) (air_prims False a) @ drop 137 buffer"
    by (auto simp: air_size_def)
  have "length (sample_header S (cl_native lib) (length buffer)) = 4" by (simp add: sample_header_def Let_def)
  moreover have "length (kind_image S (cl_native lib) (air_prims False a)) = 133"
    using air.image_size[OF assms(3)] by (simp add: air_size_def)
  ultimately have "137 \<le> length buffer \<Longrightarrow> length buffer' = length buffer \<and> drop 137 buffer' = drop 137 buffer"
    using w(2) by simp
  then show ?thesis using g(1) w(1)
    by (simp add: sertype_get_serialized_size_def sertype_serialize_into_def CDR_HEADER_SIZE_def)
qed

theorem cyclone_size_exact_witness:
  "\<exists>th1 buffer' th2. sertype_get_serialized_size (demo_cyclone_lib LITTLE_ENDIANNESS) (AirEntity_topic (demo_cyclone_lib LITTLE_ENDIANNESS))
      basic_cdr_stream demo_air_entity cyc_thread_new = Some (137, th1)
    \<and> sertype_serialize_into (demo_cyclone_lib LITTLE_ENDIANNESS) (AirEntity_topic (demo_cyclone_lib LITTLE_ENDIANNESS)) basic_cdr_stream
      demo_air_entity (Some (replicate 136 0)) 136 th1 = Some ((False, Some buffer'), th2)"
  using cyclone_size_exact[OF demo_air_nodes(1,3,7), of "replicate 136 0" basic_cdr_stream] by simp

lemma pad_mod: "(n :: nat) < 2 ^ 64 \<Longrightarrow> (2 ^ 64 - n) mod 4 = (4 - n mod 4) mod 4"
proof -
  assume n: "n < 2 ^ 64"
  have "18446744073709551616 - (4 * q + r) = 4 * (4611686018427387903 - q) + (4 - r)"
    if "4 * q + r < 18446744073709551616" "r < 4" for q r :: nat
    using that by linarith
  from this[of "n div 4" "n mod 4"] n have "2 ^ 64 - n = 4 * (4611686018427387903 - n div 4) + (4 - n mod 4)"
    by (simp only: mult_div_mod_eq) simp
  then show ?thesis by (simp only: mod_mult_self4)
qed

text \<open>
  The padding that \<open>finish_header\<close> records is the number of bytes \<open>resize\<close> has appended only when
  there are none: for an AirEntity, of 137 bytes, it is 1, and there are 3.
\<close>

lemma cyclone_padding_miscounted:
  assumes "0 < n" "n < 2 ^ 64" "4 \<le> length buffer"
  shows "finish_header buffer n ! 3 = of_nat (sd_size (serdata_resize fresh n d) - n) \<longleftrightarrow> n mod 4 = 0"
proof -
  have "n mod 4 < 4" by simp
  then consider "n mod 4 = 0" | "n mod 4 = 1" | "n mod 4 = 2" | "n mod 4 = 3" by linarith
  moreover note pad_mod[OF assms(2)]
  ultimately show ?thesis using assms(1,3)
    by (cases; simp add: finish_header_def serdata_resize_def Let_def)
qed

text \<open>
  C20: What Cyclone DDS sends, OpenDDS reads. Behind the header of a sample of an AirEntity, written by
  a machine of whatever byte order with the stream of representation 1 or 2, operator >> of the
  type support of OpenDDS, set to that representation and order, reads the same entity, from
  whatever blocks, and leaves the three bytes of padding.
\<close>

theorem cyclone_sample_read_by_open:
  assumes "cyclone_ok lib" "copies_key H" "thread_ok statics_ok air_size th" "AirEntity_ok a"
    and "serdata_from_sample lib H (AirEntity_topic lib) S (Some base) SDK_DATA a th = Some (Some d, th1)"
    and "S = (if r = XCDR_DATA_REPRESENTATION then basic_cdr_stream else xcdr_v2_stream)"
    and "ready_r s" "sr_pos s = 0" "sr_encoding s = open_encoding r (cl_native lib)"
    and "sd_data d = Some (hdr @ unread s)" "length hdr = 4" "AirEntity_shape e"
  shows "\<exists>s'. AirEntity_read (s, e) = (True, s', a) \<and> unread s' = [0, 0, 0]"
proof -
  have k: "SDK_DATA \<noteq> SDK_EMPTY" by simp
  have "sd_data d = Some (sample_bytes S (cl_native lib) (air_prims False a))"
    using air.topic_from_sample[OF assms(1-4) k, of S base] assms(5) by auto
  then have "hdr @ unread s = sample_header S (cl_native lib) 137 @ kind_image S (cl_native lib) (air_prims False a) @ [0, 0, 0]"
    using assms(10) air.sample_bytes_parts(1)[OF assms(4), of S "cl_native lib" False]
    by (simp add: air_size_def numeral_3_eq_3)
  moreover have "length (sample_header S (cl_native lib) 137) = 4" by (simp add: sample_header_def Let_def)
  ultimately have u: "unread s = kind_image S (cl_native lib) (AirEntity_prims a) @ [0, 0, 0]"
    using assms(11) by (simp add: append_eq_append_conv air_prims_def)
  have im: "kind_image S (cl_native lib) (AirEntity_prims a) = image_at (sr_encoding s) (sr_pos s) (AirEntity_prims a)"
    unfolding assms(8,9) open_encoding_image using assms(6)
    by (simp add: kind_image_def kind_align_def cdr_max_align_def[abs_def] version_of_def)
  obtain ok s' x where r: "AirEntity_read (s, e) = (ok, s', x)" by (cases "AirEntity_read (s, e)")
  show ?thesis
    using extractsD[OF extracts_AirEntity[OF assms(4)] assms(7,12) r] r u unfolding im by (simp add: consumed_def)
qed

theorem cyclone_sample_read_by_open_witness:
  "\<exists>d th1 bs s'. serdata_from_sample (demo_cyclone_lib LITTLE_ENDIANNESS) demo_topic_lib (AirEntity_topic (demo_cyclone_lib LITTLE_ENDIANNESS))
      basic_cdr_stream (Some 7) SDK_DATA demo_air_entity cyc_thread_new = Some (Some d, th1)
    \<and> serdata_to_ser d 4 136 = Some bs
    \<and> AirEntity_read (demo_ser_r (open_encoding XCDR_DATA_REPRESENTATION LITTLE_ENDIANNESS) bs, AirEntity_new) = (True, s', demo_air_entity)
    \<and> unread s' = [0, 0, 0]"
proof -
  let ?l = "demo_cyclone_lib LITTLE_ENDIANNESS" and ?e = "open_encoding XCDR_DATA_REPRESENTATION LITTLE_ENDIANNESS"
  have k: "SDK_DATA \<noteq> SDK_EMPTY" by simp
  have e: "encoding_ok ?e" by (simp add: open_encoding_def set_kind_def encoding_ok_def)
  let ?B = "sample_bytes basic_cdr_stream (cl_native ?l) (air_prims False demo_air_entity)"
  obtain d th1 where d: "serdata_from_sample ?l demo_topic_lib (AirEntity_topic ?l) basic_cdr_stream (Some 7) SDK_DATA
      demo_air_entity cyc_thread_new = Some (Some d, th1)" "sd_data d = Some ?B"
    using air.topic_from_sample[OF demo_air_nodes(1-3,7) k, of basic_cdr_stream 7] by auto
  have l: "length ?B = 140" by (rule air_bytes_size(1)[OF demo_air_nodes(7)])
  let ?s = "demo_ser_r ?e (drop 4 ?B)"
  have s: "unread ?s = drop 4 ?B" "sr_pos ?s = 0" "sr_encoding ?s = open_encoding XCDR_DATA_REPRESENTATION (cl_native ?l)"
    by (simp_all add: demo_unread) (simp_all add: demo_ser_r_def demo_cyclone_lib_def)
  have "sd_data d = Some (take 4 ?B @ unread ?s)" "length (take 4 ?B) = 4" using d(2) l by (simp_all add: s(1))
  from cyclone_sample_read_by_open[OF demo_air_nodes(1-3,7) d(1) _ demo_ready(2)[OF e] s(2,3) this demo_air_entity_ok(2)]
  have "\<exists>s'. AirEntity_read (?s, AirEntity_new) = (True, s', demo_air_entity) \<and> unread s' = [0, 0, 0]" by simp
  moreover have "serdata_to_ser d 4 136 = Some (drop 4 ?B)" using d(2) l by (simp add: serdata_to_ser_def)
  ultimately show ?thesis using d(1) by blast
qed

end
