(* ===== verification/CycloneControl.thy ===== *)
theory CycloneControl
  imports CycloneAir Interfaces
begin

section \<open>Samples of a TestControl\<close>

text \<open>
  The control topic in the generated code of Cyclone DDS. The type has the name \<open>TestControl\<close> and
  the IDL of the other two vendors, whose generators make it appendable where that of Cyclone
  makes it final: in representation 1 the bytes are the same, in representation 2 they are not.
\<close>

subsection \<open>The generated code keeps the contract\<close>

definition ctl_prims :: "bool \<Rightarrow> TestControl \<Rightarrow> prim list" where
  "ctl_prims k a = (if k then [PInt32 (tc_test_id a)] else concat (TestControl_values a))"

definition ctl_got :: "bool \<Rightarrow> TestControl \<Rightarrow> TestControl \<Rightarrow> TestControl" where
  "ctl_got k a d = (if k then d\<lparr>tc_test_id := tc_test_id a\<rparr> else a)"

definition ctl_size :: "bool \<Rightarrow> nat" where
  "ctl_size k = (if k then 4 else 24)"

lemma TestControl_new_ok: "TestControl_ok TestControl_new"
  by (simp add: TestControl_ok_def TestControl_new_def is_i32_def)

lemma ctl_image_size:
  assumes "al = 4 \<or> al = 8"
  shows "length (wire_image (\<lambda>n. min n al) e 0 (ctl_prims k a)) = ctl_size k"
proof -
  have "fold (prim_end (\<lambda>n. min n al)) (ctl_prims k a) 0 = ctl_size k"
    using assms by (cases k; elim disjE) (simp_all add: ctl_prims_def ctl_size_def TestControl_values_def cdr_pad_def)
  then show ?thesis using image_end[of 0 "\<lambda>n. min n al" e "ctl_prims k a"] by (simp only: add_0)
qed

lemma ctl_topic_size: "tuned lib s \<Longrightarrow> length (topic_image s (ctl_prims k a)) = ctl_size k"
  unfolding topic_image_def tuned_def by (rule ctl_image_size) simp

lemma ctl_statics:
  assumes "cyclone_ok lib" "statics_ok S" "get_type_props_TestControl lib S = (ps, S1)" "skel ps' = skel ps"
  shows "statics_ok (S1\<lparr>props_TestControl := Some ps'\<rparr>)"
  using TestControl_props_ok[OF assms(1-3)] tree_of_skel[OF assms(4)] keyed_of_skel[OF assms(4)]
  by (simp add: statics_ok_def)

lemma ctl_does_visit:
  assumes "cyclone_ok lib" "right_op lib m op" "tree_of (flat_cores 6) L" "keyed 0 L"
  shows "does lib m k L (TestControl_visit lib op a 0) (ctl_prims k a) (\<lambda>d. d)"
  using does_TestControl_visit[OF assms(1-3)] does_TestControl_key[OF assms] by (cases k) (simp_all add: ctl_prims_def)

lemma ctl_does_read:
  assumes "cyclone_ok lib" "tree_of (flat_cores 6) L" "keyed 0 L" "TestControl_ok a"
  shows "does lib mode_read k L (cyc_read_TestControl lib 0) (ctl_prims k a) (ctl_got k a)"
proof -
  have "is_i32 (tc_test_id a)" using assms(4) by (simp add: TestControl_ok_def)
  with does_read_TestControl[OF assms(1,2,4)] does_read_TestControl_key[OF assms(1-3)] show ?thesis
    by (cases k) (simp_all add: ctl_prims_def ctl_got_def[abs_def])
qed

lemma ctl_visit:
  assumes lib: "cyclone_ok lib" "right_op lib m op" and S: "statics_ok S" and s: "tuned lib s"
    and m: "measures m \<or> length (cs_buffer s) < 2 ^ 61"
  shows "\<exists>S' t. visit_topic get_type_props_TestControl (\<lambda>ps S. S\<lparr>props_TestControl := Some ps\<rparr>) lib m (TestControl_visit lib op a) k (S, s)
      = Some (measures m \<or> ctl_size k \<le> length (cs_buffer s), S', t) \<and> statics_ok S'
    \<and> (measures m \<or> ctl_size k \<le> length (cs_buffer s) \<longrightarrow> tuned lib t \<and> cs_position t = ctl_size k
        \<and> cs_buffer t = (if m = mode_write then put_at 0 (topic_image s (ctl_prims k a)) (cs_buffer s) else cs_buffer s))"
proof -
  obtain ps S1 where p: "get_type_props_TestControl lib S = (ps, S1)" by (cases "get_type_props_TestControl lib S")
  note ps = TestControl_props_ok[OF lib(1) S p]
  have d: "does lib m k (skel ps) (TestControl_visit lib op a 0) (ctl_prims k a) (\<lambda>d. d)"
    by (rule ctl_does_visit[OF lib tree_skel[OF ps(1)] keyed_skel[OF ps(2)]])
  show ?thesis
    by (rule visit_topic_ok[where get_props = get_type_props_TestControl and f = "TestControl_visit lib op a" and P = statics_ok
          and put = "\<lambda>ps S. S\<lparr>props_TestControl := Some ps\<rparr>", OF lib(1) s p d ctl_topic_size[OF s] _ m ctl_statics[OF lib(1) S p]])
      (simp_all add: ctl_size_def)
qed

lemma ctl_read:
  assumes lib: "cyclone_ok lib" and S: "statics_ok S" and s: "tuned lib s" and n: "length (cs_buffer s) < 2 ^ 61"
  shows "\<exists>S' t d'. topic_read_TestControl lib k (S, s, d) = Some (ctl_size k \<le> length (cs_buffer s), S', t, d') \<and> statics_ok S'
    \<and> (\<forall>a. TestControl_ok a \<longrightarrow> take (ctl_size k) (cs_buffer s) = topic_image s (ctl_prims k a) \<longrightarrow> d' = ctl_got k a d)"
proof -
  obtain ps S1 where p: "get_type_props_TestControl lib S = (ps, S1)" by (cases "get_type_props_TestControl lib S")
  note ps = TestControl_props_ok[OF lib S p]
  note d = ctl_does_read[OF lib tree_skel[OF ps(1)] keyed_skel[OF ps(2)], of _ k]
  show ?thesis unfolding topic_read_TestControl_def
    by (rule read_topic_ok[where get_props = get_type_props_TestControl and f = "cyc_read_TestControl lib" and P = statics_ok
          and put = "\<lambda>ps S. S\<lparr>props_TestControl := Some ps\<rparr>" and ok = TestControl_ok and qs = "ctl_prims k" and g = "ctl_got k",
          OF lib s p n d TestControl_new_ok ctl_topic_size[OF s] _ ctl_statics[OF lib S p]])
      (simp_all add: ctl_size_def)
qed

interpretation ctl: streamed_topic TestControl_topic statics_ok TestControl_ok ctl_prims ctl_got ctl_size
proof
  show "\<exists>S' t. tt_write (TestControl_topic lib) a k (S, s) = Some (ctl_size k \<le> length (cs_buffer s), S', t) \<and> statics_ok S'
      \<and> (ctl_size k \<le> length (cs_buffer s) \<longrightarrow> tuned lib t \<and> cs_buffer t = put_at 0 (topic_image s (ctl_prims k a)) (cs_buffer s))"
    if "cyclone_ok lib" "statics_ok S" "tuned lib s" "TestControl_ok a" "length (cs_buffer s) < 2 ^ 61" for lib S s a k
    using ctl_visit[OF that(1) right_ops(1)[OF that(1)] that(2,3), of a k] that(5)
    by (auto simp: TestControl_topic_def topic_write_TestControl_def cyc_write_TestControl_def measures_def)
  show "\<exists>S' t. tt_move (TestControl_topic lib) a k (S, s) = Some (True, S', t) \<and> statics_ok S' \<and> cs_position t = ctl_size k"
    if "cyclone_ok lib" "statics_ok S" "tuned lib s" "TestControl_ok a" for lib S s a k
    using ctl_visit[OF that(1) right_ops(2)[OF that(1)] that(2,3), of a k]
    by (auto simp: TestControl_topic_def topic_move_TestControl_def cyc_move_TestControl_def measures_def)
  show "\<exists>S' t. tt_max (TestControl_topic lib) a k (S, s) = Some (True, S', t) \<and> statics_ok S' \<and> cs_position t = ctl_size k"
    if "cyclone_ok lib" "statics_ok S" "tuned lib s" "TestControl_ok a" for lib S s a k
    using ctl_visit[OF that(1) right_ops(3)[OF that(1)] that(2,3), of a k]
    by (auto simp: TestControl_topic_def topic_max_TestControl_def cyc_max_TestControl_def measures_def)
  show "\<exists>S' t d'. tt_read (TestControl_topic lib) k (S, s, d) = Some (ctl_size k \<le> length (cs_buffer s), S', t, d') \<and> statics_ok S'
      \<and> (\<forall>a. TestControl_ok a \<longrightarrow> take (ctl_size k) (cs_buffer s) = topic_image s (ctl_prims k a) \<longrightarrow> d' = ctl_got k a d)"
    if "cyclone_ok lib" "statics_ok S" "tuned lib s" "length (cs_buffer s) < 2 ^ 61" for lib S s k d
    using ctl_read[OF that, of k d] by (simp add: TestControl_topic_def)
  show "length (wire_image (\<lambda>n. min n al) e 0 (ctl_prims k a)) = ctl_size k" if "TestControl_ok a" "al = 4 \<or> al = 8" for a al e k
    by (rule ctl_image_size[OF that(2)])
  show "TestControl_ok (tt_new (TestControl_topic lib))" for lib by (simp add: TestControl_topic_def TestControl_new_ok)
qed (simp_all add: TestControl_topic_def ctl_got_def ctl_prims_def ctl_size_def TestControl_ok_def)

subsection \<open>A Cyclone DDS sample in the hands of OpenDDS\<close>

lemma ctl_sample:
  assumes "cyclone_ok lib" "copies_key H" "thread_ok statics_ok ctl_size th" "TestControl_ok a"
    and "serdata_from_sample lib H (TestControl_topic lib) S (Some base) SDK_DATA a th = Some (Some d, th1)"
  shows "sd_data d = Some (sample_header S (cl_native lib) 28 @ kind_image S (cl_native lib) (concat (TestControl_values a)))"
proof -
  have k: "SDK_DATA \<noteq> SDK_EMPTY" by simp
  have "sd_data d = Some (sample_bytes S (cl_native lib) (ctl_prims False a))"
    using ctl.topic_from_sample[OF assms(1-4) k, of S base] assms(5) by auto
  then show ?thesis using ctl.sample_bytes_parts(1)[OF assms(4), of S "cl_native lib" False]
    by (simp add: ctl_size_def ctl_prims_def)
qed

lemma ctl_unread:
  assumes "sample_header S e 28 @ xs = hdr @ ys" "length hdr = 4"
  shows "ys = xs"
proof -
  have "length (sample_header S e 28) = 4" by (simp add: sample_header_def Let_def)
  with assms show ?thesis by (simp add: append_eq_append_conv)
qed

lemma ctl_thread_new: "thread_ok statics_ok ctl_size cyc_thread_new"
  by (simp add: thread_ok_def cyc_thread_new_def statics_new)

text \<open>
  C21: In data representation 1 a control message of Cyclone DDS is read by operator >> of OpenDDS as
  the same configuration, and nothing is left over.
\<close>

theorem cyclone_control_read_by_open:
  assumes "cyclone_ok lib" "copies_key H" "thread_ok statics_ok ctl_size th" "TestControl_ok a"
    and "serdata_from_sample lib H (TestControl_topic lib) basic_cdr_stream (Some base) SDK_DATA a th = Some (Some d, th1)"
    and "ready_r s" "sr_pos s = 0" "sr_encoding s = open_encoding XCDR_DATA_REPRESENTATION (cl_native lib)"
    and "sd_data d = Some (hdr @ unread s)" "length hdr = 4"
  shows "\<exists>s'. TestControl_read u (s, e) = (True, s', a) \<and> unread s' = []"
proof -
  have "sample_header basic_cdr_stream (cl_native lib) 28 @ kind_image basic_cdr_stream (cl_native lib) (concat (TestControl_values a))
      = hdr @ unread s" using ctl_sample[OF assms(1-5)] unfolding assms(9) option.inject by (rule sym)
  from ctl_unread[OF this assms(10)]
  have "unread s = kind_image basic_cdr_stream (cl_native lib) (concat (TestControl_values a))" .
  moreover have "image_at (sr_encoding s) (sr_pos s) (concat (TestControl_values a))
      = kind_image basic_cdr_stream (cl_native lib) (concat (TestControl_values a))"
    unfolding assms(7,8) open_encoding_image
    by (simp only: kind_image_def kind_align_def cdr_max_align_def[abs_def] version_of_def if_True if_False
      stream_kind.distinct cdr_version.distinct simp_thms)
  ultimately have u: "unread s = image_at (sr_encoding s) (sr_pos s) (concat (TestControl_values a)) @ []" by simp
  have "en_xcdr_version (sr_encoding s) \<noteq> XCDR_VERSION_2" by (simp add: assms(8) open_encoding_def set_kind_def)
  from read_plain[OF assms(6) this assms(4) u] show ?thesis by blast
qed

text \<open>Samples of a little-endian machine, for the witnesses.\<close>

lemmas demo_ctl_node = demo_cyclone_ok[of LITTLE_ENDIANNESS] demo_copies_key ctl_thread_new

lemma demo_ctl_sample:
  assumes "TestControl_ok a"
  obtains d th1 where "serdata_from_sample (demo_cyclone_lib LITTLE_ENDIANNESS) demo_topic_lib
      (TestControl_topic (demo_cyclone_lib LITTLE_ENDIANNESS)) S (Some 7) SDK_DATA a cyc_thread_new = Some (Some d, th1)"
    and "\<And>e. \<exists>bs hdr. serdata_to_ser d 4 24 = Some bs \<and> sd_data d = Some (hdr @ unread (demo_ser_r e bs)) \<and> length hdr = 4"
proof -
  let ?l = "demo_cyclone_lib LITTLE_ENDIANNESS"
  let ?B = "sample_bytes S (cl_native ?l) (ctl_prims False a)"
  have k: "SDK_DATA \<noteq> SDK_EMPTY" by simp
  obtain d th1 where d: "serdata_from_sample ?l demo_topic_lib (TestControl_topic ?l) S (Some 7) SDK_DATA a cyc_thread_new
      = Some (Some d, th1)" "sd_data d = Some ?B"
    using ctl.topic_from_sample[OF demo_ctl_node assms k, of S 7] by auto
  have l: "length ?B = 28" using ctl.sample_bytes_parts(2)[OF assms, of S "cl_native ?l" False] by (simp add: ctl_size_def)
  have "serdata_to_ser d 4 24 = Some (drop 4 ?B) \<and> sd_data d = Some (take 4 ?B @ unread (demo_ser_r e (drop 4 ?B)))
      \<and> length (take 4 ?B) = 4" for e
    using d(2) l by (simp add: serdata_to_ser_def demo_unread)
  then show ?thesis using that[OF d(1)] by blast
qed

theorem cyclone_control_read_by_open_witness:
  "\<exists>d th1 bs s'. serdata_from_sample (demo_cyclone_lib LITTLE_ENDIANNESS) demo_topic_lib
      (TestControl_topic (demo_cyclone_lib LITTLE_ENDIANNESS)) basic_cdr_stream (Some 7) SDK_DATA demo_test_control cyc_thread_new
      = Some (Some d, th1)
    \<and> serdata_to_ser d 4 24 = Some bs
    \<and> TestControl_read 9 (demo_ser_r (open_encoding XCDR_DATA_REPRESENTATION LITTLE_ENDIANNESS) bs, TestControl_new)
      = (True, s', demo_test_control)"
proof -
  let ?e = "open_encoding XCDR_DATA_REPRESENTATION LITTLE_ENDIANNESS"
  have e: "encoding_ok ?e" by (simp add: open_encoding_def set_kind_def encoding_ok_def)
  obtain d th1 bs hdr where d: "serdata_from_sample (demo_cyclone_lib LITTLE_ENDIANNESS) demo_topic_lib
      (TestControl_topic (demo_cyclone_lib LITTLE_ENDIANNESS)) basic_cdr_stream (Some 7) SDK_DATA demo_test_control cyc_thread_new
      = Some (Some d, th1)" "serdata_to_ser d 4 24 = Some bs" "sd_data d = Some (hdr @ unread (demo_ser_r ?e bs))" "length hdr = 4"
    using demo_ctl_sample[OF demo_test_control_ok] by metis
  have s: "sr_pos (demo_ser_r ?e bs) = 0"
    "sr_encoding (demo_ser_r ?e bs) = open_encoding XCDR_DATA_REPRESENTATION (cl_native (demo_cyclone_lib LITTLE_ENDIANNESS))"
    by (simp_all add: demo_ser_r_def demo_cyclone_lib_def)
  show ?thesis
    using cyclone_control_read_by_open[OF demo_ctl_node demo_test_control_ok d(1) demo_ready(2)[OF e] s d(3,4)] d(1,2) by blast
qed

lemma control_front:
  "take 8 (wire_image (\<lambda>n. min n 4) LITTLE_ENDIANNESS 0 (PInt32 4 # PBool True # PInt32 i # qs)) = [4, 0, 0, 0, 1, 0, 0, 0]"
proof -
  have "prim_bytes LITTLE_ENDIANNESS (PInt32 4) = [4, 0, 0, 0]" by (simp add: mem_bytes_def be_bytes_4)
  moreover have "cdr_pad 4 0 = 0" "cdr_pad (Suc 0) (Suc (Suc (Suc (Suc 0)))) = 0" "cdr_pad 4 (Suc (Suc (Suc (Suc (Suc 0))))) = 3"
    by (simp_all add: cdr_pad_def)
  ultimately show ?thesis by (simp add: Let_def numeral_3_eq_3)
qed

text \<open>
  C22: In data representation 2 it is not. Cyclone DDS writes no delimiter in front of a TestControl and
  OpenDDS expects one. The start command of test 4, written on a little-endian machine, is taken
  for a structure of 4 bytes: operator >> answers true, and the configuration it gives is a stop
  command of test 1.
\<close>

theorem cyclone_control_misread_by_open:
  assumes "cyclone_ok lib" "copies_key H" "thread_ok statics_ok ctl_size th" "TestControl_ok a"
    and "serdata_from_sample lib H (TestControl_topic lib) xcdr_v2_stream (Some base) SDK_DATA a th = Some (Some d, th1)"
    and "tc_test_id a = 4" "tc_start a" "cl_native lib = LITTLE_ENDIANNESS"
    and "ready_r s" "sr_pos s = 0" "sr_encoding s = open_encoding XCDR2_DATA_REPRESENTATION LITTLE_ENDIANNESS"
    and "sd_data d = Some (hdr @ unread s)" "length hdr = 4"
  shows "\<exists>s'. TestControl_read u (s, e) = (True, s', stop_msg 1)"
proof -
  let ?b = "TestControl_new\<lparr>tc_test_id := 1\<rparr>"
  have b: "TestControl_ok ?b" using TestControl_new_ok by (simp add: TestControl_ok_def is_i32_def)
  have v: "en_xcdr_version (sr_encoding s) = XCDR_VERSION_2" "stream_align (sr_encoding s) = (\<lambda>n. min n 4)"
    "en_endianness (sr_encoding s) = LITTLE_ENDIANNESS"
    by (simp_all add: fun_eq_iff assms(11) open_encoding_def set_kind_def stream_align_def)
  have "sample_header xcdr_v2_stream LITTLE_ENDIANNESS 28 @ kind_image xcdr_v2_stream LITTLE_ENDIANNESS (concat (TestControl_values a))
      = hdr @ unread s" using ctl_sample[OF assms(1-5)] unfolding assms(8,12) option.inject by (rule sym)
  from ctl_unread[OF this assms(13)]
  have "unread s = kind_image xcdr_v2_stream LITTLE_ENDIANNESS (concat (TestControl_values a))" .
  moreover have "concat (TestControl_values a) = PInt32 4 # PBool True # PInt32 (tc_expected_entities a)
      # [PBool (tc_loan a), PInt32 (tc_reserve1 a), PInt32 (tc_reserve2 a)]"
    using assms(6,7) by (simp add: TestControl_values_def)
  ultimately have "take 8 (unread s) = [4, 0, 0, 0, 1, 0, 0, 0]"
    by (simp only: kind_image_def kind_align_def simp_thms if_True control_front)
  then have u: "unread s = [4, 0, 0, 0] @ [1, 0, 0, 0] @ [] @ drop 8 (unread s)"
    using append_take_drop_id[of 8 "unread s"] by simp
  have h: "image_at (sr_encoding s) (sr_pos s) [PUInt32 (of_nat 4)] = [4, 0, 0, 0]"
    by (simp add: image_at_def v assms(10) cdr_pad_def mem_bytes_def be_bytes_4)
  have x: "image_at (sr_encoding s) (sr_pos s + length [4, 0, 0, 0 :: 8 word]) (concat (take 1 (TestControl_values ?b))) = [1, 0, 0, 0]"
    by (simp add: image_at_def v assms(10) cdr_pad_def mem_bytes_def be_bytes_4 TestControl_values_def)
  have "\<exists>r'. TestControl_read u (s, e) = (True, r', first_members 1 ?b) \<and> ready_r r' \<and> unread r' = drop 8 (unread s)"
    by (rule read_evolved[OF assms(9) v(1) b, of 4 1 "[]" "drop 8 (unread s)", unfolded h x, OF u]) simp_all
  moreover have "first_members 1 ?b = stop_msg 1"
    by (simp add: first_members_def TestControl_members_def stop_msg_def TestControl_new_def)
  ultimately show ?thesis by auto
qed

theorem cyclone_control_misread_by_open_witness:
  "\<exists>d th1 bs s'. serdata_from_sample (demo_cyclone_lib LITTLE_ENDIANNESS) demo_topic_lib
      (TestControl_topic (demo_cyclone_lib LITTLE_ENDIANNESS)) xcdr_v2_stream (Some 7) SDK_DATA
      (demo_test_control\<lparr>tc_test_id := 4\<rparr>) cyc_thread_new = Some (Some d, th1)
    \<and> serdata_to_ser d 4 24 = Some bs
    \<and> TestControl_read 9 (demo_ser_r (open_encoding XCDR2_DATA_REPRESENTATION LITTLE_ENDIANNESS) bs, TestControl_new)
      = (True, s', stop_msg 1)"
proof -
  let ?e = "open_encoding XCDR2_DATA_REPRESENTATION LITTLE_ENDIANNESS" and ?a = "demo_test_control\<lparr>tc_test_id := 4\<rparr>"
  have e: "encoding_ok ?e" by (simp add: open_encoding_def set_kind_def encoding_ok_def)
  have a: "TestControl_ok ?a" "tc_test_id ?a = 4" "tc_start ?a"
    using demo_test_control_ok by (simp_all add: TestControl_ok_def demo_test_control_def is_i32_def)
  obtain d th1 bs hdr where d: "serdata_from_sample (demo_cyclone_lib LITTLE_ENDIANNESS) demo_topic_lib
      (TestControl_topic (demo_cyclone_lib LITTLE_ENDIANNESS)) xcdr_v2_stream (Some 7) SDK_DATA ?a cyc_thread_new
      = Some (Some d, th1)" "serdata_to_ser d 4 24 = Some bs" "sd_data d = Some (hdr @ unread (demo_ser_r ?e bs))" "length hdr = 4"
    using demo_ctl_sample[OF a(1)] by metis
  have n: "cl_native (demo_cyclone_lib LITTLE_ENDIANNESS) = LITTLE_ENDIANNESS" by (simp add: demo_cyclone_lib_def)
  have s: "sr_pos (demo_ser_r ?e bs) = 0" "sr_encoding (demo_ser_r ?e bs) = ?e" by (simp_all add: demo_ser_r_def)
  show ?thesis
    using cyclone_control_misread_by_open[OF demo_ctl_node a(1) d(1) a(2,3) n demo_ready(2)[OF e] s d(3,4)] d(1,2) by blast
qed

end
