(* ===== verification/OpenMeta.thy ===== *)
theory OpenMeta
  imports OpenControl
begin

section \<open>Single members of a sample in OpenDDS\<close>

text \<open>
  \<open>MetaStructImpl<T>\<close> in \<open>inseTypeSupportImpl.cpp\<close> and \<open>test_controlTypeSupportImpl.cpp\<close>: \<open>getValue\<close>, which
  content filters and queries use to look at one member, of an object by its name, or of
  serialized data, where it reads over the members in front of it. A name may be a path with
  dots. \<open>gen_skip_over\<close> reads over a whole object.
\<close>

text \<open>
  \<open>Value\<close> holds a \<open>float\<close> or a \<open>double\<close> as a \<open>double\<close>; widening is exact, so \<open>VAL_FLOAT\<close> keeps the bits
  of either. The texts of the exceptions differ in the name they give only.
\<close>

datatype Value = VAL_BOOL bool | VAL_INT int | VAL_UINT "32 word" | VAL_CHAR c_char | VAL_FLOAT "float_bits + double_bits"

datatype meta_error = NotSupported string string | NotDeserialized string | NotSkipped string | NoDelimiter | DidNotFind

subsection \<open>Of an object\<close>

text \<open>\<open>strcmp(field, name) == 0\<close>, and \<open>strncmp(field, "name.", n) == 0\<close> for a member that is a structure.\<close>

datatype accessor = Member string Value | Nested string "string \<Rightarrow> meta_error + Value"

fun find_member :: "string \<Rightarrow> string \<Rightarrow> accessor list \<Rightarrow> meta_error + Value" where
  "find_member T field [] = Inl (NotSupported field T)"
| "find_member T field (Member name v # as) = (if field = name then Inr v else find_member T field as)"
| "find_member T field (Nested name get # as) = (if take (length name + 1) field = name @ ''.''
     then get (drop (length name + 1) field) else find_member T field as)"

definition EntityID_getValue :: "EntityID \<Rightarrow> string \<Rightarrow> meta_error + Value" where
  "EntityID_getValue typed field = find_member ''EntityID'' field
    [Member ''id'' (VAL_INT (eid_id typed)),
     Member ''creatorID'' (VAL_INT (eid_creatorID typed)),
     Member ''visualID'' (VAL_INT (eid_visualID typed)),
     Member ''visualModel'' (VAL_INT (eid_visualModel typed)),
     Member ''visualDetail'' (VAL_INT (eid_visualDetail typed)),
     Member ''active'' (VAL_CHAR (eid_active typed)),
     Member ''delayedActivationTime'' (VAL_UINT (eid_delayedActivationTime typed)),
     Member ''manned'' (VAL_CHAR (eid_manned typed)),
     Member ''remote'' (VAL_CHAR (eid_remote typed)),
     Member ''entityType'' (VAL_CHAR (eid_entityType typed)),
     Member ''side'' (VAL_CHAR (eid_side typed)),
     Member ''weight'' (VAL_FLOAT (Inr (eid_weight typed)))]"

definition Target_getValue :: "Target \<Rightarrow> string \<Rightarrow> meta_error + Value" where
  "Target_getValue typed field = find_member ''Target'' field
    [Member ''entity_id'' (VAL_INT (tgt_entity_id typed))]"

definition Position_getValue :: "Position \<Rightarrow> string \<Rightarrow> meta_error + Value" where
  "Position_getValue typed field = find_member ''Position'' field
    [Member ''latitude'' (VAL_FLOAT (Inr (pos_latitude typed))),
     Member ''longitude'' (VAL_FLOAT (Inr (pos_longitude typed))),
     Member ''altitude'' (VAL_FLOAT (Inl (pos_altitude typed))),
     Member ''altitudeAGL'' (VAL_FLOAT (Inl (pos_altitudeAGL typed))),
     Member ''altitude_target'' (VAL_FLOAT (Inl (pos_altitude_target typed)))]"

definition Attitude_getValue :: "Attitude \<Rightarrow> string \<Rightarrow> meta_error + Value" where
  "Attitude_getValue typed field = find_member ''Attitude'' field
    [Member ''pitch'' (VAL_FLOAT (Inl (pitch typed))),
     Member ''yaw'' (VAL_FLOAT (Inl (yaw typed))),
     Member ''roll'' (VAL_FLOAT (Inl (roll typed)))]"

definition MovementAirEntity_getValue :: "MovementAirEntity \<Rightarrow> string \<Rightarrow> meta_error + Value" where
  "MovementAirEntity_getValue typed field = find_member ''MovementAirEntity'' field
    [Member ''speed'' (VAL_FLOAT (Inl (speed typed))),
     Member ''speed_target'' (VAL_FLOAT (Inl (speed_target typed))),
     Member ''geographicHeading'' (VAL_FLOAT (Inl (geographicHeading typed))),
     Member ''geographicHeading_target'' (VAL_FLOAT (Inl (geographicHeading_target typed))),
     Member ''magneticHeading'' (VAL_FLOAT (Inl (magneticHeading typed))),
     Member ''tmllf'' (VAL_CHAR (tmllf typed)),
     Member ''onGround'' (VAL_CHAR (onGround typed)),
     Member ''indicatedSpeed'' (VAL_FLOAT (Inl (indicatedSpeed typed))),
     Member ''indicatedSpeed_target'' (VAL_FLOAT (Inl (indicatedSpeed_target typed))),
     Member ''loadFactor'' (VAL_FLOAT (Inl (loadFactor typed))),
     Member ''verticalSpeed'' (VAL_FLOAT (Inl (verticalSpeed typed))),
     Member ''verticalSpeed_target'' (VAL_FLOAT (Inl (verticalSpeed_target typed))),
     Member ''groundSpeed'' (VAL_FLOAT (Inl (groundSpeed typed))),
     Member ''groundSpeed_target'' (VAL_FLOAT (Inl (groundSpeed_target typed))),
     Member ''throttle'' (VAL_FLOAT (Inl (throttle typed))),
     Member ''infiniteFuel'' (VAL_BOOL (infiniteFuel typed)),
     Member ''initialFuel'' (VAL_FLOAT (Inl (initialFuel typed))),
     Member ''currentFuel'' (VAL_FLOAT (Inl (currentFuel typed))),
     Member ''fuelConsumption'' (VAL_FLOAT (Inl (fuelConsumption typed)))]"

definition AirEntity_getValue :: "AirEntity \<Rightarrow> string \<Rightarrow> meta_error + Value" where
  "AirEntity_getValue typed field = find_member ''AirEntity'' field
    [Member ''id'' (VAL_INT (ent_id typed)),
     Nested ''entity_attitude'' (Attitude_getValue (entity_attitude typed)),
     Nested ''movement'' (MovementAirEntity_getValue (movement typed)),
     Member ''commsActive'' (VAL_CHAR (commsActive typed)),
     Member ''formationID'' (VAL_INT (formationID typed)),
     Member ''posInt_inseoFormation'' (VAL_INT (posInt_inseoFormation typed)),
     Member ''isAutomaticTraffic'' (VAL_CHAR (isAutomaticTraffic typed))]"

definition TestControl_getValue :: "TestControl \<Rightarrow> string \<Rightarrow> meta_error + Value" where
  "TestControl_getValue typed field = find_member ''TestControl'' field
    [Member ''test_id'' (VAL_INT (tc_test_id typed)),
     Member ''start'' (VAL_BOOL (tc_start typed)),
     Member ''expected_entities'' (VAL_INT (tc_expected_entities typed)),
     Member ''loan'' (VAL_BOOL (tc_loan typed)),
     Member ''reserve1'' (VAL_INT (tc_reserve1 typed)),
     Member ''reserve2'' (VAL_INT (tc_reserve2 typed))]"

subsection \<open>Of serialized data\<close>

definition base_of :: "string \<Rightarrow> string" where
  "base_of field = takeWhile (\<lambda>c. c \<noteq> CHR ''.'') field"

definition subfield_of :: "string \<Rightarrow> string" where
  "subfield_of field = drop 1 (dropWhile (\<lambda>c. c \<noteq> CHR ''.'') field)"

text \<open>Reading a member into a new variable, whose first value does not matter, and skipping one.\<close>

definition meta_read :: "string \<Rightarrow> (ser_r \<times> 'v \<Rightarrow> bool \<times> ser_r \<times> 'v) \<Rightarrow> 'v \<Rightarrow> ('v \<Rightarrow> Value) \<Rightarrow> ser_r \<Rightarrow> (meta_error + Value) \<times> ser_r" where
  "meta_read name op val con s = (case op (s, val) of (ok, s, val) \<Rightarrow> (if ok then Inr (con val) else Inl (NotDeserialized name), s))"

definition meta_skip :: "string \<Rightarrow> nat \<Rightarrow> 64 word \<Rightarrow> ser_r \<Rightarrow> (meta_error + unit) \<times> ser_r" where
  "meta_skip name n sz s = (case skip n sz s of (ok, s) \<Rightarrow> (if ok then Inr () else Inl (NotSkipped name), s))"

definition drop_value :: "(ser_r \<Rightarrow> (meta_error + Value) \<times> ser_r) \<Rightarrow> ser_r \<Rightarrow> (meta_error + unit) \<times> ser_r" where
  "drop_value f s = (case f s of (Inl e, s) \<Rightarrow> (Inl e, s) | (Inr _, s) \<Rightarrow> (Inr (), s))"

datatype step =
    ReadStep string "ser_r \<Rightarrow> (meta_error + Value) \<times> ser_r" "ser_r \<Rightarrow> (meta_error + unit) \<times> ser_r"
  | DescendStep string "string \<Rightarrow> ser_r \<Rightarrow> (meta_error + Value) \<times> ser_r" "ser_r \<Rightarrow> (meta_error + unit) \<times> ser_r"
  | SkipStep "ser_r \<Rightarrow> (meta_error + unit) \<times> ser_r"

definition skip_then :: "(ser_r \<Rightarrow> (meta_error + unit) \<times> ser_r) \<Rightarrow> (ser_r \<Rightarrow> (meta_error + Value) \<times> ser_r) \<Rightarrow> ser_r
    \<Rightarrow> (meta_error + Value) \<times> ser_r" where
  "skip_then sk k s = (case sk s of (Inl e, s) \<Rightarrow> (Inl e, s) | (Inr _, s) \<Rightarrow> k s)"

fun seek_steps :: "string \<Rightarrow> step list \<Rightarrow> ser_r \<Rightarrow> (meta_error + Value) \<times> ser_r" where
  "seek_steps field [] s = (if field = [] then Inr (VAL_INT 0) else Inl DidNotFind, s)"
| "seek_steps field (ReadStep name rd sk # ss) s =
     (if base_of field = name then rd s else skip_then sk (seek_steps field ss) s)"
| "seek_steps field (DescendStep name rd sk # ss) s =
     (if base_of field = name then rd (subfield_of field) s else skip_then sk (seek_steps field ss) s)"
| "seek_steps field (SkipStep sk # ss) s = skip_then sk (seek_steps field ss) s"

definition long_step :: "string \<Rightarrow> step" where
  "long_step name = ReadStep name (meta_read name extract_Long 0 VAL_INT) (meta_skip name 1 4)"

definition ulong_step :: "string \<Rightarrow> step" where
  "ulong_step name = ReadStep name (meta_read name extract_ULong 0 VAL_UINT) (meta_skip name 1 4)"

definition float_step :: "string \<Rightarrow> step" where
  "float_step name = ReadStep name (meta_read name extract_Float 0 (\<lambda>x. VAL_FLOAT (Inl x))) (meta_skip name 1 4)"

definition double_step :: "string \<Rightarrow> step" where
  "double_step name = ReadStep name (meta_read name extract_Double 0 (\<lambda>x. VAL_FLOAT (Inr x))) (meta_skip name 1 8)"

definition char_step :: "string \<Rightarrow> step" where
  "char_step name = ReadStep name (meta_read name extract_to_char 0 VAL_CHAR) (meta_skip name 1 1)"

definition boolean_step :: "string \<Rightarrow> step" where
  "boolean_step name = ReadStep name (meta_read name extract_to_boolean False VAL_BOOL) (meta_skip name 1 1)"

definition EntityID_getValue_stream :: "string \<Rightarrow> ser_r \<Rightarrow> (meta_error + Value) \<times> ser_r" where
  "EntityID_getValue_stream field = seek_steps field
    [long_step ''id'',
     long_step ''creatorID'',
     SkipStep (meta_skip field 20 1),
     SkipStep (meta_skip field 20 1),
     long_step ''visualID'',
     long_step ''visualModel'',
     long_step ''visualDetail'',
     char_step ''active'',
     ulong_step ''delayedActivationTime'',
     char_step ''manned'',
     char_step ''remote'',
     char_step ''entityType'',
     char_step ''side'',
     double_step ''weight'']"

definition EntityID_skip_over :: "ser_r \<Rightarrow> (meta_error + unit) \<times> ser_r" where
  "EntityID_skip_over = drop_value (EntityID_getValue_stream [])"

definition Target_getValue_stream :: "string \<Rightarrow> ser_r \<Rightarrow> (meta_error + Value) \<times> ser_r" where
  "Target_getValue_stream field = seek_steps field
    [long_step ''entity_id'']"

definition Target_skip_over :: "ser_r \<Rightarrow> (meta_error + unit) \<times> ser_r" where
  "Target_skip_over = drop_value (Target_getValue_stream [])"

definition Position_getValue_stream :: "string \<Rightarrow> ser_r \<Rightarrow> (meta_error + Value) \<times> ser_r" where
  "Position_getValue_stream field = seek_steps field
    [double_step ''latitude'',
     double_step ''longitude'',
     float_step ''altitude'',
     float_step ''altitudeAGL'',
     float_step ''altitude_target'']"

definition Position_skip_over :: "ser_r \<Rightarrow> (meta_error + unit) \<times> ser_r" where
  "Position_skip_over = drop_value (Position_getValue_stream [])"

definition Attitude_getValue_stream :: "string \<Rightarrow> ser_r \<Rightarrow> (meta_error + Value) \<times> ser_r" where
  "Attitude_getValue_stream field = seek_steps field
    [float_step ''pitch'',
     float_step ''yaw'',
     float_step ''roll'']"

definition Attitude_skip_over :: "ser_r \<Rightarrow> (meta_error + unit) \<times> ser_r" where
  "Attitude_skip_over = drop_value (Attitude_getValue_stream [])"

definition MovementAirEntity_getValue_stream :: "string \<Rightarrow> ser_r \<Rightarrow> (meta_error + Value) \<times> ser_r" where
  "MovementAirEntity_getValue_stream field = seek_steps field
    [float_step ''speed'',
     float_step ''speed_target'',
     float_step ''geographicHeading'',
     float_step ''geographicHeading_target'',
     float_step ''magneticHeading'',
     char_step ''tmllf'',
     char_step ''onGround'',
     SkipStep (meta_skip field 32 1),
     float_step ''indicatedSpeed'',
     float_step ''indicatedSpeed_target'',
     float_step ''loadFactor'',
     float_step ''verticalSpeed'',
     float_step ''verticalSpeed_target'',
     float_step ''groundSpeed'',
     float_step ''groundSpeed_target'',
     float_step ''throttle'',
     boolean_step ''infiniteFuel'',
     float_step ''initialFuel'',
     float_step ''currentFuel'',
     float_step ''fuelConsumption'']"

definition MovementAirEntity_skip_over :: "ser_r \<Rightarrow> (meta_error + unit) \<times> ser_r" where
  "MovementAirEntity_skip_over = drop_value (MovementAirEntity_getValue_stream [])"

definition AirEntity_getValue_stream :: "string \<Rightarrow> ser_r \<Rightarrow> (meta_error + Value) \<times> ser_r" where
  "AirEntity_getValue_stream field = seek_steps field
    [long_step ''id'',
     DescendStep ''entity_attitude'' Attitude_getValue_stream Attitude_skip_over,
     DescendStep ''movement'' MovementAirEntity_getValue_stream MovementAirEntity_skip_over,
     char_step ''commsActive'',
     long_step ''formationID'',
     long_step ''posInt_inseoFormation'',
     char_step ''isAutomaticTraffic'']"

definition AirEntity_skip_over :: "ser_r \<Rightarrow> (meta_error + unit) \<times> ser_r" where
  "AirEntity_skip_over = drop_value (AirEntity_getValue_stream [])"
definition TestControl_steps :: "step list" where
  "TestControl_steps =
    [long_step ''test_id'',
     boolean_step ''start'',
     long_step ''expected_entities'',
     boolean_step ''loan'',
     long_step ''reserve1'',
     long_step ''reserve2'']"

text \<open>An appendable structure starts with its length, which is read and not used.\<close>

definition TestControl_getValue_stream :: "32 word \<Rightarrow> string \<Rightarrow> ser_r \<Rightarrow> (meta_error + Value) \<times> ser_r" where
  "TestControl_getValue_stream dheader field s =
     (case if en_xcdr_version (sr_encoding s) = XCDR_VERSION_2 then read_delimiter dheader (s, 0) else (True, s, 0) of
        (ok, s, total_size) \<Rightarrow> if \<not> ok then (Inl NoDelimiter, s) else seek_steps field TestControl_steps s)"

definition TestControl_skip_over :: "32 word \<Rightarrow> ser_r \<Rightarrow> (meta_error + unit) \<times> ser_r" where
  "TestControl_skip_over dheader = drop_value (TestControl_getValue_stream dheader [])"

subsection \<open>How far a look into the data reads\<close>

text \<open>
  \<open>yields f qs v\<close>: where enough data is left for values of the shape \<open>qs\<close>, \<open>f\<close> returns, having taken
  exactly their bytes, and if these are the image of \<open>qs\<close> it returns \<open>v\<close>; where the data is too
  short, it throws.
\<close>

definition yields :: "(ser_r \<Rightarrow> (meta_error + 'v) \<times> ser_r) \<Rightarrow> prim list \<Rightarrow> 'v \<Rightarrow> bool" where
  "yields f qs v \<longleftrightarrow> (\<forall>s. ready_r s \<longrightarrow> (let xs = image_at (sr_encoding s) (sr_pos s) qs in
     if length xs \<le> length (unread s)
     then consumed (length xs) s (snd (f s)) \<and> (\<exists>w. fst (f s) = Inr w) \<and> (take (length xs) (unread s) = xs \<longrightarrow> fst (f s) = Inr v)
     else (\<exists>e. fst (f s) = Inl e)))"

named_theorems yields_rules "how far a look into the data reads"

lemma yieldsI:
  assumes "\<And>s. ready_r s \<Longrightarrow> (let xs = image_at (sr_encoding s) (sr_pos s) qs in
     if length xs \<le> length (unread s)
     then consumed (length xs) s (snd (f s)) \<and> (\<exists>w. fst (f s) = Inr w) \<and> (take (length xs) (unread s) = xs \<longrightarrow> fst (f s) = Inr v)
     else (\<exists>e. fst (f s) = Inl e))"
  shows "yields f qs v"
  using assms unfolding yields_def by blast

lemma yieldsD:
  assumes "yields f qs v" "ready_r s"
  shows "if length (image_at (sr_encoding s) (sr_pos s) qs) \<le> length (unread s)
     then consumed (length (image_at (sr_encoding s) (sr_pos s) qs)) s (snd (f s)) \<and> (\<exists>w. fst (f s) = Inr w)
       \<and> (take (length (image_at (sr_encoding s) (sr_pos s) qs)) (unread s) = image_at (sr_encoding s) (sr_pos s) qs \<longrightarrow> fst (f s) = Inr v)
     else (\<exists>e. fst (f s) = Inl e)"
  using assms unfolding yields_def Let_def by blast

lemma yields_read:
  assumes "extracts (\<lambda>_. True) op qs (\<lambda>_. y)"
  shows "yields (meta_read name op val con) qs (con y)"
proof (rule yieldsI)
  fix s assume s: "ready_r s"
  obtain ok t x where f: "op (s, val) = (ok, t, x)" by (cases "op (s, val)")
  from extractsD[OF assms s TrueI f] f
  show "let xs = image_at (sr_encoding s) (sr_pos s) qs in
     if length xs \<le> length (unread s)
     then consumed (length xs) s (snd (meta_read name op val con s)) \<and> (\<exists>w. fst (meta_read name op val con s) = Inr w)
       \<and> (take (length xs) (unread s) = xs \<longrightarrow> fst (meta_read name op val con s) = Inr (con y))
     else (\<exists>e. fst (meta_read name op val con s) = Inl e)"
    by (auto simp: Let_def meta_read_def split: if_splits)
qed

lemma skip_ready:
  assumes s: "ready_r s" and a: "a = 1 \<or> a = 4 \<or> a = 8" and n: "0 < n"
  defines "k \<equiv> (if a = 1 then 0 else cdr_pad (stream_align (sr_encoding s) (unat a)) (sr_pos s)) + n * unat a"
  shows "if k \<le> length (unread s) then fst (skip n a s) \<and> consumed k s (snd (skip n a s)) else \<not> fst (skip n a s)"
proof (cases "a = 1")
  case True
  then show ?thesis using skip_bytes_ready[OF s, of n] by (simp add: skip_def k_def)
next
  case False
  then have a: "a = 4 \<or> a = 8" "1 < a" using a by auto
  let ?m = "en_alignment (sr_encoding s)"
  let ?p = "cdr_pad (stream_align (sr_encoding s) (unat a)) (sr_pos s)"
  have k: "k = ?p + n * unat a" using False by (simp add: k_def)
  have sk: "skip n a s = (case align_r (min a ?m) s of (ok, s) \<Rightarrow> if \<not> ok then (False, s) else skip_bytes (n * unat a) s)"
    using a(2) by (simp add: skip_def)
  have pos: "0 < n * unat a" using n a by auto
  have al: "if ?p \<le> length (unread s) then fst (align_r (min a ?m) s) \<and> consumed ?p s (snd (align_r (min a ?m) s))
      else \<not> fst (align_r (min a ?m) s)" if ne: "sr_chain s \<noteq> [] \<or> ?m = 0"
  proof (cases "?m = 0")
    case True
    then show ?thesis using s by (simp add: align_r_def stream_align_def cdr_pad_def consumed_none)
  next
    case f: False
    then have m: "?m = 4 \<or> ?m = 8" using s by (auto simp: ready_r_def encoding_ok_def)
    have "(min (4 :: 64 word) 8) = 4" "(min (8 :: 64 word) 4) = 4" by simp_all
    then have m': "min a ?m = 4 \<or> min a ?m = 8" "stream_align (sr_encoding s) (unat (min a ?m)) = stream_align (sr_encoding s) (unat a)"
      using a(1) m by (auto simp: stream_align_def)
    show ?thesis using align_r_ready[OF s _ m'(1), unfolded m'(2)] ne f by simp
  qed
  show ?thesis
  proof (cases "sr_chain s \<noteq> [] \<or> ?m = 0")
    case False
    then have "\<not> fst (align_r (min a ?m) s)" "unread s = []" by (simp_all add: align_r_def unread_def)
    then show ?thesis using pos unfolding sk k by (auto split: prod.split)
  next
    case True
    note al = al[OF True]
    obtain ok t where t: "align_r (min a ?m) s = (ok, t)" by (cases "align_r (min a ?m) s")
    show ?thesis
    proof (cases "?p \<le> length (unread s)")
      case p: True
      with al t have c: ok "consumed ?p s t" by simp_all
      then have u: "ready_r t" "unread t = drop ?p (unread s)" by (simp_all add: consumed_def)
      have "skip n a s = skip_bytes (n * unat a) t" using t c(1) by (simp add: sk)
      then show ?thesis using skip_bytes_ready[OF u(1), of "n * unat a"] u(2) p consumed_trans[OF c(2)]
        by (auto simp: k split: if_splits)
    next
      case False
      then show ?thesis using al t unfolding sk k by auto
    qed
  qed
qed

lemma yields_skip:
  assumes a: "a = 1 \<or> a = 4 \<or> a = 8" and n: "0 < n"
    and q: "prim_align q = unat a" "\<And>e. length (prim_bytes e q) = n * unat a"
  shows "yields (meta_skip name n a) [q] ()"
proof (rule yieldsI)
  fix s assume s: "ready_r s"
  then have e: "encoding_ok (sr_encoding s)" by (simp add: ready_r_def)
  have "cdr_pad (stream_align (sr_encoding s) 1) p = 0" for p
    using e by (auto simp: stream_align_def encoding_ok_def cdr_pad_def)
  then have "length (image_at (sr_encoding s) (sr_pos s) [q])
      = (if a = 1 then 0 else cdr_pad (stream_align (sr_encoding s) (unat a)) (sr_pos s)) + n * unat a"
    by (simp add: image_at_def Let_def q)
  with skip_ready[OF s a n]
  show "let xs = image_at (sr_encoding s) (sr_pos s) [q] in
     if length xs \<le> length (unread s)
     then consumed (length xs) s (snd (meta_skip name n a s)) \<and> (\<exists>w. fst (meta_skip name n a s) = Inr w)
       \<and> (take (length xs) (unread s) = xs \<longrightarrow> fst (meta_skip name n a s) = Inr ())
     else (\<exists>e. fst (meta_skip name n a s) = Inl e)"
    by (auto simp: Let_def meta_skip_def split: prod.splits if_splits)
qed

lemma yields_none: "yields (\<lambda>s. (Inr v, s)) [] v"
  by (rule yieldsI) (simp add: image_at_def consumed_none)

lemma yields_then:
  assumes "yields sk qs ()" "yields k rs v"
  shows "yields (skip_then sk k) (qs @ rs) v"
proof (rule yieldsI)
  fix s assume s: "ready_r s"
  let ?x = "image_at (sr_encoding s) (sr_pos s) qs"
  let ?y = "image_at (sr_encoding s) (sr_pos s + length ?x) rs"
  have im: "image_at (sr_encoding s) (sr_pos s) (qs @ rs) = ?x @ ?y" by (simp add: image_at_def image_append)
  obtain r t where t: "sk s = (r, t)" by (cases "sk s")
  note 1 = yieldsD[OF assms(1) s, unfolded t fst_conv snd_conv]
  show "let xs = image_at (sr_encoding s) (sr_pos s) (qs @ rs) in
     if length xs \<le> length (unread s)
     then consumed (length xs) s (snd (skip_then sk k s)) \<and> (\<exists>w. fst (skip_then sk k s) = Inr w)
       \<and> (take (length xs) (unread s) = xs \<longrightarrow> fst (skip_then sk k s) = Inr v)
     else (\<exists>e. fst (skip_then sk k s) = Inl e)"
  proof (cases "length ?x \<le> length (unread s)")
    case True
    with 1 have c: "consumed (length ?x) s t" "r = Inr ()" by (auto simp: old.unit.exhaust)
    then have u: "ready_r t" "sr_encoding t = sr_encoding s" "sr_pos t = sr_pos s + length ?x" "unread t = drop (length ?x) (unread s)"
      by (simp_all add: consumed_def)
    note 2 = yieldsD[OF assms(2) u(1), unfolded u(2-4)]
    have "take (length ?y) (drop (length ?x) (unread s)) = ?y" if "take (length ?x + length ?y) (unread s) = ?x @ ?y"
      using that True by (auto simp: take_add append_eq_append_conv)
    moreover have "consumed (length ?x + length ?y) s (snd (k t))" if "length ?x + length ?y \<le> length (unread s)"
      using 2 that consumed_trans[OF c(1)] by simp
    moreover have "skip_then sk k s = k t" using t c(2) by (simp add: skip_then_def)
    ultimately show ?thesis using 2 True unfolding im by (auto simp: Let_def split: if_splits)
  next
    case False
    with 1 obtain e where "r = Inl e" by auto
    then show ?thesis using False t unfolding im by (simp add: Let_def skip_then_def)
  qed
qed

lemma yields_drop: "yields f qs v \<Longrightarrow> yields (drop_value f) qs ()"
  by (rule yieldsI) (auto simp: Let_def drop_value_def split: prod.splits sum.splits if_splits dest!: yieldsD)


lemma yields_reads [yields_rules]:
  "is_i32 i \<Longrightarrow> yields (meta_read name extract_Long x VAL_INT) [PInt32 i] (VAL_INT i)"
  "yields (meta_read name extract_ULong u VAL_UINT) [PUInt32 w] (VAL_UINT w)"
  "yields (meta_read name extract_Float y (\<lambda>x. VAL_FLOAT (Inl x))) [PFloat f] (VAL_FLOAT (Inl f))"
  "yields (meta_read name extract_Double z (\<lambda>x. VAL_FLOAT (Inr x))) [PDouble d] (VAL_FLOAT (Inr d))"
  "yields (meta_read name extract_to_char a VAL_CHAR) [PChar c] (VAL_CHAR c)"
  "yields (meta_read name extract_to_boolean b VAL_BOOL) [PBool t] (VAL_BOOL t)"
  by (intro yields_read extracts_ops extracts_char extracts_boolean; assumption)+

lemma yields_skips [yields_rules]:
  "yields (meta_skip name 1 4) [PInt32 i] ()" "yields (meta_skip name 1 4) [PUInt32 u] ()"
  "yields (meta_skip name 1 4) [PFloat x] ()" "yields (meta_skip name 1 8) [PDouble y] ()"
  "yields (meta_skip name 1 1) [PChar c] ()" "yields (meta_skip name 1 1) [PBool b] ()"
  by (rule yields_skip; simp)+

lemma yields_skip_chars [yields_rules]: "length cs = n \<Longrightarrow> 0 < n \<Longrightarrow> yields (meta_skip name n 1) [PChars cs] ()"
  by (rule yields_skip) simp_all

lemmas step_defs = long_step_def ulong_step_def float_step_def double_step_def char_step_def boolean_step_def

subsection \<open>Data and object agree\<close>

fun accessor_name :: "accessor \<Rightarrow> string" where
  "accessor_name (Member name v) = name"
| "accessor_name (Nested name get) = name"

definition new_name :: "string \<Rightarrow> accessor list \<Rightarrow> bool" where
  "new_name name as \<longleftrightarrow> name \<noteq> [] \<and> CHR ''.'' \<notin> set name \<and> (\<forall>a \<in> set as. accessor_name a \<noteq> name)"

inductive agree :: "accessor list \<Rightarrow> step list \<Rightarrow> prim list list \<Rightarrow> bool" where
  agree_nil: "agree [] [] []"
| agree_member: "yields rd qs v \<Longrightarrow> yields sk qs () \<Longrightarrow> new_name name as \<Longrightarrow> agree as ss qss \<Longrightarrow>
    agree (Member name v # as) (ReadStep name rd sk # ss) (qs # qss)"
| agree_nested: "(\<And>f v. get f = Inr v \<Longrightarrow> \<exists>ps rs. qs = ps @ rs \<and> yields (rd f) ps v) \<Longrightarrow> yields sk qs () \<Longrightarrow>
    new_name name as \<Longrightarrow> agree as ss qss \<Longrightarrow> agree (Nested name get # as) (DescendStep name rd sk # ss) (qs # qss)"
| agree_skip: "yields sk qs () \<Longrightarrow> agree as ss qss \<Longrightarrow> agree as (SkipStep sk # ss) (qs # qss)"

lemma base_plain: "CHR ''.'' \<notin> set name \<Longrightarrow> base_of name = name"
  by (auto simp: base_of_def takeWhile_eq_all_conv)

lemma path_split:
  assumes "take (length name + 1) field = name @ ''.''" "CHR ''.'' \<notin> set name"
  shows "base_of field = name" "subfield_of field = drop (length name + 1) field"
proof -
  have f: "field = name @ CHR ''.'' # drop (length name + 1) field"
    using assms(1) append_take_drop_id[of "length name + 1" field] by simp
  have p: "\<And>c. c \<in> set name \<Longrightarrow> c \<noteq> CHR ''.''" using assms(2) by auto
  show "base_of field = name" unfolding base_of_def by (subst f) (use p in simp)
  show "subfield_of field = drop (length name + 1) field" unfolding subfield_of_def by (subst f) (use p in simp)
qed

lemma find_base:
  "agree as ss qss \<Longrightarrow> find_member T field as = Inr v \<Longrightarrow> \<exists>a \<in> set as. accessor_name a = base_of field"
proof (induction rule: agree.induct)
  case (agree_member rd qs v' sk name as ss qss)
  then show ?case by (auto simp: base_plain new_name_def split: if_splits)
next
  case (agree_nested get qs rd sk name as ss qss)
  then show ?case using path_split(1)[of name field] by (auto simp: new_name_def split: if_splits)
qed auto

lemma agree_find:
  assumes "agree as ss qss" "find_member T field as = Inr v"
  shows "\<exists>ps rs. concat qss = ps @ rs \<and> yields (seek_steps field ss) ps v"
  using assms
proof (induction rule: agree.induct)
  case (agree_member rd qs v' sk name as ss qss)
  show ?case
  proof (cases "field = name")
    case True
    then have b: "base_of field = name" "v = v'" using agree_member by (simp_all add: base_plain new_name_def)
    then have "seek_steps field (ReadStep name rd sk # ss) = rd" by (simp add: fun_eq_iff)
    then show ?thesis using agree_member(1) b(2) by auto
  next
    case False
    with agree_member obtain ps rs where p: "concat qss = ps @ rs" "yields (seek_steps field ss) ps v" by auto
    have "base_of field \<noteq> name"
      using find_base[OF agree_member(4)] agree_member(3,6) False by (auto simp: new_name_def)
    then have "seek_steps field (ReadStep name rd sk # ss) = skip_then sk (seek_steps field ss)" by auto
    then show ?thesis using yields_then[OF agree_member(2) p(2)] p(1) by (metis append.assoc concat.simps(2))
  qed
next
  case (agree_nested get qs rd sk name as ss qss)
  show ?case
  proof (cases "take (length name + 1) field = name @ ''.''")
    case True
    then have b: "base_of field = name" "subfield_of field = drop (length name + 1) field"
      using path_split agree_nested(3) by (simp_all add: new_name_def)
    have "get (subfield_of field) = Inr v" using agree_nested(6) True b(2) by simp
    from agree_nested(1)[OF this] obtain ps rs where p: "qs = ps @ rs" "yields (rd (subfield_of field)) ps v" by blast
    have "seek_steps field (DescendStep name rd sk # ss) = rd (subfield_of field)" using b(1) by auto
    then show ?thesis using p by (metis append.assoc concat.simps(2))
  next
    case False
    with agree_nested obtain ps rs where p: "concat qss = ps @ rs" "yields (seek_steps field ss) ps v" by auto
    have "base_of field \<noteq> name"
      using find_base[OF agree_nested(4)] agree_nested(3,6) False by (auto simp: new_name_def)
    then have "seek_steps field (DescendStep name rd sk # ss) = skip_then sk (seek_steps field ss)" by auto
    then show ?thesis using yields_then[OF agree_nested(2) p(2)] p(1) by (metis append.assoc concat.simps(2))
  qed
next
  case (agree_skip sk qs as ss qss)
  then obtain ps rs where p: "concat qss = ps @ rs" "yields (seek_steps field ss) ps v" by auto
  have "seek_steps field (SkipStep sk # ss) = skip_then sk (seek_steps field ss)" by auto
  then show ?case using yields_then[OF agree_skip(1) p(2)] p(1) by (metis append.assoc concat.simps(2))
qed simp

lemma agree_all: "agree as ss qss \<Longrightarrow> yields (seek_steps [] ss) (concat qss) (VAL_INT 0)"
proof (induction rule: agree.induct)
  case agree_nil
  have "seek_steps [] [] = (\<lambda>s. (Inr (VAL_INT 0), s))" by auto
  then show ?case using yields_none[of "VAL_INT 0"] by simp
next
  case (agree_member rd qs v' sk name as ss qss)
  then have "seek_steps [] (ReadStep name rd sk # ss) = skip_then sk (seek_steps [] ss)"
    by (auto simp: fun_eq_iff new_name_def base_of_def)
  then show ?case using yields_then agree_member by fastforce
next
  case (agree_nested get qs rd sk name as ss qss)
  then have "seek_steps [] (DescendStep name rd sk # ss) = skip_then sk (seek_steps [] ss)"
    by (auto simp: fun_eq_iff new_name_def base_of_def)
  then show ?case using yields_then agree_nested by fastforce
next
  case (agree_skip sk qs as ss qss)
  have "seek_steps [] (SkipStep sk # ss) = skip_then sk (seek_steps [] ss)" by auto
  then show ?case using yields_then agree_skip by fastforce
qed

text \<open>
  Where the object has an answer, the data has the same, read from a front part of it, and the
  empty name reads over all of it.
\<close>

definition looks_into :: "(string \<Rightarrow> meta_error + Value) \<Rightarrow> (string \<Rightarrow> ser_r \<Rightarrow> (meta_error + Value) \<times> ser_r) \<Rightarrow> prim list \<Rightarrow> bool" where
  "looks_into get seek qs \<longleftrightarrow> yields (seek []) qs (VAL_INT 0) \<and>
     (\<forall>field v. get field = Inr v \<longrightarrow> (\<exists>ps rs. qs = ps @ rs \<and> yields (seek field) ps v))"

lemma looks_intoI:
  assumes "\<And>field. agree as (ss field) qss"
  shows "looks_into (\<lambda>field. find_member T field as) (\<lambda>field. seek_steps field (ss field)) (concat qss)"
  using agree_find[OF assms] agree_all[OF assms] by (simp add: looks_into_def)

lemma looks_into_EntityID:
  assumes "EntityID_ok a"
  shows "looks_into (EntityID_getValue a) EntityID_getValue_stream (EntityID_prims a)"
proof -
  have "is_i32 (eid_id a)" "is_i32 (eid_creatorID a)" "is_i32 (eid_visualID a)" "is_i32 (eid_visualModel a)"
    "is_i32 (eid_visualDetail a)" "length (eid_entityName a) = 20" "length (eid_modelName a) = 20"
    using assms by (simp_all add: EntityID_ok_def)
  then show ?thesis
    unfolding EntityID_getValue_def[abs_def] EntityID_getValue_stream_def[abs_def] step_defs EntityID_prims_def
    by (intro looks_intoI) (rule agree.intros yields_rules | assumption | (simp add: new_name_def; fail))+
qed

lemma looks_into_Target: "Target_ok a \<Longrightarrow> looks_into (Target_getValue a) Target_getValue_stream (Target_prims a)"
  unfolding Target_getValue_def[abs_def] Target_getValue_stream_def[abs_def] step_defs Target_prims_def Target_ok_def
  by (intro looks_intoI) (rule agree.intros yields_rules | assumption | (simp add: new_name_def; fail))+

lemma looks_into_Position: "looks_into (Position_getValue a) Position_getValue_stream (Position_prims a)"
  unfolding Position_getValue_def[abs_def] Position_getValue_stream_def[abs_def] step_defs Position_prims_def
  by (intro looks_intoI) (rule agree.intros yields_rules | (simp add: new_name_def; fail))+

lemma looks_into_Attitude: "looks_into (Attitude_getValue a) Attitude_getValue_stream (Attitude_prims a)"
  unfolding Attitude_getValue_def[abs_def] Attitude_getValue_stream_def[abs_def] step_defs Attitude_prims_def
  by (intro looks_intoI) (rule agree.intros yields_rules | (simp add: new_name_def; fail))+

lemma looks_into_MovementAirEntity:
  assumes "MovementAirEntity_ok a"
  shows "looks_into (MovementAirEntity_getValue a) MovementAirEntity_getValue_stream (MovementAirEntity_prims a)"
proof -
  have "length (missionName a) = 32" using assms by (simp add: MovementAirEntity_ok_def)
  then show ?thesis
    unfolding MovementAirEntity_getValue_def[abs_def] MovementAirEntity_getValue_stream_def[abs_def] step_defs MovementAirEntity_prims_def
    by (intro looks_intoI) (rule agree.intros yields_rules | assumption | (simp add: new_name_def; fail))+
qed

lemma looks_into_nested:
  assumes "looks_into get seek qs"
  shows "get f = Inr v \<Longrightarrow> \<exists>ps rs. qs = ps @ rs \<and> yields (seek f) ps v" and "yields (drop_value (seek [])) qs ()"
  using assms yields_drop unfolding looks_into_def by blast+

lemma looks_into_AirEntity:
  assumes "AirEntity_ok a"
  shows "looks_into (AirEntity_getValue a) AirEntity_getValue_stream (AirEntity_prims a)"
proof -
  have "is_i32 (ent_id a)" "is_i32 (formationID a)" "is_i32 (posInt_inseoFormation a)" "MovementAirEntity_ok (movement a)"
    using assms by (simp_all add: AirEntity_ok_def)
  note n = looks_into_nested[OF looks_into_Attitude[of "entity_attitude a"]] looks_into_nested[OF looks_into_MovementAirEntity[OF this(4)]]
  show ?thesis
    unfolding AirEntity_getValue_def[abs_def] AirEntity_getValue_stream_def[abs_def] step_defs AirEntity_prims_def
      Attitude_skip_over_def MovementAirEntity_skip_over_def
    by (intro looks_intoI) (rule agree.intros yields_rules n | fact | (simp add: new_name_def; fail))+
qed

lemma looks_into_TestControl:
  assumes "TestControl_ok a"
  shows "looks_into (TestControl_getValue a) (\<lambda>field. seek_steps field TestControl_steps) (concat (TestControl_values a))"
proof -
  have "is_i32 (tc_test_id a)" "is_i32 (tc_expected_entities a)" "is_i32 (tc_reserve1 a)" "is_i32 (tc_reserve2 a)"
    using assms by (simp_all add: TestControl_ok_def)
  then show ?thesis
    unfolding TestControl_getValue_def[abs_def] TestControl_steps_def step_defs TestControl_values_def
    by (intro looks_intoI) (rule agree.intros yields_rules | assumption | (simp add: new_name_def; fail))+
qed

subsection \<open>Filters on samples\<close>

lemma looks_into_data:
  assumes "looks_into get seek qs" "ready_r s" "unread s = image_at (sr_encoding s) (sr_pos s) qs @ rest" "get field = Inr v"
  shows "\<exists>s'. seek field s = (Inr v, s')"
proof -
  obtain ps rs where p: "qs = ps @ rs" "yields (seek field) ps v"
    using looks_into_nested(1)[OF assms(1,4)] by blast
  let ?x = "image_at (sr_encoding s) (sr_pos s) ps"
  have "unread s = ?x @ image_at (sr_encoding s) (sr_pos s + length ?x) rs @ rest"
    using assms(3) by (simp add: p(1) image_at_def image_append)
  with yieldsD[OF p(2) assms(2)] have "fst (seek field s) = Inr v" by simp
  then show ?thesis by (metis prod.collapse)
qed

lemma looks_into_skip:
  assumes "looks_into get seek qs" "ready_r s"
  shows "if length (image_at (sr_encoding s) (sr_pos s) qs) \<le> length (unread s)
    then \<exists>s'. drop_value (seek []) s = (Inr (), s') \<and> consumed (length (image_at (sr_encoding s) (sr_pos s) qs)) s s'
    else \<exists>e s'. drop_value (seek []) s = (Inl e, s')"
  using yieldsD[OF looks_into_nested(2)[OF assms(1)] assms(2)] by (simp split: if_splits) (metis old.unit.exhaust prod.collapse)+

text \<open>C13: A content filter may look at the data instead of the object: where \<open>operator <<\<close> has written an
  \<open>AirEntity\<close>, for every path that names a member of a simple type, also inside the attitude and
  the movement, \<open>getValue\<close> finds in the data, in whatever blocks and on a machine of whatever byte
  order, the value it finds in the object.\<close>

theorem open_filter_agrees:
  assumes "ready_w s" "AirEntity_ok a" "AirEntity_write a s = (True, s')"
    and "ready_r r" "sr_encoding r = sw_encoding s" "sr_pos r = sw_pos s"
    and "unread r = drop (length (sw_bytes s)) (sw_bytes s') @ rest"
    and "AirEntity_getValue a field = Inr v"
  shows "\<exists>r'. AirEntity_getValue_stream field r = (Inr v, r')"
proof -
  have "wrote (image_at (sw_encoding s) (sw_pos s) (AirEntity_prims a)) s s'"
    by (rule inserts_wrote[OF inserts_AirEntity[OF assms(2)] assms(1,3)])
  then have "unread r = image_at (sr_encoding r) (sr_pos r) (AirEntity_prims a) @ rest"
    using assms(5-7) by (simp add: wrote_def)
  from looks_into_data[OF looks_into_AirEntity[OF assms(2)] assms(4) this assms(8)] show ?thesis .
qed

theorem open_filter_agrees_witness:
  "\<exists>r'. AirEntity_getValue_stream ''movement.infiniteFuel''
      (demo_ser_r demo_encoding (sw_bytes (snd (AirEntity_write demo_air_entity (demo_ser_w demo_encoding))) @ [9, 9]))
    = (Inr (VAL_BOOL (infiniteFuel (movement demo_air_entity))), r')"
proof -
  have w: "AirEntity_write demo_air_entity (demo_ser_w demo_encoding)
      = (True, snd (AirEntity_write demo_air_entity (demo_ser_w demo_encoding)))"
    using inserts_AirEntity[OF demo_air_entity_ok(1)] demo_ready(1)[OF demo_encoding_ok]
      image_AirEntity_length[OF demo_encoding_ok demo_air_entity_ok(1)]
    by (auto simp: inserts_def Let_def demo_ser_w_def room_def prod_eq_iff)
  have g: "AirEntity_getValue demo_air_entity ''movement.infiniteFuel'' = Inr (VAL_BOOL (infiniteFuel (movement demo_air_entity)))"
    by (simp add: AirEntity_getValue_def MovementAirEntity_getValue_def)
  show ?thesis
    by (rule open_filter_agrees[OF demo_ready(1)[OF demo_encoding_ok] demo_air_entity_ok(1) w
        demo_ready(2)[OF demo_encoding_ok] _ _ _ g])
      (simp_all add: demo_unread, simp_all add: demo_ser_r_def demo_ser_w_def)
qed

text \<open>C14: \<open>gen_skip_over\<close> is \<open>operator >>\<close> without the object: whatever the bytes and the blocks, it throws for
  exactly the data that \<open>operator >>\<close> refuses, and otherwise stops at the same position with the same
  data left.\<close>

theorem open_skip_like_read:
  assumes "ready_r s" "AirEntity_shape d" "AirEntity_read (s, d) = (ok, s', b)"
  shows "if ok then \<exists>t. AirEntity_skip_over s = (Inr (), t) \<and> ready_r t \<and> unread t = unread s' \<and> sr_pos t = sr_pos s'
    else \<exists>e t. AirEntity_skip_over s = (Inl e, t)"
proof -
  have a: "AirEntity_ok demo_air_entity" by (rule demo_air_entity_ok(1))
  show ?thesis
    using extractsD[OF extracts_AirEntity[OF a] assms] looks_into_skip[OF looks_into_AirEntity[OF a] assms(1)]
    unfolding AirEntity_skip_over_def by (auto simp: consumed_def split: if_splits)
qed

theorem open_skip_like_read_witness:
  "\<exists>s' b e t. AirEntity_read (demo_ser_r demo_encoding [1, 2, 3, 4, 5, 6, 7, 8], AirEntity_new) = (False, s', b)
    \<and> AirEntity_skip_over (demo_ser_r demo_encoding [1, 2, 3, 4, 5, 6, 7, 8]) = (Inl e, t)"
proof -
  let ?s = "demo_ser_r demo_encoding [1, 2, 3, 4, 5, 6, 7, 8]"
  obtain ok s' b where r: "AirEntity_read (?s, AirEntity_new) = (ok, s', b)" by (cases "AirEntity_read (?s, AirEntity_new)")
  have "sr_pos ?s = 0" "sr_encoding ?s = demo_encoding" by (simp_all add: demo_ser_r_def)
  then have "\<not> ok"
    using extractsD[OF extracts_AirEntity[OF demo_air_entity_ok(1)] demo_ready(2)[OF demo_encoding_ok] demo_air_entity_ok(2) r]
      image_AirEntity_length[OF demo_encoding_ok demo_air_entity_ok(1)] by (simp add: demo_unread split: if_splits)
  with open_skip_like_read[OF demo_ready(2)[OF demo_encoding_ok] demo_air_entity_ok(2) r] r show ?thesis by auto
qed

subsection \<open>Structures that end early\<close>

definition TestControl_getFieldNames :: "string list" where
  "TestControl_getFieldNames = [''test_id'', ''start'', ''expected_entities'', ''loan'', ''reserve1'', ''reserve2'']"

lemma seek_read:
  "base_of field = name \<Longrightarrow> seek_steps field (ReadStep name rd sk # ss) = rd"
  "base_of field \<noteq> name \<Longrightarrow> seek_steps field (ReadStep name rd sk # ss) = skip_then sk (seek_steps field ss)"
  by (simp_all add: fun_eq_iff)

lemma yields_skip_one: "yields sk [q] () \<Longrightarrow> yields k rs v \<Longrightarrow> yields (skip_then sk k) (q # rs) v"
  using yields_then[of sk "[q]"] by simp

lemma TestControl_seek:
  assumes "TestControl_ok a" "j < 6"
  shows "\<exists>v. yields (seek_steps (TestControl_getFieldNames ! j) TestControl_steps) (concat (take (Suc j) (TestControl_values a))) v"
proof -
  have i: "is_i32 (tc_test_id a)" "is_i32 (tc_expected_entities a)" "is_i32 (tc_reserve1 a)" "is_i32 (tc_reserve2 a)"
    using assms(1) by (simp_all add: TestControl_ok_def)
  have "j = 0 \<or> j = 1 \<or> j = 2 \<or> j = 3 \<or> j = 4 \<or> j = 5" using assms(2) by linarith
  then show ?thesis
    apply (elim disjE)
         apply (simp_all add: TestControl_getFieldNames_def TestControl_steps_def TestControl_values_def step_defs seek_read base_of_def
          del: One_nat_def)
         apply (rule exI, (rule yields_skip_one yields_rules i)+)+
    done
qed

lemma TestControl_longer:
  assumes "k \<le> j" "j < 6"
  shows "length (image_at e p (concat (take k (TestControl_values a)))) < length (image_at e p (concat (take (Suc j) (TestControl_values a))))"
proof -
  let ?vs = "TestControl_values a"
  have l: "length ?vs = 6" by (simp add: TestControl_values_def)
  have "take (Suc j) ?vs = take k ?vs @ take (Suc j - k) (drop k ?vs)"
    using assms(1) by (metis le_SucI le_add_diff_inverse take_add)
  also have "take (Suc j - k) (drop k ?vs) = ?vs ! k # take (j - k) (drop (Suc k) ?vs)"
    using assms l by (simp add: Cons_nth_drop_Suc[symmetric] Suc_diff_le)
  finally have t: "concat (take (Suc j) ?vs) = concat (take k ?vs) @ ?vs ! k @ concat (take (j - k) (drop (Suc k) ?vs))" by simp
  have "?vs ! k \<in> set ?vs" using assms l by simp
  from TestControl_values_image(1)[OF this] show ?thesis unfolding t by (simp add: image_at_def image_append)
qed

text \<open>C15: Where a structure of an older publisher ends early, looking at the data is not looking at the object.
  In XCDR version 2, where the data holds the delimiter and the first \<open>k\<close> members of a \<open>TestControl\<close>
  and nothing more, \<open>operator >>\<close> gives the other members their default, and \<open>getValue\<close> of that object
  answers for each of them, but \<open>getValue\<close> of the data throws: it reads the delimiter and ignores it.\<close>

theorem open_filter_ignores_delimiter:
  fixes a :: TestControl
  assumes "ready_r r" "en_xcdr_version (sr_encoding r) = XCDR_VERSION_2" "TestControl_ok a" "k \<le> j" "j < 6"
  defines "h \<equiv> \<lambda>n. image_at (sr_encoding r) (sr_pos r) [PUInt32 (of_nat n)]"
  defines "x \<equiv> image_at (sr_encoding r) (sr_pos r + length (h 0)) (concat (take k (TestControl_values a)))"
  assumes "unread r = h (length x) @ x" "length x < 2 ^ 32"
  shows "(\<exists>r'. TestControl_read u (r, d) = (True, r', first_members k a))
    \<and> (\<exists>v. TestControl_getValue (first_members k a) (TestControl_getFieldNames ! j) = Inr v)
    \<and> (\<exists>e r'. TestControl_getValue_stream u (TestControl_getFieldNames ! j) r = (Inl e, r'))"
proof -
  have hl: "length (h n) = length (h 0)" for n by (simp add: h_def image_at_def Let_def)
  have xx: "x = image_at (sr_encoding r) (sr_pos r + length (h (length x))) (concat (take k (TestControl_values a)))"
    using hl[of "length x"] by (simp add: x_def)
  have "unread r = image_at (sr_encoding r) (sr_pos r) [PUInt32 (of_nat (length x))] @
      image_at (sr_encoding r) (sr_pos r + length (image_at (sr_encoding r) (sr_pos r) [PUInt32 (of_nat (length x))]))
        (concat (take k (TestControl_values a))) @ [] @ []"
    using assms(8) xx by (simp add: h_def)
  from read_evolved[OF assms(1-3) this] assms(9) xx[unfolded h_def]
  have r: "\<exists>r'. TestControl_read u (r, d) = (True, r', first_members k a)" by auto
  have "j = 0 \<or> j = 1 \<or> j = 2 \<or> j = 3 \<or> j = 4 \<or> j = 5" using assms(5) by linarith
  then have v: "\<exists>v. TestControl_getValue (first_members k a) (TestControl_getFieldNames ! j) = Inr v"
    by (elim disjE) (simp_all add: TestControl_getFieldNames_def TestControl_getValue_def)
  obtain ok s w where ul: "extract_ULong (r, u) = (ok, s, w)" by (cases "extract_ULong (r, u)")
  have s: ok "ready_r s" "sr_encoding s = sr_encoding r" "sr_pos s = sr_pos r + length (h 0)" "unread s = x"
    using extractsD[OF extracts_ops(2)[of "of_nat (length x)"] assms(1) TrueI ul] assms(8) hl[of "length x"]
    by (auto simp: consumed_def h_def)
  obtain v' where y: "yields (seek_steps (TestControl_getFieldNames ! j) TestControl_steps) (concat (take (Suc j) (TestControl_values a))) v'"
    using TestControl_seek[OF assms(3,5)] by blast
  have "length x < length (image_at (sr_encoding s) (sr_pos s) (concat (take (Suc j) (TestControl_values a))))"
    unfolding x_def s(3,4) by (rule TestControl_longer[OF assms(4,5)])
  with yieldsD[OF y s(2)] s(5) obtain e where "fst (seek_steps (TestControl_getFieldNames ! j) TestControl_steps s) = Inl e" by auto
  moreover have "TestControl_getValue_stream u (TestControl_getFieldNames ! j) r = seek_steps (TestControl_getFieldNames ! j) TestControl_steps s"
    using ul s(1) assms(2) by (simp add: TestControl_getValue_stream_def read_delimiter_def)
  ultimately have "TestControl_getValue_stream u (TestControl_getFieldNames ! j) r = (Inl e, snd (seek_steps (TestControl_getFieldNames ! j) TestControl_steps s))"
    by (simp add: prod_eq_iff)
  with r v show ?thesis by blast
qed

theorem open_filter_ignores_delimiter_witness:
  "(\<exists>r'. TestControl_read 5 (demo_ser_r demo_encoding2 [0, 0, 0, 5, 0, 0, 0, 7, 1], TestControl_new) = (True, r', first_members 2 demo_test_control))
   \<and> (\<exists>e r'. TestControl_getValue_stream 5 ''loan'' (demo_ser_r demo_encoding2 [0, 0, 0, 5, 0, 0, 0, 7, 1]) = (Inl e, r'))"
proof -
  let ?r = "demo_ser_r demo_encoding2 [0, 0, 0, 5, 0, 0, 0, 7, 1]"
  have r: "sr_encoding ?r = demo_encoding2" "sr_pos ?r = 0" "unread ?r = [0, 0, 0, 5, 0, 0, 0, 7, 1]"
    by (simp_all add: demo_ser_r_def unread_def)
  have h: "image_at demo_encoding2 0 [PUInt32 0] = [0, 0, 0, 0]" "image_at demo_encoding2 0 [PUInt32 5] = [0, 0, 0, 5]"
    by (simp_all add: image_at_def stream_align_def demo_encoding2_fields cdr_pad_def mem_bytes_def be_bytes_4)
  have x: "image_at demo_encoding2 4 (concat (take 2 (TestControl_values demo_test_control))) = [0, 0, 0, 7, 1]"
    by (simp add: image_at_def stream_align_def demo_encoding2_fields cdr_pad_def mem_bytes_def
      TestControl_values_def demo_test_control_def Let_def be_bytes_4)
  have four: "Suc (Suc (Suc (Suc 0))) = 4" by simp
  have "TestControl_getFieldNames ! 3 = ''loan''" by (simp add: TestControl_getFieldNames_def)
  then show ?thesis
    using open_filter_ignores_delimiter[OF demo_ready(2)[OF demo_encoding2_fields(1)], of "[0, 0, 0, 5, 0, 0, 0, 7, 1]"
        demo_test_control 2 3 5 TestControl_new, unfolded r, OF demo_encoding2_fields(2) demo_test_control_ok]
    by (simp add: h x four)
qed

end
