(* ===== verification/Spec2Isabelle.thy ===== *)
theory Spec2Isabelle
  imports Stats Vendors IndraQueue IndraDomain SubRun TwoNodes InteropBack CycloneControl OpenMeta
begin

text \<open>
  The verification library of the DDS stress-test program (\<open>src/stress_test\<close>), of the three
  DDS implementations it can be built with (\<open>src/implementation\<close>), of the types they send
  (\<open>generated\<close> in \<open>src/IDLs\<close>, \<open>src/IDLs_open\<close>, \<open>src/IDLs_cyclone\<close>) and of the wrapper library \<open>src/indra_dds\<close>.

  The program. \<open>main.cpp\<close> reads the command line and a JSON configuration and adds modules to an
  executive, which calls \<open>read\<close>, \<open>write\<close> and \<open>update\<close> of each module once per cycle of at least
  10 ms until a module ends the simulation. The only module, \<open>cl_dds\<close>, runs one of two test
  patterns. The publishing test announces a test on a control topic, streams a batch of
  \<open>AirEntity\<close> samples in one cycle, waits, and sends a stop command; the subscribing test takes
  the configuration from the control topic, counts the different ids of what arrives, and
  records a verdict. Both reach DDS through the interfaces of \<open>src/stress_test/abstraction\<close>,
  which Fast DDS, OpenDDS, Cyclone DDS and RTI classes implement.

  Where each part is modelled.
  \<^item> \<open>Prelude\<close>: results that fail (\<open>res\<close>) or do not return (\<open>comp\<close>), C++ integers, loops.
    \<open>Types\<close>, \<open>IdlTypes\<close>: the classes of \<open>inse.hpp\<close> and \<open>test_control.hpp\<close>, the plain structs.
  \<^item> \<open>Dds\<close>, \<open>Writer\<close>: the middleware, parameters \<open>dds_api\<close>, \<open>writer_api\<close>, \<open>reader_api\<close>, with the
    trace of the calls and the QoS records. \<open>Lifecycle\<close>: which create and delete calls DDS
    accepts, and the locale \<open>dds_endpoint\<close>. \<open>Loopback\<close>: concrete middleware for the witnesses.
  \<^item> \<open>Interfaces\<close>: \<open>IPub\<close>, \<open>IPubControl\<close>, \<open>ISub\<close>, \<open>ISubControl\<close> as records of functions, and the
    locales \<open>ipub\<close>, \<open>ipub_loan\<close>, \<open>ipub_control\<close>, \<open>isub\<close>, \<open>isub_counting\<close> that say what the tests rely
    on; each implementation interprets those it satisfies.
  \<^item> \<open>FastEntities\<close>, \<open>FastPub\<close>, \<open>FastSub\<close>, \<open>FastControl\<close>: \<open>src/implementation/fast_dds\<close>, first
    \<open>init\<close>, destructor and QoS, then the operations. \<open>OpenEntities\<close>, \<open>OpenRuntime\<close>: \<open>open_dds\<close>.
    \<open>Cyclone\<close>: \<open>cyclone_dds\<close> and the stubs of \<open>rti_dds\<close>.
  \<^item> \<open>Stats\<close>: \<open>src/stress_test/stats\<close>. \<open>Executive\<close>: \<open>core/executive\<close>, \<open>core/module\<close>, the main loop,
    and the locale \<open>exec_client\<close> of a module. \<open>PatternBase\<close>, \<open>PubTest\<close>, \<open>SubTest\<close>: \<open>core/patterns\<close>
    and \<open>core/tests/1_1\<close>. \<open>DdsModule\<close>: \<open>core/dds_module\<close> and \<open>DDSFactory.h\<close>. \<open>MainApp\<close>: \<open>main.cpp\<close>.
    \<open>Vendors\<close>: \<open>DDSParticipantManager.h\<close> and the two vendors a build can choose.
  \<^item> \<open>IndraDomain\<close>, \<open>IndraQueue\<close>: \<open>src/indra_dds\<close>.
  \<^item> \<open>CdrSize\<close>, \<open>CdrCodec\<close>, \<open>TypeSupport\<close>: \<open>inseCdrAux\<close> and \<open>insePubSubTypes\<close>, with the templates of
    Fast CDR they instantiate; \<open>ControlCdr\<close>: the same for \<open>TestControl\<close>. \<open>FlatCdr\<close>: a concrete
    library for the witnesses.
  \<^item> \<open>OpenSerializer\<close>, \<open>OpenReader\<close>: writing and reading in \<open>Serializer.inl\<close> of OpenDDS.
    \<open>OpenTypes\<close>, \<open>OpenControl\<close>: the type supports generated for it, \<open>inseTypeSupportImpl.cpp\<close> and
    \<open>test_controlTypeSupportImpl.cpp\<close>. \<open>OpenMeta\<close>: \<open>getValue\<close> and \<open>gen_skip_over\<close> of the same files, through
    which content filters look at one member of an object or of serialized data.
  \<^item> \<open>CycloneStream\<close>: \<open>cdr_stream.hpp\<close> and \<open>entity_properties.hpp\<close> of the Cyclone C++ binding.
    \<open>CycloneTypes\<close>: \<open>src/IDLs_cyclone/generated\<close>. \<open>CycloneSample\<close>: \<open>datatopic.hpp\<close> and
    \<open>TopicTraits.hpp\<close>, which make and read samples. \<open>CycloneLaws\<close>: what the compiled part promises,
    \<open>CycloneDemo\<close>: one that keeps it.

  What the lemmas show.
  \<^item> \<open>PubRun\<close> (locale \<open>pub_node\<close>): an invariant over all runs with match callbacks at any time. It
    gives the protocol on the two topics, here for both vendors. \<open>PubLive\<close> (\<open>pub_node_up\<close>):
    when every call succeeds a run ends, after a number of cycles computed from the phases.
  \<^item> \<open>SubTest\<close>, \<open>SubRun\<close>: the books of the subscribing test, and what it measures with the Fast
    DDS subscribers: a delivered batch is a valid test, a stop cancels a start.
  \<^item> \<open>FastSub\<close>, \<open>FastControl\<close>, \<open>FastPub\<close>, \<open>OpenRuntime\<close>, \<open>Cyclone\<close>: every loop returns, what it
    counts or sends, and where an implementation breaks its interface.
  \<^item> \<open>FastEntities\<close>, \<open>OpenEntities\<close>: life cycles against the specification, QoS compatibility.
  \<^item> \<open>Stats\<close>: what each statistic means, and where it is not a number.
  \<^item> \<open>IndraDomain\<close>, \<open>IndraQueue\<close>: the slots of a domain, first in first out.
  \<^item> \<open>TypeSupport\<close>: round trips, sizes, keys. \<open>OpenSerializer\<close>, \<open>OpenReader\<close>: a chain of blocks is
    one buffer, in which each value stands after its padding (\<open>wire_image\<close>). \<open>OpenTypes\<close>,
    \<open>OpenControl\<close>: round trips, exact sizes, truncated data, older and newer publishers.
    \<open>OpenMeta\<close>: looking at the data agrees with looking at the object (\<open>looks_into\<close>), where it does.
    \<open>Interop\<close>, \<open>InteropBack\<close>: what Fast DDS writes, OpenDDS reads, and the other way round.
  \<^item> \<open>CycloneWire\<close>, \<open>CycloneVisit\<close>: walking a description carries the values of a type to their
    places in the buffer and back (\<open>does\<close>). \<open>CycloneTopic\<close>: the locale \<open>streamed_topic\<close>, all a sample
    needs of a type, and what follows for samples; \<open>CycloneAir\<close> and \<open>CycloneControl\<close> interpret it on the
    types of the two topics: round trips, keys, sizes, truncated data, and how OpenDDS reads them.
    Fast DDS and OpenDDS call the type AirEntity, Cyclone DDS cyclone_dds::AirEntity; whether
    endpoints match in spite of that is left open, the statements are about bytes.

  Bounds and loops. A loop over a reader is a \<open>partial_function\<close> and proved to return for
  every finite backlog; the main loop likewise, for a publishing run. Loops over a counter are
  recursive on it. \<open>int\<close> wraps at 32 bits (\<open>i32\<close>), \<open>size_t\<close> at 64; the bound on the number of
  tests in \<open>fast_publishing_run_ends\<close> keeps the cycle counter an \<open>int\<close>. There is no fuel.

  What is a parameter. The DDS libraries, the JSON library, the clock, the file system (does
  a log file open), the order in which a hash map is walked, uninitialised members, the
  compiled part of Fast CDR (\<open>cdr_api\<close>) and of Cyclone DDS (\<open>cyclone_lib\<close>, \<open>topic_lib\<close>). The named hypotheses on them (\<open>queue_reader\<close>, \<open>writer_works\<close>,
  \<open>cdr_transmits\<close>, \<open>members_in_order\<close>, \<open>big_endian_int32\<close>, \<open>plain_calculator\<close>, \<open>delivers\<close>,
  \<open>cdr_lays_out\<close>, \<open>cdr_delimits\<close>, \<open>cdr_reads_back\<close>, \<open>cyclone_ok\<close>, \<open>copies_key\<close>) state what their
  documentation promises, and concrete instances satisfy them. \<open>delivers\<close> adds to the QoS of the
  readers that the network loses nothing, which BEST_EFFORT leaves open. Padding that Fast CDR writes
  holds whatever the buffer held (\<open>cdr_lays_out\<close>), and the OpenDDS reader is shown to ignore it.

  Not modelled. Console output; threads (match callbacks are steps between operations, an
  operation under a mutex is one step); \<open>double\<close> rounding (\<open>Stats\<close> computes with reals). The
  classes \<open>CyclonePubControl\<close> and \<open>RtiPub\<close> and the ping-pong pattern do not compile. Of the
  OpenDDS type supports the comparators and assignments of the meta structures, the value readers
  and writers and the keys nested in other types, which the program does not use. Of Cyclone DDS strings, enumerations, optional
  members and sequences, shared memory, and a sample used by two threads at once. The type object
  code, the vendor examples and everything else under \<open>src/lib\<close> are generated or third-party code.
\<close>

subsection \<open>The publishing node\<close>

lemma new_logs:
  "FastPub_sent (FastPub_new e w) = []" "FastPubControl_commands (FastPubControl_new e w') = []"
  "OpenPub_sent (OpenPub_new e w) = []" "OpenPubControl_commands (OpenPubControl_new e w') = []"
  by (simp_all add: FastPub_sent_def FastPub_new_def FastPubControl_commands_def FastPubControl_new_def
    OpenPub_sent_def OpenPub_new_def OpenPubControl_commands_def OpenPubControl_new_def)

text \<open>
  C1: The protocol of the Fast DDS publishing test, in every state that a run can reach with
  match callbacks at any time, whatever \<open>reset\<close> held at first, whether the commands are
  accepted or not. On the control topic the tests appear one after the other, each as a
  start command with the right number of entities, followed by its stop command; a test
  that is streaming has its start command out. In normal mode the entities sent are whole
  batches, numbered from 0, one per finished test and one for the test just streamed.
\<close>

theorem fast_publishing_protocol:
  assumes "pub_test_init (FastPub_IPub eapi wa) (FastPubControl_IPubControl eapi wc)
      (pub_test_new (FastPub_IPub eapi wa) garbage config (FastPub_new e w1) (FastPubControl_new e w2)) = Inr t0"
    and "in_execution e0" "1 \<le> tcf_test_count config"
    and "is_i32 (tcf_test_count config)" "is_i32 (tcf_message_count config)"
    and "pub_reach (FastPub_IPub eapi wa) (FastPubControl_IPubControl eapi wc) clk
      fast_pub_events fast_control_events (t0, e0) pc (t, ex)"
  shows "FastPubControl_commands (pt_pub_control t) =
      test_commands (tcf_message_count config) (tcf_loan_mode config) (nat (pb_current_test t))
      @ (if pt_state t = Streaming
         then [start_msg (pb_current_test t + 1) (tcf_message_count config) (tcf_loan_mode config)] else [])
    \<and> (tcf_loan_mode config \<or> FastPub_sent (pt_pub t) = concat (replicate
         (nat (pb_current_test t) + (if pt_state t = Streaming \<and> pt_reset t then 1 else 0))
         (batch (tcf_message_count config))))
    \<and> 0 \<le> pb_current_test t \<and> pb_current_test t \<le> tcf_test_count config"
proof -
  note i = fast_node.init_inv[OF assms(1) new_logs(1,2) assms(3,5)]
  have "ctl_inv (tcf_test_count config) (if pc = AtWrite then 1 else 0) (t, ex)
      \<and> out_inv (FastPub_IPub eapi wa) FastPub_sent FastPubControl_commands
          (tcf_message_count config) (tcf_loan_mode config) (fst (t, ex))"
    by (rule fast_node.reach_inv[OF assms(6,5) i(3) assms(4)])
      (use i(1,2) assms(2) in \<open>simp_all add: fast_event_kept\<close>)
  then show ?thesis by (auto simp: out_inv_def ctl_inv_def)
qed

text \<open>A configuration, and the test after a successful \<open>init\<close>, for the witnesses.\<close>

definition demo_config :: test_config where
  "demo_config = test_config_new\<lparr>tcf_test_mode := 1, tcf_message_count := 3, tcf_test_count := 2,
     tcf_listener_number := 1\<rparr>"

lemma demo_config_fields:
  "tcf_test_count demo_config = 2" "tcf_message_count demo_config = 3" "\<not> tcf_loan_mode demo_config"
  "tcf_listener_number demo_config = 1"
  by (simp_all add: demo_config_def test_config_new_def)

definition demo_exec :: Executive where
  "demo_exec = Executive_new\<lparr>ex_currentState := EXECUTION\<rparr>"

definition demo_pub :: "(AirEntity, (unit, nat) FastPub) IPub" where
  "demo_pub = FastPub_IPub loop_dds (loop_writer AirEntity_new)"

definition demo_control :: "(unit, nat) FastPubControl IPubControl" where
  "demo_control = FastPubControl_IPubControl loop_dds (loop_writer TestControl_new)"

lemma demo_init:
  "\<exists>t. pub_test_init demo_pub demo_control
      (pub_test_new demo_pub garbage demo_config (FastPub_new 0 ()) (FastPubControl_new 0 ())) = Inr t
    \<and> p_endpoint (fp_ptrs (pt_pub t)) \<noteq> None \<and> p_endpoint (fc_ptrs (pt_pub_control t)) \<noteq> None"
  by (simp add: demo_pub_def demo_control_def demo_config_def pub_test_init_def pub_test_new_def
    set_num_messages_def start_send_def FastPub_IPub_def FastPubControl_IPubControl_def
    FastPub_set_expected_subs_def FastPub_run_init_def FastPubControl_run_init_def FastPub_new_def
    FastPubControl_new_def FastPub_init_def FastPubControl_init_def no_ptrs_def dds_create_def dds_call_def
    loop_dds_def deref_def test_config_new_def Let_def)

theorem fast_publishing_protocol_witness:
  "\<exists>t0 t ex. pub_reach demo_pub demo_control (\<lambda>n. int n) fast_pub_events fast_control_events
      (t0, demo_exec) AtWrite (t, ex)
    \<and> FastPubControl_commands (pt_pub_control t) = test_commands 3 False (nat (pb_current_test t))
      @ (if pt_state t = Streaming then [start_msg (pb_current_test t + 1) 3 False] else [])"
proof -
  obtain t0 where t0: "pub_test_init demo_pub demo_control
      (pub_test_new demo_pub False demo_config (FastPub_new 0 ()) (FastPubControl_new 0 ())) = Inr t0"
    using demo_init by blast
  have "\<not> pt_reset t0" using t0
    by (auto simp: pub_test_init_def pub_test_new_def set_num_messages_def start_send_def Let_def
      elim!: rbind_InrE split: if_splits)
  then have r: "pub_reach demo_pub demo_control (\<lambda>n. int n) fast_pub_events fast_control_events
      (t0, demo_exec) AtWrite (t0, demo_exec)"
    by (intro reach_read[OF reach_start]) (simp_all add: demo_exec_def in_execution_def pub_read_def)
  have "FastPubControl_commands (pt_pub_control t0) = test_commands 3 False (nat (pb_current_test t0))
      @ (if pt_state t0 = Streaming then [start_msg (pb_current_test t0 + 1) 3 False] else [])"
    using fast_publishing_protocol[OF t0[unfolded demo_pub_def demo_control_def] _ _ _ _
        r[unfolded demo_pub_def demo_control_def]]
    by (simp add: demo_config_fields demo_exec_def in_execution_def is_i32_def)
  with r show ?thesis by blast
qed

text \<open>C3: The same protocol for the OpenDDS publishing test.\<close>

theorem open_publishing_protocol:
  assumes "pub_test_init (OpenPub_IPub eapi wa) (OpenPubControl_IPubControl eapi wc)
      (pub_test_new (OpenPub_IPub eapi wa) garbage config
        ((OpenPub_new e w1)\<lparr>op_ptrs := set_participant_manager d no_ptrs\<rparr>)
        ((OpenPubControl_new e w2)\<lparr>oc_ptrs := set_participant_manager d no_ptrs\<rparr>)) = Inr t0"
    and "in_execution e0" "1 \<le> tcf_test_count config"
    and "is_i32 (tcf_test_count config)" "is_i32 (tcf_message_count config)"
    and "pub_reach (OpenPub_IPub eapi wa) (OpenPubControl_IPubControl eapi wc) clk
      open_pub_events open_control_events (t0, e0) pc (t, ex)"
  shows "OpenPubControl_commands (pt_pub_control t) =
      test_commands (tcf_message_count config) (tcf_loan_mode config) (nat (pb_current_test t))
      @ (if pt_state t = Streaming
         then [start_msg (pb_current_test t + 1) (tcf_message_count config) (tcf_loan_mode config)] else [])
    \<and> (tcf_loan_mode config \<or> OpenPub_sent (pt_pub t) = concat (replicate
         (nat (pb_current_test t) + (if pt_state t = Streaming \<and> pt_reset t then 1 else 0))
         (batch (tcf_message_count config))))
    \<and> 0 \<le> pb_current_test t \<and> pb_current_test t \<le> tcf_test_count config"
proof -
  have new: "OpenPub_sent ((OpenPub_new e w1)\<lparr>op_ptrs := set_participant_manager d no_ptrs\<rparr>) = []"
    "OpenPubControl_commands ((OpenPubControl_new e w2)\<lparr>oc_ptrs := set_participant_manager d no_ptrs\<rparr>) = []"
    using new_logs(3,4) by (simp_all add: OpenPub_sent_def OpenPubControl_commands_def)
  note i = open_node.init_inv[OF assms(1) new assms(3,5)]
  have "ctl_inv (tcf_test_count config) (if pc = AtWrite then 1 else 0) (t, ex)
      \<and> out_inv (OpenPub_IPub eapi wa) OpenPub_sent OpenPubControl_commands
          (tcf_message_count config) (tcf_loan_mode config) (fst (t, ex))"
    by (rule open_node.reach_inv[OF assms(6,5) i(3) assms(4)])
      (use i(1,2) assms(2) in \<open>simp_all add: open_event_kept\<close>)
  then show ?thesis by (auto simp: out_inv_def ctl_inv_def)
qed

definition demo_open_pub :: "(AirEntity, (unit, nat) OpenPub) IPub" where
  "demo_open_pub = OpenPub_IPub loop_dds (loop_writer AirEntity_new)"

definition demo_open_control :: "(unit, nat) OpenPubControl IPubControl" where
  "demo_open_control = OpenPubControl_IPubControl loop_dds (loop_writer TestControl_new)"

lemma demo_open_init:
  "\<exists>t. pub_test_init demo_open_pub demo_open_control
      (pub_test_new demo_open_pub garbage demo_config
        ((OpenPub_new 0 ())\<lparr>op_ptrs := set_participant_manager (Some 9) no_ptrs\<rparr>)
        ((OpenPubControl_new 0 ())\<lparr>oc_ptrs := set_participant_manager (Some 9) no_ptrs\<rparr>)) = Inr t
    \<and> op_air_writer (pt_pub t) \<noteq> None \<and> oc_dr (pt_pub_control t) \<noteq> None
    \<and> p_endpoint (oc_ptrs (pt_pub_control t)) \<noteq> None \<and> (pt_reset t \<longleftrightarrow> garbage)"
  by (simp add: demo_open_pub_def demo_open_control_def demo_config_def pub_test_init_def pub_test_new_def
    set_num_messages_def start_send_def OpenPub_IPub_def OpenPubControl_IPubControl_def
    OpenPub_set_expected_subs_def OpenPub_run_init_def OpenPubControl_run_init_def OpenPub_new_def
    OpenPubControl_new_def OpenPub_init_def OpenPubControl_init_def no_ptrs_def dds_create_def dds_call_def
    open_transport_def set_participant_manager_def loop_dds_def deref_def test_config_new_def Let_def)

theorem open_publishing_protocol_witness:
  "\<exists>t0 t ex. pub_reach demo_open_pub demo_open_control (\<lambda>n. int n) open_pub_events open_control_events
      (t0, demo_exec) AtWrite (t, ex)
    \<and> OpenPubControl_commands (pt_pub_control t) = test_commands 3 False (nat (pb_current_test t))
      @ (if pt_state t = Streaming then [start_msg (pb_current_test t + 1) 3 False] else [])"
proof -
  obtain t0 where t0: "pub_test_init demo_open_pub demo_open_control
      (pub_test_new demo_open_pub False demo_config
        ((OpenPub_new 0 ())\<lparr>op_ptrs := set_participant_manager (Some 9) no_ptrs\<rparr>)
        ((OpenPubControl_new 0 ())\<lparr>oc_ptrs := set_participant_manager (Some 9) no_ptrs\<rparr>)) = Inr t0"
    and "\<not> pt_reset t0"
    using demo_open_init[of False] by blast
  then have r: "pub_reach demo_open_pub demo_open_control (\<lambda>n. int n) open_pub_events open_control_events
      (t0, demo_exec) AtWrite (t0, demo_exec)"
    by (intro reach_read[OF reach_start]) (simp_all add: demo_exec_def in_execution_def pub_read_def)
  have "OpenPubControl_commands (pt_pub_control t0) = test_commands 3 False (nat (pb_current_test t0))
      @ (if pt_state t0 = Streaming then [start_msg (pb_current_test t0 + 1) 3 False] else [])"
    using open_publishing_protocol[OF t0[unfolded demo_open_pub_def demo_open_control_def] _ _ _ _
        r[unfolded demo_open_pub_def demo_open_control_def]]
    by (simp add: demo_config_fields demo_exec_def in_execution_def is_i32_def)
  with r show ?thesis by blast
qed

subsection \<open>The publishing run ends\<close>

lemma fast_init_fields:
  assumes "pub_test_init (FastPub_IPub eapi wa) (FastPubControl_IPubControl eapi wc)
      (pub_test_new (FastPub_IPub eapi wa) garbage config (FastPub_new e w1) (FastPubControl_new e w2)) = Inr t0"
  shows "fp_min_subs (pt_pub t0) = tcf_listener_number config \<and> fc_matched (pt_pub_control t0) = 0"
  using assms
  by (auto simp: pub_test_init_def pub_test_new_def set_num_messages_def start_send_def Let_def
    FastPub_IPub_def FastPubControl_IPubControl_def FastPub_run_init_def FastPubControl_run_init_def
    FastPub_set_expected_subs_def FastPub_new_def FastPubControl_new_def elim!: rbind_InrE split: if_splits)

text \<open>
  C2: A Fast DDS publishing run ends. Once both writers exist, \<open>n\<close> readers have matched the
  data writer, at least as many as are waited for, and one the control writer, and writes
  succeed, the main loop returns after exactly \<open>45 + 13 T\<close> cycles for \<open>T\<close> tests (50 cycles of
  patience, then 13 per test), each of at least 10 ms, whatever \<open>reset\<close> held at first. By then
  the start and stop commands of all tests have gone out in order and, in normal mode, \<open>T\<close>
  batches of entities. The bound on \<open>T\<close> keeps the cycle counter within an \<open>int\<close>.
\<close>

theorem fast_publishing_run_ends:
  assumes init: "pub_test_init (FastPub_IPub eapi wa) (FastPubControl_IPubControl eapi wc)
      (pub_test_new (FastPub_IPub eapi wa) garbage config (FastPub_new e w1) (FastPubControl_new e w2)) = Inr t0"
    and up: "writer_works wa" "p_endpoint (fp_ptrs (pt_pub t0)) \<noteq> None"
      "p_endpoint (fc_ptrs (pt_pub_control t0)) \<noteq> None"
    and n: "1 \<le> n" "tcf_listener_number config \<le> n"
    and T: "1 \<le> tcf_test_count config" "tcf_test_count config \<le> 2147483596"
    and m: "is_i32 (tcf_message_count config)"
    and e0: "in_execution e0"
    and d: "dd_p_pattern d = Some (PubPattern (t0\<lparr>
        pt_pub := FastPub_on_publication_matched 1 n (pt_pub t0),
        pt_pub_control := FastPubControl_on_publication_matched 1 (pt_pub_control t0)\<rparr>))"
  shows "\<exists>t' e'. main_loop clk [cl_dds_module (fast_vendor eapi wa wc ra rc e w1 w2 w3 w4) garbage rubbish opens clk] (d, e0)
        = Some (Inr (d\<lparr>dd_p_pattern := Some (PubPattern t')\<rparr>, e'))
    \<and> ex_current_cycle e' = ex_current_cycle e0 + of_nat (45 + 13 * nat (tcf_test_count config))
    \<and> ex_total_time e0 + (45 + 13 * tcf_test_count config) * cycle_min_duration \<le> ex_total_time e'
    \<and> FastPubControl_commands (pt_pub_control t') =
        test_commands (tcf_message_count config) (tcf_loan_mode config) (nat (tcf_test_count config))
    \<and> (tcf_loan_mode config \<or> FastPub_sent (pt_pub t') =
        concat (replicate (nat (tcf_test_count config)) (batch (tcf_message_count config))))"
proof -
  note f = fast_init_fields[OF init]
  let ?p = "FastPub_on_publication_matched 1 n (pt_pub t0)"
  let ?c = "FastPubControl_on_publication_matched 1 (pt_pub_control t0)"
  have k: "FastPub_sent ?p = FastPub_sent (pt_pub t0)"
    "ip_messages_per_cycle (FastPub_IPub eapi wa) ?p = ip_messages_per_cycle (FastPub_IPub eapi wa) (pt_pub t0)"
    "FastPubControl_commands ?c = FastPubControl_commands (pt_pub_control t0)"
    by (simp_all add: FastPub_on_publication_matched_def FastPubControl_on_publication_matched_def
      FastPub_sent_def FastPubControl_commands_def FastPub_IPub_def)
  have u: "fast_pub_up wa ?p" "fast_control_up ?c" using up n f
    by (simp_all add: fast_pub_up_def FastPub_on_publication_matched_def fast_control_up_def
      FastPubControl_on_publication_matched_def i32_def)
  from fast_node_up.new_run[OF init new_logs(1,2) T(2,1) m e0 k u _ _ d,
      where N = "fast_vendor eapi wa wc ra rc e w1 w2 w3 w4"]
  show ?thesis by (simp add: fast_vendor_def)
qed

lemma demo_writer_works: "writer_works (loop_writer d)"
  by (simp add: writer_works_def loop_writer_def)

theorem fast_publishing_run_ends_witness:
  "\<exists>d e' t'. main_loop (\<lambda>n. int n) [cl_dds_module (fast_vendor loop_dds (loop_writer AirEntity_new)
        (loop_writer TestControl_new) (loop_reader AirEntity_new) (loop_reader TestControl_new) 0 () () [] [])
        True CHR ''x'' (\<lambda>_. True) (\<lambda>n. int n)] (d, demo_exec)
      = Some (Inr (d\<lparr>dd_p_pattern := Some (PubPattern t')\<rparr>, e'))
    \<and> ex_current_cycle e' = 71
    \<and> FastPubControl_commands (pt_pub_control t') = test_commands 3 False 2
    \<and> FastPub_sent (pt_pub t') = batch 3 @ batch 3"
proof -
  obtain t0 where t0: "pub_test_init demo_pub demo_control
      (pub_test_new demo_pub True demo_config (FastPub_new 0 ()) (FastPubControl_new 0 ())) = Inr t0"
    and e: "p_endpoint (fp_ptrs (pt_pub t0)) \<noteq> None" "p_endpoint (fc_ptrs (pt_pub_control t0)) \<noteq> None"
    using demo_init by blast
  let ?d = "(cl_dds_new 0 [])\<lparr>dd_p_pattern := Some (PubPattern (t0\<lparr>
        pt_pub := FastPub_on_publication_matched 1 1 (pt_pub t0),
        pt_pub_control := FastPubControl_on_publication_matched 1 (pt_pub_control t0)\<rparr>))\<rparr>"
  from fast_publishing_run_ends[OF t0[unfolded demo_pub_def demo_control_def] demo_writer_works e,
      where n = 1 and d = ?d and ?e0.0 = demo_exec and ra = "loop_reader AirEntity_new" and rc = "loop_reader TestControl_new"
        and ?w3.0 = "[]" and ?w4.0 = "[]" and clk = "\<lambda>n. int n" and rubbish = "CHR ''x''" and opens = "\<lambda>_. True"]
  show ?thesis
    by (intro exI[of _ ?d]) (simp add: demo_config_fields demo_exec_def Executive_new_def in_execution_def
      is_i32_def numeral_2_eq_2, blast)
qed

subsection \<open>A publishing and a subscribing node\<close>

text \<open>What \<open>init\<close> of a new Fast DDS subscribing test leaves once both readers exist.\<close>

lemma fast_sub_init_fields:
  assumes "sub_test_init (FastSub_ISub gapi ra) (FastSubControl_ISubControl gapi rc)
      (sub_test_new (FastSub_ISub gapi ra) config (FastSub_new g w3) (FastSubControl_new g w4)) = Inr u0"
    and "p_endpoint (fs_ptrs (sb_sub u0)) \<noteq> None"
  shows "fs_capacity (sb_sub u0) = 1000 \<and> fs_reader (sb_sub u0) = w3 \<and> fsc_reader (sb_sub_control u0) = w4
    \<and> pb_max_test u0 = tcf_test_count config \<and> pb_current_test u0 = 0 \<and> sb_test_validation u0 = []
    \<and> sb_total_lost_samples u0 = 0 \<and> \<not> sb_test_active u0"
  using assms
  by (auto simp: sub_test_init_def sub_test_new_def FastSub_ISub_def FastSubControl_ISubControl_def
    FastSub_run_init_def FastSubControl_run_init_def FastSub_init_def FastSub_init_qos_def FastSub_new_def
    FastSubControl_new_def no_ptrs_def Let_def elim!: rbind_InrE split: prod.splits option.splits)

lemma count_replicate_same: "count_list (replicate n x) x = n"
  by (induction n) simp_all

text \<open>
  C5: Every test of a pair of nodes is valid. Two Fast DDS nodes, a new publisher in normal mode
  whose two topics have matched, with at most 200 entities per test and writers that accept every
  write, and a new subscriber configured for the same number \<open>T\<close> of tests, whatever else its
  configuration says, cycle in turn over a network that loses nothing and delivers in order between
  their cycles, to readers that keep what their QoS admits (\<open>delivers\<close>). After \<open>45 + 13 T\<close> rounds both
  executives have ended, and the subscriber has recorded \<open>T\<close> valid tests, a success ratio of 100 and no
  lost sample. The 200 is the limit of instances in the QoS of the data reader; the vectors of the
  subscriber have room for 1000.
\<close>

theorem two_nodes_all_valid:
  assumes init: "pub_test_init (FastPub_IPub eapi wa) (FastPubControl_IPubControl eapi wc)
      (pub_test_new (FastPub_IPub eapi wa) garbage config (FastPub_new e w1) (FastPubControl_new e w2)) = Inr t0"
    and up: "writer_works wa" "p_endpoint (fp_ptrs (pt_pub t0)) \<noteq> None"
      "p_endpoint (fc_ptrs (pt_pub_control t0)) \<noteq> None"
    and n: "1 \<le> n" "tcf_listener_number config \<le> n"
    and T: "1 \<le> tcf_test_count config" "tcf_test_count config \<le> 2147483596"
    and m: "0 \<le> tcf_message_count config" "tcf_message_count config \<le> 200" "\<not> tcf_loan_mode config"
    and e0: "in_execution e0"
    and t: "t = t0\<lparr>pt_pub := FastPub_on_publication_matched 1 n (pt_pub t0),
        pt_pub_control := FastPubControl_on_publication_matched 1 (pt_pub_control t0)\<rparr>"
    and sub: "sub_test_init (FastSub_ISub gapi ra) (FastSubControl_ISubControl gapi rc)
      (sub_test_new (FastSub_ISub gapi ra) config' (FastSub_new g w3) (FastSubControl_new g w4)) = Inr u0"
    and same: "tcf_test_count config' = tcf_test_count config" and f0: "in_execution f0"
    and rd: "queue_reader ra h q" "p_endpoint (fs_ptrs (sb_sub u0)) = Some h" "q w3 = []"
    and rc: "queue_reader rc hc qc" "p_endpoint (fsc_ptrs (sb_sub_control u0)) = Some hc" "qc w4 = []"
    and dv: "delivers (FastSub_reader_qos gapi) ent_id {0..<tcf_message_count config} da q"
      "delivers (FastSubControl_reader_qos gapi) tc_test_id {1..tcf_test_count config} dc qc"
  shows "\<exists>t' e' u' f'. joint_rounds (45 + 13 * nat (tcf_test_count config)) eapi wa wc gapi ra rc da dc opens clk
        ((t, e0), u0, f0) = Some (Inr ((t', e'), u', f'))
    \<and> \<not> in_execution e' \<and> \<not> in_execution f'
    \<and> sb_test_validation u' = replicate (nat (tcf_test_count config)) VALID
    \<and> get_percentage (sb_test_validation u') = 100 \<and> sb_total_lost_samples u' = 0"
proof -
  let ?T = "tcf_test_count config" and ?m = "tcf_message_count config"
  let ?n = "45 + 13 * nat ?T"
  have m32: "is_i32 ?m" "0 \<le> ?m" using m by (simp_all add: is_i32_def)
  note i = fast_node.init_inv[OF init new_logs(1,2) T(1) m32(1)]
  note f = fast_init_fields[OF init]
  have "fast_pub_up wa (pt_pub t)" "fast_control_up (pt_pub_control t)" using up n f
    by (simp_all add: t fast_pub_up_def FastPub_on_publication_matched_def fast_control_up_def
      FastPubControl_on_publication_matched_def i32_def)
  moreover have "ctl_inv ?T 0 (t, e0)" using i(1)[of e0] e0 by (simp add: ctl_inv_def t)
  moreover have "out_inv (FastPub_IPub eapi wa) FastPub_sent FastPubControl_commands ?m False t"
    using i(2) m(3) by (simp add: out_inv_def pre_ok_def t FastPub_on_publication_matched_def
      FastPubControl_on_publication_matched_def FastPub_sent_def FastPubControl_commands_def FastPub_IPub_def)
  moreover have "at_phase (Waiting 0) 0 t" using i(4) by (simp add: at_phase_def t)
  ultimately have "fast_node_up.live_at eapi wa ?T ?m False (phase_after 0) (t, e0)"
    by (simp add: fast_node_up.live_at_def phase_after_def)
  moreover have "sub_at ?T ?m h q hc qc (sub_tests (phase_after 0)) (fst (phase_after 0) = Ready) (u0, f0)"
    using fast_sub_init_fields[OF sub] rd rc T m same f0 by (simp add: sub_at_def phase_after_def sub_tests_def)
  ultimately have "joint_at ?T ?m eapi wa h q hc qc (phase_after 0) ((t, e0), u0, f0)" by (simp add: joint_at_def)
  from joint_run[OF rd(1) rc(1) run_delivers[OF dv m32(2) m(2)] this T(2,1) m32 order_refl, where wc = wc and gapi = gapi and opens = opens and clk = clk]
  obtain t' e' u' f' where
    r: "joint_rounds ?n eapi wa wc gapi ra rc da dc opens clk ((t, e0), u0, f0) = Some (Inr ((t', e'), u', f'))"
    and j: "joint_at ?T ?m eapi wa h q hc qc (phase_after ?n) ((t', e'), u', f')" by fastforce
  have "?n = 58 + 13 * (nat ?T - 1)" using T(1) by (simp add: diff_mult_distrib2)
  then have ph: "phase_after ?n = (Stopped 0, nat ?T)" using T(1) by (simp add: phase_after_test)
  have l: "fast_node_up.live_at eapi wa ?T ?m False (Stopped 0, nat ?T) (t', e')"
    and b: "sub_at ?T ?m h q hc qc (nat ?T) False (u', f')"
    using j unfolding ph by (simp_all add: joint_at_def sub_tests_def)
  have "\<not> in_execution e'" using live_running_fast(1)[OF l] T(1) by simp
  moreover have "get_percentage (replicate (nat ?T) VALID) = 100" using T(1)
    by (simp add: get_percentage_def count_replicate_same)
  ultimately show ?thesis using r b T(1) by (auto simp: sub_at_def)
qed

definition loop_deliver :: "'m list \<Rightarrow> ('m \<times> bool) list \<Rightarrow> ('m \<times> bool) list" where
  "loop_deliver xs w = w @ map (\<lambda>x. (x, True)) xs"

lemma demo_sub_init:
  "\<exists>u. sub_test_init (FastSub_ISub loop_dds (loop_reader AirEntity_new)) (FastSubControl_ISubControl loop_dds (loop_reader TestControl_new))
      (sub_test_new (FastSub_ISub loop_dds (loop_reader AirEntity_new)) demo_config (FastSub_new 0 []) (FastSubControl_new 0 [])) = Inr u
    \<and> (\<exists>h. p_endpoint (fs_ptrs (sb_sub u)) = Some h) \<and> (\<exists>h. p_endpoint (fsc_ptrs (sb_sub_control u)) = Some h)"
  by (simp add: sub_test_init_def sub_test_new_def FastSub_ISub_def FastSubControl_ISubControl_def
    FastSub_run_init_def FastSubControl_run_init_def FastSub_init_def FastSub_init_qos_def FastSubControl_init_def
    FastSub_new_def FastSubControl_new_def no_ptrs_def dds_create_def dds_call_def loop_dds_def deref_def Let_def)

theorem two_nodes_all_valid_witness:
  "\<exists>t u t' e' u' f'. joint_rounds 71 loop_dds (loop_writer AirEntity_new :: (AirEntity, unit) writer_api) (loop_writer TestControl_new :: (TestControl, unit) writer_api)
        loop_dds (loop_reader AirEntity_new) (loop_reader TestControl_new) loop_deliver loop_deliver (\<lambda>_. True) int
        ((t, demo_exec), u, demo_exec) = Some (Inr ((t', e'), u', f'))
    \<and> sb_test_validation u' = [VALID, VALID] \<and> sb_total_lost_samples u' = 0 \<and> \<not> in_execution f'"
proof -
  obtain t0 where t0: "pub_test_init demo_pub demo_control
      (pub_test_new demo_pub True demo_config (FastPub_new 0 ()) (FastPubControl_new 0 ())) = Inr t0"
    and e: "p_endpoint (fp_ptrs (pt_pub t0)) \<noteq> None" "p_endpoint (fc_ptrs (pt_pub_control t0)) \<noteq> None"
    using demo_init by blast
  obtain u h hc where u: "sub_test_init (FastSub_ISub loop_dds (loop_reader AirEntity_new)) (FastSubControl_ISubControl loop_dds (loop_reader TestControl_new))
      (sub_test_new (FastSub_ISub loop_dds (loop_reader AirEntity_new)) demo_config (FastSub_new 0 []) (FastSubControl_new 0 [])) = Inr u"
    and h: "p_endpoint (fs_ptrs (sb_sub u)) = Some h" "p_endpoint (fsc_ptrs (sb_sub_control u)) = Some hc"
    using demo_sub_init by blast
  have x: "in_execution demo_exec" by (simp add: demo_exec_def in_execution_def)
  have dv: "delivers qos key I loop_deliver (\<lambda>w. w)" for qos and key :: "'m \<Rightarrow> int" and I
    by (simp add: delivers_def loop_deliver_def)
  show ?thesis
    using two_nodes_all_valid[OF t0[unfolded demo_pub_def demo_control_def] demo_writer_works e _ _ _ _ _ _ _ x refl u refl x
        loop_reader_queue h(1) refl loop_reader_queue h(2) refl dv dv, where n = 1 and opens = "\<lambda>_. True" and clk = int]
    by (simp add: demo_config_fields numeral_2_eq_2) (elim exE conjE, intro exI conjI, assumption+)
qed

text \<open>What \<open>init\<close> of the OpenDDS test pattern leaves.\<close>

lemma open_init_fields:
  assumes "pub_test_init (OpenPub_IPub eapi wa) (OpenPubControl_IPubControl eapi wc)
      (pub_test_new (OpenPub_IPub eapi wa) garbage config
        ((OpenPub_new e w1)\<lparr>op_ptrs := set_participant_manager h no_ptrs\<rparr>)
        ((OpenPubControl_new e w2)\<lparr>oc_ptrs := set_participant_manager h no_ptrs\<rparr>)) = Inr t0"
  shows "op_min_subs (pt_pub t0) = tcf_listener_number config \<and> oc_min_subs (pt_pub_control t0) = 0
    \<and> oc_matched_subs (pt_pub_control t0) = 0"
  using assms
  by (auto simp: pub_test_init_def pub_test_new_def set_num_messages_def start_send_def Let_def
    OpenPub_IPub_def OpenPubControl_IPubControl_def OpenPub_run_init_def OpenPubControl_run_init_def
    OpenPub_set_expected_subs_def OpenPub_new_def OpenPubControl_new_def elim!: rbind_InrE split: if_splits)

text \<open>
  C4: An OpenDDS publishing run ends in the same way, after exactly \<open>45 + 13 T\<close> cycles with all
  commands sent, as soon as \<open>n\<close> readers have matched the data writer, at least as many as are
  waited for; no reader of the control topic is waited for. In normal mode \<open>T\<close> batches have
  been sent; in loan mode the cycles are the same.
\<close>

theorem open_publishing_run_ends:
  assumes init: "pub_test_init (OpenPub_IPub eapi wa) (OpenPubControl_IPubControl eapi wc)
      (pub_test_new (OpenPub_IPub eapi wa) garbage config
        ((OpenPub_new e w1)\<lparr>op_ptrs := set_participant_manager h no_ptrs\<rparr>)
        ((OpenPubControl_new e w2)\<lparr>oc_ptrs := set_participant_manager h no_ptrs\<rparr>)) = Inr t0"
    and up: "writer_works wa" "narrow_works eapi" "op_air_writer (pt_pub t0) \<noteq> None"
      "p_endpoint (oc_ptrs (pt_pub_control t0)) \<noteq> None" "oc_dr (pt_pub_control t0) \<noteq> None"
    and n: "tcf_listener_number config \<le> n"
    and T: "1 \<le> tcf_test_count config" "tcf_test_count config \<le> 2147483596"
    and m: "is_i32 (tcf_message_count config)"
    and e0: "in_execution e0"
    and d: "dd_p_pattern d = Some (PubPattern (t0\<lparr>
        pt_pub := OpenPub_on_publication_matched n (pt_pub t0), pt_pub_control := pt_pub_control t0\<rparr>))"
  shows "\<exists>t' e'. main_loop clk [cl_dds_module (open_vendor eapi wa wc ra rc e w1 w2 w3 w4) garbage rubbish opens clk] (d, e0)
        = Some (Inr (d\<lparr>dd_p_pattern := Some (PubPattern t')\<rparr>, e'))
    \<and> ex_current_cycle e' = ex_current_cycle e0 + of_nat (45 + 13 * nat (tcf_test_count config))
    \<and> ex_total_time e0 + (45 + 13 * tcf_test_count config) * cycle_min_duration \<le> ex_total_time e'
    \<and> OpenPubControl_commands (pt_pub_control t') =
        test_commands (tcf_message_count config) (tcf_loan_mode config) (nat (tcf_test_count config))
    \<and> (tcf_loan_mode config \<or> OpenPub_sent (pt_pub t') =
        concat (replicate (nat (tcf_test_count config)) (batch (tcf_message_count config))))"
proof -
  note f = open_init_fields[OF init]
  let ?p = "OpenPub_on_publication_matched n (pt_pub t0)" and ?c = "pt_pub_control t0"
  have k: "OpenPub_sent ?p = OpenPub_sent (pt_pub t0)"
    "ip_messages_per_cycle (OpenPub_IPub eapi wa) ?p = ip_messages_per_cycle (OpenPub_IPub eapi wa) (pt_pub t0)"
    by (simp_all add: OpenPub_on_publication_matched_def OpenPub_sent_def OpenPub_IPub_def)
  have u: "open_pub_up wa ?p" "open_control_up eapi ?c" using up n f
    by (simp_all add: open_pub_up_def OpenPub_on_publication_matched_def open_control_up_def)
  from open_node_up.new_run[OF init _ _ T(2,1) m e0 k refl u _ _ d,
      where N = "open_vendor eapi wa wc ra rc e w1 w2 w3 w4"]
  show ?thesis by (simp add: open_vendor_def OpenPub_new_def OpenPub_sent_def OpenPubControl_new_def OpenPubControl_commands_def)
qed

theorem open_publishing_run_ends_witness:
  "\<exists>d e' t'. main_loop (\<lambda>n. int n) [cl_dds_module (open_vendor loop_dds (loop_writer AirEntity_new)
        (loop_writer TestControl_new) (loop_reader AirEntity_new) (loop_reader TestControl_new) 0 () () [] [])
        True CHR ''x'' (\<lambda>_. True) (\<lambda>n. int n)] (d, demo_exec)
      = Some (Inr (d\<lparr>dd_p_pattern := Some (PubPattern t')\<rparr>, e'))
    \<and> ex_current_cycle e' = 71
    \<and> OpenPubControl_commands (pt_pub_control t') = test_commands 3 False 2
    \<and> OpenPub_sent (pt_pub t') = batch 3 @ batch 3"
proof -
  obtain t0 where t0: "pub_test_init demo_open_pub demo_open_control
      (pub_test_new demo_open_pub True demo_config
        ((OpenPub_new 0 ())\<lparr>op_ptrs := set_participant_manager (Some 9) no_ptrs\<rparr>)
        ((OpenPubControl_new 0 ())\<lparr>oc_ptrs := set_participant_manager (Some 9) no_ptrs\<rparr>)) = Inr t0"
    and e: "op_air_writer (pt_pub t0) \<noteq> None" "p_endpoint (oc_ptrs (pt_pub_control t0)) \<noteq> None"
      "oc_dr (pt_pub_control t0) \<noteq> None"
    using demo_open_init[of True] by blast
  let ?d = "(cl_dds_new 0 [])\<lparr>dd_p_pattern := Some (PubPattern (t0\<lparr>
        pt_pub := OpenPub_on_publication_matched 1 (pt_pub t0), pt_pub_control := pt_pub_control t0\<rparr>))\<rparr>"
  have n: "narrow_works loop_dds" by (simp add: narrow_works_def loop_dds_def)
  from open_publishing_run_ends[OF t0[unfolded demo_open_pub_def demo_open_control_def] demo_writer_works n e,
      where n = 1 and d = ?d and ?e0.0 = demo_exec and ra = "loop_reader AirEntity_new" and rc = "loop_reader TestControl_new"
        and ?w3.0 = "[]" and ?w4.0 = "[]" and clk = "\<lambda>n. int n" and rubbish = "CHR ''x''" and opens = "\<lambda>_. True"]
  show ?thesis
    by (intro exI[of _ ?d]) (simp add: demo_config_fields demo_exec_def Executive_new_def in_execution_def
      is_i32_def numeral_2_eq_2, blast)
qed

text \<open>
  C24: A mode no case handles never ends. With a configuration of mode 3 or above, or in the
  menu (mode 0 or below) with a digit above \<open>'2'\<close> as first character, as its lines "3) PUB
  1:MANY" and "4) SUB 1:MANY" offer, the program does not return, whatever the vendor.
\<close>

theorem unknown_mode_never_returns:
  assumes "v_create_participant V = Inr part"
    and "2 < tcf_test_mode config \<or> (tcf_test_mode config \<le> 0 \<and> read_char rubbish stdin = (ch, rest)
      \<and> is_digit ch \<and> 50 < int (of_char ch))"
  shows "run_simulation V garbage rubbish opens clk config stdin = None"
  using assms by (rule run_simulation_unknown_mode)

theorem unknown_mode_never_returns_witness:
  "run_simulation (fast_vendor loop_dds (loop_writer AirEntity_new) (loop_writer TestControl_new)
      (loop_reader AirEntity_new) (loop_reader TestControl_new) 0 () () [] []) True CHR ''x'' (\<lambda>_. True)
      (\<lambda>n. int n) test_config_new ''4'' = None"
proof -
  have v: "v_create_participant (fast_vendor loop_dds (loop_writer AirEntity_new) (loop_writer TestControl_new)
      (loop_reader AirEntity_new) (loop_reader TestControl_new) 0 () () [] []) = Inr None"
    by (simp add: fast_vendor_def FastManager_getParticipant_def participant_manager_new_def)
  have r: "read_char CHR ''x'' ''4'' = (CHR ''4'', [])" by (simp add: read_char_def is_space_def)
  show ?thesis
    by (rule unknown_mode_never_returns[OF v, where ch = "CHR ''4''" and rest = "[]"])
      (simp add: test_config_new_def r is_digit_def)
qed

end
